(* ===== verification/Prelude.thy ===== *)
theory Prelude
  imports
    Main
    "HOL-Library.Char_ord"
    "HOL-Library.List_Lexorder"
    "HOL-Library.Word"
    "HOL-Library.Sublist" "HOL-Library.Code_Target_Nat"
begin

text \<open>
  The part of the Rust language and standard library that the modelled components use.

  A Rust \<open>str\<close>, a \<open>String\<close> and a \<open>Vec<u8>\<close> are all HOL's \<^typ>\<open>string\<close>, a list of
  8-bit characters: the UTF-8 bytes of the text. Lengths and positions therefore count
  bytes, as they do in Rust. Operations that Rust defines on Unicode scalar values
  (\<open>trim\<close>, \<open>split_whitespace\<close>, \<open>from_utf8\<close>, \<open>from_utf8_lossy\<close>) are written out on the
  bytes of the UTF-8 encoding. A \<open>Result<T, E>\<close> is the sum \<open>'e + 't\<close> with the error on the
  left, a fallible index or slice that panics is \<^const>\<open>None\<close>.
  The collections below name the equations that the component proofs share.
\<close>

named_theorems str_simps \<open>unfolding equations of the modelled \<open>str\<close> operations\<close>
named_theorems res_simps \<open>equations of the result operations\<close>

type_synonym bytes = string
type_synonym u8 = "8 word"
type_synonym u16 = "16 word"
type_synonym u32 = "32 word"
type_synonym u64 = "64 word"
type_synonym i64 = "64 word"

abbreviation crlf :: string where
  "crlf \<equiv> [CHR 0x0D, CHR 0x0A]"

abbreviation crlf2 :: string where
  "crlf2 \<equiv> [CHR 0x0D, CHR 0x0A, CHR 0x0D, CHR 0x0A]"

section \<open>Results\<close>

text \<open>Rust's \<open>?\<close> operator: stop at the first error.\<close>

definition and_then :: "'e + 'a \<Rightarrow> ('a \<Rightarrow> 'e + 'b) \<Rightarrow> 'e + 'b" where
  "and_then r f = (case r of Inl e \<Rightarrow> Inl e | Inr a \<Rightarrow> f a)"

lemma and_then_Inl [simp, res_simps]: "and_then (Inl e) f = Inl e"
  by (simp add: and_then_def)

lemma and_then_Inr [simp, res_simps]: "and_then (Inr a) f = f a"
  by (simp add: and_then_def)

lemma and_then_eq_Inr [res_simps]:
  "and_then r f = Inr b \<longleftrightarrow> (\<exists>a. r = Inr a \<and> f a = Inr b)"
  by (cases r) simp_all

lemma and_then_eq_Inl [res_simps]:
  "and_then r f = Inl e \<longleftrightarrow> r = Inl e \<or> (\<exists>a. r = Inr a \<and> f a = Inl e)"
  by (cases r) simp_all

definition ok_or :: "'a option \<Rightarrow> 'e \<Rightarrow> 'e + 'a" where
  "ok_or x e = (case x of None \<Rightarrow> Inl e | Some a \<Rightarrow> Inr a)"

lemma ok_or_simps [simp, res_simps]:
  "ok_or None e = Inl e" "ok_or (Some a) e = Inr a"
  by (simp_all add: ok_or_def)

lemma ok_or_eq_Inr [res_simps]: "ok_or x e = Inr a \<longleftrightarrow> x = Some a"
  by (cases x) simp_all

lemma map_sum_Inr [res_simps]: "map_sum id f r = Inr b \<longleftrightarrow> (\<exists>a. r = Inr a \<and> b = f a)"
  by (cases r) auto

definition is_ok :: "'e + 'a \<Rightarrow> bool" where
  "is_ok r = (case r of Inl _ \<Rightarrow> False | Inr _ \<Rightarrow> True)"

lemma is_ok_simps [simp, res_simps]: "is_ok (Inr a)" "\<not> is_ok (Inl e)"
  by (simp_all add: is_ok_def)

definition unwrap_or :: "'a option \<Rightarrow> 'a \<Rightarrow> 'a" where
  "unwrap_or x d = (case x of None \<Rightarrow> d | Some a \<Rightarrow> a)"

lemma unwrap_or_simps [simp]: "unwrap_or None d = d" "unwrap_or (Some a) d = a"
  by (simp_all add: unwrap_or_def)

section \<open>ASCII classes and case\<close>

definition code :: "char \<Rightarrow> nat" where
  "code c = of_char c"

definition is_ascii_digit :: "char \<Rightarrow> bool" where
  "is_ascii_digit c \<longleftrightarrow> 48 \<le> code c \<and> code c \<le> 57"

definition is_ascii_lowercase :: "char \<Rightarrow> bool" where
  "is_ascii_lowercase c \<longleftrightarrow> 97 \<le> code c \<and> code c \<le> 122"

definition is_ascii_uppercase :: "char \<Rightarrow> bool" where
  "is_ascii_uppercase c \<longleftrightarrow> 65 \<le> code c \<and> code c \<le> 90"

definition is_ascii_hexdigit :: "char \<Rightarrow> bool" where
  "is_ascii_hexdigit c \<longleftrightarrow>
     is_ascii_digit c \<or> (97 \<le> code c \<and> code c \<le> 102) \<or> (65 \<le> code c \<and> code c \<le> 70)"

definition is_ascii_alphanumeric :: "char \<Rightarrow> bool" where
  "is_ascii_alphanumeric c \<longleftrightarrow> is_ascii_digit c \<or> is_ascii_lowercase c \<or> is_ascii_uppercase c"

definition ascii_lower :: "char \<Rightarrow> char" where
  "ascii_lower c = (if is_ascii_uppercase c then char_of (code c + 32) else c)"

definition ascii_upper :: "char \<Rightarrow> char" where
  "ascii_upper c = (if is_ascii_lowercase c then char_of (code c - 32) else c)"

definition to_ascii_lowercase :: "string \<Rightarrow> string" where
  "to_ascii_lowercase s = map ascii_lower s"

definition to_ascii_uppercase :: "string \<Rightarrow> string" where
  "to_ascii_uppercase s = map ascii_upper s"

definition eq_ignore_ascii_case :: "string \<Rightarrow> string \<Rightarrow> bool" where
  "eq_ignore_ascii_case s t \<longleftrightarrow> to_ascii_lowercase s = to_ascii_lowercase t"

lemmas ascii_defs = is_ascii_digit_def is_ascii_lowercase_def is_ascii_uppercase_def
  is_ascii_hexdigit_def is_ascii_alphanumeric_def

lemma code_char_of [simp]: "n < 256 \<Longrightarrow> code (char_of n) = n"
  by (simp add: code_def)

lemma code_inject: "code c = code d \<longleftrightarrow> c = d"
  by (simp add: code_def)

lemma code_less_256: "code c < 256"
  by (simp add: code_def)

lemma ascii_lower_idem [simp]: "ascii_lower (ascii_lower c) = ascii_lower c"
  by (simp add: ascii_lower_def is_ascii_uppercase_def)

lemma to_ascii_lowercase_idem [simp]:
  "to_ascii_lowercase (to_ascii_lowercase s) = to_ascii_lowercase s"
  by (simp add: to_ascii_lowercase_def)

lemma length_to_ascii_lowercase [simp]: "length (to_ascii_lowercase s) = length s"
  by (simp add: to_ascii_lowercase_def)

lemma to_ascii_lowercase_append [simp]:
  "to_ascii_lowercase (s @ t) = to_ascii_lowercase s @ to_ascii_lowercase t"
  by (simp add: to_ascii_lowercase_def)

lemma to_ascii_lowercase_Nil [simp]: "to_ascii_lowercase [] = []"
  by (simp add: to_ascii_lowercase_def)

lemma to_ascii_lowercase_eq_Nil [simp]: "to_ascii_lowercase s = [] \<longleftrightarrow> s = []"
  by (simp add: to_ascii_lowercase_def)

text \<open>Lower-casing leaves every character outside \<open>A..Z\<close>, hence every separator, alone.\<close>

lemma ascii_lower_sep:
  assumes "\<not> is_ascii_lowercase d" and "\<not> is_ascii_uppercase d"
  shows "ascii_lower c = d \<longleftrightarrow> c = d"
proof
  assume "ascii_lower c = d"
  with assms show "c = d"
    by (cases "is_ascii_uppercase c")
      (auto simp: ascii_lower_def is_ascii_uppercase_def is_ascii_lowercase_def)
next
  assume "c = d"
  with assms show "ascii_lower c = d" by (simp add: ascii_lower_def)
qed

section \<open>Searching and splitting\<close>

definition str_starts_with :: "string \<Rightarrow> string \<Rightarrow> bool" where
  "str_starts_with s p \<longleftrightarrow> take (length p) s = p"

definition str_ends_with :: "string \<Rightarrow> string \<Rightarrow> bool" where
  "str_ends_with s p \<longleftrightarrow> length p \<le> length s \<and> drop (length s - length p) s = p"

definition str_strip_prefix :: "string \<Rightarrow> string \<Rightarrow> string option" where
  "str_strip_prefix s p = (if str_starts_with s p then Some (drop (length p) s) else None)"

definition str_strip_suffix :: "string \<Rightarrow> string \<Rightarrow> string option" where
  "str_strip_suffix s p =
     (if str_ends_with s p then Some (take (length s - length p) s) else None)"

text \<open>
  \<open>str_find s p\<close> is the byte position of the first occurrence of \<open>p\<close> in \<open>s\<close>. It models
  \<open>str::find\<close> with a string pattern and \<open>windows(n).position(|w| w == p)\<close> on byte slices.
\<close>

fun str_find :: "string \<Rightarrow> string \<Rightarrow> nat option" where
  "str_find [] p = (if p = [] then Some 0 else None)"
| "str_find (c # s) p =
     (if str_starts_with (c # s) p then Some 0 else map_option Suc (str_find s p))"

definition str_contains :: "string \<Rightarrow> string \<Rightarrow> bool" where
  "str_contains s p \<longleftrightarrow> str_find s p \<noteq> None"

fun find_char :: "(char \<Rightarrow> bool) \<Rightarrow> string \<Rightarrow> nat option" where
  "find_char P [] = None"
| "find_char P (c # s) = (if P c then Some 0 else map_option Suc (find_char P s))"

definition str_split_once :: "string \<Rightarrow> string \<Rightarrow> (string \<times> string) option" where
  "str_split_once s p =
     (case str_find s p of
        None \<Rightarrow> None
      | Some i \<Rightarrow> Some (take i s, drop (i + length p) s))"

text \<open>\<open>rsplit_once\<close> on a single character: split at its last occurrence.\<close>

definition str_rsplit_once :: "string \<Rightarrow> char \<Rightarrow> (string \<times> string) option" where
  "str_rsplit_once s c =
     (case find_char (\<lambda>d. d = c) (rev s) of
        None \<Rightarrow> None
      | Some i \<Rightarrow> Some (take (length s - Suc i) s, drop (length s - i) s))"

text \<open>\<open>split(c)\<close> on a character: always at least one piece.\<close>

fun str_split :: "char \<Rightarrow> string \<Rightarrow> string list" where
  "str_split c [] = [[]]"
| "str_split c (d # s) =
     (if d = c then [] # str_split c s
      else (case str_split c s of
              [] \<Rightarrow> [[d]]
            | w # ws \<Rightarrow> (d # w) # ws))"

text \<open>\<open>split("\r\n")\<close>, the one multi-byte separator the sources split on.\<close>

fun str_split_crlf :: "string \<Rightarrow> string list" where
  "str_split_crlf [] = [[]]"
| "str_split_crlf [c] = [[c]]"
| "str_split_crlf (c # d # s) =
     (if c = CHR 0x0D \<and> d = CHR 0x0A then [] # str_split_crlf s
      else (case str_split_crlf (d # s) of
              [] \<Rightarrow> [[c]]
            | w # ws \<Rightarrow> (c # w) # ws))"

text \<open>
  \<open>lines\<close>: pieces of \<open>split_inclusive('\n')\<close>, each without its line feed and then without
  one carriage return before it; an unterminated last line keeps its carriage return.
\<close>

definition strip_cr :: "string \<Rightarrow> string" where
  "strip_cr s = (case str_strip_suffix s [CHR 0x0D] of None \<Rightarrow> s | Some t \<Rightarrow> t)"

fun lines_of :: "string list \<Rightarrow> string list" where
  "lines_of [] = []"
| "lines_of [w] = (if w = [] then [] else [w])"
| "lines_of (w # v # ws) = strip_cr w # lines_of (v # ws)"

definition str_lines :: "string \<Rightarrow> string list" where
  "str_lines s = lines_of (str_split (CHR 0x0A) s)"

text \<open>\<open>slice::join\<close>: the pieces with a separator between them.\<close>

fun str_join :: "string \<Rightarrow> string list \<Rightarrow> string" where
  "str_join sep [] = []"
| "str_join sep [w] = w"
| "str_join sep (w # v # ws) = w @ sep @ str_join sep (v # ws)"

section \<open>White space\<close>

text \<open>
  The number of bytes of the \<open>char::is_whitespace\<close> character a text starts with, 0 if it
  starts with another: the ASCII controls 9 to 13 and the space, U+0085 and U+00A0 (two
  bytes), U+1680, U+2000 to U+200A, U+2028, U+2029, U+202F, U+205F and U+3000 (three).
\<close>

definition ws1 :: "nat \<Rightarrow> bool" where
  "ws1 a \<longleftrightarrow> (9 \<le> a \<and> a \<le> 13) \<or> a = 32"

definition ws2 :: "nat \<Rightarrow> nat \<Rightarrow> bool" where
  "ws2 a b \<longleftrightarrow> a = 194 \<and> (b = 133 \<or> b = 160)"

definition ws3 :: "nat \<Rightarrow> nat \<Rightarrow> nat \<Rightarrow> bool" where
  "ws3 a b c \<longleftrightarrow>
     (a = 225 \<and> b = 154 \<and> c = 128) \<or>
     (a = 226 \<and> b = 128 \<and> ((128 \<le> c \<and> c \<le> 138) \<or> c = 168 \<or> c = 169 \<or> c = 175)) \<or>
     (a = 226 \<and> b = 129 \<and> c = 159) \<or>
     (a = 227 \<and> b = 128 \<and> c = 128)"

fun ws_len :: "string \<Rightarrow> nat" where
  "ws_len [] = 0"
| "ws_len [a] = (if ws1 (code a) then 1 else 0)"
| "ws_len [a, b] = (if ws1 (code a) then 1 else if ws2 (code a) (code b) then 2 else 0)"
| "ws_len (a # b # c # s) =
     (if ws1 (code a) then 1
      else if ws2 (code a) (code b) then 2
      else if ws3 (code a) (code b) (code c) then 3 else 0)"

text \<open>The same at the end of the text, whose bytes come reversed.\<close>

fun ws_len_rev :: "string \<Rightarrow> nat" where
  "ws_len_rev [] = 0"
| "ws_len_rev [a] = (if ws1 (code a) then 1 else 0)"
| "ws_len_rev [b, a] = (if ws1 (code b) then 1 else if ws2 (code a) (code b) then 2 else 0)"
| "ws_len_rev (c # b # a # s) =
     (if ws1 (code c) then 1
      else if ws2 (code b) (code c) then 2
      else if ws3 (code a) (code b) (code c) then 3 else 0)"

lemma ws_len_le: "ws_len s \<le> length s"
  by (cases s rule: ws_len.cases) auto

lemma ws_len_rev_le: "ws_len_rev s \<le> length s"
  by (cases s rule: ws_len_rev.cases) auto

function trim_start :: "string \<Rightarrow> string" where
  "trim_start s = (if ws_len s = 0 then s else trim_start (drop (ws_len s) s))"
  by pat_completeness auto
termination
proof (relation "measure length")
  fix s :: string
  assume "ws_len s \<noteq> 0"
  with ws_len_le [of s] show "(drop (ws_len s) s, s) \<in> measure length"
    by simp
qed simp

function trim_rev :: "string \<Rightarrow> string" where
  "trim_rev s = (if ws_len_rev s = 0 then s else trim_rev (drop (ws_len_rev s) s))"
  by pat_completeness auto
termination
proof (relation "measure length")
  fix s :: string
  assume "ws_len_rev s \<noteq> 0"
  with ws_len_rev_le [of s] show "(drop (ws_len_rev s) s, s) \<in> measure length"
    by simp
qed simp

declare trim_start.simps [simp del] trim_rev.simps [simp del]

definition trim_end :: "string \<Rightarrow> string" where
  "trim_end s = rev (trim_rev (rev s))"

definition str_trim :: "string \<Rightarrow> string" where
  "str_trim s = trim_end (trim_start s)"

text \<open>\<open>split_whitespace\<close>: the maximal runs of other characters.\<close>

function words_from :: "string \<Rightarrow> string \<Rightarrow> string list" where
  "words_from w [] = (if w = [] then [] else [rev w])"
| "words_from w (c # s) =
     (if ws_len (c # s) = 0 then words_from (c # w) s
      else if w = [] then words_from [] (drop (ws_len (c # s)) (c # s))
      else rev w # words_from [] (drop (ws_len (c # s)) (c # s)))"
  by pat_completeness auto
termination
  by (relation "measure (\<lambda>(w, s). length s)") (use ws_len_le in auto)

definition split_whitespace :: "string \<Rightarrow> string list" where
  "split_whitespace s = words_from [] s"

text \<open>The first white-space character, as \<open>find(char::is_whitespace)\<close>.\<close>

fun find_ws :: "string \<Rightarrow> nat option" where
  "find_ws [] = None"
| "find_ws (c # s) = (if ws_len (c # s) \<noteq> 0 then Some 0 else map_option Suc (find_ws s))"

section \<open>UTF-8\<close>

definition is_cont :: "nat \<Rightarrow> bool" where
  "is_cont b \<longleftrightarrow> 128 \<le> b \<and> b \<le> 191"

text \<open>
  One step of the standard library's UTF-8 decoder: whether the bytes start with a valid
  sequence, and how many bytes the sequence, or the maximal invalid prefix, takes.
\<close>

definition utf8_3_second :: "nat \<Rightarrow> nat \<Rightarrow> bool" where
  "utf8_3_second a b \<longleftrightarrow>
     (a = 224 \<and> 160 \<le> b \<and> b \<le> 191) \<or> (225 \<le> a \<and> a \<le> 236 \<and> is_cont b) \<or>
     (a = 237 \<and> 128 \<le> b \<and> b \<le> 159) \<or> (238 \<le> a \<and> a \<le> 239 \<and> is_cont b)"

definition utf8_4_second :: "nat \<Rightarrow> nat \<Rightarrow> bool" where
  "utf8_4_second a b \<longleftrightarrow>
     (a = 240 \<and> 144 \<le> b \<and> b \<le> 191) \<or> (241 \<le> a \<and> a \<le> 243 \<and> is_cont b) \<or>
     (a = 244 \<and> 128 \<le> b \<and> b \<le> 143)"

definition byte_at :: "string \<Rightarrow> nat \<Rightarrow> nat" where
  "byte_at s i = (if i < length s then code (s ! i) else 0)"

definition utf8_step :: "string \<Rightarrow> bool \<times> nat" where
  "utf8_step s =
     (let a = byte_at s 0; b = byte_at s 1; c = byte_at s 2; d = byte_at s 3 in
      if a < 128 then (True, 1)
      else if 194 \<le> a \<and> a \<le> 223 then (if is_cont b then (True, 2) else (False, 1))
      else if 224 \<le> a \<and> a \<le> 239 then
        (if \<not> utf8_3_second a b then (False, 1)
         else if is_cont c then (True, 3) else (False, 2))
      else if 240 \<le> a \<and> a \<le> 244 then
        (if \<not> utf8_4_second a b then (False, 1)
         else if \<not> is_cont c then (False, 2)
         else if is_cont d then (True, 4) else (False, 3))
      else (False, 1))"

lemma utf8_step_pos: "0 < snd (utf8_step s)"
  by (simp add: utf8_step_def Let_def)

definition replacement_char :: string where
  "replacement_char = [CHR 0xEF, CHR 0xBF, CHR 0xBD]"

function from_utf8_lossy :: "string \<Rightarrow> string" where
  "from_utf8_lossy s =
     (if s = [] then []
      else let n = snd (utf8_step s) in
        (if fst (utf8_step s) then take n s else replacement_char) @ from_utf8_lossy (drop n s))"
  by pat_completeness auto
termination
  by (relation "measure length") (use utf8_step_pos in auto)

declare from_utf8_lossy.simps [simp del]

text \<open>\<open>str::from_utf8\<close> succeeds iff every step is valid; the text is then the bytes.\<close>

function is_utf8 :: "string \<Rightarrow> bool" where
  "is_utf8 s =
     (if s = [] then True
      else fst (utf8_step s) \<and> is_utf8 (drop (snd (utf8_step s)) s))"
  by pat_completeness auto
termination
  by (relation "measure length") (use utf8_step_pos in auto)

declare is_utf8.simps [simp del]

definition is_ascii_str :: "string \<Rightarrow> bool" where
  "is_ascii_str s \<longleftrightarrow> list_all (\<lambda>c. code c < 128) s"

text \<open>
  Slicing a \<open>str\<close> at a byte position that is not a character boundary panics: \<^const>\<open>None\<close>.
\<close>

definition is_char_boundary :: "string \<Rightarrow> nat \<Rightarrow> bool" where
  "is_char_boundary s i \<longleftrightarrow>
     i = 0 \<or> i = length s \<or> (i < length s \<and> \<not> is_cont (code (s ! i)))"

definition str_slice_to :: "string \<Rightarrow> nat \<Rightarrow> string option" where
  "str_slice_to s i = (if is_char_boundary s i then Some (take i s) else None)"

lemma utf8_step_valid_le:
  assumes "s \<noteq> []" and "fst (utf8_step s)"
  shows "snd (utf8_step s) \<le> length s"
proof -
  have "byte_at s i \<noteq> 0 \<Longrightarrow> i < length s" for i
    by (simp add: byte_at_def split: if_splits)
  moreover have "is_cont (byte_at s i) \<Longrightarrow> byte_at s i \<noteq> 0" for i
    by (simp add: is_cont_def)
  ultimately have cont: "is_cont (byte_at s i) \<Longrightarrow> i < length s" for i
    by blast
  from assms cont [of 1] cont [of 2] cont [of 3] show ?thesis
    by (auto simp: utf8_step_def Let_def Suc_le_eq split: if_splits)
qed

lemma from_utf8_lossy_valid: "is_utf8 s \<Longrightarrow> from_utf8_lossy s = s"
proof (induction s rule: length_induct)
  case (1 s)
  show ?case
  proof (cases "s = []")
    case True
    then show ?thesis by (simp add: from_utf8_lossy.simps)
  next
    case False
    let ?n = "snd (utf8_step s)"
    from False "1.prems" have v: "fst (utf8_step s)" and rest: "is_utf8 (drop ?n s)"
      by (simp_all add: is_utf8.simps [of s])
    from False utf8_step_pos [of s] have "length (drop ?n s) < length s" by simp
    with "1.IH" rest have "from_utf8_lossy (drop ?n s) = drop ?n s" by blast
    with False v show ?thesis
      by (simp add: from_utf8_lossy.simps [of s] Let_def)
  qed
qed

lemma is_utf8_ascii: "is_ascii_str s \<Longrightarrow> is_utf8 s"
proof (induction s)
  case Nil
  then show ?case by (simp add: is_utf8.simps)
next
  case (Cons c s)
  then have "utf8_step (c # s) = (True, 1)"
    by (simp add: is_ascii_str_def utf8_step_def byte_at_def)
  with Cons show ?case
    by (simp add: is_utf8.simps [of "c # s"] is_ascii_str_def)
qed

section \<open>Numbers in text\<close>

definition digit_val :: "nat \<Rightarrow> char \<Rightarrow> nat option" where
  "digit_val radix c =
     (let v = (if is_ascii_digit c then Some (code c - 48)
               else if is_ascii_lowercase c then Some (code c - 87)
               else if is_ascii_uppercase c then Some (code c - 55)
               else None)
      in case v of None \<Rightarrow> None | Some d \<Rightarrow> if d < radix then Some d else None)"

fun digits_val :: "nat \<Rightarrow> nat \<Rightarrow> string \<Rightarrow> nat option" where
  "digits_val radix acc [] = Some acc"
| "digits_val radix acc (c # s) =
     (case digit_val radix c of
        None \<Rightarrow> None
      | Some d \<Rightarrow> digits_val radix (acc * radix + d) s)"

text \<open>
  \<open>uN::from_str_radix\<close> and, for radix 10, \<open>str::parse::<uN>\<close>: one leading plus sign is
  accepted, the rest must be a non-empty run of digits, and the value must fit the type.
\<close>

definition from_str_radix :: "nat \<Rightarrow> nat \<Rightarrow> string \<Rightarrow> nat option" where
  "from_str_radix bits radix s =
     (let t = (case s of [] \<Rightarrow> [] | c # u \<Rightarrow> if c = CHR ''+'' then u else s)
      in if t = [] then None
         else case digits_val radix 0 t of
                None \<Rightarrow> None
              | Some n \<Rightarrow> if n < 2 ^ bits then Some n else None)"

definition parse_u16 :: "string \<Rightarrow> u16 option" where
  "parse_u16 s = map_option of_nat (from_str_radix 16 10 s)"

definition parse_u32 :: "string \<Rightarrow> u32 option" where
  "parse_u32 s = map_option of_nat (from_str_radix 32 10 s)"

definition parse_u64 :: "string \<Rightarrow> u64 option" where
  "parse_u64 s = map_option of_nat (from_str_radix 64 10 s)"

definition digit_char :: "nat \<Rightarrow> char" where
  "digit_char d = char_of (if d < 10 then d + 48 else d + 87)"

text \<open>Formatting with \<open>{}\<close> (radix 10) and \<open>{:x}\<close> (radix 16).\<close>

function to_radix :: "nat \<Rightarrow> nat \<Rightarrow> string" where
  "to_radix r n =
     (if n < r \<or> r < 2 then [digit_char n] else to_radix r (n div r) @ [digit_char (n mod r)])"
  by pat_completeness auto
termination
  by (relation "measure snd") auto

declare to_radix.simps [simp del]

definition dec :: "nat \<Rightarrow> string" where
  "dec n = to_radix 10 n"

definition hex :: "nat \<Rightarrow> string" where
  "hex n = to_radix 16 n"

lemma code_digit_char: "d < 16 \<Longrightarrow> code (digit_char d) = (if d < 10 then d + 48 else d + 87)"
  by (simp add: digit_char_def)

lemma digit_val_digit_char:
  assumes "d < r" "r \<le> 16"
  shows "digit_val r (digit_char d) = Some d"
  using assms by (auto simp: digit_val_def code_digit_char ascii_defs Let_def)

lemma digits_val_append:
  "digits_val r acc (s @ t) =
     (case digits_val r acc s of None \<Rightarrow> None | Some n \<Rightarrow> digits_val r n t)"
  by (induction s arbitrary: acc) (auto split: option.splits)

lemma to_radix_not_Nil: "to_radix r n \<noteq> []"
  by (subst to_radix.simps) simp

lemma digits_val_to_radix:
  assumes "2 \<le> r" "r \<le> 16"
  shows "digits_val r 0 (to_radix r n) = Some n"
proof (induction n rule: less_induct)
  case (less n)
  show ?case
  proof (cases "n < r")
    case True
    with assms show ?thesis
      by (simp add: to_radix.simps [of r n] digit_val_digit_char)
  next
    case False
    with assms have "n div r < n" by simp
    then have "digits_val r 0 (to_radix r (n div r)) = Some (n div r)" by (rule less.IH)
    moreover from assms have "digit_val r (digit_char (n mod r)) = Some (n mod r)"
      by (simp add: digit_val_digit_char)
    ultimately show ?thesis using False assms
      by (simp add: to_radix.simps [of r n] digits_val_append)
  qed
qed

lemma to_radix_chars:
  assumes "2 \<le> r" "r \<le> 16" "c \<in> set (to_radix r n)"
  shows "is_ascii_digit c \<or> is_ascii_lowercase c"
  using assms(3)
proof (induction n rule: less_induct)
  case (less n)
  have digit: "d < r \<Longrightarrow> is_ascii_digit (digit_char d) \<or> is_ascii_lowercase (digit_char d)" for d
    using assms by (auto simp: code_digit_char ascii_defs)
  show ?case
  proof (cases "n < r")
    case True
    with less.prems digit assms show ?thesis by (simp add: to_radix.simps [of r n])
  next
    case False
    with assms have d: "n div r < n" and "n mod r < r" by simp_all
    with digit have last: "is_ascii_digit (digit_char (n mod r)) \<or> is_ascii_lowercase (digit_char (n mod r))"
      by blast
    from False assms less.prems
    have "c \<in> set (to_radix r (n div r)) \<or> c = digit_char (n mod r)"
      by (auto simp: to_radix.simps [of r n])
    with last less.IH [OF d] show ?thesis by blast
  qed
qed

lemma from_str_radix_to_radix:
  assumes "2 \<le> r" "r \<le> 16" "n < 2 ^ b"
  shows "from_str_radix b r (to_radix r n) = Some n"
proof -
  obtain c u where cu: "to_radix r n = c # u"
    using to_radix_not_Nil by (cases "to_radix r n") auto
  have "c \<noteq> CHR ''+''"
    using to_radix_chars [OF assms(1,2), of c n] cu by (auto simp: ascii_defs code_def)
  with cu assms digits_val_to_radix [OF assms(1,2), of n] show ?thesis
    by (simp add: from_str_radix_def del: digits_val.simps)
qed

lemma parse_u16_dec [simp]: "parse_u16 (dec (unat (p :: u16))) = Some p"
  using unsigned_less [of p, where 'a = nat]
  by (simp add: parse_u16_def dec_def from_str_radix_to_radix)

lemma from_str_radix_less: "from_str_radix b r s = Some n \<Longrightarrow> n < 2 ^ b"
  by (auto simp: from_str_radix_def Let_def split: option.splits if_splits)

section \<open>Facts about searching and splitting\<close>

lemma str_starts_with_append [simp]: "str_starts_with (p @ s) p"
  by (simp add: str_starts_with_def)

lemma str_starts_with_iff: "str_starts_with s p \<longleftrightarrow> (\<exists>t. s = p @ t)"
  by (metis append_eq_conv_conj str_starts_with_def)

lemma str_starts_with_prefix: "str_starts_with s p \<longleftrightarrow> prefix p s"
  by (simp add: str_starts_with_iff prefix_def)

lemma str_starts_with_Cons [str_simps, simp]:
  "str_starts_with (c # s) (d # p) \<longleftrightarrow> c = d \<and> str_starts_with s p"
  by (auto simp: str_starts_with_def)

lemma str_starts_with_Nil [str_simps, simp]:
  "str_starts_with s []" "str_starts_with [] (d # p) = False"
  by (simp_all add: str_starts_with_def)

lemma str_find_Some:
  "str_find s p = Some i \<Longrightarrow> i + length p \<le> length s \<and> take (length p) (drop i s) = p"
proof (induction s arbitrary: i)
  case Nil
  then show ?case by (simp split: if_splits)
next
  case (Cons c s)
  show ?case
  proof (cases "str_starts_with (c # s) p")
    case True
    with Cons.prems have "i = 0" by simp
    with True show ?thesis
      by (metis add_0 drop_0 length_take min.cobounded1 str_starts_with_def)
  next
    case False
    with Cons.prems obtain j where "str_find s p = Some j" and "i = Suc j" by auto
    with Cons.IH show ?thesis by fastforce
  qed
qed

lemma str_find_take_drop:
  assumes "str_find s p = Some i"
  shows "s = take i s @ p @ drop (i + length p) s"
proof -
  from str_find_Some [OF assms] have "take (length p) (drop i s) = p" by simp
  then have "drop i s = p @ drop (length p) (drop i s)"
    by (metis append_take_drop_id)
  then have "drop i s = p @ drop (i + length p) s"
    by (simp add: add.commute)
  then show ?thesis by (metis append_take_drop_id)
qed

lemma str_find_first:
  "str_find s p = Some i \<Longrightarrow> j < i \<Longrightarrow> \<not> str_starts_with (drop j s) p"
proof (induction s arbitrary: i j)
  case Nil
  then show ?case by (simp split: if_splits)
next
  case (Cons c s)
  from Cons.prems obtain k where k: "i = Suc k" "str_find s p = Some k"
    "\<not> str_starts_with (c # s) p"
    by (auto split: if_splits)
  show ?case
  proof (cases j)
    case 0
    with k show ?thesis by simp
  next
    case (Suc m)
    with k Cons.prems Cons.IH [of k m] show ?thesis by simp
  qed
qed

lemma str_find_None_iff: "str_find s p = None \<longleftrightarrow> (\<forall>j \<le> length s. \<not> str_starts_with (drop j s) p)"
proof (induction s)
  case Nil
  then show ?case by (cases p) auto
next
  case (Cons c s)
  have split: "(\<forall>j \<le> length (c # s). Q j) \<longleftrightarrow> Q 0 \<and> (\<forall>j \<le> length s. Q (Suc j))" for Q
    by (simp add: less_Suc_eq_le [symmetric] All_less_Suc2 del: less_Suc_eq_le)
  show ?case
    unfolding split using Cons by auto
qed

lemma str_find_le: "str_starts_with (drop j s) p \<Longrightarrow> j \<le> length s \<Longrightarrow> \<exists>i \<le> j. str_find s p = Some i"
  by (metis not_le_imp_less option.exhaust str_find_None_iff str_find_first)

lemma str_contains_char: "str_contains s [c] \<longleftrightarrow> c \<in> set s"
  by (induction s) (auto simp: str_contains_def)

lemma str_split_once_Some:
  "str_split_once s p = Some (a, b) \<Longrightarrow> s = a @ p @ b"
  using str_find_take_drop by (auto simp: str_split_once_def split: option.splits)

lemma find_char_Some:
  "find_char P s = Some i \<longleftrightarrow> i < length s \<and> P (s ! i) \<and> (\<forall>j < i. \<not> P (s ! j))"
proof (induction s arbitrary: i)
  case Nil
  then show ?case by simp
next
  case (Cons c s)
  show ?case
    by (cases i) (use Cons in \<open>auto simp: less_Suc_eq_0_disj\<close>)
qed

lemma str_split_not_Nil [simp]: "str_split c s \<noteq> []"
  by (cases s) (auto split: list.splits)

lemma str_join_split: "str_join [c] (str_split c s) = s"
proof (induction s)
  case Nil
  then show ?case by simp
next
  case (Cons d s)
  obtain w ws where ws: "str_split c s = w # ws"
    by (cases "str_split c s") auto
  with Cons show ?case by (cases ws) auto
qed

lemma str_split_no_sep: "w \<in> set (str_split c s) \<Longrightarrow> c \<notin> set w"
proof (induction s arbitrary: w)
  case Nil
  then show ?case by simp
next
  case (Cons d s)
  obtain v vs where "str_split c s = v # vs"
    by (cases "str_split c s") auto
  with Cons show ?case by (auto split: if_splits)
qed

lemma str_split_append: "c \<notin> set w \<Longrightarrow> str_split c (w @ c # s) = w # str_split c s"
  by (induction w) auto

lemma str_split_single: "c \<notin> set w \<Longrightarrow> str_split c w = [w]"
  by (induction w) auto

lemma str_split_join:
  "ws \<noteq> [] \<Longrightarrow> (\<forall>w \<in> set ws. c \<notin> set w) \<Longrightarrow> str_split c (str_join [c] ws) = ws"
  by (induction ws rule: induct_list012) (auto simp: str_split_append str_split_single)

lemma str_split_crlf_not_Nil [simp]: "str_split_crlf s \<noteq> []"
  by (cases s rule: str_split_crlf.cases) (auto split: list.splits)

lemma str_join_split_crlf: "str_join crlf (str_split_crlf s) = s"
proof (induction s rule: str_split_crlf.induct)
  case (3 c d s)
  show ?case
  proof (cases "c = CHR 0x0D \<and> d = CHR 0x0A")
    case True
    obtain w ws where "str_split_crlf s = w # ws" by (cases "str_split_crlf s") auto
    with True "3.IH"(1) show ?thesis by simp
  next
    case False
    obtain w ws where ws: "str_split_crlf (d # s) = w # ws"
      by (cases "str_split_crlf (d # s)") auto
    with False "3.IH"(2) show ?thesis by (cases ws) auto
  qed
qed simp_all

section \<open>Maps of the standard library\<close>

text \<open>
  A \<open>HashMap\<close> is an association list with distinct keys; the order of the list is the
  order in which iterating over the map visits it, which Rust leaves open, so a theorem
  that holds for every such list holds for every iteration order. A \<open>BTreeMap\<close> is the
  association list sorted by key. Both are built by inserting, and the interface
  \<open>std_map\<close> states what every client relies on: a lookup after an insertion.
\<close>

type_synonym ('k, 'v) hash_map = "('k \<times> 'v) list"
type_synonym ('k, 'v) btree_map = "('k \<times> 'v) list"

fun hm_insert :: "'k \<Rightarrow> 'v \<Rightarrow> ('k, 'v) hash_map \<Rightarrow> ('k, 'v) hash_map" where
  "hm_insert k v [] = [(k, v)]"
| "hm_insert k v (e # m) = (if fst e = k then (k, v) # m else e # hm_insert k v m)"

definition hm_remove :: "'k \<Rightarrow> ('k, 'v) hash_map \<Rightarrow> ('k, 'v) hash_map" where
  "hm_remove k m = filter (\<lambda>e. fst e \<noteq> k) m"

definition hm_ok :: "('k, 'v) hash_map \<Rightarrow> bool" where
  "hm_ok m \<longleftrightarrow> distinct (map fst m)"

fun bt_insert :: "'k :: linorder \<Rightarrow> 'v \<Rightarrow> ('k, 'v) btree_map \<Rightarrow> ('k, 'v) btree_map" where
  "bt_insert k v [] = [(k, v)]"
| "bt_insert k v (e # m) =
     (if k < fst e then (k, v) # e # m
      else if k = fst e then (k, v) # m
      else e # bt_insert k v m)"

definition bt_ok :: "('k :: linorder, 'v) btree_map \<Rightarrow> bool" where
  "bt_ok m \<longleftrightarrow> sorted_wrt (<) (map fst m)"

lemma map_of_rev_distinct: "distinct (map fst es) \<Longrightarrow> map_of (rev es) = map_of es"
  by (simp add: map_of_inject_set flip: rev_map)

locale std_map =
  fixes insert :: "'k \<Rightarrow> 'v \<Rightarrow> 'm \<Rightarrow> 'm"
    and get :: "'m \<Rightarrow> 'k \<Rightarrow> 'v option"
    and empty :: 'm
    and ok :: "'m \<Rightarrow> bool"
  assumes ok_empty: "ok empty"
    and get_empty: "get empty k = None"
    and ok_insert: "ok m \<Longrightarrow> ok (insert k v m)"
    and get_insert: "ok m \<Longrightarrow> get (insert k v m) = (get m)(k \<mapsto> v)"
begin

text \<open>\<open>collect\<close> (\<open>FromIterator\<close>) inserts the entries one after the other.\<close>

lemma ok_fold: "ok m \<Longrightarrow> ok (fold (\<lambda>(k, v). insert k v) es m)"
  by (induction es arbitrary: m) (auto simp: ok_insert)

lemma get_fold:
  "ok m \<Longrightarrow> get (fold (\<lambda>(k, v). insert k v) es m) = get m ++ map_of (rev es)"
proof (induction es arbitrary: m)
  case Nil
  then show ?case by simp
next
  case (Cons e es)
  obtain k v where e: "e = (k, v)" by (cases e)
  from Cons have "get (fold (\<lambda>(k, v). insert k v) es (insert k v m)) =
      (get m)(k \<mapsto> v) ++ map_of (rev es)"
    by (simp add: ok_insert get_insert fun_upd_def)
  with e show ?case by (simp add: map_add_assoc [symmetric])
qed

lemma ok_collect: "ok (fold (\<lambda>(k, v). insert k v) es empty)"
  by (rule ok_fold) (rule ok_empty)

lemma get_collect: "get (fold (\<lambda>(k, v). insert k v) es empty) = map_of (rev es)"
  by (simp add: get_fold ok_empty get_empty fun_eq_iff map_add_def split: option.split)

lemma get_collect_distinct:
  "distinct (map fst es) \<Longrightarrow> get (fold (\<lambda>(k, v). insert k v) es empty) = map_of es"
  by (simp add: get_collect map_of_rev_distinct)

end

lemma map_of_hm_insert: "map_of (hm_insert k v m) = (map_of m)(k \<mapsto> v)"
  by (induction m) (auto simp: fun_eq_iff)

lemma keys_hm_insert: "fst ` set (hm_insert k v m) = insert k (fst ` set m)"
  by (induction m) auto

lemma hm_ok_insert: "hm_ok m \<Longrightarrow> hm_ok (hm_insert k v m)"
  by (induction m) (auto simp: hm_ok_def keys_hm_insert simp flip: image_set)

lemma hm_ok_remove: "hm_ok m \<Longrightarrow> hm_ok (hm_remove k m)"
  by (simp add: hm_ok_def hm_remove_def distinct_map_filter)

lemma map_of_hm_remove: "map_of (hm_remove k m) = (map_of m)(k := None)"
  by (induction m) (auto simp: hm_remove_def fun_eq_iff)

interpretation hm: std_map hm_insert map_of "[]" hm_ok
  by unfold_locales (simp_all add: hm_ok_insert map_of_hm_insert, simp add: hm_ok_def)

lemma map_of_not_key: "(\<forall>x \<in> fst ` set m. k < x) \<Longrightarrow> map_of m (k :: 'k :: linorder) = None"
  by (force simp: map_of_eq_None_iff)

lemma keys_bt_insert: "fst ` set (bt_insert k v m) = insert k (fst ` set m)"
  by (induction m) auto

lemma bt_ok_insert: "bt_ok m \<Longrightarrow> bt_ok (bt_insert k v m)"
  by (induction m) (auto simp: bt_ok_def keys_bt_insert simp flip: image_set)

lemma map_of_bt_insert: "map_of (bt_insert k v m) = (map_of m)(k \<mapsto> v)"
  by (induction m) (auto simp: fun_eq_iff)

interpretation bt: std_map bt_insert map_of "[]" bt_ok
  by unfold_locales (simp_all add: bt_ok_insert map_of_bt_insert, simp add: bt_ok_def)

definition hm_collect :: "('k \<times> 'v) list \<Rightarrow> ('k, 'v) hash_map" where
  "hm_collect es = fold (\<lambda>(k, v). hm_insert k v) es []"

definition bt_collect :: "('k :: linorder \<times> 'v) list \<Rightarrow> ('k, 'v) btree_map" where
  "bt_collect es = fold (\<lambda>(k, v). bt_insert k v) es []"

lemma hm_ok_collect [simp]: "hm_ok (hm_collect es)"
  by (simp add: hm_collect_def hm.ok_collect)

lemma bt_ok_collect [simp]: "bt_ok (bt_collect es)"
  by (simp add: bt_collect_def bt.ok_collect)

lemma map_of_hm_collect: "map_of (hm_collect es) = map_of (rev es)"
  by (simp add: hm_collect_def hm.get_collect)

lemma map_of_bt_collect: "map_of (bt_collect es) = map_of (rev es)"
  by (simp add: bt_collect_def bt.get_collect)

text \<open>A sorted association list is determined by its lookups.\<close>

lemma bt_ok_distinct: "bt_ok m \<Longrightarrow> distinct (map fst m)"
  by (simp add: bt_ok_def strict_sorted_iff)

lemma alist_of_map_of:
  "distinct (map fst m) \<Longrightarrow> map (\<lambda>k. (k, the (map_of m k))) (map fst m) = m"
  by (induction m) (auto simp: image_iff intro!: map_idI)

lemma bt_ext:
  assumes "bt_ok m" "bt_ok n" "map_of m = map_of n"
  shows "m = n"
proof -
  have "set (map fst m) = set (map fst n)"
    using assms(3) by (metis dom_map_of_conv_image_fst list.set_map)
  then have "map fst m = map fst n"
    using assms(1,2) by (simp add: bt_ok_def strict_sorted_equal)
  then show ?thesis
    using assms alist_of_map_of [of m] alist_of_map_of [of n] by (simp add: bt_ok_distinct)
qed

lemma hm_insert_fresh: "k \<notin> fst ` set m \<Longrightarrow> hm_insert k v m = m @ [(k, v)]"
  by (induction m) auto

lemma hm_collect_distinct: "distinct (map fst es) \<Longrightarrow> hm_collect es = es"
proof -
  have "distinct (map fst (m @ es)) \<Longrightarrow> fold (\<lambda>(k, v). hm_insert k v) es m = m @ es" for m
  proof (induction es arbitrary: m)
    case Nil
    then show ?case by simp
  next
    case (Cons e es)
    then show ?case by (cases e) (auto simp: hm_insert_fresh)
  qed
  from this [of "[]"] show "distinct (map fst es) \<Longrightarrow> hm_collect es = es"
    by (simp add: hm_collect_def)
qed

lemma bt_collect_sorted: "bt_ok es \<Longrightarrow> bt_collect es = es"
  by (rule bt_ext) (simp_all add: map_of_bt_collect map_of_rev_distinct bt_ok_distinct)

text \<open>Transforming the values of a map entry by entry commutes with building it.\<close>

definition map_entries :: "('k \<Rightarrow> 'a \<Rightarrow> 'b) \<Rightarrow> ('k \<times> 'a) list \<Rightarrow> ('k \<times> 'b) list" where
  "map_entries f m = map (\<lambda>(k, v). (k, f k v)) m"

lemma keys_map_entries [simp]: "map fst (map_entries f m) = map fst m"
  by (simp add: map_entries_def case_prod_unfold comp_def)

lemma map_of_map_entries: "map_of (map_entries f m) k = map_option (f k) (map_of m k)"
  by (induction m) (auto simp: map_entries_def)

lemma map_entries_comp: "map_entries f (map_entries g m) = map_entries (\<lambda>k v. f k (g k v)) m"
  by (simp add: map_entries_def comp_def case_prod_unfold)

lemma bt_ok_map_entries [simp]: "bt_ok (map_entries f m) \<longleftrightarrow> bt_ok m"
  by (simp add: bt_ok_def)

lemma hm_ok_map_entries [simp]: "hm_ok (map_entries f m) \<longleftrightarrow> hm_ok m"
  by (simp add: hm_ok_def)

lemma map_of_rev_map_entries: "map_of (rev (map_entries f m)) k = map_option (f k) (map_of (rev m) k)"
  by (metis map_entries_def map_of_map_entries rev_map)

lemma bt_collect_map_entries: "bt_collect (map_entries f m) = map_entries f (bt_collect m)"
  by (rule bt_ext)
    (simp_all add: fun_eq_iff map_of_bt_collect map_of_rev_map_entries map_of_map_entries)

lemma hm_collect_sorted: "bt_ok m \<Longrightarrow> hm_collect m = m"
  by (simp add: hm_collect_distinct bt_ok_distinct)

lemma map_of_bt_collect_ok: "hm_ok m \<Longrightarrow> map_of (bt_collect m) = map_of m"
  by (simp add: map_of_bt_collect map_of_rev_distinct hm_ok_def)

lemma list_cases3 [case_names Nil One Many]:
  obtains "xs = []" | x where "xs = [x]" | x y zs where "xs = x # y # zs"
  by (cases xs; cases "tl xs") auto

end
