(* ===== verification/Policy.thy ===== *)
theory Policy
  imports Prelude
begin

text \<open>
  The sandbox policy crate, \<open>crates/openshell-policy/src/lib.rs\<close>, and the protobuf messages
  of \<open>proto/sandbox.proto\<close> it converts to and from: the YAML view and the wire view of a
  policy, the conversions between them, the restrictive default, the process identity
  defaults, the safety validation and the lexical path normalisation.
  The YAML text itself is read and written by \<open>serde_yaml\<close>, which is a parameter here
  (\<open>from_yaml\<close>, \<open>to_yaml\<close>).
\<close>

section \<open>Wire types\<close>

record l7_allow =
  la_method :: string
  la_path :: string
  la_command :: string

record l7_rule =
  lr_allow :: "l7_allow option"

record network_binary =
  nb_path :: string
  nb_harness :: bool

record network_endpoint =
  ep_host :: string
  ep_port :: u32
  ep_protocol :: string
  ep_tls :: string
  ep_enforcement :: string
  ep_access :: string
  ep_rules :: "l7_rule list"
  ep_allowed_ips :: "string list"
  ep_ports :: "u32 list"

record network_policy_rule =
  npr_name :: string
  npr_endpoints :: "network_endpoint list"
  npr_binaries :: "network_binary list"

record filesystem_policy =
  fs_include_workdir :: bool
  fs_read_only :: "string list"
  fs_read_write :: "string list"

record landlock_policy =
  ll_compatibility :: string

record process_policy =
  pp_run_as_user :: string
  pp_run_as_group :: string

record sandbox_policy =
  sp_version :: u32
  sp_filesystem :: "filesystem_policy option"
  sp_landlock :: "landlock_policy option"
  sp_process :: "process_policy option"
  sp_network_policies :: "(string, network_policy_rule) hash_map"

section \<open>YAML types\<close>

record l7_allow_def =
  lad_method :: string
  lad_path :: string
  lad_command :: string

record l7_rule_def =
  lrd_allow :: l7_allow_def

record network_binary_def =
  nbd_path :: string
  nbd_harness :: bool

record network_endpoint_def =
  epd_host :: string
  epd_port :: u32
  epd_ports :: "u32 list"
  epd_protocol :: string
  epd_tls :: string
  epd_enforcement :: string
  epd_access :: string
  epd_rules :: "l7_rule_def list"
  epd_allowed_ips :: "string list"

record network_policy_rule_def =
  nprd_name :: string
  nprd_endpoints :: "network_endpoint_def list"
  nprd_binaries :: "network_binary_def list"

record filesystem_def =
  fsd_include_workdir :: bool
  fsd_read_only :: "string list"
  fsd_read_write :: "string list"

record landlock_def =
  lld_compatibility :: string

record process_def =
  ppd_run_as_user :: string
  ppd_run_as_group :: string

record policy_file =
  pf_version :: u32
  pf_filesystem_policy :: "filesystem_def option"
  pf_landlock :: "landlock_def option"
  pf_process :: "process_def option"
  pf_network_policies :: "(string, network_policy_rule_def) btree_map"

section \<open>From YAML to the wire\<close>

definition normalized_ports :: "network_endpoint_def \<Rightarrow> u32 list" where
  "normalized_ports e =
     (if epd_ports e \<noteq> [] then epd_ports e else if 0 < epd_port e then [epd_port e] else [])"

definition first_port :: "u32 list \<Rightarrow> u32 \<Rightarrow> u32" where
  "first_port ps d = (case ps of [] \<Rightarrow> d | p # _ \<Rightarrow> p)"

definition endpoint_to_proto :: "network_endpoint_def \<Rightarrow> network_endpoint" where
  "endpoint_to_proto e =
     \<lparr>ep_host = epd_host e,
      ep_port = first_port (normalized_ports e) 0,
      ep_protocol = epd_protocol e, ep_tls = epd_tls e,
      ep_enforcement = epd_enforcement e, ep_access = epd_access e,
      ep_rules = map (\<lambda>r. \<lparr>lr_allow = Some \<lparr>la_method = lad_method (lrd_allow r),
        la_path = lad_path (lrd_allow r), la_command = lad_command (lrd_allow r)\<rparr>\<rparr>) (epd_rules e),
      ep_allowed_ips = epd_allowed_ips e,
      ep_ports = normalized_ports e\<rparr>"

definition rule_to_proto :: "string \<Rightarrow> network_policy_rule_def \<Rightarrow> network_policy_rule" where
  "rule_to_proto key r =
     \<lparr>npr_name = (if nprd_name r = [] then key else nprd_name r),
      npr_endpoints = map endpoint_to_proto (nprd_endpoints r),
      npr_binaries = map (\<lambda>b. \<lparr>nb_path = nbd_path b, nb_harness = False\<rparr>) (nprd_binaries r)\<rparr>"

definition to_proto :: "policy_file \<Rightarrow> sandbox_policy" where
  "to_proto raw =
     \<lparr>sp_version = pf_version raw,
      sp_filesystem = map_option (\<lambda>fs. \<lparr>fs_include_workdir = fsd_include_workdir fs,
        fs_read_only = fsd_read_only fs, fs_read_write = fsd_read_write fs\<rparr>)
        (pf_filesystem_policy raw),
      sp_landlock = map_option (\<lambda>ll. \<lparr>ll_compatibility = lld_compatibility ll\<rparr>) (pf_landlock raw),
      sp_process = map_option (\<lambda>p. \<lparr>pp_run_as_user = ppd_run_as_user p,
        pp_run_as_group = ppd_run_as_group p\<rparr>) (pf_process raw),
      sp_network_policies =
        hm_collect (map_entries rule_to_proto (pf_network_policies raw))\<rparr>"

section \<open>From the wire to YAML\<close>

definition l7_allow_default :: l7_allow where
  "l7_allow_default = \<lparr>la_method = [], la_path = [], la_command = []\<rparr>"

definition endpoint_from_proto :: "network_endpoint \<Rightarrow> network_endpoint_def" where
  "endpoint_from_proto e =
     (let (port, ports) =
        (if 1 < length (ep_ports e) then (0, ep_ports e)
         else (first_port (ep_ports e) (ep_port e), []))
      in \<lparr>epd_host = ep_host e, epd_port = port, epd_ports = ports,
          epd_protocol = ep_protocol e, epd_tls = ep_tls e,
          epd_enforcement = ep_enforcement e, epd_access = ep_access e,
          epd_rules = map (\<lambda>r. let a = unwrap_or (lr_allow r) l7_allow_default in
            \<lparr>lrd_allow = \<lparr>lad_method = la_method a, lad_path = la_path a,
              lad_command = la_command a\<rparr>\<rparr>) (ep_rules e),
          epd_allowed_ips = ep_allowed_ips e\<rparr>)"

definition rule_from_proto :: "network_policy_rule \<Rightarrow> network_policy_rule_def" where
  "rule_from_proto r =
     \<lparr>nprd_name = npr_name r,
      nprd_endpoints = map endpoint_from_proto (npr_endpoints r),
      nprd_binaries = map (\<lambda>b. \<lparr>nbd_path = nb_path b, nbd_harness = False\<rparr>) (npr_binaries r)\<rparr>"

definition process_from_proto :: "process_policy \<Rightarrow> process_def option" where
  "process_from_proto p =
     (if pp_run_as_user p = [] \<and> pp_run_as_group p = [] then None
      else Some \<lparr>ppd_run_as_user = pp_run_as_user p, ppd_run_as_group = pp_run_as_group p\<rparr>)"

definition from_proto :: "sandbox_policy \<Rightarrow> policy_file" where
  "from_proto p =
     \<lparr>pf_version = sp_version p,
      pf_filesystem_policy = map_option (\<lambda>fs. \<lparr>fsd_include_workdir = fs_include_workdir fs,
        fsd_read_only = fs_read_only fs, fsd_read_write = fs_read_write fs\<rparr>) (sp_filesystem p),
      pf_landlock = map_option (\<lambda>ll. \<lparr>lld_compatibility = ll_compatibility ll\<rparr>) (sp_landlock p),
      pf_process = Option.bind (sp_process p) process_from_proto,
      pf_network_policies =
        bt_collect (map_entries (\<lambda>_. rule_from_proto) (sp_network_policies p))\<rparr>"

section \<open>Parsing, serializing and loading\<close>

text \<open>
  \<open>serde_yaml\<close> is the parameter: \<open>from_yaml\<close> reads a policy file from a text (or fails),
  \<open>to_yaml\<close> writes one. The file system and the environment are parameters of
  \<open>load_sandbox_policy\<close>: \<open>read_file\<close> returns the contents of a file, if it can be read, and
  \<open>env\<close> the value of \<open>OPENSHELL_SANDBOX_POLICY\<close>.
\<close>

datatype policy_error =
    PolicyParseFailed
  | PolicySerializeFailed
  | PolicyReadFailed string

definition parse_sandbox_policy ::
    "(string \<Rightarrow> policy_file option) \<Rightarrow> string \<Rightarrow> policy_error + sandbox_policy" where
  "parse_sandbox_policy from_yaml yaml =
     and_then (ok_or (from_yaml yaml) PolicyParseFailed) (\<lambda>raw. Inr (to_proto raw))"

definition serialize_sandbox_policy ::
    "(policy_file \<Rightarrow> string option) \<Rightarrow> sandbox_policy \<Rightarrow> policy_error + string" where
  "serialize_sandbox_policy to_yaml p = ok_or (to_yaml (from_proto p)) PolicySerializeFailed"

definition load_sandbox_policy ::
    "(string \<Rightarrow> policy_file option) \<Rightarrow> (string \<Rightarrow> string option) \<Rightarrow> string option \<Rightarrow>
     string option \<Rightarrow> policy_error + sandbox_policy option" where
  "load_sandbox_policy from_yaml read_file env cli_path =
     (case (case cli_path of Some p \<Rightarrow> Some p | None \<Rightarrow> env) of
        None \<Rightarrow> Inr None
      | Some path \<Rightarrow>
          and_then (ok_or (read_file path) (PolicyReadFailed path)) (\<lambda>contents.
          and_then (parse_sandbox_policy from_yaml contents) (\<lambda>p. Inr (Some p))))"

definition restrictive_default_policy :: sandbox_policy where
  "restrictive_default_policy =
     \<lparr>sp_version = 1,
      sp_filesystem = Some \<lparr>fs_include_workdir = True,
        fs_read_only = [''/usr'', ''/lib'', ''/proc'', ''/dev/urandom'', ''/app'', ''/etc'',
          ''/var/log''],
        fs_read_write = [''/sandbox'', ''/tmp'', ''/dev/null'']\<rparr>,
      sp_landlock = Some \<lparr>ll_compatibility = ''best_effort''\<rparr>,
      sp_process = Some \<lparr>pp_run_as_user = ''sandbox'', pp_run_as_group = ''sandbox''\<rparr>,
      sp_network_policies = []\<rparr>"

definition ensure_sandbox_process_identity :: "sandbox_policy \<Rightarrow> sandbox_policy" where
  "ensure_sandbox_process_identity p =
     (let proc = unwrap_or (sp_process p) \<lparr>pp_run_as_user = [], pp_run_as_group = []\<rparr>;
          proc = (if pp_run_as_user proc = [] then proc\<lparr>pp_run_as_user := ''sandbox''\<rparr> else proc);
          proc = (if pp_run_as_group proc = [] then proc\<lparr>pp_run_as_group := ''sandbox''\<rparr> else proc)
      in p\<lparr>sp_process := Some proc\<rparr>)"

section \<open>Paths\<close>

text \<open>
  \<open>std::path::Path::components\<close> on Unix: the root of an absolute path, a leading \<open>.\<close> of a
  relative one, then the segments between separators without empty and \<open>.\<close> segments.
\<close>

datatype component = RootDir | CurDir | ParentDir | Normal string

definition has_root :: "string \<Rightarrow> bool" where
  "has_root p \<longleftrightarrow> str_starts_with p ''/''"

definition segment_component :: "string \<Rightarrow> component" where
  "segment_component s = (if s = ''..'' then ParentDir else Normal s)"

definition path_components :: "string \<Rightarrow> component list" where
  "path_components p =
     (if has_root p then [RootDir]
      else if hd (str_split (CHR ''/'') p) = ''.'' then [CurDir] else []) @
     map segment_component (filter (\<lambda>s. s \<noteq> [] \<and> s \<noteq> ''.'') (str_split (CHR ''/'') p))"

text \<open>\<open>PathBuf::push\<close>: an absolute path replaces the buffer.\<close>

definition path_push :: "string \<Rightarrow> string \<Rightarrow> string" where
  "path_push buf c =
     (if has_root c then c
      else if buf = [] \<or> str_ends_with buf ''/'' then buf @ c
      else buf @ ''/'' @ c)"

definition push_component :: "component \<Rightarrow> string \<Rightarrow> string" where
  "push_component c buf =
     (case c of
        RootDir \<Rightarrow> path_push buf ''/''
      | CurDir \<Rightarrow> buf
      | ParentDir \<Rightarrow> path_push buf ''..''
      | Normal s \<Rightarrow> path_push buf s)"

definition normalize_path :: "string \<Rightarrow> string" where
  "normalize_path path = fold push_component (path_components path) []"

section \<open>Safety validation\<close>

definition MAX_FILESYSTEM_PATHS :: nat where "MAX_FILESYSTEM_PATHS = 256"
definition MAX_PATH_LENGTH :: nat where "MAX_PATH_LENGTH = 4096"

datatype policy_violation =
    InvalidProcessIdentity string string
  | PathTraversal string
  | RelativePath string
  | OverlyBroadPath string
  | FieldTooLong string nat
  | TooManyPaths nat

text \<open>\<open>truncate_for_display\<close> slices at byte 77: \<^const>\<open>None\<close> when that is inside a character.\<close>

definition truncate_for_display :: "string \<Rightarrow> string option" where
  "truncate_for_display s =
     (if length s \<le> 80 then Some s else map_option (\<lambda>t. t @ ''...'') (str_slice_to s 77))"

definition trim_end_slashes :: "string \<Rightarrow> string" where
  "trim_end_slashes s = rev (dropWhile (\<lambda>c. c = CHR ''/'') (rev s))"

definition identity_violations :: "process_policy \<Rightarrow> policy_violation list" where
  "identity_violations p =
     (if pp_run_as_user p \<noteq> ''sandbox'' then [InvalidProcessIdentity ''run_as_user'' (pp_run_as_user p)] else []) @
     (if pp_run_as_group p \<noteq> ''sandbox'' then [InvalidProcessIdentity ''run_as_group'' (pp_run_as_group p)] else [])"

definition path_violations :: "string \<Rightarrow> policy_violation list option" where
  "path_violations s =
     (if MAX_PATH_LENGTH < length s
      then map_option (\<lambda>t. [FieldTooLong t (length s)]) (truncate_for_display s)
      else Some ((if \<not> has_root s then [RelativePath s] else []) @
                 (if ParentDir \<in> set (path_components s) then [PathTraversal s] else [])))"

fun all_path_violations :: "string list \<Rightarrow> policy_violation list option" where
  "all_path_violations [] = Some []"
| "all_path_violations (s # ss) =
     Option.bind (path_violations s) (\<lambda>vs. map_option (\<lambda>ws. vs @ ws) (all_path_violations ss))"

definition broad_violations :: "string list \<Rightarrow> policy_violation list" where
  "broad_violations rw =
     map OverlyBroadPath (filter (\<lambda>s. trim_end_slashes s = []) rw)"

definition filesystem_violations :: "filesystem_policy \<Rightarrow> policy_violation list option" where
  "filesystem_violations fs =
     (let total = length (fs_read_only fs) + length (fs_read_write fs) in
      map_option (\<lambda>vs. (if MAX_FILESYSTEM_PATHS < total then [TooManyPaths total] else []) @ vs @
          broad_violations (fs_read_write fs))
        (all_path_violations (fs_read_only fs @ fs_read_write fs)))"

text \<open>\<^const>\<open>None\<close> is a panic; otherwise the list of violations or success.\<close>

definition validate_sandbox_policy :: "sandbox_policy \<Rightarrow> (policy_violation list + unit) option" where
  "validate_sandbox_policy p =
     (let ids = (case sp_process p of None \<Rightarrow> [] | Some proc \<Rightarrow> identity_violations proc) in
      map_option (\<lambda>vs. if ids @ vs = [] then Inr () else Inl (ids @ vs))
        (case sp_filesystem p of None \<Rightarrow> Some [] | Some fs \<Rightarrow> filesystem_violations fs))"

abbreviation quo :: string where
  "quo \<equiv> [CHR 0x27]"

definition violation_message :: "policy_violation \<Rightarrow> string" where
  "violation_message v =
     (case v of
        InvalidProcessIdentity f x \<Rightarrow>
          f @ '' must be '' @ quo @ ''sandbox'' @ quo @ '', got '' @ quo @ x @ quo
      | PathTraversal p \<Rightarrow> ''path contains '' @ quo @ ''..'' @ quo @ '' traversal component: '' @ p
      | RelativePath p \<Rightarrow> ''path must be absolute (start with '' @ quo @ ''/'' @ quo @ ''): '' @ p
      | OverlyBroadPath p \<Rightarrow> ''read-write path is overly broad: '' @ p
      | FieldTooLong p n \<Rightarrow>
          ''path exceeds maximum length ('' @ dec n @ '' > '' @ dec MAX_PATH_LENGTH @ ''): '' @ p
      | TooManyPaths n \<Rightarrow>
          ''too many filesystem paths ('' @ dec n @ '' > '' @ dec MAX_FILESYSTEM_PATHS @ '')'')"

section \<open>Path normalisation\<close>

definition clean_segment :: "string \<Rightarrow> bool" where
  "clean_segment s \<longleftrightarrow> s \<noteq> [] \<and> s \<noteq> ''.'' \<and> CHR ''/'' \<notin> set s"

definition clean_segments :: "string \<Rightarrow> string list" where
  "clean_segments p = filter (\<lambda>s. s \<noteq> [] \<and> s \<noteq> ''.'') (str_split (CHR ''/'') p)"

lemma clean_segments_clean: "s \<in> set (clean_segments p) \<Longrightarrow> clean_segment s"
  by (auto simp: clean_segments_def clean_segment_def dest: str_split_no_sep)

lemma path_components_eq:
  "path_components p =
     (if has_root p then [RootDir]
      else if hd (str_split (CHR ''/'') p) = ''.'' then [CurDir] else []) @
     map segment_component (clean_segments p)"
  by (simp add: path_components_def clean_segments_def)

lemma clean_segment_no_root: "clean_segment s \<Longrightarrow> \<not> has_root (s @ t)"
  by (cases s) (auto simp: clean_segment_def has_root_def)

lemma push_segment: "push_component (segment_component s) buf = path_push buf s"
  by (simp add: push_component_def segment_component_def)

lemma str_ends_with_slash: "str_ends_with s ''/'' \<longleftrightarrow> s \<noteq> [] \<and> last s = CHR ''/''"
  by (cases s rule: rev_cases) (auto simp: str_ends_with_def)

lemma clean_segment_last: "clean_segment s \<Longrightarrow> last s \<noteq> CHR ''/''"
  by (metis clean_segment_def last_in_set)

lemma fold_push_segments:
  assumes "\<forall>s \<in> set segs. clean_segment s" and "buf \<noteq> []" and "last buf \<noteq> CHR ''/''"
  shows "fold push_component (map segment_component segs) buf =
    (if segs = [] then buf else buf @ ''/'' @ str_join ''/'' segs)"
  using assms
proof (induction segs arbitrary: buf)
  case Nil
  then show ?case by simp
next
  case (Cons s segs)
  from Cons.prems have s: "clean_segment s" by simp
  have push: "push_component (segment_component s) buf = buf @ ''/'' @ s"
    using Cons.prems clean_segment_no_root [OF s, of "[]"]
    by (simp add: push_segment path_push_def str_ends_with_slash)
  have "last (buf @ ''/'' @ s) \<noteq> CHR ''/''"
    using s by (cases s rule: rev_cases) (auto simp: clean_segment_def)
  with Cons.IH [of "buf @ ''/'' @ s"] Cons.prems push show ?case
    by (cases segs) auto
qed

lemma fold_push_first:
  assumes "\<forall>s \<in> set segs. clean_segment s" and "buf = [] \<or> buf = ''/''"
  shows "fold push_component (map segment_component segs) buf = buf @ str_join ''/'' segs"
proof (cases segs)
  case Nil
  then show ?thesis by simp
next
  case (Cons s rest)
  with assms have s: "clean_segment s" and rest: "\<forall>s \<in> set rest. clean_segment s" by auto
  have push: "push_component (segment_component s) buf = buf @ s"
    using assms(2) clean_segment_no_root [OF s, of "[]"]
    by (auto simp: push_segment path_push_def str_ends_with_slash)
  have "buf @ s \<noteq> []" and "last (buf @ s) \<noteq> CHR ''/''"
    using s clean_segment_last [OF s] by (auto simp: clean_segment_def)
  from fold_push_segments [OF rest this] push Cons show ?thesis by (cases rest) auto
qed

lemma normalize_path_eq:
  "normalize_path p = (if has_root p then ''/'' else []) @ str_join ''/'' (clean_segments p)"
  by (auto simp: normalize_path_def path_components_eq fold_push_first clean_segments_clean
      push_component_def path_push_def has_root_def)

lemma has_root_join_clean:
  "\<forall>s \<in> set segs. clean_segment s \<Longrightarrow> \<not> has_root (str_join ''/'' segs)"
  by (induction "''/''" segs rule: str_join.induct)
    (auto simp: has_root_def clean_segment_no_root [unfolded has_root_def]
      dest: clean_segment_no_root [where t = "[]"])

lemma has_root_normalize [simp]: "has_root (normalize_path p) \<longleftrightarrow> has_root p"
proof (cases "has_root p")
  case True
  then show ?thesis by (simp add: normalize_path_eq has_root_def)
next
  case False
  then show ?thesis
    using has_root_join_clean [of "clean_segments p"] clean_segments_clean
    by (simp add: normalize_path_eq)
qed

lemma clean_segments_join:
  assumes "\<forall>s \<in> set segs. clean_segment s"
  shows "clean_segments (str_join ''/'' segs) = segs"
proof (cases "segs = []")
  case True
  then show ?thesis by (simp add: clean_segments_def)
next
  case False
  with assms have "str_split (CHR ''/'') (str_join ''/'' segs) = segs"
    by (intro str_split_join) (auto simp: clean_segment_def)
  moreover from assms have "filter (\<lambda>s. s \<noteq> [] \<and> s \<noteq> ''.'') segs = segs"
    by (auto simp: filter_id_conv clean_segment_def)
  ultimately show ?thesis by (simp add: clean_segments_def)
qed

lemma clean_segments_normalize [simp]: "clean_segments (normalize_path p) = clean_segments p"
proof -
  have "clean_segments (''/'' @ s) = clean_segments s" for s
    by (simp add: clean_segments_def)
  then show ?thesis
    using clean_segments_join [of "clean_segments p"] clean_segments_clean
    by (simp add: normalize_path_eq)
qed

lemma parent_segments:
  "ParentDir \<in> set (path_components p) \<longleftrightarrow> ''..'' \<in> set (str_split (CHR ''/'') p)"
  by (auto simp: path_components_eq clean_segments_def segment_component_def image_iff)

section \<open>Round trips\<close>

text \<open>
  What survives a trip through YAML exactly: endpoints with consistent ports, rules with
  an action, no deprecated harness flag, a non-empty process section, named rules. Wire
  policies are compared up to the iteration order of their rule map.
\<close>

definition canonical_endpoint :: "network_endpoint \<Rightarrow> bool" where
  "canonical_endpoint e \<longleftrightarrow>
     ep_ports e \<noteq> [0] \<and> ep_port e = first_port (ep_ports e) 0 \<and>
     list_all (\<lambda>r. lr_allow r \<noteq> None) (ep_rules e)"

definition canonical_rule :: "network_policy_rule \<Rightarrow> bool" where
  "canonical_rule r \<longleftrightarrow>
     npr_name r \<noteq> [] \<and> list_all canonical_endpoint (npr_endpoints r) \<and>
     list_all (\<lambda>b. \<not> nb_harness b) (npr_binaries r)"

definition canonical_policy :: "sandbox_policy \<Rightarrow> bool" where
  "canonical_policy p \<longleftrightarrow>
     sp_process p \<noteq> Some \<lparr>pp_run_as_user = [], pp_run_as_group = []\<rparr> \<and>
     hm_ok (sp_network_policies p) \<and>
     list_all (\<lambda>(_, r). canonical_rule r) (sp_network_policies p)"

definition same_policy :: "sandbox_policy \<Rightarrow> sandbox_policy \<Rightarrow> bool" where
  "same_policy p q \<longleftrightarrow>
     p\<lparr>sp_network_policies := []\<rparr> = q\<lparr>sp_network_policies := []\<rparr> \<and>
     map_of (sp_network_policies p) = map_of (sp_network_policies q)"

lemma endpoint_roundtrip: "canonical_endpoint e \<Longrightarrow> endpoint_to_proto (endpoint_from_proto e) = e"
proof -
  assume c: "canonical_endpoint e"
  have rules: "map (\<lambda>r. \<lparr>lr_allow = Some \<lparr>la_method = lad_method (lrd_allow r),
        la_path = lad_path (lrd_allow r), la_command = lad_command (lrd_allow r)\<rparr>\<rparr>)
      (epd_rules (endpoint_from_proto e)) = ep_rules e"
    using c by (auto simp: canonical_endpoint_def endpoint_from_proto_def Let_def list_all_iff
        intro!: map_idI split: prod.splits)
  have "normalized_ports (endpoint_from_proto e) = ep_ports e"
    using c by (cases "ep_ports e" rule: list_cases3)
      (auto simp: canonical_endpoint_def endpoint_from_proto_def normalized_ports_def
        first_port_def word_neq_0_conv)
  with rules c show ?thesis
    by (simp add: endpoint_to_proto_def canonical_endpoint_def)
      (simp add: endpoint_from_proto_def split: prod.splits)
qed

lemma rule_roundtrip: "canonical_rule r \<Longrightarrow> rule_to_proto k (rule_from_proto r) = r"
  by (auto simp: canonical_rule_def rule_to_proto_def rule_from_proto_def list_all_iff
      intro!: network_policy_rule.equality network_binary.equality map_idI endpoint_roundtrip)

lemma fs_eta: "map_option (\<lambda>x. \<lparr>fs_include_workdir = fs_include_workdir x,
    fs_read_only = fs_read_only x, fs_read_write = fs_read_write x\<rparr>) y = y"
  by (cases y) simp_all

lemma ll_eta: "map_option (\<lambda>x. \<lparr>ll_compatibility = ll_compatibility x\<rparr>) y = y"
  by (cases y) simp_all

text \<open>Every endpoint and rule the conversion produces is in normal form after one trip.\<close>

lemma endpoint_trip_twice:
  "endpoint_to_proto (endpoint_from_proto (endpoint_to_proto (endpoint_from_proto e))) =
   endpoint_to_proto (endpoint_from_proto e)"
  by (cases "ep_ports e" rule: list_cases3)
    (auto simp: endpoint_to_proto_def endpoint_from_proto_def normalized_ports_def first_port_def
      Let_def comp_def)

lemma rule_trip_twice:
  "rule_to_proto k (rule_from_proto (rule_to_proto k (rule_from_proto r))) =
   rule_to_proto k (rule_from_proto r)"
  by (simp add: rule_to_proto_def rule_from_proto_def endpoint_trip_twice comp_def)

lemma process_trip_twice:
  "Option.bind (map_option (\<lambda>p. \<lparr>pp_run_as_user = ppd_run_as_user p,
      pp_run_as_group = ppd_run_as_group p\<rparr>) (Option.bind x process_from_proto)) process_from_proto =
   Option.bind x process_from_proto"
  by (cases x) (auto simp: process_from_proto_def)

definition rules_trip :: "(string, network_policy_rule) hash_map \<Rightarrow> (string, network_policy_rule) hash_map" where
  "rules_trip m = map_entries (\<lambda>k r. rule_to_proto k (rule_from_proto r)) (bt_collect m)"

lemma network_policies_trip:
  "sp_network_policies (to_proto (from_proto p)) = rules_trip (sp_network_policies p)"
  by (simp add: to_proto_def from_proto_def rules_trip_def hm_collect_sorted
      bt_collect_map_entries map_entries_comp)

lemma rules_trip_twice: "rules_trip (rules_trip m) = rules_trip m"
  by (simp add: rules_trip_def bt_collect_sorted map_entries_comp rule_trip_twice)

lemma map_of_rules_trip:
  assumes "hm_ok m" and "list_all (\<lambda>(_, r). canonical_rule r) m"
  shows "map_of (rules_trip m) = map_of m"
proof
  fix k
  have "map_of m k = Some r \<Longrightarrow> canonical_rule r" for r
    using assms(2) by (auto simp: list_all_iff dest!: map_of_SomeD)
  then show "map_of (rules_trip m) k = map_of m k"
    using assms(1)
    by (cases "map_of m k")
      (auto simp: rules_trip_def map_of_map_entries map_of_bt_collect_ok rule_roundtrip)
qed

section \<open>What validation accepts\<close>

definition path_safe :: "string \<Rightarrow> bool" where
  "path_safe s \<longleftrightarrow>
     length s \<le> MAX_PATH_LENGTH \<and> has_root s \<and> ''..'' \<notin> set (str_split (CHR ''/'') s)"

definition filesystem_safe :: "filesystem_policy \<Rightarrow> bool" where
  "filesystem_safe fs \<longleftrightarrow>
     length (fs_read_only fs) + length (fs_read_write fs) \<le> MAX_FILESYSTEM_PATHS \<and>
     list_all path_safe (fs_read_only fs @ fs_read_write fs) \<and>
     list_all (\<lambda>s. \<exists>c \<in> set s. c \<noteq> CHR ''/'') (fs_read_write fs)"

definition policy_safe :: "sandbox_policy \<Rightarrow> bool" where
  "policy_safe p \<longleftrightarrow>
     (case sp_process p of None \<Rightarrow> True
      | Some q \<Rightarrow> pp_run_as_user q = ''sandbox'' \<and> pp_run_as_group q = ''sandbox'') \<and>
     (case sp_filesystem p of None \<Rightarrow> True | Some fs \<Rightarrow> filesystem_safe fs)"

lemma path_violations_Nil: "path_violations s = Some [] \<longleftrightarrow> path_safe s"
  by (auto simp: path_violations_def path_safe_def parent_segments)

lemma all_path_violations_Nil: "all_path_violations ss = Some [] \<longleftrightarrow> list_all path_safe ss"
  by (induction ss) (auto simp: path_violations_Nil Option.bind_eq_Some_conv)

lemma path_violations_None:
  "path_violations s = None \<longleftrightarrow> MAX_PATH_LENGTH < length s \<and> \<not> is_char_boundary s 77"
  by (auto simp: path_violations_def truncate_for_display_def str_slice_to_def MAX_PATH_LENGTH_def)

lemma all_path_violations_None:
  "all_path_violations ss = None \<longleftrightarrow>
     (\<exists>s \<in> set ss. MAX_PATH_LENGTH < length s \<and> \<not> is_char_boundary s 77)"
  by (induction ss) (auto simp: path_violations_None Option.bind_eq_None_conv)

lemma dropWhile_rev_Nil: "dropWhile P (rev s) = [] \<longleftrightarrow> (\<forall>c \<in> set s. P c)"
  by (simp add: dropWhile_eq_Nil_conv)

lemma broad_violations_Nil:
  "broad_violations rw = [] \<longleftrightarrow> list_all (\<lambda>s. \<exists>c \<in> set s. c \<noteq> CHR ''/'') rw"
  by (auto simp: broad_violations_def trim_end_slashes_def dropWhile_rev_Nil filter_empty_conv
      list_all_iff)

lemma filesystem_violations_Nil: "filesystem_violations fs = Some [] \<longleftrightarrow> filesystem_safe fs"
  by (auto simp: filesystem_violations_def filesystem_safe_def Let_def broad_violations_Nil
      all_path_violations_Nil split: if_splits)

lemma identity_violations_Nil:
  "identity_violations q = [] \<longleftrightarrow> pp_run_as_user q = ''sandbox'' \<and> pp_run_as_group q = ''sandbox''"
  by (auto simp: identity_violations_def)

lemma validate_Ok_iff: "validate_sandbox_policy p = Some (Inr ()) \<longleftrightarrow> policy_safe p"
  by (auto simp: validate_sandbox_policy_def policy_safe_def identity_violations_Nil Let_def
      simp flip: filesystem_violations_Nil split: option.splits if_splits)

lemma validate_default: "policy_safe restrictive_default_policy"
  by (simp add: policy_safe_def filesystem_safe_def path_safe_def restrictive_default_policy_def
      has_root_def MAX_PATH_LENGTH_def MAX_FILESYSTEM_PATHS_def)

section \<open>Properties\<close>

text \<open>writing a policy as YAML and reading it back normalises it once and for all: a
  second trip changes nothing, whatever the policy and the iteration order of its map.\<close>

theorem policy_trip_stable:
  "to_proto (from_proto (to_proto (from_proto p))) = to_proto (from_proto p)"
proof (rule sandbox_policy.equality)
  show "sp_network_policies (to_proto (from_proto (to_proto (from_proto p)))) =
      sp_network_policies (to_proto (from_proto p))"
    by (simp add: network_policies_trip rules_trip_twice)
qed (simp_all add: to_proto_def from_proto_def process_trip_twice option.map_comp comp_def)


definition sample_policy :: sandbox_policy where
  "sample_policy = restrictive_default_policy\<lparr>sp_network_policies :=
     [(''api'', \<lparr>npr_name = ''api'',
        npr_endpoints = [\<lparr>ep_host = ''api.example.com'', ep_port = 443, ep_protocol = ''rest'',
          ep_tls = ''terminate'', ep_enforcement = ''enforce'', ep_access = [],
          ep_rules = [\<lparr>lr_allow = Some \<lparr>la_method = ''GET'', la_path = ''/v1/**'', la_command = []\<rparr>\<rparr>],
          ep_allowed_ips = [], ep_ports = [443, 8443]\<rparr>],
        npr_binaries = [\<lparr>nb_path = ''/usr/bin/curl'', nb_harness = False\<rparr>]\<rparr>)]\<rparr>"

lemma canonical_sample: "canonical_policy sample_policy"
  by (simp add: sample_policy_def canonical_policy_def canonical_rule_def canonical_endpoint_def
      restrictive_default_policy_def hm_ok_def first_port_def)


text \<open>C25: validation accepts exactly the safe policies: the \<open>sandbox\<close> identity where a process
  section exists, at most 256 paths, each at most 4096 bytes, absolute and without a \<open>..\<close>
  segment, and no read-write path made of slashes only.\<close>

theorem validate_accepts_iff_safe:
  "validate_sandbox_policy p = Some (Inr ()) \<longleftrightarrow> policy_safe p"
  by (rule validate_Ok_iff)

text \<open>path normalisation is idempotent, keeps a path absolute or relative, and keeps its
  components except for a leading \<open>.\<close>, which it drops.\<close>

theorem normalize_path_components:
  "path_components (normalize_path p) = filter (\<lambda>c. c \<noteq> CurDir) (path_components p) \<and>
   normalize_path (normalize_path p) = normalize_path p \<and>
   has_root (normalize_path p) = has_root p"
proof -
  have clean: "\<forall>s \<in> set (clean_segments p). clean_segment s"
    by (simp add: clean_segments_clean)
  have first: "hd (str_split (CHR ''/'') (str_join ''/'' (clean_segments p))) \<noteq> ''.''"
  proof (cases "clean_segments p")
    case (Cons s ss)
    with clean have "str_split (CHR ''/'') (str_join ''/'' (clean_segments p)) = clean_segments p"
      by (intro str_split_join) (auto simp: clean_segment_def)
    with Cons clean show ?thesis by (simp add: clean_segment_def)
  qed simp
  have "filter (\<lambda>c. c \<noteq> CurDir) (map segment_component ss) = map segment_component ss" for ss
    by (auto simp: filter_id_conv segment_component_def)
  with first have "path_components (normalize_path p) =
      filter (\<lambda>c. c \<noteq> CurDir) (path_components p)"
    by (simp add: path_components_eq) (simp add: normalize_path_eq)
  then show ?thesis
    by (simp add: normalize_path_eq [of "normalize_path p"]) (simp add: normalize_path_eq)
qed

text \<open>a policy that was given its process identity defaults and then passed validation
  runs as user \<open>sandbox\<close> and group \<open>sandbox\<close>, and each of its filesystem paths normalises to an
  absolute path without parent components.\<close>

theorem validated_policy_confined:
  assumes "validate_sandbox_policy (ensure_sandbox_process_identity p) = Some (Inr ())"
  shows "sp_process (ensure_sandbox_process_identity p) =
      Some \<lparr>pp_run_as_user = ''sandbox'', pp_run_as_group = ''sandbox''\<rparr> \<and>
    (case sp_filesystem p of None \<Rightarrow> True | Some fs \<Rightarrow>
       list_all (\<lambda>s. has_root (normalize_path s) \<and>
           ParentDir \<notin> set (path_components (normalize_path s)))
         (fs_read_only fs @ fs_read_write fs))"
proof -
  let ?q = "ensure_sandbox_process_identity p"
  from assms have safe: "policy_safe ?q" by (simp add: validate_Ok_iff)
  have fs: "sp_filesystem ?q = sp_filesystem p"
    by (simp add: ensure_sandbox_process_identity_def Let_def)
  have paths: "path_safe s \<Longrightarrow> has_root (normalize_path s) \<and>
      ParentDir \<notin> set (path_components (normalize_path s))" for s
    using parent_segments [of s] by (simp add: path_safe_def path_components_eq)
  from safe have "sp_process ?q = Some \<lparr>pp_run_as_user = ''sandbox'', pp_run_as_group = ''sandbox''\<rparr>"
    by (auto simp: policy_safe_def ensure_sandbox_process_identity_def Let_def
        intro!: process_policy.equality split: if_splits)
  with safe fs paths show ?thesis
    by (auto simp: policy_safe_def filesystem_safe_def list_all_iff split: option.splits)
qed

theorem validated_policy_confined_witness:
  "validate_sandbox_policy (ensure_sandbox_process_identity restrictive_default_policy) = Some (Inr ()) \<and>
   sp_process (ensure_sandbox_process_identity restrictive_default_policy) =
     Some \<lparr>pp_run_as_user = ''sandbox'', pp_run_as_group = ''sandbox''\<rparr> \<and>
   has_root (normalize_path ''/usr'')"
proof -
  have same: "ensure_sandbox_process_identity restrictive_default_policy = restrictive_default_policy"
    by (simp add: ensure_sandbox_process_identity_def restrictive_default_policy_def)
  then have h: "validate_sandbox_policy (ensure_sandbox_process_identity restrictive_default_policy) = Some (Inr ())"
    by (simp add: validate_Ok_iff validate_default)
  from validated_policy_confined [OF h] have "has_root (normalize_path ''/usr'')"
    by (simp add: restrictive_default_policy_def)
  with h validated_policy_confined [OF h] show ?thesis by blast
qed

text \<open>validation panics exactly when a path is longer than 4096 bytes and byte 77 of it is
  inside a multi-byte character, where \<open>truncate_for_display\<close> slices.\<close>

theorem validate_panics_iff:
  "validate_sandbox_policy p = None \<longleftrightarrow>
     (\<exists>fs s. sp_filesystem p = Some fs \<and> s \<in> set (fs_read_only fs @ fs_read_write fs) \<and>
        MAX_PATH_LENGTH < length s \<and> \<not> is_char_boundary s 77)"
  by (auto simp: validate_sandbox_policy_def filesystem_violations_def Let_def
      all_path_violations_None split: option.splits)

text \<open>the check for overly broad read-write paths looks at the text of the path, not at its
  normal form: validation accepts the read-write path \<open>/.\<close>, which normalises to the root.\<close>

theorem overly_broad_check_is_lexical:
  "validate_sandbox_policy (restrictive_default_policy\<lparr>sp_filesystem :=
       Some \<lparr>fs_include_workdir = True, fs_read_only = [], fs_read_write = [''/.'']\<rparr>\<rparr>) =
     Some (Inr ()) \<and>
   normalize_path ''/.'' = ''/''"
  by (simp add: validate_Ok_iff policy_safe_def filesystem_safe_def path_safe_def
      restrictive_default_policy_def has_root_def normalize_path_eq clean_segments_def
      MAX_PATH_LENGTH_def MAX_FILESYSTEM_PATHS_def)

end
