(* ===== verification/Json.thy ===== *)
theory Json
  imports Prelude
begin

text \<open>
  \<open>serde_json::Value\<close> as the sources use it: a tree whose objects are \<open>BTreeMap\<close>s, with the
  accessors (\<open>get\<close>, \<open>as_str\<close>, \<open>as_array\<close>, \<open>as_object\<close>, \<open>as_bool\<close>, \<open>as_u64\<close>) and the update of an
  entry. Numbers are the integers the sources build and read, other numbers keep their text.
  Printing and parsing text is the crate's and stays a parameter.
\<close>

datatype json =
    JNull
  | JBool bool
  | JInt int
  | JFloat string
  | JString string
  | JArray "json list"
  | JObject "(string \<times> json) list"

definition jobject :: "(string \<times> json) list \<Rightarrow> json" where
  "jobject es = JObject (bt_collect es)"

fun json_get :: "json \<Rightarrow> string \<Rightarrow> json option" where
  "json_get (JObject m) k = map_of m k"
| "json_get _ k = None"

fun as_str :: "json \<Rightarrow> string option" where
  "as_str (JString s) = Some s"
| "as_str _ = None"

fun as_array :: "json \<Rightarrow> json list option" where
  "as_array (JArray xs) = Some xs"
| "as_array _ = None"

fun as_object :: "json \<Rightarrow> (string \<times> json) list option" where
  "as_object (JObject m) = Some m"
| "as_object _ = None"

fun as_bool :: "json \<Rightarrow> bool option" where
  "as_bool (JBool b) = Some b"
| "as_bool _ = None"

fun as_u64 :: "json \<Rightarrow> nat option" where
  "as_u64 (JInt i) = (if 0 \<le> i \<and> i < 2 ^ 64 then Some (nat i) else None)"
| "as_u64 _ = None"

text \<open>\<open>v[k] = x\<close> on an object, or \<open>Map::insert\<close>; other values are left alone by the callers.\<close>

fun json_set :: "string \<Rightarrow> json \<Rightarrow> json \<Rightarrow> json" where
  "json_set k x (JObject m) = JObject (bt_insert k x m)"
| "json_set k x j = j"

text \<open>\<open>and_then\<close> chains of the accessors.\<close>

definition get_str_field :: "json \<Rightarrow> string \<Rightarrow> string option" where
  "get_str_field j k = Option.bind (json_get j k) as_str"

definition get_array_field :: "json \<Rightarrow> string \<Rightarrow> json list option" where
  "get_array_field j k = Option.bind (json_get j k) as_array"

definition get_object_field :: "json \<Rightarrow> string \<Rightarrow> (string \<times> json) list option" where
  "get_object_field j k = Option.bind (json_get j k) as_object"

text \<open>\<open>arr.iter().filter_map(as_str)\<close>.\<close>

definition strs :: "json list \<Rightarrow> string list" where
  "strs js = List.map_filter as_str js"

lemma map_of_filter_keys: "map_of (filter (\<lambda>e. fst e \<noteq> k) m) k' = (if k' = k then None else map_of m k')"
  by (induction m) auto

text \<open>Updating a field in place through \<open>get_mut\<close>: nothing happens when it is not there.\<close>

fun json_update :: "string \<Rightarrow> (json \<Rightarrow> json) \<Rightarrow> json \<Rightarrow> json" where
  "json_update k f (JObject m) = JObject (map_entries (\<lambda>k' v. if k' = k then f v else v) m)"
| "json_update k f j = j"

text \<open>\<open>as_object_mut().iter_mut()\<close> and \<open>as_array_mut().iter_mut()\<close>.\<close>

fun json_map_values :: "(json \<Rightarrow> json) \<Rightarrow> json \<Rightarrow> json" where
  "json_map_values f (JObject m) = JObject (map_entries (\<lambda>_ v. f v) m)"
| "json_map_values f j = j"

fun json_map_items :: "(json \<Rightarrow> json) \<Rightarrow> json \<Rightarrow> json" where
  "json_map_items f (JArray xs) = JArray (map f xs)"
| "json_map_items f j = j"

definition json_remove :: "string \<Rightarrow> json \<Rightarrow> json" where
  "json_remove k j = (case j of JObject m \<Rightarrow> JObject (filter (\<lambda>e. fst e \<noteq> k) m) | _ \<Rightarrow> j)"

definition str_or_empty :: "json \<Rightarrow> string \<Rightarrow> string" where
  "str_or_empty j k = unwrap_or (get_str_field j k) ''''"

lemma json_get_update:
  "json_get (json_update k f j) k' = map_option (\<lambda>v. if k' = k then f v else v) (json_get j k')"
  by (cases j) (simp_all add: map_of_map_entries)

lemma json_get_map_values: "json_get (json_map_values f j) k = map_option f (json_get j k)"
  by (cases j) (simp_all add: map_of_map_entries)

lemma json_get_remove: "json_get (json_remove k j) k' = (if k' = k then None else json_get j k')"
  by (cases j) (auto simp: json_remove_def map_of_filter_keys)

lemma json_get_set [simp]: "json_get (json_set k x (JObject m)) k' = (if k' = k then Some x else map_of m k')"
  by (simp add: map_of_bt_insert)

lemma json_get_jobject: "json_get (jobject es) k = map_of (rev es) k"
  by (simp add: jobject_def map_of_bt_collect)

end
