(* ===== verification/L7Policy.thy ===== *)
theory L7Policy
  imports Json
begin

text \<open>
  L7 policy data, \<open>crates/openshell-sandbox/src/l7/mod.rs\<close>: the endpoint configuration read
  from a matched endpoint (\<open>parse_l7_config\<close>), the validation of the policy data
  (\<open>validate_l7_policies\<close>: errors stop the sandbox, warnings are logged) and the expansion of
  access presets into rules (\<open>expand_access_presets\<close>). Values of the policy engine are JSON.
\<close>

section \<open>Types\<close>

datatype l7_protocol = Rest | Sql
datatype tls_mode = Passthrough | Terminate
datatype enforcement_mode = Audit | Enforce

record l7_endpoint_config =
  cfg_protocol :: l7_protocol
  cfg_tls :: tls_mode
  cfg_enforcement :: enforcement_mode

definition protocol_parse :: "string \<Rightarrow> l7_protocol option" where
  "protocol_parse s =
     (let l = to_ascii_lowercase s in
      if l = ''rest'' then Some Rest else if l = ''sql'' then Some Sql else None)"

text \<open>A non-empty string field of an object.\<close>

definition get_object_str :: "json \<Rightarrow> string \<Rightarrow> string option" where
  "get_object_str val key =
     (case val of
        JObject m \<Rightarrow>
          (case map_of m key of
             Some (JString s) \<Rightarrow> if s = [] then None else Some s
           | _ \<Rightarrow> None)
      | _ \<Rightarrow> None)"

definition parse_l7_config :: "json \<Rightarrow> l7_endpoint_config option" where
  "parse_l7_config val =
     Option.bind (get_object_str val ''protocol'') (\<lambda>p.
     Option.bind (protocol_parse p) (\<lambda>protocol.
       Some \<lparr>cfg_protocol = protocol,
             cfg_tls = (if get_object_str val ''tls'' = Some ''terminate'' then Terminate else Passthrough),
             cfg_enforcement =
               (if get_object_str val ''enforcement'' = Some ''enforce'' then Enforce else Audit)\<rparr>))"

section \<open>Validation\<close>

definition non_empty_array :: "json \<Rightarrow> string \<Rightarrow> bool" where
  "non_empty_array ep k = (case get_array_field ep k of Some xs \<Rightarrow> xs \<noteq> [] | None \<Rightarrow> False)"

definition empty_array :: "json \<Rightarrow> string \<Rightarrow> bool" where
  "empty_array ep k = (case get_array_field ep k of Some xs \<Rightarrow> xs = [] | None \<Rightarrow> False)"

definition positive_port :: "json \<Rightarrow> nat option" where
  "positive_port ep =
     (case Option.bind (json_get ep ''port'') as_u64 of
        Some p \<Rightarrow> if 0 < p then Some p else None
      | None \<Rightarrow> None)"

definition endpoint_ports :: "json \<Rightarrow> nat list" where
  "endpoint_ports ep =
     (case get_array_field ep ''ports'' of
        Some arr \<Rightarrow> List.map_filter as_u64 arr
      | None \<Rightarrow> (case positive_port ep of Some p \<Rightarrow> [p] | None \<Rightarrow> []))"

definition host_wildcard_errors :: "string \<Rightarrow> string \<Rightarrow> string list" where
  "host_wildcard_errors loc host =
     (if str_contains host ''*'' then
        (if host = ''*'' \<or> host = ''**'' then
           [loc @ '': host wildcard '' @ [CHR 0x27] @ host @ [CHR 0x27] @ '' matches all hosts; use specific patterns like '' @ [CHR 0x27] @ ''*.example.com'' @ [CHR 0x27]]
         else if \<not> str_starts_with host ''*.'' \<and> \<not> str_starts_with host ''**.'' then
           [loc @ '': host wildcard must start with '' @ [CHR 0x27] @ ''*.'' @ [CHR 0x27] @ '' or '' @ [CHR 0x27] @ ''**.'' @ [CHR 0x27] @ '' (e.g., '' @ [CHR 0x27] @ ''*.example.com'' @ [CHR 0x27] @ ''), got '' @ [CHR 0x27] @ host @ [CHR 0x27]]
         else [])
      else [])"

definition host_wildcard_warnings :: "string \<Rightarrow> string \<Rightarrow> string list" where
  "host_wildcard_warnings loc host =
     (if str_contains host ''*'' \<and> host \<noteq> ''*'' \<and> host \<noteq> ''**'' \<and>
         (str_starts_with host ''*.'' \<or> str_starts_with host ''**.'') \<and>
         length (str_split (CHR ''.'') host) \<le> 2
      then [loc @ '': host wildcard '' @ [CHR 0x27] @ host @ [CHR 0x27] @ '' is very broad (covers all subdomains of a TLD)'']
      else [])"

definition error_if :: "bool \<Rightarrow> string \<Rightarrow> string list" where
  "error_if c e = (if c then [e] else [])"

definition endpoint_errors :: "string \<Rightarrow> json \<Rightarrow> string list" where
  "endpoint_errors loc ep =
     (let protocol = str_or_empty ep ''protocol'';
          tls = str_or_empty ep ''tls'';
          enforcement = str_or_empty ep ''enforcement'';
          access = str_or_empty ep ''access'';
          has_rules = non_empty_array ep ''rules'';
          host = str_or_empty ep ''host''
      in host_wildcard_errors loc host @
         error_if (positive_port ep \<noteq> None \<and> non_empty_array ep ''ports'')
           (loc @ '': port and ports are mutually exclusive; use ports for multiple ports'') @
         error_if (has_rules \<and> access \<noteq> [])
           (loc @ '': rules and access are mutually exclusive'') @
         error_if (protocol \<noteq> [] \<and> \<not> has_rules \<and> access = [])
           (loc @ '': protocol requires rules or access to define allowed traffic'') @
         error_if (tls = ''terminate'' \<and> protocol = [])
           (loc @ '': TLS termination requires a protocol for L7 inspection'') @
         error_if (protocol = ''sql'' \<and> enforcement = ''enforce'')
           (loc @ '': SQL enforcement requires full SQL parsing (not available in v1). Use '' @ [CHR 0x60] @ ''enforcement: audit'' @ [CHR 0x60] @ ''.'') @
         error_if (empty_array ep ''rules'')
           (loc @ '': rules list cannot be empty (would deny all traffic). Use '' @ [CHR 0x60] @ ''access: full'' @ [CHR 0x60] @ '' or remove rules.''))"

definition valid_methods :: "string list" where
  "valid_methods = [''GET'', ''HEAD'', ''POST'', ''PUT'', ''DELETE'', ''PATCH'', ''OPTIONS'', ''*'']"

definition method_warnings :: "string \<Rightarrow> json \<Rightarrow> string list" where
  "method_warnings loc rule =
     (case Option.bind (json_get rule ''allow'') (\<lambda>a. get_str_field a ''method'') of
        Some m \<Rightarrow>
          if m \<noteq> [] \<and> to_ascii_uppercase m \<notin> set valid_methods
          then [loc @ '': Unknown HTTP method '' @ [CHR 0x27] @ m @ [CHR 0x27] @ ''. Standard methods: GET, HEAD, POST, PUT, DELETE, PATCH, OPTIONS.'']
          else []
      | None \<Rightarrow> [])"

definition endpoint_warnings :: "string \<Rightarrow> json \<Rightarrow> string list" where
  "endpoint_warnings loc ep =
     (let protocol = str_or_empty ep ''protocol'';
          tls = str_or_empty ep ''tls'';
          has_rules = non_empty_array ep ''rules''
      in host_wildcard_warnings loc (str_or_empty ep ''host'') @
         error_if (protocol = ''rest'' \<and> 443 \<in> set (endpoint_ports ep) \<and> tls \<noteq> ''terminate'')
           (loc @ '': L7 rules won'' @ [CHR 0x27] @ ''t be evaluated on encrypted traffic without '' @ [CHR 0x60] @ ''tls: terminate'' @ [CHR 0x60]) @
         (if has_rules \<and> protocol = ''rest''
          then concat (map (method_warnings loc) (unwrap_or (get_array_field ep ''rules'') []))
          else []))"

text \<open>The endpoints of the policy data with the place each is reported at.\<close>

definition located_endpoints :: "json \<Rightarrow> (string \<times> json) list" where
  "located_endpoints data_json =
     (case get_object_field data_json ''network_policies'' of
        None \<Rightarrow> []
      | Some policies \<Rightarrow>
          concat (map (\<lambda>(name, policy).
            case get_array_field policy ''endpoints'' of
              None \<Rightarrow> []
            | Some endpoints \<Rightarrow>
                map (\<lambda>(i, ep). (name @ ''.endpoints['' @ dec i @ '']'', ep)) (enumerate 0 endpoints)) policies))"

definition validate_l7_policies :: "json \<Rightarrow> string list \<times> string list" where
  "validate_l7_policies data_json =
     (concat (map (\<lambda>(loc, ep). endpoint_errors loc ep) (located_endpoints data_json)),
      concat (map (\<lambda>(loc, ep). endpoint_warnings loc ep) (located_endpoints data_json)))"

section \<open>Access presets\<close>

definition rule_json :: "string \<Rightarrow> string \<Rightarrow> json" where
  "rule_json m path = jobject [(''allow'', jobject [(''method'', JString m), (''path'', JString path)])]"

definition preset_rules :: "string \<Rightarrow> json list option" where
  "preset_rules access =
     (if access = ''read-only'' then
        Some [rule_json ''GET'' ''**'', rule_json ''HEAD'' ''**'', rule_json ''OPTIONS'' ''**'']
      else if access = ''read-write'' then
        Some [rule_json ''GET'' ''**'', rule_json ''HEAD'' ''**'', rule_json ''OPTIONS'' ''**'',
              rule_json ''POST'' ''**'', rule_json ''PUT'' ''**'', rule_json ''PATCH'' ''**'']
      else if access = ''full'' then Some [rule_json ''*'' ''**'']
      else None)"

definition expand_endpoint :: "json \<Rightarrow> json" where
  "expand_endpoint ep =
     (let access = str_or_empty ep ''access'' in
      if access = [] then ep
      else if non_empty_array ep ''rules'' then ep
      else case preset_rules access of
             None \<Rightarrow> ep
           | Some rules \<Rightarrow> json_set ''rules'' (JArray rules) ep)"

text \<open>Visiting every endpoint of the policy data in place.\<close>

definition map_endpoints :: "(json \<Rightarrow> json) \<Rightarrow> json \<Rightarrow> json" where
  "map_endpoints f data =
     json_update ''network_policies'' (json_map_values (json_update ''endpoints'' (json_map_items f))) data"

definition expand_access_presets :: "json \<Rightarrow> json" where
  "expand_access_presets data = map_endpoints expand_endpoint data"

section \<open>Lemmas\<close>

lemma error_if_Nil [simp]: "error_if c e = [] \<longleftrightarrow> \<not> c"
  by (simp add: error_if_def)

lemma get_object_str_Some:
  "get_object_str val k = Some s \<longleftrightarrow> get_str_field val k = Some s \<and> s \<noteq> []"
  by (cases val) (auto simp: get_object_str_def get_str_field_def Option.bind_eq_Some_conv
      split: option.splits json.splits elim!: as_str.elims)

text \<open>An endpoint that is accepted, said declaratively.\<close>

definition endpoint_safe :: "json \<Rightarrow> bool" where
  "endpoint_safe ep \<longleftrightarrow>
     (let protocol = str_or_empty ep ''protocol''; access = str_or_empty ep ''access'';
          host = str_or_empty ep ''host''; has_rules = non_empty_array ep ''rules'' in
      (str_contains host ''*'' \<longrightarrow>
         host \<notin> {''*'', ''**''} \<and> (str_starts_with host ''*.'' \<or> str_starts_with host ''**.'')) \<and>
      \<not> (positive_port ep \<noteq> None \<and> non_empty_array ep ''ports'') \<and>
      \<not> (has_rules \<and> access \<noteq> []) \<and>
      (protocol \<noteq> [] \<longrightarrow> has_rules \<or> access \<noteq> []) \<and>
      (str_or_empty ep ''tls'' = ''terminate'' \<longrightarrow> protocol \<noteq> []) \<and>
      \<not> (protocol = ''sql'' \<and> str_or_empty ep ''enforcement'' = ''enforce'') \<and>
      \<not> empty_array ep ''rules'')"

lemma host_wildcard_errors_Nil:
  "host_wildcard_errors loc host = [] \<longleftrightarrow>
   (str_contains host ''*'' \<longrightarrow>
      host \<notin> {''*'', ''**''} \<and> (str_starts_with host ''*.'' \<or> str_starts_with host ''**.''))"
  unfolding host_wildcard_errors_def by (simp del: str_starts_with_Cons)

lemma endpoint_errors_Nil: "endpoint_errors loc ep = [] \<longleftrightarrow> endpoint_safe ep"
  unfolding endpoint_errors_def endpoint_safe_def Let_def append_is_Nil_conv host_wildcard_errors_Nil error_if_Nil
  by argo

lemma validate_errors_Nil:
  "fst (validate_l7_policies d) = [] \<longleftrightarrow> list_all (\<lambda>(loc, ep). endpoint_safe ep) (located_endpoints d)"
  by (auto simp: validate_l7_policies_def list_all_iff endpoint_errors_Nil)

end
