(* ===== verification/Rego.thy ===== *)
theory Rego
  imports Json
begin

text \<open>
  The policy rules of \<open>crates/openshell-sandbox/data/sandbox-policy.rego\<close> over the policy data,
  which is JSON. A Rego expression that is undefined makes its rule body fail: a missing field
  is \<^const>\<open>None\<close> here. The built-in functions \<open>lower\<close>, \<open>upper\<close> and \<open>glob.match\<close> belong to the
  evaluator and are the fields of a parameter. The data the program loads has strings where the
  rules use strings; a field of another type counts as missing.
\<close>

record builtins =
  b_lower :: "string \<Rightarrow> string"
  b_upper :: "string \<Rightarrow> string"
  b_glob :: "string \<Rightarrow> string list \<Rightarrow> string \<Rightarrow> bool"

record net_doc =
  n_host :: string
  n_port :: nat

record exec_doc =
  x_path :: string
  x_ancestors :: "string list"
  x_cmdline :: "string list"

record request_doc =
  r_method :: string
  r_path :: string
  r_command :: "string option"

record rego_input =
  in_network :: "net_doc option"
  in_exec :: "exec_doc option"
  in_request :: "request_doc option"

section \<open>Endpoints and binaries\<close>

text \<open>\<open>endpoint.ports[_] == network.port\<close>, \<open>policy.endpoints[_]\<close>, \<open>policy.binaries[_]\<close>.\<close>

definition port_listed :: "json \<Rightarrow> nat \<Rightarrow> bool" where
  "port_listed ep port \<longleftrightarrow> JInt (int port) \<in> set (unwrap_or (get_array_field ep ''ports'') [])"

definition policy_endpoints :: "json \<Rightarrow> json list" where
  "policy_endpoints policy = unwrap_or (get_array_field policy ''endpoints'') []"

definition policy_binaries :: "json \<Rightarrow> json list" where
  "policy_binaries policy = unwrap_or (get_array_field policy ''binaries'') []"

definition has_allowed_ips :: "json \<Rightarrow> bool" where
  "has_allowed_ips ep \<longleftrightarrow> unwrap_or (get_array_field ep ''allowed_ips'') [] \<noteq> []"

definition hostless :: "json \<Rightarrow> bool" where
  "hostless ep \<longleftrightarrow> unwrap_or (json_get ep ''host'') (JString []) = JString []"

text \<open>The three rules \<open>endpoint_matches_request\<close>: exact host, host pattern, no host.\<close>

definition endpoint_matches_request :: "builtins \<Rightarrow> json \<Rightarrow> net_doc \<Rightarrow> bool" where
  "endpoint_matches_request B ep network \<longleftrightarrow>
     (case get_str_field ep ''host'' of
        Some h \<Rightarrow>
          (\<not> str_contains h ''*'' \<and> b_lower B h = b_lower B (n_host network) \<and>
             port_listed ep (n_port network)) \<or>
          (str_contains h ''*'' \<and> b_glob B (b_lower B h) [''.''] (b_lower B (n_host network)) \<and>
             port_listed ep (n_port network))
      | None \<Rightarrow> False) \<or>
     (hostless ep \<and> has_allowed_ips ep \<and> port_listed ep (n_port network))"

text \<open>The rules \<open>endpoint_allowed\<close> ask the same of some endpoint of the policy.\<close>

definition endpoint_allowed :: "builtins \<Rightarrow> json \<Rightarrow> net_doc \<Rightarrow> bool" where
  "endpoint_allowed B policy network \<longleftrightarrow>
     list_ex (\<lambda>ep. endpoint_matches_request B ep network) (policy_endpoints policy)"

definition binary_matches :: "builtins \<Rightarrow> string \<Rightarrow> exec_doc \<Rightarrow> bool" where
  "binary_matches B path exec \<longleftrightarrow>
     (\<not> str_contains path ''*'' \<and> path = x_path exec) \<or>
     (\<not> str_contains path ''*'' \<and> path \<in> set (x_ancestors exec)) \<or>
     (str_contains path ''*'' \<and> list_ex (\<lambda>p. b_glob B path [''/''] p) (x_path exec # x_ancestors exec))"

definition binary_allowed :: "builtins \<Rightarrow> json \<Rightarrow> exec_doc \<Rightarrow> bool" where
  "binary_allowed B policy exec \<longleftrightarrow>
     list_ex (\<lambda>b. case get_str_field b ''path'' of Some p \<Rightarrow> binary_matches B p exec | None \<Rightarrow> False)
       (policy_binaries policy)"

section \<open>Network access\<close>

text \<open>\<open>data.network_policies\<close>, iterated in the order of the names.\<close>

definition network_policies_of :: "json \<Rightarrow> (string \<times> json) list" where
  "network_policies_of data = unwrap_or (get_object_field data ''network_policies'') []"

definition policy_matches :: "builtins \<Rightarrow> json \<Rightarrow> rego_input \<Rightarrow> bool" where
  "policy_matches B policy inp \<longleftrightarrow>
     (case (in_network inp, in_exec inp) of
        (Some n, Some x) \<Rightarrow> endpoint_allowed B policy n \<and> binary_allowed B policy x
      | _ \<Rightarrow> False)"

definition network_policy_for_request :: "builtins \<Rightarrow> json \<Rightarrow> rego_input \<Rightarrow> bool" where
  "network_policy_for_request B data inp \<longleftrightarrow>
     list_ex (\<lambda>(name, policy). policy_matches B policy inp) (network_policies_of data)"

definition allow_network :: "builtins \<Rightarrow> json \<Rightarrow> rego_input \<Rightarrow> bool" where
  "allow_network B data inp = network_policy_for_request B data inp"

definition network_action_rule :: "builtins \<Rightarrow> json \<Rightarrow> rego_input \<Rightarrow> string" where
  "network_action_rule B data inp =
     (if network_policy_for_request B data inp then ''allow'' else ''deny'')"

definition matching_policy_names :: "builtins \<Rightarrow> json \<Rightarrow> rego_input \<Rightarrow> string list" where
  "matching_policy_names B data inp =
     map fst (filter (\<lambda>(name, policy). policy_matches B policy inp) (network_policies_of data))"

text \<open>\<open>min\<close> of the set of matching names, undefined when there is none.\<close>

definition matched_network_policy :: "builtins \<Rightarrow> json \<Rightarrow> rego_input \<Rightarrow> string option" where
  "matched_network_policy B data inp =
     (case matching_policy_names B data inp of
        [] \<Rightarrow> None
      | n # ns \<Rightarrow> Some (fold min ns n))"

section \<open>Deny reasons\<close>

definition endpoint_miss :: "net_doc \<Rightarrow> string \<Rightarrow> string" where
  "endpoint_miss n name =
     ''endpoint '' @ n_host n @ '':'' @ dec (n_port n) @ '' not in policy '' @ [CHR 0x27] @ name @ [CHR 0x27]"

definition binary_miss :: "exec_doc \<Rightarrow> string \<Rightarrow> string" where
  "binary_miss x name =
     ''binary '' @ [CHR 0x27] @ x_path x @ [CHR 0x27] @ '' (ancestors: ['' @ str_join '' -> '' (x_ancestors x) @
     ''], cmdline: ['' @ str_join '', '' (x_cmdline x) @ '']) not allowed in policy '' @ [CHR 0x27] @ name @ [CHR 0x27]"

definition all_reasons :: "builtins \<Rightarrow> json \<Rightarrow> net_doc \<Rightarrow> exec_doc \<Rightarrow> string list" where
  "all_reasons B data n x =
     map (\<lambda>(name, _). endpoint_miss n name)
       (filter (\<lambda>(_, policy). \<not> endpoint_allowed B policy n) (network_policies_of data)) @
     map (\<lambda>(name, _). binary_miss x name)
       (filter (\<lambda>(_, policy). endpoint_allowed B policy n \<and> \<not> binary_allowed B policy x)
         (network_policies_of data))"

text \<open>The four \<open>deny_reason\<close> rules; their bodies exclude each other.\<close>

definition deny_reason :: "builtins \<Rightarrow> json \<Rightarrow> rego_input \<Rightarrow> string option" where
  "deny_reason B data inp =
     (case in_network inp of
        None \<Rightarrow> Some ''missing input.network''
      | Some n \<Rightarrow>
          (case in_exec inp of
             None \<Rightarrow> Some ''missing input.exec''
           | Some x \<Rightarrow>
               if network_policy_for_request B data inp then None
               else if all_reasons B data n x \<noteq> [] then Some (str_join ''; '' (all_reasons B data n x))
               else if get_object_field data ''network_policies'' = Some []
                    then Some ''network connections not allowed by policy''
               else None))"

section \<open>Requests inside a tunnel\<close>

definition method_matches :: "builtins \<Rightarrow> string \<Rightarrow> string \<Rightarrow> bool" where
  "method_matches B actual expected \<longleftrightarrow> expected = ''*'' \<or> b_upper B actual = b_upper B expected"

definition path_matches :: "builtins \<Rightarrow> string \<Rightarrow> string \<Rightarrow> bool" where
  "path_matches B actual pattern \<longleftrightarrow> pattern = ''**'' \<or> b_glob B pattern [''/''] actual"

definition command_matches :: "builtins \<Rightarrow> string \<Rightarrow> string \<Rightarrow> bool" where
  "command_matches B actual expected \<longleftrightarrow> expected = ''*'' \<or> b_upper B actual = b_upper B expected"

definition rule_allows :: "builtins \<Rightarrow> request_doc \<Rightarrow> json \<Rightarrow> bool" where
  "rule_allows B req rule \<longleftrightarrow>
     (case json_get rule ''allow'' of
        None \<Rightarrow> False
      | Some a \<Rightarrow>
          (case (get_str_field a ''method'', get_str_field a ''path'') of
             (Some m, Some p) \<Rightarrow> method_matches B (r_method req) m \<and> path_matches B (r_path req) p
           | _ \<Rightarrow> False) \<or>
          (case (get_str_field a ''command'', r_command req) of
             (Some c, Some actual) \<Rightarrow> command_matches B actual c
           | _ \<Rightarrow> False))"

definition request_allowed_for_endpoint :: "builtins \<Rightarrow> request_doc \<Rightarrow> json \<Rightarrow> bool" where
  "request_allowed_for_endpoint B req ep \<longleftrightarrow>
     list_ex (rule_allows B req) (unwrap_or (get_array_field ep ''rules'') [])"

definition allow_request :: "builtins \<Rightarrow> json \<Rightarrow> rego_input \<Rightarrow> bool" where
  "allow_request B data inp \<longleftrightarrow>
     (case (in_network inp, in_request inp) of
        (Some n, Some req) \<Rightarrow>
          list_ex (\<lambda>(name, policy).
            policy_matches B policy inp \<and>
            list_ex (\<lambda>ep. endpoint_matches_request B ep n \<and> request_allowed_for_endpoint B req ep)
              (policy_endpoints policy)) (network_policies_of data)
      | _ \<Rightarrow> False)"

definition request_deny_reason :: "builtins \<Rightarrow> json \<Rightarrow> rego_input \<Rightarrow> string option" where
  "request_deny_reason B data inp =
     (case in_request inp of
        None \<Rightarrow> None
      | Some req \<Rightarrow>
          if allow_request B data inp then None
          else Some (r_method req @ '' '' @ r_path req @ '' not permitted by policy''))"

section \<open>The matched endpoint\<close>

text \<open>\<open>ep.protocol\<close> holds when it is there and not \<open>false\<close>.\<close>

definition endpoint_has_extended_config :: "json \<Rightarrow> bool" where
  "endpoint_has_extended_config ep \<longleftrightarrow>
     (case json_get ep ''protocol'' of None \<Rightarrow> False | Some v \<Rightarrow> v \<noteq> JBool False) \<or> has_allowed_ips ep"

definition matching_endpoint_configs :: "builtins \<Rightarrow> json \<Rightarrow> rego_input \<Rightarrow> json list" where
  "matching_endpoint_configs B data inp =
     (case in_network inp of
        None \<Rightarrow> []
      | Some n \<Rightarrow>
          concat (map (\<lambda>(name, policy).
            if policy_matches B policy inp
            then filter (\<lambda>ep. endpoint_matches_request B ep n \<and> endpoint_has_extended_config ep)
                   (policy_endpoints policy)
            else []) (network_policies_of data)))"

definition matched_endpoint_config :: "builtins \<Rightarrow> json \<Rightarrow> rego_input \<Rightarrow> json option" where
  "matched_endpoint_config B data inp =
     (case matching_endpoint_configs B data inp of [] \<Rightarrow> None | ep # _ \<Rightarrow> Some ep)"

section \<open>Lemmas\<close>

lemma matching_names_Nil:
  "matching_policy_names B data inp = [] \<longleftrightarrow> \<not> network_policy_for_request B data inp"
  by (auto simp: matching_policy_names_def network_policy_for_request_def filter_empty_conv list_ex_iff)

lemma matched_policy_None:
  "matched_network_policy B data inp = None \<longleftrightarrow> \<not> network_policy_for_request B data inp"
  by (simp add: matched_network_policy_def matching_names_Nil [symmetric] split: list.splits)

lemma fold_min_in: "fold min ns n \<in> set (n # ns)" for n :: "'a :: linorder"
  by (induction ns arbitrary: n) (auto simp: min_def)

lemma fold_min_le: "x \<in> set (n # ns) \<Longrightarrow> fold min ns n \<le> x" for n :: "'a :: linorder"
proof (induction ns arbitrary: n x)
  case (Cons m ms)
  have "fold min ms (min m n) \<le> min m n" by (rule Cons.IH) simp
  with Cons show ?case by (auto simp: min_le_iff_disj)
qed simp

lemma matched_policy_Some:
  assumes "matched_network_policy B data inp = Some k"
  shows "k \<in> set (matching_policy_names B data inp)"
    and "k' \<in> set (matching_policy_names B data inp) \<Longrightarrow> k \<le> k'"
proof -
  obtain n ns where n: "matching_policy_names B data inp = n # ns" "k = fold min ns n"
    using assms by (auto simp: matched_network_policy_def split: list.splits)
  show "k \<in> set (matching_policy_names B data inp)" unfolding n by (rule fold_min_in)
  show "k \<le> k'" if "k' \<in> set (matching_policy_names B data inp)"
    using fold_min_le that unfolding n .
qed

lemma allow_request_needs_network:
  "allow_request B data inp \<Longrightarrow> network_policy_for_request B data inp"
  by (auto simp: allow_request_def network_policy_for_request_def list_ex_iff split: option.splits)

lemma deny_reason_None:
  assumes "in_network inp = Some n" "in_exec inp = Some x" "get_object_field data ''network_policies'' = Some ps"
  shows "deny_reason B data inp = None \<longleftrightarrow> network_policy_for_request B data inp"
proof (cases "network_policy_for_request B data inp")
  case False
  have "all_reasons B data n x \<noteq> []" if "ps \<noteq> []"
  proof -
    obtain k p rest where ps: "ps = (k, p) # rest" using \<open>ps \<noteq> []\<close> by (cases ps) auto
    with False assms have "\<not> (endpoint_allowed B p n \<and> binary_allowed B p x)"
      by (auto simp: network_policy_for_request_def network_policies_of_def policy_matches_def)
    then show ?thesis
      using assms ps by (auto simp: all_reasons_def network_policies_of_def)
  qed
  with False assms show ?thesis by (auto simp: deny_reason_def)
qed (use assms in \<open>simp add: deny_reason_def\<close>)

end
