(* ===== verification/Opa.thy ===== *)
theory Opa
  imports Policy L7Policy Rego
begin

text \<open>
  The policy engine, \<open>crates/openshell-sandbox/src/opa.rs\<close>, and the runtime policy of
  \<open>src/policy.rs\<close>: loading policy data from YAML or from the wire policy (normalisation,
  validation, preset expansion), the queries of the proxy and the last-known-good reload.
  The engine's state is the policy data it was loaded with; its queries are the rules of
  \<^theory_text>\<open>Rego\<close>. Policy texts and data are accepted or refused by the evaluator, YAML is parsed by
  \<open>serde_yaml\<close>: these are fields of the parameter \<open>regorus\<close>. JSON values that are printed and
  parsed again within one function are passed on as values.
\<close>

section \<open>The runtime policy\<close>

datatype network_mode = Block | Proxied | AllowAll
datatype landlock_compatibility = BestEffort | HardRequirement

record fs_config =
  fc_read_only :: "string list"
  fc_read_write :: "string list"
  fc_include_workdir :: bool

record proxy_policy =
  pr_http_addr :: "string option"

record network_config =
  nc_mode :: network_mode
  nc_proxy :: "proxy_policy option"

record process_config =
  pc_run_as_user :: "string option"
  pc_run_as_group :: "string option"

record runtime_policy =
  rp_version :: u32
  rp_filesystem :: fs_config
  rp_network :: network_config
  rp_landlock :: landlock_compatibility
  rp_process :: process_config

definition fs_config_default :: fs_config where
  "fs_config_default = \<lparr>fc_read_only = [], fc_read_write = [], fc_include_workdir = True\<rparr>"

definition network_config_default :: network_config where
  "network_config_default = \<lparr>nc_mode = Block, nc_proxy = None\<rparr>"

definition fs_config_from :: "filesystem_policy \<Rightarrow> fs_config" where
  "fs_config_from p =
     \<lparr>fc_read_only = map normalize_path (fs_read_only p),
      fc_read_write = map normalize_path (fs_read_write p),
      fc_include_workdir = fs_include_workdir p\<rparr>"

definition landlock_from :: "string \<Rightarrow> landlock_compatibility" where
  "landlock_from s = (if s = ''hard_requirement'' then HardRequirement else BestEffort)"

definition non_empty :: "string \<Rightarrow> string option" where
  "non_empty s = (if s = [] then None else Some s)"

definition process_config_from :: "process_policy \<Rightarrow> process_config" where
  "process_config_from p =
     \<lparr>pc_run_as_user = non_empty (pp_run_as_user p), pc_run_as_group = non_empty (pp_run_as_group p)\<rparr>"

definition runtime_policy_try_from :: "sandbox_policy \<Rightarrow> runtime_policy" where
  "runtime_policy_try_from p =
     \<lparr>rp_version = sp_version p,
      rp_filesystem = (case sp_filesystem p of Some f \<Rightarrow> fs_config_from f | None \<Rightarrow> fs_config_default),
      rp_network = \<lparr>nc_mode = Proxied, nc_proxy = Some \<lparr>pr_http_addr = None\<rparr>\<rparr>,
      rp_landlock = (case sp_landlock p of Some l \<Rightarrow> landlock_from (ll_compatibility l) | None \<Rightarrow> BestEffort),
      rp_process = (case sp_process p of Some q \<Rightarrow> process_config_from q
                    | None \<Rightarrow> \<lparr>pc_run_as_user = None, pc_run_as_group = None\<rparr>)\<rparr>"

section \<open>Policy data\<close>

definition endpoint_json_ports :: "network_endpoint \<Rightarrow> u32 list" where
  "endpoint_json_ports e =
     (if ep_ports e \<noteq> [] then ep_ports e else if 0 < ep_port e then [ep_port e] else [])"

definition set_unless_empty :: "string \<Rightarrow> string \<Rightarrow> json \<Rightarrow> json" where
  "set_unless_empty k v j = (if v = [] then j else json_set k (JString v) j)"

definition rule_to_json :: "l7_rule \<Rightarrow> json" where
  "rule_to_json r =
     (let part = (\<lambda>f. JString (case lr_allow r of Some a \<Rightarrow> f a | None \<Rightarrow> [])) in
      jobject [(''allow'', jobject [(''method'', part la_method), (''path'', part la_path),
        (''command'', part la_command)])])"

definition endpoint_to_json :: "network_endpoint \<Rightarrow> json" where
  "endpoint_to_json e =
     (let ep = jobject [(''host'', JString (ep_host e)),
                 (''ports'', JArray (map (\<lambda>p. JInt (int (unat p))) (endpoint_json_ports e)))];
          ep = set_unless_empty ''protocol'' (ep_protocol e) ep;
          ep = set_unless_empty ''tls'' (ep_tls e) ep;
          ep = set_unless_empty ''enforcement'' (ep_enforcement e) ep;
          ep = set_unless_empty ''access'' (ep_access e) ep;
          ep = (if ep_rules e = [] then ep else json_set ''rules'' (JArray (map rule_to_json (ep_rules e))) ep)
      in if ep_allowed_ips e = [] then ep
         else json_set ''allowed_ips'' (JArray (map JString (ep_allowed_ips e))) ep)"

definition policy_rule_to_json :: "network_policy_rule \<Rightarrow> json" where
  "policy_rule_to_json r =
     jobject [(''name'', JString (npr_name r)),
       (''endpoints'', JArray (map endpoint_to_json (npr_endpoints r))),
       (''binaries'', JArray (map (\<lambda>b. jobject [(''path'', JString (nb_path b))]) (npr_binaries r)))]"

definition proto_to_opa_data_json :: "sandbox_policy \<Rightarrow> json" where
  "proto_to_opa_data_json p =
     jobject
       [(''filesystem_policy'',
         case sp_filesystem p of
           None \<Rightarrow> jobject [(''include_workdir'', JBool True), (''read_only'', JArray []), (''read_write'', JArray [])]
         | Some fs \<Rightarrow> jobject [(''include_workdir'', JBool (fs_include_workdir fs)),
             (''read_only'', JArray (map JString (fs_read_only fs))),
             (''read_write'', JArray (map JString (fs_read_write fs)))]),
        (''landlock'',
         jobject [(''compatibility'',
           JString (case sp_landlock p of None \<Rightarrow> ''best_effort'' | Some l \<Rightarrow> ll_compatibility l))]),
        (''process'',
         case sp_process p of
           None \<Rightarrow> jobject [(''run_as_user'', JString ''sandbox''), (''run_as_group'', JString ''sandbox'')]
         | Some q \<Rightarrow> jobject [(''run_as_user'', JString (pp_run_as_user q)),
             (''run_as_group'', JString (pp_run_as_group q))]),
        (''network_policies'', jobject (map_entries (\<lambda>_. policy_rule_to_json) (sp_network_policies p)))]"

text \<open>\<open>port\<close> becomes \<open>ports\<close>, in every endpoint object.\<close>

definition normalize_ports :: "json \<Rightarrow> json" where
  "normalize_ports ep =
     (case ep of
        JObject m \<Rightarrow>
          let has_ports = non_empty_array ep ''ports'';
              port = unwrap_or (Option.bind (json_get ep ''port'') as_u64) 0;
              ep' = (if \<not> has_ports \<and> 0 < port then json_set ''ports'' (JArray [JInt (int port)]) ep else ep)
          in json_remove ''port'' ep'
      | _ \<Rightarrow> ep)"

definition normalize_endpoint_ports :: "json \<Rightarrow> json" where
  "normalize_endpoint_ports data = map_endpoints normalize_ports data"

record regorus =
  add_policy :: "string \<Rightarrow> string + unit"
  add_data_json :: "json \<Rightarrow> string + unit"
  yaml_value :: "string \<Rightarrow> string + json"

text \<open>Validation before expansion, shared by both ways of loading.\<close>

definition validate_and_expand :: "json \<Rightarrow> string + json" where
  "validate_and_expand data =
     (let errors = fst (validate_l7_policies data) in
      if errors \<noteq> [] then Inl (''L7 policy validation failed:'' @ [CHR 0x0A] @ str_join [CHR 0x0A] errors)
      else Inr (expand_access_presets data))"

definition preprocess_yaml_data :: "regorus \<Rightarrow> string \<Rightarrow> string + json" where
  "preprocess_yaml_data R yaml_str =
     (case yaml_value R yaml_str of
        Inl e \<Rightarrow> Inl (''failed to parse YAML data: '' @ e)
      | Inr data \<Rightarrow> validate_and_expand (normalize_endpoint_ports data))"

section \<open>The engine\<close>

record opa_engine =
  eng_data :: json

definition load_data :: "regorus \<Rightarrow> json \<Rightarrow> string + opa_engine" where
  "load_data R data = and_then (add_data_json R data) (\<lambda>_. Inr \<lparr>eng_data = data\<rparr>)"

definition from_strings :: "regorus \<Rightarrow> string \<Rightarrow> string \<Rightarrow> string + opa_engine" where
  "from_strings R policy data_yaml =
     and_then (add_policy R policy) (\<lambda>_.
     and_then (preprocess_yaml_data R data_yaml) (load_data R))"

definition from_files ::
    "regorus \<Rightarrow> (string \<Rightarrow> string + string) \<Rightarrow> string \<Rightarrow> string \<Rightarrow> string + opa_engine" where
  "from_files R read_to_string policy_path data_path =
     (case read_to_string data_path of
        Inl e \<Rightarrow> Inl (''failed to read YAML data from '' @ data_path @ '': '' @ e)
      | Inr yaml_str \<Rightarrow>
          and_then (read_to_string policy_path) (\<lambda>policy. from_strings R policy yaml_str))"

definition engine_from_proto :: "regorus \<Rightarrow> string \<Rightarrow> sandbox_policy \<Rightarrow> string + opa_engine" where
  "engine_from_proto R BAKED_POLICY_RULES proto =
     and_then (validate_and_expand (proto_to_opa_data_json proto)) (\<lambda>data.
     and_then (add_policy R BAKED_POLICY_RULES) (\<lambda>_. load_data R data))"

text \<open>A reload keeps the engine when the new one cannot be built.\<close>

definition reload_with :: "string + opa_engine \<Rightarrow> opa_engine \<Rightarrow> (string + unit) \<times> opa_engine" where
  "reload_with new eng = (case new of Inl e \<Rightarrow> (Inl e, eng) | Inr eng' \<Rightarrow> (Inr (), eng'))"

definition reload :: "regorus \<Rightarrow> string \<Rightarrow> string \<Rightarrow> opa_engine \<Rightarrow> (string + unit) \<times> opa_engine" where
  "reload R policy data_yaml eng = reload_with (from_strings R policy data_yaml) eng"

definition reload_from_proto ::
    "regorus \<Rightarrow> string \<Rightarrow> sandbox_policy \<Rightarrow> opa_engine \<Rightarrow> (string + unit) \<times> opa_engine" where
  "reload_from_proto R baked proto eng = reload_with (engine_from_proto R baked proto) eng"

section \<open>Queries\<close>

record network_input =
  ni_host :: string
  ni_port :: u16
  ni_binary_path :: string
  ni_binary_sha256 :: string
  ni_ancestors :: "string list"
  ni_cmdline_paths :: "string list"

record policy_decision =
  pd_allowed :: bool
  pd_reason :: string
  pd_matched_policy :: "string option"

datatype network_action = AllowNet "string option" | DenyNet string

definition input_doc :: "network_input \<Rightarrow> rego_input" where
  "input_doc i =
     \<lparr>in_network = Some \<lparr>n_host = ni_host i, n_port = unat (ni_port i)\<rparr>,
      in_exec = Some \<lparr>x_path = from_utf8_lossy (ni_binary_path i),
        x_ancestors = map from_utf8_lossy (ni_ancestors i),
        x_cmdline = map from_utf8_lossy (ni_cmdline_paths i)\<rparr>,
      in_request = None\<rparr>"

definition evaluate_network :: "builtins \<Rightarrow> opa_engine \<Rightarrow> network_input \<Rightarrow> policy_decision" where
  "evaluate_network B eng i =
     \<lparr>pd_allowed = allow_network B (eng_data eng) (input_doc i),
      pd_reason = unwrap_or (deny_reason B (eng_data eng) (input_doc i)) '''',
      pd_matched_policy = matched_network_policy B (eng_data eng) (input_doc i)\<rparr>"

definition evaluate_network_action :: "builtins \<Rightarrow> opa_engine \<Rightarrow> network_input \<Rightarrow> network_action" where
  "evaluate_network_action B eng i =
     (let action_str = network_action_rule B (eng_data eng) (input_doc i);
          matched_policy = matched_network_policy B (eng_data eng) (input_doc i)
      in if action_str = ''allow'' then AllowNet matched_policy
         else DenyNet (unwrap_or (deny_reason B (eng_data eng) (input_doc i)) ''''))"

definition query_endpoint_config :: "builtins \<Rightarrow> opa_engine \<Rightarrow> network_input \<Rightarrow> json option" where
  "query_endpoint_config B eng i = matched_endpoint_config B (eng_data eng) (input_doc i)"

definition get_str :: "json \<Rightarrow> string \<Rightarrow> string option" where
  "get_str val key = get_str_field val key"

definition get_bool :: "json \<Rightarrow> string \<Rightarrow> bool option" where
  "get_bool val key = Option.bind (json_get val key) as_bool"

definition get_str_array :: "json \<Rightarrow> string \<Rightarrow> string list" where
  "get_str_array val key = (case get_array_field val key of Some arr \<Rightarrow> strs arr | None \<Rightarrow> [])"

definition query_allowed_ips_engine :: "builtins \<Rightarrow> opa_engine \<Rightarrow> network_input \<Rightarrow> string list" where
  "query_allowed_ips_engine B eng i =
     (case query_endpoint_config B eng i of Some val \<Rightarrow> get_str_array val ''allowed_ips'' | None \<Rightarrow> [])"

definition parse_filesystem_policy :: "json \<Rightarrow> fs_config" where
  "parse_filesystem_policy val =
     \<lparr>fc_read_only = get_str_array val ''read_only'', fc_read_write = get_str_array val ''read_write'',
      fc_include_workdir = unwrap_or (get_bool val ''include_workdir'') True\<rparr>"

definition parse_landlock_policy :: "json \<Rightarrow> landlock_compatibility" where
  "parse_landlock_policy val = landlock_from (unwrap_or (get_str val ''compatibility'') '''')"

definition parse_process_policy :: "json \<Rightarrow> process_config" where
  "parse_process_policy val =
     \<lparr>pc_run_as_user = get_str val ''run_as_user'', pc_run_as_group = get_str val ''run_as_group''\<rparr>"

record sandbox_config =
  sc_filesystem :: fs_config
  sc_landlock :: landlock_compatibility
  sc_process :: process_config

text \<open>A rule that is undefined gives a value without fields.\<close>

definition query_sandbox_config :: "opa_engine \<Rightarrow> sandbox_config" where
  "query_sandbox_config eng =
     (let rule = (\<lambda>k. unwrap_or (json_get (eng_data eng) k) JNull) in
      \<lparr>sc_filesystem = parse_filesystem_policy (rule ''filesystem_policy''),
       sc_landlock = parse_landlock_policy (rule ''landlock''),
       sc_process = parse_process_policy (rule ''process'')\<rparr>)"

end
