(* ===== verification/OpaProps.thy ===== *)
theory OpaProps
  imports Opa
begin

text \<open>
  What the policy engine decides. The wire policy is the specification: a request is allowed
  exactly when one of its rules lists a matching endpoint and a matching binary
  (\<open>rule_covers\<close>), and a request inside a tunnel when such an endpoint's rules or preset permit
  it (\<open>endpoint_permits\<close>). The lemmas carry this through the JSON data, its validation and the
  preset expansion. The locale \<open>last_known_good\<close> is the contract of a reload.
\<close>

section \<open>Fields of the policy data\<close>

definition is_object :: "json \<Rightarrow> bool" where
  "is_object j \<longleftrightarrow> (\<exists>m. j = JObject m)"

lemma json_get_set_object:
  "is_object j \<Longrightarrow> json_get (json_set k x j) k' = (if k' = k then Some x else json_get j k')"
  by (auto simp: is_object_def map_of_bt_insert)

lemma is_object_simps [simp]:
  "is_object (jobject es)" "is_object (JObject m)"
  "is_object (json_set k x j) = is_object j"
  "is_object (set_unless_empty k v j) = is_object j"
  by (cases j; auto simp: is_object_def jobject_def set_unless_empty_def)+

lemma json_get_set_unless:
  "is_object j \<Longrightarrow>
   json_get (set_unless_empty k v j) k' = (if k' = k \<and> v \<noteq> [] then Some (JString v) else json_get j k')"
  by (auto simp: set_unless_empty_def json_get_set_object)

lemma endpoint_to_json_object: "is_object (endpoint_to_json e)"
  by (simp add: endpoint_to_json_def Let_def)

lemma endpoint_to_json_get:
  "json_get (endpoint_to_json e) ''host'' = Some (JString (ep_host e))"
  "json_get (endpoint_to_json e) ''ports'' =
     Some (JArray (map (\<lambda>p. JInt (int (unat p))) (endpoint_json_ports e)))"
  "json_get (endpoint_to_json e) ''allowed_ips'' =
     (if ep_allowed_ips e = [] then None else Some (JArray (map JString (ep_allowed_ips e))))"
  "json_get (endpoint_to_json e) ''access'' = (if ep_access e = [] then None else Some (JString (ep_access e)))"
  "json_get (endpoint_to_json e) ''rules'' =
     (if ep_rules e = [] then None else Some (JArray (map rule_to_json (ep_rules e))))"
  "json_get (endpoint_to_json e) ''protocol'' = (if ep_protocol e = [] then None else Some (JString (ep_protocol e)))"
  by (simp_all add: endpoint_to_json_def Let_def json_get_set_object json_get_set_unless json_get_jobject)

lemma expand_endpoint_get:
  assumes "k \<noteq> ''rules''"
  shows "json_get (expand_endpoint ep) k = json_get ep k"
  using assms
  by (cases ep) (auto simp: expand_endpoint_def Let_def map_of_bt_insert split: option.splits)

lemma policy_endpoints_update:
  "policy_endpoints (json_update ''endpoints'' (json_map_items f) p) = map f (policy_endpoints p)"
proof -
  have "as_array (json_map_items f v) = map_option (map f) (as_array v)" for v by (cases v) simp_all
  then show ?thesis
    by (cases "json_get p ''endpoints''"; cases "as_array (the (json_get p ''endpoints''))")
      (auto simp: policy_endpoints_def get_array_field_def json_get_update)
qed

lemma policy_binaries_update:
  "policy_binaries (json_update ''endpoints'' f p) = policy_binaries p"
  by (cases "json_get p ''binaries''") (simp_all add: policy_binaries_def get_array_field_def json_get_update)

lemma network_policies_of_map:
  "network_policies_of (map_endpoints f data) =
   map_entries (\<lambda>_. json_update ''endpoints'' (json_map_items f)) (network_policies_of data)"
proof -
  have "as_object (json_map_values g v) = map_option (map_entries (\<lambda>_. g)) (as_object v)" for g v
    by (cases v) simp_all
  then show ?thesis
    by (cases "json_get data ''network_policies''"; cases "as_object (the (json_get data ''network_policies''))")
      (auto simp: network_policies_of_def get_object_field_def map_endpoints_def json_get_update map_entries_def)
qed

lemma list_ex_map_entries: "list_ex P (map_entries f m) \<longleftrightarrow> list_ex (\<lambda>(k, v). P (k, f k v)) m"
  by (induction m) (auto simp: map_entries_def)

lemma set_bt_collect:
  assumes "hm_ok m" shows "set (bt_collect m) = set m"
proof -
  have d: "distinct (map fst m)" using assms by (simp add: hm_ok_def)
  have "x \<in> set (bt_collect m) \<longleftrightarrow> x \<in> set m" for x
    using map_of_bt_collect_ok [OF assms] d bt_ok_distinct [OF bt_ok_collect [of m]]
    by (cases x) (metis map_of_eq_Some_iff)
  then show ?thesis by blast
qed

lemma list_ex_collect: "hm_ok m \<Longrightarrow> list_ex P (bt_collect m) \<longleftrightarrow> list_ex P m"
  by (simp add: list_ex_iff set_bt_collect)

section \<open>Decisions, on the wire policy\<close>

definition endpoint_covers :: "builtins \<Rightarrow> network_endpoint \<Rightarrow> net_doc \<Rightarrow> bool" where
  "endpoint_covers B e n \<longleftrightarrow>
     n_port n \<in> unat ` set (endpoint_json_ports e) \<and>
     (if str_contains (ep_host e) ''*''
      then b_glob B (b_lower B (ep_host e)) [''.''] (b_lower B (n_host n))
      else b_lower B (ep_host e) = b_lower B (n_host n) \<or> (ep_host e = [] \<and> ep_allowed_ips e \<noteq> []))"

definition rule_covers :: "builtins \<Rightarrow> network_policy_rule \<Rightarrow> net_doc \<Rightarrow> exec_doc \<Rightarrow> bool" where
  "rule_covers B r n x \<longleftrightarrow>
     list_ex (\<lambda>e. endpoint_covers B e n) (npr_endpoints r) \<and>
     list_ex (\<lambda>b. binary_matches B (nb_path b) x) (npr_binaries r)"

definition rule_permits :: "builtins \<Rightarrow> request_doc \<Rightarrow> l7_rule \<Rightarrow> bool" where
  "rule_permits B req r \<longleftrightarrow>
     (let a = unwrap_or (lr_allow r) l7_allow_default in
      (method_matches B (r_method req) (la_method a) \<and> path_matches B (r_path req) (la_path a)) \<or>
      (case r_command req of Some c \<Rightarrow> command_matches B c (la_command a) | None \<Rightarrow> False))"

definition preset_methods :: "string \<Rightarrow> string list" where
  "preset_methods access =
     (if access = ''read-only'' then [''GET'', ''HEAD'', ''OPTIONS'']
      else if access = ''read-write'' then [''GET'', ''HEAD'', ''OPTIONS'', ''POST'', ''PUT'', ''PATCH'']
      else if access = ''full'' then [''*''] else [])"

definition endpoint_permits :: "builtins \<Rightarrow> network_endpoint \<Rightarrow> request_doc \<Rightarrow> bool" where
  "endpoint_permits B e req \<longleftrightarrow>
     (if ep_rules e \<noteq> [] then list_ex (rule_permits B req) (ep_rules e)
      else list_ex (method_matches B (r_method req)) (preset_methods (ep_access e)))"

lemma star_not_empty: "\<not> str_contains [] ''*''"
  by (simp add: str_contains_char)

lemma port_in_json:
  "JInt (int q) \<in> set (map (\<lambda>p :: u32. JInt (int (unat p))) ps) \<longleftrightarrow> q \<in> unat ` set ps"
  by (induction ps) (simp_all del: of_nat_unat, blast?)

lemma endpoint_matches_json:
  "endpoint_matches_request B (endpoint_to_json e) n \<longleftrightarrow> endpoint_covers B e n"
proof -
  have port: "port_listed (endpoint_to_json e) (n_port n) \<longleftrightarrow> n_port n \<in> unat ` set (endpoint_json_ports e)"
    by (simp only: port_listed_def get_array_field_def endpoint_to_json_get Option.bind.bind_lunit
        as_array.simps unwrap_or_simps port_in_json)
  have ips: "has_allowed_ips (endpoint_to_json e) \<longleftrightarrow> ep_allowed_ips e \<noteq> []"
    by (simp add: has_allowed_ips_def get_array_field_def endpoint_to_json_get)
  have host: "hostless (endpoint_to_json e) \<longleftrightarrow> ep_host e = []"
    by (simp add: hostless_def endpoint_to_json_get)
  show ?thesis
    using star_not_empty
    by (auto simp: endpoint_matches_request_def endpoint_covers_def get_str_field_def
        endpoint_to_json_get(1) port ips host)
qed

lemma endpoint_matches_expand:
  "endpoint_matches_request B (expand_endpoint ep) n \<longleftrightarrow> endpoint_matches_request B ep n"
proof -
  have "port_listed (expand_endpoint ep) q \<longleftrightarrow> port_listed ep q" for q
    by (simp add: port_listed_def get_array_field_def expand_endpoint_get)
  moreover have "hostless (expand_endpoint ep) = hostless ep" "has_allowed_ips (expand_endpoint ep) = has_allowed_ips ep"
    "get_str_field (expand_endpoint ep) ''host'' = get_str_field ep ''host''"
    by (simp_all add: hostless_def has_allowed_ips_def get_str_field_def get_array_field_def expand_endpoint_get)
  ultimately show ?thesis by (simp add: endpoint_matches_request_def cong: option.case_cong)
qed

definition endpoint_data :: "network_endpoint \<Rightarrow> json" where
  "endpoint_data e = expand_endpoint (endpoint_to_json e)"

definition policy_data :: "network_policy_rule \<Rightarrow> json" where
  "policy_data r = json_update ''endpoints'' (json_map_items expand_endpoint) (policy_rule_to_json r)"

lemma policy_rule_parts:
  "policy_endpoints (policy_rule_to_json r) = map endpoint_to_json (npr_endpoints r)"
  "policy_binaries (policy_rule_to_json r) =
     map (\<lambda>b. jobject [(''path'', JString (nb_path b))]) (npr_binaries r)"
  by (simp_all add: policy_endpoints_def policy_binaries_def policy_rule_to_json_def get_array_field_def
      json_get_jobject)

lemma policy_data_parts:
  "policy_endpoints (policy_data r) = map endpoint_data (npr_endpoints r)"
  "policy_binaries (policy_data r) =
     map (\<lambda>b. jobject [(''path'', JString (nb_path b))]) (npr_binaries r)"
  by (simp_all add: policy_data_def policy_endpoints_update policy_binaries_update policy_rule_parts
      endpoint_data_def comp_def)

lemma policy_matches_data:
  "policy_matches B (policy_data r) inp \<longleftrightarrow>
   (\<exists>n x. in_network inp = Some n \<and> in_exec inp = Some x \<and> rule_covers B r n x)"
proof -
  have "endpoint_allowed B (policy_data r) n \<longleftrightarrow> list_ex (\<lambda>e. endpoint_covers B e n) (npr_endpoints r)" for n
    by (auto simp: endpoint_allowed_def policy_data_parts endpoint_data_def list_ex_iff
        endpoint_matches_expand endpoint_matches_json)
  moreover have "binary_allowed B (policy_data r) x \<longleftrightarrow>
      list_ex (\<lambda>b. binary_matches B (nb_path b) x) (npr_binaries r)" for x
    by (auto simp: binary_allowed_def policy_data_parts list_ex_iff get_str_field_def json_get_jobject)
  ultimately show ?thesis
    by (auto simp: policy_matches_def rule_covers_def split: option.splits)
qed

text \<open>The policies of an engine loaded from a wire policy.\<close>

lemma engine_policies:
  assumes "engine_from_proto R baked p = Inr eng"
  shows "network_policies_of (eng_data eng) = bt_collect (map_entries (\<lambda>_. policy_data) (sp_network_policies p))"
proof -
  have d: "eng_data eng = expand_access_presets (proto_to_opa_data_json p)"
    using assms by (auto simp: engine_from_proto_def validate_and_expand_def and_then_eq_Inr load_data_def
        Let_def split: if_splits)
  have "network_policies_of (proto_to_opa_data_json p) =
        bt_collect (map_entries (\<lambda>_. policy_rule_to_json) (sp_network_policies p))"
    unfolding network_policies_of_def get_object_field_def proto_to_opa_data_json_def
    by (simp add: json_get_jobject jobject_def [of "map_entries _ _"])
  then show ?thesis
    by (simp add: d expand_access_presets_def network_policies_of_map bt_collect_map_entries [symmetric]
        map_entries_comp policy_data_def [abs_def])
qed

lemma engine_network:
  assumes "engine_from_proto R baked p = Inr eng" "hm_ok (sp_network_policies p)"
    "in_network inp = Some n" "in_exec inp = Some x"
  shows "network_policy_for_request B (eng_data eng) inp \<longleftrightarrow>
         list_ex (\<lambda>(k, r). rule_covers B r n x) (sp_network_policies p)"
  using assms(2-4)
  by (simp add: network_policy_for_request_def engine_policies [OF assms(1)] list_ex_collect
      list_ex_map_entries policy_matches_data case_prod_beta')

section \<open>Requests inside a tunnel, on the wire policy\<close>

lemma rule_json_get:
  "json_get (rule_json m p) ''allow'' = Some (jobject [(''method'', JString m), (''path'', JString p)])"
  by (simp add: rule_json_def json_get_jobject)

lemma rule_allows_preset: "rule_allows B req (rule_json m ''**'') \<longleftrightarrow> method_matches B (r_method req) m"
  by (simp add: rule_allows_def rule_json_get get_str_field_def json_get_jobject path_matches_def)

lemma rule_allows_json: "rule_allows B req (rule_to_json r) \<longleftrightarrow> rule_permits B req r"
  by (cases "lr_allow r"; cases "r_command req")
    (simp_all add: rule_allows_def rule_to_json_def Let_def json_get_jobject get_str_field_def
      rule_permits_def l7_allow_default_def)

lemma request_allowed_data:
  "request_allowed_for_endpoint B req (endpoint_data e) \<longleftrightarrow> endpoint_permits B e req"
proof (cases "ep_rules e = []")
  case False
  then have "endpoint_data e = endpoint_to_json e"
    by (simp add: endpoint_data_def expand_endpoint_def Let_def non_empty_array_def get_array_field_def
        endpoint_to_json_get)
  with False show ?thesis
    by (simp add: request_allowed_for_endpoint_def get_array_field_def endpoint_to_json_get endpoint_permits_def
        list_ex_iff rule_allows_json)
next
  case True
  have acc: "str_or_empty (endpoint_to_json e) ''access'' = ep_access e"
    by (simp add: str_or_empty_def get_str_field_def endpoint_to_json_get)
  have no_rules: "\<not> non_empty_array (endpoint_to_json e) ''rules''"
    using True by (simp add: non_empty_array_def get_array_field_def endpoint_to_json_get)
  have "json_get (endpoint_data e) ''rules'' =
        (if ep_access e = [] then None else map_option JArray (preset_rules (ep_access e)))"
    using True
    by (auto simp: endpoint_data_def expand_endpoint_def Let_def acc no_rules endpoint_to_json_get
        json_get_set_object endpoint_to_json_object split: option.splits)
  with True show ?thesis
    by (auto simp: request_allowed_for_endpoint_def get_array_field_def endpoint_permits_def preset_rules_def
        preset_methods_def rule_allows_preset)
qed

lemma engine_request:
  assumes "engine_from_proto R baked p = Inr eng" "hm_ok (sp_network_policies p)"
    "in_network inp = Some n" "in_exec inp = Some x" "in_request inp = Some req"
  shows "allow_request B (eng_data eng) inp \<longleftrightarrow>
         list_ex (\<lambda>(k, r). rule_covers B r n x \<and>
           list_ex (\<lambda>e. endpoint_covers B e n \<and> endpoint_permits B e req) (npr_endpoints r))
           (sp_network_policies p)"
proof -
  have ep: "list_ex (\<lambda>ep. endpoint_matches_request B ep n \<and> request_allowed_for_endpoint B req ep)
      (policy_endpoints (policy_data r)) \<longleftrightarrow>
    list_ex (\<lambda>e. endpoint_covers B e n \<and> endpoint_permits B e req) (npr_endpoints r)" for r
    by (auto simp: policy_data_parts list_ex_iff request_allowed_data)
      (auto simp: endpoint_data_def endpoint_matches_expand endpoint_matches_json)
  show ?thesis
    using assms(2-5)
    by (simp add: allow_request_def engine_policies [OF assms(1)] list_ex_collect list_ex_map_entries
        policy_matches_data ep case_prod_beta')
qed

section \<open>Last known good\<close>

locale last_known_good =
  fixes build :: "'src \<Rightarrow> 'e + 'eng" and reload :: "'src \<Rightarrow> 'eng \<Rightarrow> ('e + unit) \<times> 'eng"
  assumes reload_ok: "build src = Inr new \<Longrightarrow> reload src old = (Inr (), new)"
    and reload_err: "build src = Inl e \<Longrightarrow> reload src old = (Inl e, old)"
begin

lemma reload_state: "snd (reload src old) = (case build src of Inr new \<Rightarrow> new | Inl _ \<Rightarrow> old)"
  by (cases "build src") (simp_all add: reload_ok reload_err)

lemma reload_succeeds_iff: "fst (reload src old) = Inr () \<longleftrightarrow> is_ok (build src)"
  by (cases "build src") (simp_all add: reload_ok reload_err)

text \<open>After any sequence of reloads the engine is the last one that could be built.\<close>

lemma reload_sequence:
  "fold (\<lambda>src eng. snd (reload src eng)) srcs old =
   last (old # List.map_filter (\<lambda>src. case build src of Inr new \<Rightarrow> Some new | Inl _ \<Rightarrow> None) srcs)"
  by (induction srcs arbitrary: old) (auto simp: reload_state map_filter_def split: sum.splits)

end

interpretation proto: last_known_good "engine_from_proto R baked" "reload_from_proto R baked" for R baked
  by unfold_locales (simp_all add: reload_from_proto_def reload_with_def)

interpretation yaml: last_known_good "\<lambda>(policy, data). from_strings R policy data"
    "\<lambda>(policy, data). reload R policy data" for R
  by unfold_locales (auto simp: reload_def reload_with_def)

section \<open>Properties\<close>

lemma str_join_Nil_iff: "\<forall>s \<in> set ss. s \<noteq> [] \<Longrightarrow> str_join sep ss = [] \<longleftrightarrow> ss = []"
  by (induction ss rule: induct_list012) auto

lemma all_reasons_text: "s \<in> set (all_reasons B data n x) \<Longrightarrow> s \<noteq> []"
  by (auto simp: all_reasons_def endpoint_miss_def binary_miss_def)

lemma deny_reason_text: "deny_reason B data inp = Some s \<Longrightarrow> s \<noteq> []"
  using all_reasons_text
  by (auto simp: deny_reason_def str_join_Nil_iff split: option.splits if_splits)

lemma input_doc_parts:
  "in_network (input_doc i) = Some \<lparr>n_host = ni_host i, n_port = unat (ni_port i)\<rparr>"
  "in_exec (input_doc i) = Some \<lparr>x_path = from_utf8_lossy (ni_binary_path i),
     x_ancestors = map from_utf8_lossy (ni_ancestors i), x_cmdline = map from_utf8_lossy (ni_cmdline_paths i)\<rparr>"
  by (simp_all add: input_doc_def)

lemma engine_policies_order:
  "engine_from_proto R baked p = Inr eng \<Longrightarrow>
   network_policies_of (eng_data eng) = map_entries (\<lambda>_. policy_data) (bt_collect (sp_network_policies p))"
  by (simp add: engine_policies bt_collect_map_entries)

lemma engine_has_policies:
  assumes "engine_from_proto R baked p = Inr eng"
  shows "\<exists>ps. get_object_field (eng_data eng) ''network_policies'' = Some ps"
proof -
  have d: "eng_data eng = expand_access_presets (proto_to_opa_data_json p)"
    using assms by (auto simp: engine_from_proto_def validate_and_expand_def and_then_eq_Inr load_data_def
        Let_def split: if_splits)
  show ?thesis
    unfolding d expand_access_presets_def map_endpoints_def get_object_field_def json_get_update
      proto_to_opa_data_json_def
    by (simp add: json_get_jobject jobject_def [of "map_entries _ _"])
qed

section \<open>Properties\<close>

lemma network_action_covers:
  assumes "engine_from_proto R baked p = Inr eng" "hm_ok (sp_network_policies p)"
    "n = \<lparr>n_host = ni_host i, n_port = unat (ni_port i)\<rparr>"
    "x = \<lparr>x_path = from_utf8_lossy (ni_binary_path i), x_ancestors = map from_utf8_lossy (ni_ancestors i),
          x_cmdline = map from_utf8_lossy (ni_cmdline_paths i)\<rparr>"
  shows "case evaluate_network_action B eng i of
           AllowNet m \<Rightarrow>
             (\<exists>k r. m = Some k \<and> (k, r) \<in> set (sp_network_policies p) \<and> rule_covers B r n x \<and>
                list_all (\<lambda>(k', r'). rule_covers B r' n x \<longrightarrow> k \<le> k') (sp_network_policies p))
         | DenyNet reason \<Rightarrow>
             reason \<noteq> [] \<and> \<not> list_ex (\<lambda>(k, r). rule_covers B r n x) (sp_network_policies p)"
proof -
  have parts: "in_network (input_doc i) = Some n" "in_exec (input_doc i) = Some x"
    by (simp_all add: input_doc_parts assms(3,4))
  note net = engine_network [OF assms(1,2) parts, of B]
  show ?thesis
  proof (cases "network_policy_for_request B (eng_data eng) (input_doc i)")
    case False
    obtain ps where "get_object_field (eng_data eng) ''network_policies'' = Some ps"
      using engine_has_policies [OF assms(1)] by blast
    from deny_reason_None [OF parts this, of B] False
    obtain s where "deny_reason B (eng_data eng) (input_doc i) = Some s" by auto
    with False deny_reason_text [OF this] show ?thesis
      by (simp add: evaluate_network_action_def network_action_rule_def net)
  next
    case True
    then obtain k where k: "matched_network_policy B (eng_data eng) (input_doc i) = Some k"
      using matched_policy_None by (metis not_None_eq)
    have names: "set (matching_policy_names B (eng_data eng) (input_doc i)) =
        fst ` {(k, r). (k, r) \<in> set (sp_network_policies p) \<and> rule_covers B r n x}"
      using parts
      by (force simp: matching_policy_names_def engine_policies_order [OF assms(1)]
          set_bt_collect [OF assms(2)] map_entries_def policy_matches_data)
    have "evaluate_network_action B eng i = AllowNet (Some k)"
      using True k by (simp add: evaluate_network_action_def network_action_rule_def)
    with matched_policy_Some [OF k] show ?thesis
      unfolding names by (force simp: list_all_iff)
  qed
qed

text \<open>Allowed addresses come from an endpoint covering the connection, of a rule covering it.\<close>

lemma endpoint_data_allowed_ips: "get_str_array (endpoint_data e) ''allowed_ips'' = ep_allowed_ips e"
proof -
  have strs: "strs (map JString xs) = xs" for xs by (induction xs) (simp_all add: strs_def)
  show ?thesis
    by (simp add: get_str_array_def get_array_field_def endpoint_data_def expand_endpoint_get
        endpoint_to_json_get strs del: map_map)
qed

lemma allowed_ips_covered:
  assumes "engine_from_proto R baked p = Inr eng" "hm_ok (sp_network_policies p)"
    "n = \<lparr>n_host = ni_host i, n_port = unat (ni_port i)\<rparr>"
    "x = \<lparr>x_path = from_utf8_lossy (ni_binary_path i), x_ancestors = map from_utf8_lossy (ni_ancestors i),
          x_cmdline = map from_utf8_lossy (ni_cmdline_paths i)\<rparr>"
    "query_allowed_ips_engine B eng i \<noteq> []"
  shows "\<exists>k r e. (k, r) \<in> set (sp_network_policies p) \<and> rule_covers B r n x \<and>
    e \<in> set (npr_endpoints r) \<and> endpoint_covers B e n \<and> query_allowed_ips_engine B eng i = ep_allowed_ips e"
proof -
  have parts: "in_network (input_doc i) = Some n" "in_exec (input_doc i) = Some x"
    by (simp_all add: input_doc_parts assms(3,4))
  obtain ep where ep: "matched_endpoint_config B (eng_data eng) (input_doc i) = Some ep"
    using assms(5) by (auto simp: query_allowed_ips_engine_def query_endpoint_config_def split: option.splits)
  then have "ep \<in> set (matching_endpoint_configs B (eng_data eng) (input_doc i))"
    by (auto simp: matched_endpoint_config_def split: list.splits)
  then obtain k r e where "(k, r) \<in> set (sp_network_policies p)" "rule_covers B r n x"
    and e: "e \<in> set (npr_endpoints r)" "ep = endpoint_data e" "endpoint_matches_request B ep n"
    using parts
    by (auto simp: matching_endpoint_configs_def engine_policies_order [OF assms(1)] map_entries_def
        set_bt_collect [OF assms(2)] policy_matches_data policy_data_parts split: if_splits)
  moreover have "endpoint_covers B e n"
    using e(2,3) by (simp add: endpoint_data_def endpoint_matches_expand endpoint_matches_json)
  moreover have "query_allowed_ips_engine B eng i = ep_allowed_ips e"
    using ep e(2) by (simp add: query_allowed_ips_engine_def query_endpoint_config_def endpoint_data_allowed_ips)
  ultimately show ?thesis by blast
qed

text \<open>C5: For an engine loaded from a wire policy, a connection is allowed exactly when one rule of the
  policy covers its host, port and binary. The policy reported with an allow is the least name of
  such a rule, and a denial always has a reason.\<close>

theorem network_action_spec:
  assumes "engine_from_proto R baked p = Inr eng" "hm_ok (sp_network_policies p)"
    "n = \<lparr>n_host = ni_host i, n_port = unat (ni_port i)\<rparr>"
    "x = \<lparr>x_path = from_utf8_lossy (ni_binary_path i), x_ancestors = map from_utf8_lossy (ni_ancestors i),
          x_cmdline = map from_utf8_lossy (ni_cmdline_paths i)\<rparr>"
  shows "case evaluate_network_action B eng i of
           AllowNet m \<Rightarrow>
             (\<exists>k r. m = Some k \<and> (k, r) \<in> set (sp_network_policies p) \<and> rule_covers B r n x \<and>
                list_all (\<lambda>(k', r'). rule_covers B r' n x \<longrightarrow> k \<le> k') (sp_network_policies p))
         | DenyNet reason \<Rightarrow>
             reason \<noteq> [] \<and> \<not> list_ex (\<lambda>(k, r). rule_covers B r n x) (sp_network_policies p)"
  by (rule network_action_covers [OF assms])

text \<open>A policy with one rule, and an evaluator whose built-ins are those of ASCII text.\<close>

definition ascii_builtins :: "(string \<Rightarrow> string list \<Rightarrow> string \<Rightarrow> bool) \<Rightarrow> builtins" where
  "ascii_builtins g = \<lparr>b_lower = to_ascii_lowercase, b_upper = to_ascii_uppercase, b_glob = g\<rparr>"

definition accepting :: "regorus" where
  "accepting = \<lparr>add_policy = (\<lambda>_. Inr ()), add_data_json = (\<lambda>_. Inr ()), yaml_value = (\<lambda>_. Inr JNull)\<rparr>"

definition sample_endpoint :: network_endpoint where
  "sample_endpoint = \<lparr>ep_host = ''api.x.io'', ep_port = 443, ep_protocol = ''rest'', ep_tls = ''terminate'',
     ep_enforcement = ''enforce'', ep_access = ''read-only'', ep_rules = [], ep_allowed_ips = [], ep_ports = []\<rparr>"

definition sample_policy :: sandbox_policy where
  "sample_policy = \<lparr>sp_version = 1, sp_filesystem = None, sp_landlock = None, sp_process = None,
     sp_network_policies = [(''api'', \<lparr>npr_name = ''api'', npr_endpoints = [sample_endpoint],
       npr_binaries = [\<lparr>nb_path = ''/bin/curl'', nb_harness = False\<rparr>]\<rparr>)]\<rparr>"

definition sample_input :: network_input where
  "sample_input = \<lparr>ni_host = ''API.x.io'', ni_port = 443, ni_binary_path = ''/bin/curl'', ni_binary_sha256 = '''',
     ni_ancestors = [], ni_cmdline_paths = []\<rparr>"

definition sample_eng :: opa_engine where
  "sample_eng = \<lparr>eng_data = expand_access_presets (proto_to_opa_data_json sample_policy)\<rparr>"

lemma sample_valid: "fst (validate_l7_policies (proto_to_opa_data_json sample_policy)) = []"
  by code_simp

lemma sample_engine: "engine_from_proto accepting '''' sample_policy = Inr sample_eng"
  by (simp add: engine_from_proto_def validate_and_expand_def sample_valid load_data_def accepting_def sample_eng_def)

lemma sample_keys: "hm_ok (sp_network_policies sample_policy)"
  by (simp add: sample_policy_def hm_ok_def)

theorem network_action_spec_witness:
  "\<exists>k. evaluate_network_action (ascii_builtins (\<lambda>_ _ _. False)) sample_eng sample_input = AllowNet (Some k)"
proof -
  let ?n = "\<lparr>n_host = ni_host sample_input, n_port = unat (ni_port sample_input)\<rparr>"
  let ?x = "\<lparr>x_path = from_utf8_lossy (ni_binary_path sample_input),
     x_ancestors = map from_utf8_lossy (ni_ancestors sample_input),
     x_cmdline = map from_utf8_lossy (ni_cmdline_paths sample_input)\<rparr>"
  have c: "list_ex (\<lambda>(k, r). rule_covers (ascii_builtins (\<lambda>_ _ _. False)) r ?n ?x) (sp_network_policies sample_policy)"
    by code_simp
  show ?thesis
    using network_action_spec [OF sample_engine sample_keys refl refl,
        of "ascii_builtins (\<lambda>_ _ _. False)" sample_input] c
    by (auto split: network_action.splits)
qed

text \<open>C13: Inside a tunnel, for an engine loaded from a wire policy, a request is allowed exactly when one
  rule covers the connection and has an endpoint covering the host and port whose own rules, or
  when it has none whose access preset, permit the method and path.\<close>

theorem l7_request_spec:
  assumes "engine_from_proto R baked p = Inr eng" "hm_ok (sp_network_policies p)"
  shows "allow_request B (eng_data eng) \<lparr>in_network = Some n, in_exec = Some x, in_request = Some req\<rparr> \<longleftrightarrow>
         list_ex (\<lambda>(k, r). rule_covers B r n x \<and>
           list_ex (\<lambda>e. endpoint_covers B e n \<and> endpoint_permits B e req) (npr_endpoints r))
           (sp_network_policies p)"
  using engine_request [OF assms] by simp

theorem l7_request_spec_witness:
  "\<not> allow_request (ascii_builtins (\<lambda>_ _ _. False)) (eng_data sample_eng)
       \<lparr>in_network = Some \<lparr>n_host = ''api.x.io'', n_port = 443\<rparr>,
        in_exec = Some \<lparr>x_path = ''/bin/curl'', x_ancestors = [], x_cmdline = []\<rparr>,
        in_request = Some \<lparr>r_method = ''POST'', r_path = ''/v1'', r_command = None\<rparr>\<rparr> \<and>
   allow_request (ascii_builtins (\<lambda>_ _ _. False)) (eng_data sample_eng)
       \<lparr>in_network = Some \<lparr>n_host = ''api.x.io'', n_port = 443\<rparr>,
        in_exec = Some \<lparr>x_path = ''/bin/curl'', x_ancestors = [], x_cmdline = []\<rparr>,
        in_request = Some \<lparr>r_method = ''get'', r_path = ''/v1'', r_command = None\<rparr>\<rparr>"
  unfolding l7_request_spec [OF sample_engine sample_keys] by code_simp

text \<open>The command line paths of a process never grant anything: they change no network decision and
  no request decision, since a process chooses its own command line.\<close>

theorem cmdline_never_grants:
  "network_policy_for_request B data (inp\<lparr>in_exec := Some (x\<lparr>x_cmdline := c\<rparr>)\<rparr>) =
     network_policy_for_request B data (inp\<lparr>in_exec := Some x\<rparr>) \<and>
   allow_request B data (inp\<lparr>in_exec := Some (x\<lparr>x_cmdline := c\<rparr>)\<rparr>) =
     allow_request B data (inp\<lparr>in_exec := Some x\<rparr>) \<and>
   matched_endpoint_config B data (inp\<lparr>in_exec := Some (x\<lparr>x_cmdline := c\<rparr>)\<rparr>) =
     matched_endpoint_config B data (inp\<lparr>in_exec := Some x\<rparr>)"
proof -
  have "binary_allowed B policy (x\<lparr>x_cmdline := c\<rparr>) = binary_allowed B policy x" for policy
    by (simp add: binary_allowed_def binary_matches_def cong: option.case_cong)
  then have "policy_matches B policy (inp\<lparr>in_exec := Some (x\<lparr>x_cmdline := c\<rparr>)\<rparr>) =
             policy_matches B policy (inp\<lparr>in_exec := Some x\<rparr>)" for policy
    by (simp add: policy_matches_def cong: option.case_cong)
  then show ?thesis
    by (simp add: network_policy_for_request_def allow_request_def matched_endpoint_config_def
        matching_endpoint_configs_def cong: option.case_cong)
qed

text \<open>C28: Reloading is last-known-good: after any sequence of reloads from wire policies, the engine in
  force is the one built from the last policy that was accepted, or the initial engine when none
  was.\<close>

theorem reload_sequence_last_known_good:
  "fold (\<lambda>p eng. snd (reload_from_proto R baked p eng)) ps eng0 =
   last (eng0 # List.map_filter
     (\<lambda>p. case engine_from_proto R baked p of Inr eng \<Rightarrow> Some eng | Inl _ \<Rightarrow> None) ps)"
  by (rule proto.reload_sequence)

text \<open>Policy data is refused exactly when some endpoint breaks one of the seven declarative
  conditions; an accepted one is loaded with its presets expanded.\<close>

theorem validate_and_expand_spec:
  "validate_and_expand data = Inr d \<longleftrightarrow>
     list_all (\<lambda>(loc, ep). endpoint_safe ep) (located_endpoints data) \<and> d = expand_access_presets data"
  by (auto simp: validate_and_expand_def Let_def validate_errors_Nil [symmetric])

text \<open>The check that refuses enforcement for SQL compares the protocol exactly, while the
  configuration is read ignoring case: an endpoint with protocol \<open>SQL\<close> and enforcement
  \<open>enforce\<close> passes validation without a warning and is then relayed as SQL, uninspected.\<close>

theorem sql_enforcement_escapes_validation:
  "let ep = jobject [(''host'', JString ''db.x.io''), (''ports'', JArray [JInt 5432]),
              (''protocol'', JString ''SQL''), (''enforcement'', JString ''enforce''), (''access'', JString ''full'')];
       data = jobject [(''network_policies'', jobject [(''db'', jobject [(''endpoints'', JArray [ep])])])]
   in validate_l7_policies data = ([], []) \<and>
      parse_l7_config ep = Some \<lparr>cfg_protocol = Sql, cfg_tls = Passthrough, cfg_enforcement = Enforce\<rparr>"
  by code_simp

end
