(* ===== verification/Ssrf.thy ===== *)
theory Ssrf
  imports Prelude
begin

unbundle bit_operations_syntax

text \<open>
  The address checks of the sandbox proxy, \<open>crates/openshell-sandbox/src/proxy.rs\<close>: which
  addresses are internal, which are blocked whatever the policy says, and the two ways of
  resolving a destination before connecting (\<open>resolve_and_reject_internal\<close> and
  \<open>resolve_and_check_allowed_ips\<close>). Addresses are words of 32 and 128 bits; their text form
  is the one of \<open>std::net\<close>. Networks are the \<open>ipnet\<close> crate's: its parser, its host networks
  and its membership test are the fields of a parameter. Name resolution is a parameter too.
\<close>

section \<open>Addresses\<close>

datatype ip_addr = V4 "32 word" | V6 "128 word"

definition v4_octet :: "nat \<Rightarrow> 32 word \<Rightarrow> 8 word" where
  "v4_octet i a = ucast (drop_bit (24 - 8 * i) a)"

definition v4_is_loopback :: "32 word \<Rightarrow> bool" where
  "v4_is_loopback a \<longleftrightarrow> v4_octet 0 a = 127"

definition v4_is_private :: "32 word \<Rightarrow> bool" where
  "v4_is_private a \<longleftrightarrow>
     v4_octet 0 a = 10 \<or>
     (v4_octet 0 a = 172 \<and> 16 \<le> v4_octet 1 a \<and> v4_octet 1 a \<le> 31) \<or>
     (v4_octet 0 a = 192 \<and> v4_octet 1 a = 168)"

definition v4_is_link_local :: "32 word \<Rightarrow> bool" where
  "v4_is_link_local a \<longleftrightarrow> v4_octet 0 a = 169 \<and> v4_octet 1 a = 254"

definition v6_segment :: "nat \<Rightarrow> 128 word \<Rightarrow> 16 word" where
  "v6_segment i a = ucast (drop_bit (112 - 16 * i) a)"

definition v6_is_loopback :: "128 word \<Rightarrow> bool" where
  "v6_is_loopback a \<longleftrightarrow> a = 1"

definition to_ipv4_mapped :: "128 word \<Rightarrow> 32 word option" where
  "to_ipv4_mapped a = (if drop_bit 32 a = 0xffff then Some (ucast a) else None)"

section \<open>Internal and always-blocked addresses\<close>

definition is_internal_ip :: "ip_addr \<Rightarrow> bool" where
  "is_internal_ip ip =
     (case ip of
        V4 v4 \<Rightarrow> v4_is_loopback v4 \<or> v4_is_private v4 \<or> v4_is_link_local v4
      | V6 v6 \<Rightarrow>
          if v6_is_loopback v6 then True
          else if v6_segment 0 v6 AND 0xffc0 = 0xfe80 then True
          else if v6_segment 0 v6 AND 0xfe00 = 0xfc00 then True
          else (case to_ipv4_mapped v6 of
                  Some v4 \<Rightarrow> v4_is_loopback v4 \<or> v4_is_private v4 \<or> v4_is_link_local v4
                | None \<Rightarrow> False))"

definition is_always_blocked_ip :: "ip_addr \<Rightarrow> bool" where
  "is_always_blocked_ip ip =
     (case ip of
        V4 v4 \<Rightarrow> v4_is_loopback v4 \<or> v4_is_link_local v4
      | V6 v6 \<Rightarrow>
          if v6_is_loopback v6 then True
          else if v6_segment 0 v6 AND 0xffc0 = 0xfe80 then True
          else (case to_ipv4_mapped v6 of
                  Some v4 \<Rightarrow> v4_is_loopback v4 \<or> v4_is_link_local v4
                | None \<Rightarrow> False))"

section \<open>Addresses as text\<close>

definition show_v4 :: "32 word \<Rightarrow> string" where
  "show_v4 a = str_join ''.'' (map (\<lambda>i. dec (unat (v4_octet i a))) [0, 1, 2, 3])"

text \<open>The longest run of zero segments, the first of equally long ones: start and length.\<close>

fun zero_span :: "nat \<Rightarrow> nat \<times> nat \<Rightarrow> nat \<times> nat \<Rightarrow> 16 word list \<Rightarrow> nat \<times> nat" where
  "zero_span i longest cur [] = longest"
| "zero_span i longest cur (s # ss) =
     (if s = 0 then
        let cur' = (if snd cur = 0 then (i, 1) else (fst cur, Suc (snd cur)));
            longest' = (if snd longest < snd cur' then cur' else longest)
        in zero_span (Suc i) longest' cur' ss
      else zero_span (Suc i) longest (0, 0) ss)"

definition show_segments :: "16 word list \<Rightarrow> string" where
  "show_segments ss = str_join '':'' (map (\<lambda>s. hex (unat s)) ss)"

definition show_v6 :: "128 word \<Rightarrow> string" where
  "show_v6 a =
     (case to_ipv4_mapped a of
        Some v4 \<Rightarrow> ''::ffff:'' @ show_v4 v4
      | None \<Rightarrow>
          let ss = map (\<lambda>i. v6_segment i a) [0, 1, 2, 3, 4, 5, 6, 7];
              z = zero_span 0 (0, 0) (0, 0) ss
          in if 1 < snd z
             then show_segments (take (fst z) ss) @ ''::'' @ show_segments (drop (fst z + snd z) ss)
             else show_segments ss)"

definition show_ip :: "ip_addr \<Rightarrow> string" where
  "show_ip ip = (case ip of V4 a \<Rightarrow> show_v4 a | V6 a \<Rightarrow> show_v6 a)"

text \<open>
  \<open>str::parse::<IpAddr>\<close>, after the recursive-descent parser of \<open>core::net\<close>: each reader
  returns its value and the rest of the text, or fails without consuming anything.
\<close>

fun take_digits :: "nat \<Rightarrow> nat \<Rightarrow> string \<Rightarrow> string" where
  "take_digits r 0 s = []"
| "take_digits r (Suc n) [] = []"
| "take_digits r (Suc n) (c # s) =
     (case digit_val r c of None \<Rightarrow> [] | Some _ \<Rightarrow> c # take_digits r n s)"

lemma take_digits_code [code]:
  "take_digits r n s =
     (if n = 0 then []
      else case s of
             [] \<Rightarrow> []
           | c # s' \<Rightarrow> (case digit_val r c of None \<Rightarrow> [] | Some _ \<Rightarrow> c # take_digits r (n - 1) s'))"
  by (cases n; cases s) (simp_all split: option.split)

text \<open>
  \<open>read_number\<close>: at most \<open>maxd\<close> digits, a further digit is an error; without
  \<open>zero_prefix\<close> a leading zero must be the only digit; the value must fit \<open>bits\<close> bits.
\<close>

definition read_number :: "nat \<Rightarrow> nat \<Rightarrow> nat \<Rightarrow> bool \<Rightarrow> string \<Rightarrow> (nat \<times> string) option" where
  "read_number bits r maxd zero_prefix s =
     (let ds = take_digits r (Suc maxd) s in
      if ds = [] \<or> maxd < length ds then None
      else if \<not> zero_prefix \<and> 1 < length ds \<and> hd ds = CHR ''0'' then None
      else case digits_val r 0 ds of
             None \<Rightarrow> None
           | Some n \<Rightarrow> if n < 2 ^ bits then Some (n, drop (length ds) s) else None)"

definition read_sep :: "char \<Rightarrow> nat \<Rightarrow> string \<Rightarrow> string option" where
  "read_sep c i s =
     (if i = 0 then Some s
      else case s of [] \<Rightarrow> None | d # t \<Rightarrow> if d = c then Some t else None)"

fun read_octets :: "nat \<Rightarrow> nat \<Rightarrow> string \<Rightarrow> (nat list \<times> string) option" where
  "read_octets 0 i s = Some ([], s)"
| "read_octets (Suc n) i s =
     (case read_sep (CHR ''.'') i s of
        None \<Rightarrow> None
      | Some t \<Rightarrow>
          (case read_number 8 10 3 False t of
             None \<Rightarrow> None
           | Some (v, u) \<Rightarrow>
               (case read_octets n (Suc i) u of
                  None \<Rightarrow> None
                | Some (vs, w) \<Rightarrow> Some (v # vs, w))))"

definition read_ipv4 :: "string \<Rightarrow> (nat list \<times> string) option" where
  "read_ipv4 s = read_octets 4 0 s"

text \<open>\<open>read_groups\<close> with \<open>left\<close> slots to fill: the groups read and whether an IPv4 part ended them.\<close>

fun read_groups :: "nat \<Rightarrow> nat \<Rightarrow> string \<Rightarrow> nat list \<times> bool \<times> string" where
  "read_groups 0 i s = ([], False, s)"
| "read_groups (Suc left) i s =
     (let v4 = (if 0 < left then Option.bind (read_sep (CHR '':'') i s) read_ipv4 else None) in
      case v4 of
        Some (os, t) \<Rightarrow>
          ([os ! 0 * 256 + os ! 1, os ! 2 * 256 + os ! 3], True, t)
      | None \<Rightarrow>
          (case Option.bind (read_sep (CHR '':'') i s) (read_number 16 16 4 True) of
             None \<Rightarrow> ([], False, s)
           | Some (g, t) \<Rightarrow>
               (case read_groups left (Suc i) t of (gs, e, u) \<Rightarrow> (g # gs, e, u))))"

definition read_ipv6 :: "string \<Rightarrow> (nat list \<times> string) option" where
  "read_ipv6 s =
     (case read_groups 8 0 s of (hd_gs, hd_v4, t) \<Rightarrow>
        if length hd_gs = 8 then Some (hd_gs, t)
        else if hd_v4 then None
        else case str_strip_prefix t ''::'' of
               None \<Rightarrow> None
             | Some u \<Rightarrow>
                 (case read_groups (7 - length hd_gs) 0 u of (tl_gs, _, w) \<Rightarrow>
                    Some (hd_gs @ replicate (8 - length hd_gs - length tl_gs) 0 @ tl_gs, w)))"

definition word_of_digits :: "nat \<Rightarrow> nat list \<Rightarrow> nat" where
  "word_of_digits base ds = fold (\<lambda>d acc. acc * base + d) ds 0"

definition parse_ip :: "string \<Rightarrow> ip_addr option" where
  "parse_ip s =
     (case read_ipv4 s of
        Some (os, t) \<Rightarrow>
          if t = [] then Some (V4 (of_nat (word_of_digits 256 os))) else None
      | None \<Rightarrow>
          (case read_ipv6 s of
             Some (gs, t) \<Rightarrow>
               if t = [] then Some (V6 (of_nat (word_of_digits 65536 gs))) else None
           | None \<Rightarrow> None))"

section \<open>Networks and resolution\<close>

text \<open>
  The \<open>ipnet\<close> crate: parsing a CIDR text, the host network of an address (\<open>/32\<close> or \<open>/128\<close>)
  and membership. \<open>lookup_host\<close> returns the resolved addresses or an error text.
\<close>

record 'net ipnet =
  net_parse :: "string \<Rightarrow> 'net option"
  net_host :: "ip_addr \<Rightarrow> 'net"
  net_contains :: "'net \<Rightarrow> ip_addr \<Rightarrow> bool"

type_synonym resolver = "string \<Rightarrow> u16 \<Rightarrow> string + ip_addr list"
type_synonym socket_addr = "ip_addr \<times> u16"

definition show_hostport :: "string \<Rightarrow> u16 \<Rightarrow> string" where
  "show_hostport host port = host @ '':'' @ dec (unat port)"

definition lookup_addrs :: "resolver \<Rightarrow> string \<Rightarrow> u16 \<Rightarrow> string + ip_addr list" where
  "lookup_addrs lookup_host host port =
     (case lookup_host host port of
        Inl e \<Rightarrow> Inl (''DNS resolution failed for '' @ show_hostport host port @ '': '' @ e)
      | Inr addrs \<Rightarrow>
          if addrs = [] then Inl (''DNS resolution returned no addresses for '' @ show_hostport host port)
          else Inr addrs)"

definition resolve_and_reject_internal :: "resolver \<Rightarrow> string \<Rightarrow> u16 \<Rightarrow> string + socket_addr list" where
  "resolve_and_reject_internal lookup_host host port =
     and_then (lookup_addrs lookup_host host port) (\<lambda>addrs.
       case find is_internal_ip addrs of
         Some ip \<Rightarrow> Inl (host @ '' resolves to internal address '' @ show_ip ip @ '', connection rejected'')
       | None \<Rightarrow> Inr (map (\<lambda>ip. (ip, port)) addrs))"

fun check_addrs :: "'net ipnet \<Rightarrow> string \<Rightarrow> 'net list \<Rightarrow> ip_addr list \<Rightarrow> string + unit" where
  "check_addrs N host nets [] = Inr ()"
| "check_addrs N host nets (ip # ips) =
     (if is_always_blocked_ip ip then
        Inl (host @ '' resolves to always-blocked address '' @ show_ip ip @ '', connection rejected'')
      else if \<not> (\<exists>n \<in> set nets. net_contains N n ip) then
        Inl (host @ '' resolves to '' @ show_ip ip @ '' which is not in allowed_ips, connection rejected'')
      else check_addrs N host nets ips)"

definition resolve_and_check_allowed_ips ::
    "'net ipnet \<Rightarrow> resolver \<Rightarrow> string \<Rightarrow> u16 \<Rightarrow> 'net list \<Rightarrow> string + socket_addr list" where
  "resolve_and_check_allowed_ips N lookup_host host port allowed_ips =
     and_then (lookup_addrs lookup_host host port) (\<lambda>addrs.
     and_then (check_addrs N host allowed_ips addrs) (\<lambda>_.
       Inr (map (\<lambda>ip. (ip, port)) addrs)))"

definition parse_net_entry :: "'net ipnet \<Rightarrow> string \<Rightarrow> 'net option" where
  "parse_net_entry N entry =
     (case net_parse N entry of
        Some n \<Rightarrow> Some n
      | None \<Rightarrow> map_option (net_host N) (parse_ip entry))"

definition parse_allowed_ips :: "'net ipnet \<Rightarrow> string list \<Rightarrow> string + 'net list" where
  "parse_allowed_ips N raw =
     (let errors = map (\<lambda>e. ''invalid CIDR/IP in allowed_ips: '' @ e)
                     (filter (\<lambda>e. parse_net_entry N e = None) raw) in
      if errors = [] then Inr (List.map_filter (parse_net_entry N) raw)
      else Inl (str_join ''; '' errors))"

section \<open>The blocked ranges\<close>

lemma div_eq_range: "0 < d \<Longrightarrow> (n :: nat) div d = k \<longleftrightarrow> d * k \<le> n \<and> n < d * Suc k"
  by (metis div_nat_eqI dividend_less_times_div times_div_less_eq_dividend mult_Suc_right)

lemma unat_v4_less: "unat (a :: 32 word) < 4294967296"
  using unsigned_less [of a, where 'a = nat] by simp

lemma unat_v4_octet: "unat (v4_octet i a) = unat a div 2 ^ (24 - 8 * i) mod 256"
  by (simp add: v4_octet_def unsigned_ucast_eq take_bit_eq_mod unat_drop_bit_eq
      drop_bit_eq_div [where 'a = nat])

lemma unat_v6_segment: "unat (v6_segment i a) = unat a div 2 ^ (112 - 16 * i) mod 65536"
  by (simp add: v6_segment_def unsigned_ucast_eq take_bit_eq_mod unat_drop_bit_eq
      drop_bit_eq_div [where 'a = nat])

lemma v4_octets:
  "unat (v4_octet 0 a) = unat a div 65536 div 256"
  "unat (v4_octet (Suc 0) a) = unat a div 65536 mod 256"
  using unat_v4_less [of a] by (simp_all add: unat_v4_octet div_mult2_eq [symmetric])

lemma v6_segment_0: "unat (v6_segment 0 a) = unat a div 2 ^ 112"
proof -
  have "unat a div 2 ^ 112 < 65536"
    using unsigned_less [of a, where 'a = nat] by (simp add: less_mult_imp_div_less)
  then show ?thesis by (simp add: unat_v6_segment)
qed

lemma v4_is_loopback_range:
  "v4_is_loopback a \<longleftrightarrow> 0x7f000000 \<le> unat a \<and> unat a \<le> 0x7fffffff"
  by (auto simp: v4_is_loopback_def word_unat_eq_iff v4_octets div_mult2_eq [symmetric] div_eq_range)

lemma link_local_digits: "(n :: nat) div 256 = 169 \<and> n mod 256 = 254 \<longleftrightarrow> n = 43518"
proof
  assume "n div 256 = 169 \<and> n mod 256 = 254"
  then show "n = 43518" using div_mult_mod_eq [of n 256] by linarith
qed simp

lemma v4_is_link_local_range:
  "v4_is_link_local a \<longleftrightarrow> 0xa9fe0000 \<le> unat a \<and> unat a \<le> 0xa9feffff"
  by (simp add: v4_is_link_local_def word_unat_eq_iff v4_octets link_local_digits)
    (auto simp: div_eq_range)

lemma private_digits:
  "(n :: nat) div 256 = 172 \<and> 16 \<le> n mod 256 \<and> n mod 256 \<le> 31 \<longleftrightarrow> 44048 \<le> n \<and> n < 44064"
  "n div 256 = 192 \<and> n mod 256 = 168 \<longleftrightarrow> n = 49320"
proof -
  have "n div 256 = 192 \<and> n mod 256 = 168 \<Longrightarrow> n = 49320"
    using div_mult_mod_eq [of n 256] by linarith
  then show "n div 256 = 192 \<and> n mod 256 = 168 \<longleftrightarrow> n = 49320" by auto
  have "n div 256 = 172 \<Longrightarrow> n mod 256 = n - 44032"
    using div_mult_mod_eq [of n 256] by simp
  then show "n div 256 = 172 \<and> 16 \<le> n mod 256 \<and> n mod 256 \<le> 31 \<longleftrightarrow> 44048 \<le> n \<and> n < 44064"
    by (auto simp: div_eq_range)
qed

lemma v4_is_private_range:
  "v4_is_private a \<longleftrightarrow>
     (0x0a000000 \<le> unat a \<and> unat a \<le> 0x0affffff) \<or>
     (0xac100000 \<le> unat a \<and> unat a \<le> 0xac1fffff) \<or>
     (0xc0a80000 \<le> unat a \<and> unat a \<le> 0xc0a8ffff)"
proof -
  have le: "44048 \<le> unat a div 65536 \<longleftrightarrow> 0xac100000 \<le> unat a"
    and less: "unat a div 65536 < 44064 \<longleftrightarrow> unat a \<le> 0xac1fffff"
    by (auto simp: less_eq_div_iff_mult_less_eq div_less_iff_less_mult)
  show ?thesis
    by (simp add: v4_is_private_def word_unat_eq_iff word_le_nat_alt v4_octets private_digits le less)
      (auto simp: div_mult2_eq [symmetric] div_eq_range)
qed

lemma and_high_bits: "(x :: 16 word) AND push_bit n (mask (16 - n)) = push_bit n (drop_bit n x)"
  by (rule bit_word_eqI) (auto simp: bit_simps)

lemma push_drop_eq:
  "push_bit n (drop_bit n (x :: 16 word)) = push_bit n (drop_bit n y) \<longleftrightarrow>
   unat x div 2 ^ n = unat y div 2 ^ n"
  (is "?l = ?r")
proof -
  have "drop_bit n x = drop_bit n y" if ?l
  proof (rule bit_word_eqI)
    fix k
    have "bit (push_bit n (drop_bit n x)) (n + k) = bit (push_bit n (drop_bit n y)) (n + k)"
      using that by simp
    then show "bit (drop_bit n x) k = bit (drop_bit n y) k"
      by (cases "n + k < 16") (auto simp: bit_simps dest: bit_imp_le_length)
  qed
  then have "?l \<longleftrightarrow> drop_bit n x = drop_bit n y" by auto
  then show ?thesis
    by (simp add: word_unat_eq_iff unat_drop_bit_eq drop_bit_eq_div [where 'a = nat])
qed

lemma seg_mask:
  "(x :: 16 word) AND 0xffc0 = 0xfe80 \<longleftrightarrow> unat x div 64 = 0x3fa"
  "(x :: 16 word) AND 0xfe00 = 0xfc00 \<longleftrightarrow> unat x div 512 = 0x7e"
  using and_high_bits [of x 6] and_high_bits [of x 9] push_drop_eq [of 6 x "0xfe80"] push_drop_eq [of 9 x "0xfc00"]
  by (simp_all add: mask_eq_exp_minus_1 push_bit_eq_mult drop_bit_eq_div)

lemma v6_prefix_ranges:
  "v6_segment 0 a AND 0xffc0 = 0xfe80 \<longleftrightarrow> 0xfe80 * 2 ^ 112 \<le> unat a \<and> unat a < 0xfec0 * 2 ^ 112"
  "v6_segment 0 a AND 0xfe00 = 0xfc00 \<longleftrightarrow> 0xfc00 * 2 ^ 112 \<le> unat a \<and> unat a < 0xfe00 * 2 ^ 112"
  by (simp_all add: seg_mask v6_segment_0 div_mult2_eq [symmetric] div_eq_range)

lemma to_ipv4_mapped_Some: "to_ipv4_mapped a = Some v \<longleftrightarrow> unat a = 0xffff * 2 ^ 32 + unat v"
proof -
  have "drop_bit 32 a = 0xffff \<longleftrightarrow> unat a div 2 ^ 32 = 0xffff"
    by (simp add: word_unat_eq_iff unat_drop_bit_eq drop_bit_eq_div [where 'a = nat])
  moreover have "(ucast a :: 32 word) = v \<longleftrightarrow> unat a mod 2 ^ 32 = unat v"
    by (simp add: word_unat_eq_iff unsigned_ucast_eq take_bit_eq_mod)
  moreover have "unat a div 2 ^ 32 = 0xffff \<and> unat a mod 2 ^ 32 = unat v \<longleftrightarrow> unat a = 0xffff * 2 ^ 32 + unat v"
  proof
    assume "unat a div 2 ^ 32 = 0xffff \<and> unat a mod 2 ^ 32 = unat v"
    then show "unat a = 0xffff * 2 ^ 32 + unat v"
      using div_mult_mod_eq [of "unat a" "2 ^ 32"] by presburger
  next
    assume e: "unat a = 0xffff * 2 ^ 32 + unat v"
    have v: "unat v < 2 ^ 32" using unat_v4_less [of v] by simp
    show "unat a div 2 ^ 32 = 0xffff \<and> unat a mod 2 ^ 32 = unat v"
      using v by (simp only: e div_mult_self3 mod_mult_self3 div_less mod_less) simp
  qed
  ultimately show ?thesis unfolding to_ipv4_mapped_def by (auto split: if_splits)
qed

section \<open>Properties\<close>

definition v4_internal_range :: "nat \<Rightarrow> bool" where
  "v4_internal_range n \<longleftrightarrow>
     (0x7f000000 \<le> n \<and> n \<le> 0x7fffffff) \<or> (0x0a000000 \<le> n \<and> n \<le> 0x0affffff) \<or>
     (0xac100000 \<le> n \<and> n \<le> 0xac1fffff) \<or> (0xc0a80000 \<le> n \<and> n \<le> 0xc0a8ffff) \<or>
     (0xa9fe0000 \<le> n \<and> n \<le> 0xa9feffff)"

lemma mapped_range:
  "(case to_ipv4_mapped a of Some v \<Rightarrow> P (unat v) | None \<Rightarrow> False) \<longleftrightarrow>
   0xffff * 2 ^ 32 \<le> unat a \<and> unat a < 0x10000 * 2 ^ 32 \<and> P (unat a - 0xffff * 2 ^ 32)"
proof (cases "to_ipv4_mapped a")
  case None
  have "\<not> (0xffff * 2 ^ 32 \<le> unat a \<and> unat a < 0x10000 * 2 ^ 32)"
  proof
    assume r: "0xffff * 2 ^ 32 \<le> unat a \<and> unat a < 0x10000 * 2 ^ 32"
    then obtain n where n: "unat a = 0xffff * 2 ^ 32 + n" "n < 2 ^ 32"
      by (intro that [of "unat a - 0xffff * 2 ^ 32"]) (use r in auto)
    define v :: "32 word" where "v = of_nat n"
    have "unat v = n"
      using n by (simp add: v_def unat_of_nat)
    with n have "to_ipv4_mapped a = Some v" by (simp add: to_ipv4_mapped_Some)
    with None show False by simp
  qed
  with None show ?thesis by auto
next
  case (Some v)
  with to_ipv4_mapped_Some [of a v] unat_v4_less [of v] show ?thesis by simp
qed

text \<open>\<open>is_internal_ip\<close> covers exactly the documented ranges, as intervals of the address
  value: 127/8, 10/8, 172.16/12, 192.168/16 and 169.254/16 for IPv4; the loopback address,
  fe80::/10, fc00::/7 and the IPv4-mapped images of the same IPv4 ranges for IPv6.\<close>

theorem is_internal_ip_ranges:
  "is_internal_ip ip \<longleftrightarrow>
     (case ip of
        V4 a \<Rightarrow> v4_internal_range (unat a)
      | V6 b \<Rightarrow>
          unat b = 1 \<or>
          (0xfe80 * 2 ^ 112 \<le> unat b \<and> unat b < 0xfec0 * 2 ^ 112) \<or>
          (0xfc00 * 2 ^ 112 \<le> unat b \<and> unat b < 0xfe00 * 2 ^ 112) \<or>
          (0xffff * 2 ^ 32 \<le> unat b \<and> unat b < 0x10000 * 2 ^ 32 \<and>
             v4_internal_range (unat b - 0xffff * 2 ^ 32)))"
proof -
  have v4: "is_internal_ip (V4 a) = v4_internal_range (unat a)" for a
    by (auto simp: is_internal_ip_def v4_internal_range_def v4_is_loopback_range v4_is_private_range
        v4_is_link_local_range)
  have "(case to_ipv4_mapped b of Some v \<Rightarrow> v4_is_loopback v \<or> v4_is_private v \<or> v4_is_link_local v
           | None \<Rightarrow> False) =
        (case to_ipv4_mapped b of Some v \<Rightarrow> v4_internal_range (unat v) | None \<Rightarrow> False)" for b
    using v4 by (simp add: is_internal_ip_def split: option.splits)
  then have v6: "is_internal_ip (V6 b) \<longleftrightarrow>
     unat b = 1 \<or>
     (0xfe80 * 2 ^ 112 \<le> unat b \<and> unat b < 0xfec0 * 2 ^ 112) \<or>
     (0xfc00 * 2 ^ 112 \<le> unat b \<and> unat b < 0xfe00 * 2 ^ 112) \<or>
     (0xffff * 2 ^ 32 \<le> unat b \<and> unat b < 0x10000 * 2 ^ 32 \<and>
        v4_internal_range (unat b - 0xffff * 2 ^ 32))" for b
    unfolding is_internal_ip_def ip_addr.case v6_is_loopback_def
    by (simp only: mapped_range v6_prefix_ranges word_unat_eq_iff [of b 1] unsigned_1) argo
  show ?thesis by (cases ip) (simp_all only: v4 v6 ip_addr.case)
qed

lemma always_blocked_internal: "is_always_blocked_ip ip \<Longrightarrow> is_internal_ip ip"
  by (auto simp: is_always_blocked_ip_def is_internal_ip_def split: ip_addr.splits option.splits if_splits)

lemma lookup_addrs_Inr:
  "lookup_addrs lookup host port = Inr addrs \<longleftrightarrow> lookup host port = Inr addrs \<and> addrs \<noteq> []"
  by (auto simp: lookup_addrs_def split: sum.splits)

lemma check_addrs_Inr:
  "check_addrs N host nets ips = Inr u \<longleftrightarrow>
   (\<forall>ip \<in> set ips. \<not> is_always_blocked_ip ip \<and> (\<exists>n \<in> set nets. net_contains N n ip))"
  by (induction ips) (auto split: if_splits)

lemma find_reject_Inr:
  "(case find P xs of Some x \<Rightarrow> Inl (f x) | None \<Rightarrow> Inr y) = Inr z \<longleftrightarrow> (\<forall>x \<in> set xs. \<not> P x) \<and> z = y"
proof (cases "find P xs")
  case (Some x)
  then have "x \<in> set xs \<and> P x" by (metis find_Some_iff nth_mem)
  with Some show ?thesis by auto
next
  case None
  with find_None_iff [of P xs] show ?thesis by auto
qed

lemma resolve_and_reject_internal_Inr:
  "resolve_and_reject_internal lookup host port = Inr socks \<longleftrightarrow>
   (\<exists>addrs. lookup host port = Inr addrs \<and> addrs \<noteq> [] \<and> (\<forall>ip \<in> set addrs. \<not> is_internal_ip ip) \<and>
      socks = map (\<lambda>ip. (ip, port)) addrs)"
  by (auto simp: resolve_and_reject_internal_def and_then_eq_Inr lookup_addrs_Inr find_reject_Inr)

lemma resolve_and_check_allowed_ips_Inr:
  "resolve_and_check_allowed_ips N lookup host port nets = Inr socks \<longleftrightarrow>
   (\<exists>addrs. lookup host port = Inr addrs \<and> addrs \<noteq> [] \<and>
      (\<forall>ip \<in> set addrs. \<not> is_always_blocked_ip ip \<and> (\<exists>n \<in> set nets. net_contains N n ip)) \<and>
      socks = map (\<lambda>ip. (ip, port)) addrs)"
  by (auto simp: resolve_and_check_allowed_ips_def and_then_eq_Inr lookup_addrs_Inr check_addrs_Inr)

lemma parse_allowed_ips_Inr:
  "parse_allowed_ips N raw = Inr nets \<longleftrightarrow> map (parse_net_entry N) raw = map Some nets"
proof -
  have "filter (\<lambda>e. parse_net_entry N e = None) raw = [] \<Longrightarrow>
        map Some (List.map_filter (parse_net_entry N) raw) = map (parse_net_entry N) raw"
    by (induction raw) (auto simp: map_filter_def split: if_splits)
  moreover have "map (parse_net_entry N) raw = map Some nets \<Longrightarrow>
       filter (\<lambda>e. parse_net_entry N e = None) raw = [] \<and> List.map_filter (parse_net_entry N) raw = nets"
    by (induction raw arbitrary: nets) (auto simp: map_filter_def Cons_eq_map_conv)
  ultimately show ?thesis
    by (auto simp: parse_allowed_ips_def Let_def)
qed


end
