(* ===== verification/Procfs.thy ===== *)
theory Procfs
  imports Policy "HOL-Library.Multiset" "HOL-Library.Sublist"
begin

text \<open>
  Process identity from \<open>/proc\<close>, \<open>crates/openshell-sandbox/src/procfs.rs\<close>: which process owns
  the socket of a connection, what binary it runs, and which binaries and command lines its
  ancestors have. The file system is a parameter: a \<open>proc_fs\<close> answers reads, links and
  directory listings (the listing without the entries that fail, as \<open>flatten\<close> drops them).
  \<open>collect_descendant_pids\<close> walks the children files until no process is left; on a cyclic
  answer it would not return, which is the value \<open>None\<close>.
\<close>

section \<open>The file system\<close>

record proc_fs =
  pf_read :: "string \<Rightarrow> bytes option"
  pf_read_link :: "string \<Rightarrow> string + string"
  pf_read_dir :: "string \<Rightarrow> string list option"

definition read_to_string :: "proc_fs \<Rightarrow> string \<Rightarrow> string option" where
  "read_to_string fs path =
     (case pf_read fs path of None \<Rightarrow> None | Some b \<Rightarrow> if is_utf8 b then Some b else None)"

definition dec_signed :: "u32 \<Rightarrow> string" where
  "dec_signed p = (if sint p < 0 then CHR ''-'' # dec (nat (- sint p)) else dec (unat p))"

definition proc_path :: "u32 \<Rightarrow> string \<Rightarrow> string" where
  "proc_path pid leaf = ''/proc/'' @ dec (unat pid) @ ''/'' @ leaf"

definition em_dash :: string where
  "em_dash = [CHR 0xE2, CHR 0x80, CHR 0x94]"

section \<open>One process\<close>

definition binary_path :: "proc_fs \<Rightarrow> u32 \<Rightarrow> string + string" where
  "binary_path fs pid =
     (case pf_read_link fs (''/proc/'' @ dec_signed pid @ ''/exe'') of
        Inr target \<Rightarrow> Inr target
      | Inl e \<Rightarrow>
          Inl (''Failed to read /proc/'' @ dec_signed pid @ ''/exe: '' @ e @
               ''. Cannot determine binary identity '' @ em_dash @
               '' denying request. Hint: the proxy may need CAP_SYS_PTRACE or to run as the same user.''))"

fun ppid_line :: "string list \<Rightarrow> u32 option" where
  "ppid_line [] = None"
| "ppid_line (l # ls) =
     (case str_strip_prefix l ''PPid:'' of
        Some rest \<Rightarrow> parse_u32 (str_trim rest)
      | None \<Rightarrow> ppid_line ls)"

definition read_ppid :: "proc_fs \<Rightarrow> u32 \<Rightarrow> u32 option" where
  "read_ppid fs pid =
     (case read_to_string fs (proc_path pid ''status'') of
        None \<Rightarrow> None
      | Some status \<Rightarrow> ppid_line (str_lines status))"

definition cmdline_absolute_paths :: "proc_fs \<Rightarrow> u32 \<Rightarrow> string list" where
  "cmdline_absolute_paths fs pid =
     (case pf_read fs (proc_path pid ''cmdline'') of
        None \<Rightarrow> []
      | Some cmdline \<Rightarrow>
          map from_utf8_lossy
            (filter (\<lambda>arg. str_starts_with arg ''/'') (str_split (CHR 0x00) cmdline)))"

section \<open>The ancestor walks\<close>

definition MAX_DEPTH :: nat where
  "MAX_DEPTH = 64"

definition parent_pid :: "proc_fs \<Rightarrow> u32 \<Rightarrow> u32 option" where
  "parent_pid fs current =
     (case read_ppid fs current of
        Some p \<Rightarrow> if 0 < p \<and> p \<noteq> current then Some p else None
      | None \<Rightarrow> None)"

fun ancestor_walk :: "proc_fs \<Rightarrow> nat \<Rightarrow> u32 \<Rightarrow> u32 \<Rightarrow> string list \<Rightarrow> string list" where
  "ancestor_walk fs 0 current stop_pid ancestors = ancestors"
| "ancestor_walk fs (Suc n) current stop_pid ancestors =
     (case parent_pid fs current of
        None \<Rightarrow> ancestors
      | Some ppid \<Rightarrow>
          let ancestors' = (case binary_path fs ppid of Inr path \<Rightarrow> ancestors @ [path] | Inl _ \<Rightarrow> ancestors)
          in if ppid = stop_pid \<or> ppid = 1 then ancestors'
             else ancestor_walk fs n ppid stop_pid ancestors')"

definition collect_ancestor_binaries :: "proc_fs \<Rightarrow> u32 \<Rightarrow> u32 \<Rightarrow> string list" where
  "collect_ancestor_binaries fs pid stop_pid = ancestor_walk fs MAX_DEPTH pid stop_pid []"

text \<open>\<open>contains\<close> compares paths by their components.\<close>

definition contains_path :: "string list \<Rightarrow> string \<Rightarrow> bool" where
  "contains_path ps p \<longleftrightarrow> list_ex (\<lambda>q. path_components q = path_components p) ps"

definition push_new :: "string list \<Rightarrow> string \<Rightarrow> string list \<Rightarrow> string list" where
  "push_new exclude p paths =
     (if \<not> contains_path exclude p \<and> \<not> contains_path paths p then paths @ [p] else paths)"

fun cmdline_walk :: "proc_fs \<Rightarrow> nat \<Rightarrow> u32 \<Rightarrow> u32 \<Rightarrow> string list \<Rightarrow> string list \<Rightarrow> string list" where
  "cmdline_walk fs 0 current stop_pid exclude paths = paths"
| "cmdline_walk fs (Suc n) current stop_pid exclude paths =
     (case parent_pid fs current of
        None \<Rightarrow> paths
      | Some ppid \<Rightarrow>
          let paths' = fold (push_new exclude) (cmdline_absolute_paths fs ppid) paths
          in if ppid = stop_pid \<or> ppid = 1 then paths'
             else cmdline_walk fs n ppid stop_pid exclude paths')"

definition collect_cmdline_paths :: "proc_fs \<Rightarrow> u32 \<Rightarrow> u32 \<Rightarrow> string list \<Rightarrow> string list" where
  "collect_cmdline_paths fs pid stop_pid exclude =
     cmdline_walk fs MAX_DEPTH pid stop_pid exclude
       (fold (push_new exclude) (cmdline_absolute_paths fs pid) [])"

section \<open>The socket of a connection\<close>

text \<open>One line of the table: \<open>Some\<close> when the function returns there, \<open>None\<close> when the loop goes on.\<close>

definition tcp_line :: "u16 \<Rightarrow> string \<Rightarrow> (string + u64) option" where
  "tcp_line peer_port line =
     (let fields = split_whitespace line in
      if length fields < 10 then None
      else
        case str_rsplit_once (fields ! 1) (CHR '':'') of
          None \<Rightarrow> None
        | Some (_, port_hex) \<Rightarrow>
            let local_port = (of_nat (unwrap_or (from_str_radix 16 16 port_hex) 0) :: u16) in
            if fields ! 3 \<noteq> ''01'' then None
            else if local_port = peer_port then
              (case parse_u64 (fields ! 9) of
                 None \<Rightarrow> Some (Inl (''Failed to parse inode from '' @ fields ! 9))
               | Some inode \<Rightarrow> if inode = 0 then None else Some (Inr inode))
            else None)"

fun tcp_lines :: "u16 \<Rightarrow> string list \<Rightarrow> (string + u64) option" where
  "tcp_lines peer_port [] = None"
| "tcp_lines peer_port (l # ls) =
     (case tcp_line peer_port l of Some r \<Rightarrow> Some r | None \<Rightarrow> tcp_lines peer_port ls)"

fun tcp_tables :: "proc_fs \<Rightarrow> u32 \<Rightarrow> u16 \<Rightarrow> string list \<Rightarrow> string + u64" where
  "tcp_tables fs pid peer_port [] =
     Inl (''No ESTABLISHED TCP connection found for port '' @ dec (unat peer_port) @
          '' in /proc/'' @ dec (unat pid) @ ''/net/tcp{,6}'')"
| "tcp_tables fs pid peer_port (t # ts) =
     (case read_to_string fs (proc_path pid (''net/'' @ t)) of
        None \<Rightarrow> tcp_tables fs pid peer_port ts
      | Some content \<Rightarrow>
          (case tcp_lines peer_port (drop 1 (str_lines content)) of
             Some r \<Rightarrow> r
           | None \<Rightarrow> tcp_tables fs pid peer_port ts))"

definition parse_proc_net_tcp :: "proc_fs \<Rightarrow> u32 \<Rightarrow> u16 \<Rightarrow> string + u64" where
  "parse_proc_net_tcp fs pid peer_port = tcp_tables fs pid peer_port [''tcp'', ''tcp6'']"

section \<open>The owner of a socket\<close>

definition check_pid_fds :: "proc_fs \<Rightarrow> u32 \<Rightarrow> string \<Rightarrow> u32 option" where
  "check_pid_fds fs pid target =
     (case pf_read_dir fs (proc_path pid ''fd'') of
        None \<Rightarrow> None
      | Some fds \<Rightarrow>
          if list_ex (\<lambda>fd. case pf_read_link fs (proc_path pid ''fd'' @ ''/'' @ fd) of
                             Inr link \<Rightarrow> from_utf8_lossy link = target
                           | Inl _ \<Rightarrow> False) fds
          then Some pid else None)"

definition children_of :: "proc_fs \<Rightarrow> u32 \<Rightarrow> u32 list" where
  "children_of fs pid =
     (case pf_read_dir fs (proc_path pid ''task'') of
        None \<Rightarrow> []
      | Some tasks \<Rightarrow>
          concat (map (\<lambda>t. case read_to_string fs (proc_path pid ''task'' @ ''/'' @ t @ ''/children'') of
                              None \<Rightarrow> []
                            | Some s \<Rightarrow> List.map_filter parse_u32 (split_whitespace s)) tasks))"

partial_function (option) descend :: "proc_fs \<Rightarrow> u32 list \<Rightarrow> nat \<Rightarrow> u32 list option" where
  [code]: "descend fs pids i =
     (if i < length pids then descend fs (pids @ children_of fs (pids ! i)) (i + 1) else Some pids)"

definition collect_descendant_pids :: "proc_fs \<Rightarrow> u32 \<Rightarrow> u32 list option" where
  "collect_descendant_pids fs root_pid = descend fs [root_pid] 0"

fun first_owner :: "proc_fs \<Rightarrow> string \<Rightarrow> u32 list \<Rightarrow> u32 option" where
  "first_owner fs target [] = None"
| "first_owner fs target (p # ps) =
     (case check_pid_fds fs p target of Some found \<Rightarrow> Some found | None \<Rightarrow> first_owner fs target ps)"

definition proc_pids :: "proc_fs \<Rightarrow> u32 list" where
  "proc_pids fs =
     (case pf_read_dir fs ''/proc'' of
        None \<Rightarrow> []
      | Some names \<Rightarrow> List.map_filter (\<lambda>n. parse_u32 (from_utf8_lossy n)) names)"

definition find_pid_by_socket_inode :: "proc_fs \<Rightarrow> u64 \<Rightarrow> u32 \<Rightarrow> (string + u32) option" where
  "find_pid_by_socket_inode fs inode entrypoint_pid =
     (let target = ''socket:['' @ dec (unat inode) @ '']'' in
      case collect_descendant_pids fs entrypoint_pid of
        None \<Rightarrow> None
      | Some descendants \<Rightarrow>
          Some (case first_owner fs target descendants of
                  Some found \<Rightarrow> Inr found
                | None \<Rightarrow>
                    (case first_owner fs target (filter (\<lambda>p. p \<notin> set descendants) (proc_pids fs)) of
                       Some found \<Rightarrow> Inr found
                     | None \<Rightarrow>
                         Inl (''No process found owning socket inode '' @ dec (unat inode) @ '' (scanned '' @
                              dec (length descendants) @ '' descendants of entrypoint PID '' @
                              dec (unat entrypoint_pid) @
                              ''). Hint: the container may need --cap-add=SYS_PTRACE to read /proc/<pid>/fd/'' @
                              '' for processes running as a different user.''))))"

definition resolve_tcp_peer_identity :: "proc_fs \<Rightarrow> u32 \<Rightarrow> u16 \<Rightarrow> (string + string \<times> u32) option" where
  "resolve_tcp_peer_identity fs entrypoint_pid peer_port =
     (case parse_proc_net_tcp fs entrypoint_pid peer_port of
        Inl e \<Rightarrow> Some (Inl e)
      | Inr inode \<Rightarrow>
          (case find_pid_by_socket_inode fs inode entrypoint_pid of
             None \<Rightarrow> None
           | Some (Inl e) \<Rightarrow> Some (Inl e)
           | Some (Inr pid) \<Rightarrow>
               Some (case binary_path fs pid of Inl e \<Rightarrow> Inl e | Inr path \<Rightarrow> Inr (path, pid))))"

definition resolve_tcp_peer_binary :: "proc_fs \<Rightarrow> u32 \<Rightarrow> u16 \<Rightarrow> (string + string) option" where
  "resolve_tcp_peer_binary fs entrypoint_pid peer_port =
     (case parse_proc_net_tcp fs entrypoint_pid peer_port of
        Inl e \<Rightarrow> Some (Inl e)
      | Inr inode \<Rightarrow>
          (case find_pid_by_socket_inode fs inode entrypoint_pid of
             None \<Rightarrow> None
           | Some (Inl e) \<Rightarrow> Some (Inl e)
           | Some (Inr pid) \<Rightarrow> Some (binary_path fs pid)))"

section \<open>Lemmas: the ancestor walks\<close>

text \<open>
  The chain both walks follow: each process is the parent of the one before, no process
  before the last is the entrypoint or init, and the chain ends there, at a process without
  a readable parent, or after \<open>MAX_DEPTH\<close> processes.
\<close>

fun chain_from :: "proc_fs \<Rightarrow> u32 \<Rightarrow> u32 \<Rightarrow> nat \<Rightarrow> u32 list \<Rightarrow> bool" where
  "chain_from fs current stop_pid n [] \<longleftrightarrow> n = 0 \<or> parent_pid fs current = None"
| "chain_from fs current stop_pid n (q # qs) \<longleftrightarrow>
     0 < n \<and> parent_pid fs current = Some q \<and>
     (if q = stop_pid \<or> q = 1 then qs = [] else chain_from fs q stop_pid (n - 1) qs)"

definition exe_of :: "proc_fs \<Rightarrow> u32 \<Rightarrow> string option" where
  "exe_of fs p = (case binary_path fs p of Inr path \<Rightarrow> Some path | Inl _ \<Rightarrow> None)"

lemma chain_length: "chain_from fs current stop_pid n qs \<Longrightarrow> length qs \<le> n"
  by (induction qs arbitrary: current n) (auto split: if_splits simp: Suc_le_eq, fastforce)

lemma exe_of_simps:
  "binary_path fs p = Inl e \<Longrightarrow> exe_of fs p = None"
  "binary_path fs p = Inr path \<Longrightarrow> exe_of fs p = Some path"
  by (simp_all add: exe_of_def)

lemma case_Inr_iff: "(case r of Inl _ \<Rightarrow> False | Inr x \<Rightarrow> P x) \<longleftrightarrow> (\<exists>x. r = Inr x \<and> P x)"
  by (cases r) auto

lemma walks_follow_chain:
  "\<exists>qs. chain_from fs current stop_pid n qs \<and>
     (\<forall>ancestors. ancestor_walk fs n current stop_pid ancestors = ancestors @ List.map_filter (exe_of fs) qs) \<and>
     (\<forall>paths. cmdline_walk fs n current stop_pid exclude paths =
        fold (push_new exclude) (concat (map (cmdline_absolute_paths fs) qs)) paths)"
proof (induction n arbitrary: current)
  case 0
  show ?case by (intro exI [of _ "[]"]) (simp add: List.map_filter_simps)
next
  case (Suc n)
  show ?case
  proof (cases "parent_pid fs current")
    case None
    then show ?thesis by (intro exI [of _ "[]"]) (simp add: List.map_filter_simps)
  next
    case (Some q)
    show ?thesis
    proof (cases "q = stop_pid \<or> q = 1")
      case True
      with Some show ?thesis
        by (intro exI [of _ "[q]"])
          (auto simp: List.map_filter_simps exe_of_simps Let_def split: sum.split)
    next
      case False
      from Suc.IH [of q] obtain qs where qs: "chain_from fs q stop_pid n qs"
        "\<forall>ancestors. ancestor_walk fs n q stop_pid ancestors = ancestors @ List.map_filter (exe_of fs) qs"
        "\<forall>paths. cmdline_walk fs n q stop_pid exclude paths =
           fold (push_new exclude) (concat (map (cmdline_absolute_paths fs) qs)) paths"
        by blast
      with Some False show ?thesis
        by (intro exI [of _ "q # qs"])
          (auto simp: List.map_filter_simps exe_of_simps Let_def split: sum.split)
    qed
  qed
qed

text \<open>Collecting without duplicates: the first path of each component list that is not excluded.\<close>

lemma push_new_fold:
  "(\<forall>p \<in> set (fold (push_new exclude) ps paths).
      p \<in> set paths \<or> p \<in> set ps \<and> \<not> contains_path exclude p) \<and>
   (\<forall>p \<in> set ps. \<not> contains_path exclude p \<longrightarrow> contains_path (fold (push_new exclude) ps paths) p) \<and>
   (\<forall>p. contains_path paths p \<longrightarrow> contains_path (fold (push_new exclude) ps paths) p)"
proof (induction ps arbitrary: paths)
  case (Cons p ps)
  note IH = Cons.IH [of "push_new exclude p paths"]
  have 1: "set (push_new exclude p paths) \<subseteq> insert p (set paths)"
    "contains_path (push_new exclude p paths) q" if "contains_path paths q" for q
    using that by (auto simp: push_new_def contains_path_def)
  have 2: "set (push_new exclude p paths) \<subseteq> insert p (set paths)"
    "p \<in> set (push_new exclude p paths) \<Longrightarrow> p \<in> set paths \<or> \<not> contains_path exclude p"
    "\<not> contains_path exclude p \<Longrightarrow> contains_path (push_new exclude p paths) p"
    by (auto simp: push_new_def contains_path_def)
  from IH 1(2) 2 show ?case by auto
qed auto

lemma push_new_distinct:
  "distinct (map path_components paths) \<Longrightarrow>
   distinct (map path_components (fold (push_new exclude) ps paths))"
proof (induction ps arbitrary: paths)
  case (Cons p ps)
  have "distinct (map path_components (push_new exclude p paths))"
    using Cons.prems by (auto simp: push_new_def contains_path_def list_ex_iff)
  from Cons.IH [OF this] show ?case by simp
qed simp

section \<open>Lemmas: sockets and descendants\<close>

text \<open>A line of the table that shows an established connection of a local port.\<close>

definition established :: "u16 \<Rightarrow> u64 \<Rightarrow> string \<Rightarrow> bool" where
  "established port inode line \<longleftrightarrow>
     (let fields = split_whitespace line in
      10 \<le> length fields \<and> fields ! 3 = ''01'' \<and> parse_u64 (fields ! 9) = Some inode \<and> inode \<noteq> 0 \<and>
      (\<exists>a h. str_rsplit_once (fields ! 1) (CHR '':'') = Some (a, h) \<and>
             of_nat (unwrap_or (from_str_radix 16 16 h) 0) = port))"

lemma tcp_line_ok: "tcp_line port line = Some (Inr inode) \<Longrightarrow> established port inode line"
  by (auto simp: tcp_line_def established_def Let_def split: if_splits option.splits)

lemma tcp_lines_ok: "tcp_lines port ls = Some (Inr inode) \<Longrightarrow> \<exists>l \<in> set ls. established port inode l"
  by (induction ls) (auto split: option.splits dest: tcp_line_ok)

lemma tcp_tables_ok:
  "tcp_tables fs pid port ts = Inr inode \<Longrightarrow>
   \<exists>t \<in> set ts. \<exists>content. read_to_string fs (proc_path pid (''net/'' @ t)) = Some content \<and>
     (\<exists>l \<in> set (drop 1 (str_lines content)). established port inode l)"
  by (induction ts) (auto split: option.splits dest: tcp_lines_ok)

definition owns_socket :: "proc_fs \<Rightarrow> u32 \<Rightarrow> u64 \<Rightarrow> bool" where
  "owns_socket fs pid inode \<longleftrightarrow>
     (\<exists>fds fd link. pf_read_dir fs (proc_path pid ''fd'') = Some fds \<and> fd \<in> set fds \<and>
        pf_read_link fs (proc_path pid ''fd'' @ ''/'' @ fd) = Inr link \<and>
        from_utf8_lossy link = ''socket:['' @ dec (unat inode) @ '']'')"

lemma check_pid_fds_iff:
  "check_pid_fds fs pid (''socket:['' @ dec (unat inode) @ '']'') = Some q \<longleftrightarrow> q = pid \<and> owns_socket fs pid inode"
  by (auto simp: check_pid_fds_def owns_socket_def list_ex_iff case_Inr_iff split: option.splits)

lemma first_owner_ok:
  "first_owner fs (''socket:['' @ dec (unat inode) @ '']'') ps = Some q \<Longrightarrow> q \<in> set ps \<and> owns_socket fs q inode"
  by (induction ps) (auto split: option.splits simp: check_pid_fds_iff simp del: append_Cons)

lemma find_pid_ok: "find_pid_by_socket_inode fs inode root = Some (Inr q) \<Longrightarrow> owns_socket fs q inode"
  by (auto simp: find_pid_by_socket_inode_def Let_def simp del: append_Cons
      split: option.splits dest: first_owner_ok)

definition child_rel :: "proc_fs \<Rightarrow> (u32 \<times> u32) set" where
  "child_rel fs = {(p, c). c \<in> set (children_of fs p)}"

text \<open>On a forest the number of proper descendants decreases from parent to child.\<close>

definition descendants_below :: "proc_fs \<Rightarrow> u32 \<Rightarrow> nat" where
  "descendants_below fs p = card {q. (p, q) \<in> (child_rel fs)\<^sup>+}"

lemma descendants_below_less:
  assumes "(p, c) \<in> child_rel fs" "(c, c) \<notin> (child_rel fs)\<^sup>+"
  shows "descendants_below fs c < descendants_below fs p"
  unfolding descendants_below_def
proof (rule psubset_card_mono)
  show "{q. (c, q) \<in> (child_rel fs)\<^sup>+} \<subset> {q. (p, q) \<in> (child_rel fs)\<^sup>+}"
    using assms by (auto intro: trancl_into_trancl2)
qed simp

lemma descend_returns:
  assumes "\<forall>p \<in> set pids. (root, p) \<in> (child_rel fs)\<^sup>*"
    "\<forall>p. (root, p) \<in> (child_rel fs)\<^sup>* \<longrightarrow> (p, p) \<notin> (child_rel fs)\<^sup>+"
  shows "\<exists>res. descend fs pids i = Some res"
  using assms(1)
proof (induction "mset (map (descendants_below fs) (drop i pids))" arbitrary: pids i
    rule: wf_induct_rule [OF wf_mult [OF wf_less_than]])
  case 1
  show ?case
  proof (cases "i < length pids")
    case True
    let ?p = "pids ! i" and ?w = "descendants_below fs"
    let ?ch = "children_of fs ?p"
    have "?p \<in> set pids" using True by simp
    then have p: "(root, ?p) \<in> (child_rel fs)\<^sup>*" using "1.prems" by blast
    have ch: "(?p, c) \<in> child_rel fs" if "c \<in> set ?ch" for c using that by (simp add: child_rel_def)
    then have ch': "(root, c) \<in> (child_rel fs)\<^sup>*" if "c \<in> set ?ch" for c
      using that p by (blast intro: rtrancl.rtrancl_into_rtrancl)
    have less: "?w c < ?w ?p" if "c \<in> set ?ch" for c
      using that ch ch' assms(2) by (blast intro: descendants_below_less)
    have d: "drop i pids = ?p # drop (i + 1) pids" using True by (simp add: Cons_nth_drop_Suc)
    have d': "drop (i + 1) (pids @ ?ch) = drop (i + 1) pids @ ?ch" using True by simp
    have "(mset (map ?w (drop (i + 1) pids)) + mset (map ?w ?ch),
        mset (map ?w (drop (i + 1) pids)) + {#?w ?p#}) \<in> mult less_than"
      by (rule one_step_implies_mult) (auto dest: less)
    then have "(mset (map ?w (drop (i + 1) (pids @ ?ch))), mset (map ?w (drop i pids))) \<in> mult less_than"
      unfolding d' by (subst d) (simp add: add.commute)
    moreover have "\<forall>q \<in> set (pids @ ?ch). (root, q) \<in> (child_rel fs)\<^sup>*"
      using "1.prems" ch' by auto
    ultimately have "\<exists>res. descend fs (pids @ ?ch) (i + 1) = Some res" by (rule "1.hyps")
    with True show ?thesis by (subst descend.simps) simp
  qed (simp add: descend.simps [of fs pids i])
qed

text \<open>
  A finished walk extends the list it started from by reachable processes, and from \<open>i\<close> on the
  children of each process stand later in the list.
\<close>

definition walk_result :: "proc_fs \<Rightarrow> u32 \<Rightarrow> u32 list \<Rightarrow> nat \<Rightarrow> u32 list \<Rightarrow> bool" where
  "walk_result fs root pids i res \<longleftrightarrow>
     prefix pids res \<and>
     ((\<forall>p \<in> set pids. (root, p) \<in> (child_rel fs)\<^sup>*) \<longrightarrow> (\<forall>p \<in> set res. (root, p) \<in> (child_rel fs)\<^sup>*)) \<and>
     (\<forall>j < length res. i \<le> j \<longrightarrow>
        (\<forall>c \<in> set (children_of fs (res ! j)). \<exists>k < length res. j < k \<and> res ! k = c))"

lemma walk_result_step:
  assumes "i < length pids" "walk_result fs root (pids @ children_of fs (pids ! i)) (i + 1) res"
  shows "walk_result fs root pids i res"
proof -
  let ?ch = "children_of fs (pids ! i)"
  obtain rest where res: "res = pids @ ?ch @ rest"
    using assms(2) by (auto simp: walk_result_def prefix_def)
  have here: "\<exists>k < length res. i < k \<and> res ! k = c" if "c \<in> set (children_of fs (res ! i))" for c
  proof -
    have "c \<in> set ?ch" using that assms(1) by (simp add: res nth_append)
    then obtain m where m: "m < length ?ch" "?ch ! m = c" by (auto simp: in_set_conv_nth)
    then show ?thesis using assms(1)
      by (intro exI [of _ "length pids + m"]) (simp add: res nth_append)
  qed
  have reach: "(root, c) \<in> (child_rel fs)\<^sup>*" if "c \<in> set ?ch" "(root, pids ! i) \<in> (child_rel fs)\<^sup>*" for c
    using that by (auto simp: child_rel_def intro: rtrancl.rtrancl_into_rtrancl)
  show ?thesis
    unfolding walk_result_def
  proof (intro conjI allI impI ballI)
    show "prefix pids res" by (simp add: res)
  next
    fix p
    assume r: "\<forall>p \<in> set pids. (root, p) \<in> (child_rel fs)\<^sup>*" and p: "p \<in> set res"
    then have "\<forall>p \<in> set (pids @ ?ch). (root, p) \<in> (child_rel fs)\<^sup>*"
      using reach assms(1) by auto
    with assms(2) p show "(root, p) \<in> (child_rel fs)\<^sup>*" by (auto simp: walk_result_def)
  next
    fix j c
    assume j: "j < length res" "i \<le> j" and c: "c \<in> set (children_of fs (res ! j))"
    show "\<exists>k < length res. j < k \<and> res ! k = c"
    proof (cases "j = i")
      case True
      with here c show ?thesis by simp
    next
      case False
      with j have "i + 1 \<le> j" by simp
      with assms(2) j(1) c show ?thesis unfolding walk_result_def by blast
    qed
  qed
qed

lemma descend_result:
  assumes "descend fs pids i = Some res"
  shows "walk_result fs root pids i res"
proof (rule descend.raw_induct [where P = "\<lambda>fs pids i res. walk_result fs root pids i res", OF _ assms])
  fix descend' fs' pids' i' res'
  assume IH: "\<And>fs pids i res. descend' fs pids i = Some res \<Longrightarrow> walk_result fs root pids i res"
    and body: "(if i' < length pids' then descend' fs' (pids' @ children_of fs' (pids' ! i')) (i' + 1)
                else Some pids') = Some res'"
  show "walk_result fs' root pids' i' res'"
  proof (cases "i' < length pids'")
    case True
    with body have "descend' fs' (pids' @ children_of fs' (pids' ! i')) (i' + 1) = Some res'" by simp
    then show ?thesis by (intro walk_result_step [OF True] IH)
  next
    case False
    with body have "res' = pids'" by simp
    with False show ?thesis by (simp add: walk_result_def)
  qed
qed

lemma descendants_returns_iff:
  "(\<exists>res. collect_descendant_pids fs root = Some res) \<longleftrightarrow>
   \<not> (\<exists>p. (root, p) \<in> (child_rel fs)\<^sup>* \<and> (p, p) \<in> (child_rel fs)\<^sup>+)"
proof
  assume "\<not> (\<exists>p. (root, p) \<in> (child_rel fs)\<^sup>* \<and> (p, p) \<in> (child_rel fs)\<^sup>+)"
  then show "\<exists>res. collect_descendant_pids fs root = Some res"
    unfolding collect_descendant_pids_def by (intro descend_returns [of _ root]) auto
next
  assume "\<exists>res. collect_descendant_pids fs root = Some res"
  then obtain res where "descend fs [root] 0 = Some res" by (auto simp: collect_descendant_pids_def)
  from descend_result [OF this, of root] have pre: "prefix [root] res"
    and later: "\<And>j c. j < length res \<Longrightarrow> c \<in> set (children_of fs (res ! j)) \<Longrightarrow>
      \<exists>k < length res. j < k \<and> res ! k = c"
    by (auto simp: walk_result_def)
  have closed: "c \<in> set res" if "(p, c) \<in> child_rel fs" "p \<in> set res" for p c
    using that later by (fastforce simp: child_rel_def in_set_conv_nth)
  have reach: "p \<in> set res" if "(root, p) \<in> (child_rel fs)\<^sup>*" for p
    using that
  proof induction
    case base
    with pre show ?case by (auto simp: prefix_def)
  qed (blast intro: closed)
  have later': "\<exists>k < length res. j < k \<and> res ! k = q"
    if "(p, q) \<in> (child_rel fs)\<^sup>+" "res ! j = p" "j < length res" for p q j
    using that
  proof (induction arbitrary: j rule: trancl_induct)
    case (base q)
    with later show ?case by (simp add: child_rel_def)
  next
    case (step q r)
    then obtain k where k: "k < length res" "j < k" "res ! k = q" by blast
    with later [of k r] step.hyps(2) show ?case by (auto simp: child_rel_def dest: less_trans)
  qed
  show "\<not> (\<exists>p. (root, p) \<in> (child_rel fs)\<^sup>* \<and> (p, p) \<in> (child_rel fs)\<^sup>+)"
  proof clarify
    fix p
    assume p: "(root, p) \<in> (child_rel fs)\<^sup>*" "(p, p) \<in> (child_rel fs)\<^sup>+"
    let ?at = "{j. j < length res \<and> res ! j = p}"
    have fin: "finite ?at" by simp
    have "?at \<noteq> {}" using reach [OF p(1)] by (auto simp: in_set_conv_nth)
    with fin have m: "Max ?at \<in> ?at" by (rule Max_in)
    with later' [OF p(2)] obtain k where "k \<in> ?at" "Max ?at < k" by auto
    with Max_ge [OF fin] show False by (simp add: not_le [symmetric])
  qed
qed

lemma descendants_set:
  assumes "collect_descendant_pids fs root = Some res"
  shows "set res = {p. (root, p) \<in> (child_rel fs)\<^sup>*}"
proof -
  have d: "descend fs [root] 0 = Some res" using assms by (simp add: collect_descendant_pids_def)
  from descend_result [OF d, of root] have w: "prefix [root] res" "\<forall>p \<in> set res. (root, p) \<in> (child_rel fs)\<^sup>*"
    "\<forall>j < length res. \<forall>c \<in> set (children_of fs (res ! j)). \<exists>k < length res. j < k \<and> res ! k = c"
    by (auto simp: walk_result_def)
  have "p \<in> set res" if "(root, p) \<in> (child_rel fs)\<^sup>*" for p
    using that
  proof induction
    case base
    with w(1) show ?case by (auto simp: prefix_def)
  next
    case (step p q)
    then obtain j where "j < length res" "res ! j = p" by (auto simp: in_set_conv_nth)
    with w(3) step.hyps(2) show ?case by (fastforce simp: child_rel_def)
  qed
  with w(2) show ?thesis by blast
qed

section \<open>Properties\<close>

text \<open>The ancestor walks end after at most 64 steps whatever \<open>/proc\<close> says and follow one chain of parents that
  does not go past the entrypoint or init: the first collects the binary of each process of the
  chain that has one, the second each command line path of the process and the chain that is
  not excluded, once.\<close>

theorem ancestor_walks_spec:
  "\<exists>qs. chain_from fs pid stop_pid MAX_DEPTH qs \<and> length qs \<le> 64 \<and>
     collect_ancestor_binaries fs pid stop_pid = List.map_filter (exe_of fs) qs \<and>
     (let ps = concat (map (cmdline_absolute_paths fs) (pid # qs));
          res = collect_cmdline_paths fs pid stop_pid exclude
      in set res \<subseteq> {p \<in> set ps. \<not> contains_path exclude p} \<and>
         {p \<in> set ps. \<not> contains_path exclude p} \<subseteq> Collect (contains_path res) \<and>
         distinct (map path_components res))"
proof -
  from walks_follow_chain [of fs pid stop_pid MAX_DEPTH exclude] obtain qs where
    qs: "chain_from fs pid stop_pid MAX_DEPTH qs"
    "\<forall>ancestors. ancestor_walk fs MAX_DEPTH pid stop_pid ancestors = ancestors @ List.map_filter (exe_of fs) qs"
    "\<forall>paths. cmdline_walk fs MAX_DEPTH pid stop_pid exclude paths =
       fold (push_new exclude) (concat (map (cmdline_absolute_paths fs) qs)) paths" by blast
  have res: "collect_cmdline_paths fs pid stop_pid exclude =
      fold (push_new exclude) (concat (map (cmdline_absolute_paths fs) (pid # qs))) []"
    by (simp add: collect_cmdline_paths_def qs(3))
  from chain_length [OF qs(1)] have "length qs \<le> 64" by (simp add: MAX_DEPTH_def)
  moreover have "collect_ancestor_binaries fs pid stop_pid = List.map_filter (exe_of fs) qs"
    by (simp add: collect_ancestor_binaries_def qs(2))
  ultimately show ?thesis
    using qs(1) push_new_fold [of exclude "concat (map (cmdline_absolute_paths fs) (pid # qs))" "[]"]
      push_new_distinct [of "[]" exclude "concat (map (cmdline_absolute_paths fs) (pid # qs))"]
    unfolding Let_def res by (intro exI [of _ qs]) auto
qed

text \<open>The scan of the process tree returns exactly when no process reachable from the root is its own
  descendant, and then it has collected exactly the processes reachable from the root.\<close>

theorem descendants_terminate_iff:
  "(case collect_descendant_pids fs root of
      None \<Rightarrow> \<exists>p. (root, p) \<in> {(p, c). c \<in> set (children_of fs p)}\<^sup>* \<and>
                  (p, p) \<in> {(p, c). c \<in> set (children_of fs p)}\<^sup>+
    | Some pids \<Rightarrow>
        set pids = {p. (root, p) \<in> {(p, c). c \<in> set (children_of fs p)}\<^sup>*} \<and>
        acyclic ({(p, c). c \<in> set (children_of fs p)} \<inter> set pids \<times> set pids))"
proof (cases "collect_descendant_pids fs root")
  case None
  with descendants_returns_iff [of fs root] show ?thesis by (auto simp: child_rel_def)
next
  case (Some pids)
  from descendants_set [OF Some] have set: "set pids = {p. (root, p) \<in> (child_rel fs)\<^sup>*}" .
  have "acyclic (child_rel fs \<inter> set pids \<times> set pids)"
    unfolding acyclic_def
  proof (intro allI notI)
    fix p
    assume c: "(p, p) \<in> (child_rel fs \<inter> set pids \<times> set pids)\<^sup>+"
    then have "p \<in> set pids" by (induction rule: trancl_induct) auto
    moreover have "(p, p) \<in> (child_rel fs)\<^sup>+" using c by (rule trancl_mono) auto
    ultimately show False using Some set descendants_returns_iff [of fs root] by auto
  qed
  with Some set show ?thesis by (simp add: child_rel_def)
qed

text \<open>C17: A resolved peer is the real one: the reported process holds a descriptor of a socket that the
  entrypoint's table lists as established on the peer's port, and the reported path is the target
  of that process's \<open>exe\<close> link, never its command line.\<close>

theorem peer_identity_sound:
  assumes "resolve_tcp_peer_identity fs entrypoint_pid peer_port = Some (Inr (path, pid))"
  shows "pf_read_link fs (''/proc/'' @ dec_signed pid @ ''/exe'') = Inr path \<and>
    (\<exists>inode t content line.
       read_to_string fs (proc_path entrypoint_pid (''net/'' @ t)) = Some content \<and>
       line \<in> set (drop 1 (str_lines content)) \<and> established peer_port inode line \<and>
       owns_socket fs pid inode)"
proof -
  from assms obtain inode where inode: "parse_proc_net_tcp fs entrypoint_pid peer_port = Inr inode"
    and pid: "find_pid_by_socket_inode fs inode entrypoint_pid = Some (Inr pid)"
    and path: "binary_path fs pid = Inr path"
    by (auto simp: resolve_tcp_peer_identity_def split: sum.splits option.splits)
  from path have link: "pf_read_link fs (''/proc/'' @ dec_signed pid @ ''/exe'') = Inr path"
    by (auto simp: binary_path_def split: sum.splits)
  from tcp_tables_ok [OF inode [unfolded parse_proc_net_tcp_def]] find_pid_ok [OF pid] link
  show ?thesis by blast
qed

definition sample_proc :: proc_fs where
  "sample_proc =
     \<lparr>pf_read = map_of
        [(''/proc/7/net/tcp'', ''sl'' @ [CHR 0x0A] @ ''0: 0A:8F4C 0B:0C38 01 0:0 0:0 0 1000 0 4242'' @ [CHR 0x0A]),
         (''/proc/7/task/7/children'', ''9 ''),
         (''/proc/9/status'', ''Name: curl'' @ [CHR 0x0A] @ ''PPid: 7'' @ [CHR 0x0A])],
      pf_read_link = (\<lambda>p. if p = ''/proc/9/fd/3'' then Inr ''socket:[4242]''
        else if p = ''/proc/9/exe'' then Inr ''/usr/bin/curl'' else Inl ''not found''),
      pf_read_dir = map_of
        [(''/proc/7/task'', [''7'']), (''/proc/7/fd'', [''0'']), (''/proc/9/fd'', [''3''])]\<rparr>"

theorem peer_identity_sound_witness:
  "pf_read_link sample_proc ''/proc/9/exe'' = Inr ''/usr/bin/curl'' \<and>
   (\<exists>inode. owns_socket sample_proc 9 inode)"
proof -
  have r: "resolve_tcp_peer_identity sample_proc 7 36684 = Some (Inr (''/usr/bin/curl'', 9))"
    by code_simp
  have p: "''/proc/'' @ dec_signed 9 @ ''/exe'' = ''/proc/9/exe''" by code_simp
  from peer_identity_sound [OF r] show ?thesis unfolding p by blast
qed

end
