(* ===== verification/Mapper.thy ===== *)
theory Mapper
  imports OpaProps Ssrf Procfs "HOL-Library.Product_Lexorder"
begin

text \<open>
  The mechanistic policy mapper, \<open>crates/openshell-sandbox/src/mechanistic_mapper.rs\<close>: denial
  summaries become proposed network rules, one for each \<open>(host, port, binary)\<close>, with a confidence, a
  rationale and security notes. DNS is a parameter, and so are the iteration orders of the hash
  maps (\<open>hash_order\<close>) and the Unicode alphanumeric test of a non-ASCII character. Counters are \<open>u32\<close> and wrap
  around, as in a build without overflow checks. A confidence is an \<open>f32\<close> in units of \<open>2\<^sup>-\<^sup>2\<^sup>7\<close>, each
  operation rounded to 24 bits.
\<close>

section \<open>Messages\<close>

record l7_request_sample =
  sa_method :: string
  sa_path :: string
  sa_decision :: string
  sa_count :: u32

record denial_summary =
  ds_sandbox_id :: string
  ds_host :: string
  ds_port :: u32
  ds_binary :: string
  ds_ancestors :: "string list"
  ds_deny_reason :: string
  ds_first_seen_ms :: int
  ds_last_seen_ms :: int
  ds_count :: u32
  ds_suppressed_count :: u32
  ds_total_count :: u32
  ds_sample_cmdlines :: "string list"
  ds_binary_sha256 :: string
  ds_persistent :: bool
  ds_denial_stage :: string
  ds_l7_request_samples :: "l7_request_sample list"
  ds_l7_inspection_active :: bool

record policy_chunk =
  ch_id :: string
  ch_status :: string
  ch_rule_name :: string
  ch_proposed_rule :: "network_policy_rule option"
  ch_rationale :: string
  ch_security_notes :: string
  ch_confidence :: nat
  ch_denial_summary_ids :: "string list"
  ch_created_at_ms :: int
  ch_decided_at_ms :: int
  ch_stage :: string
  ch_supersedes_chunk_id :: string
  ch_hit_count :: "32 word"
  ch_first_seen_ms :: int
  ch_last_seen_ms :: int
  ch_binary :: string

type_synonym group_key = "string \<times> u32 \<times> string"
type_synonym sample_counts = "(string \<times> string, u32) hash_map"

record hash_order =
  ho_groups :: "(group_key \<times> denial_summary list) list \<Rightarrow> (group_key \<times> denial_summary list) list"
  ho_samples :: "group_key \<Rightarrow> (string \<times> string) list \<Rightarrow> (string \<times> string) list"

section \<open>Rule names, confidence, notes\<close>

definition WELL_KNOWN_PORTS :: "(u16 \<times> string) list" where
  "WELL_KNOWN_PORTS =
     [(80, ''HTTP''), (443, ''HTTPS''), (8080, ''HTTP-alt''), (8443, ''HTTPS-alt''), (5432, ''PostgreSQL''),
      (3306, ''MySQL''), (6379, ''Redis''), (27017, ''MongoDB''), (9200, ''Elasticsearch''), (9092, ''Kafka''),
      (2181, ''ZooKeeper''), (11211, ''Memcached''), (5672, ''RabbitMQ''), (6443, ''Kubernetes API''), (53, ''DNS''),
      (587, ''SMTP''), (993, ''IMAP''), (995, ''POP3'')]"

text \<open>The characters of a text in UTF-8, each with its bytes.\<close>

function utf8_chars :: "string \<Rightarrow> string list" where
  "utf8_chars s =
     (if s = [] then []
      else let k = max 1 (snd (utf8_step s)) in take k s # utf8_chars (drop k s))"
  by pat_completeness auto
termination by (relation "measure length") (auto simp: Let_def)

declare utf8_chars.simps [simp del]

definition is_alphanumeric :: "(string \<Rightarrow> bool) \<Rightarrow> string \<Rightarrow> bool" where
  "is_alphanumeric wide ch \<longleftrightarrow> (case ch of [c] \<Rightarrow> is_ascii_alphanumeric c | _ \<Rightarrow> wide ch)"

definition generate_rule_name :: "(string \<Rightarrow> bool) \<Rightarrow> string \<Rightarrow> u32 \<Rightarrow> string" where
  "generate_rule_name wide host port =
     (let replaced = map (\<lambda>c. if c = CHR ''.'' \<or> c = CHR ''-'' then CHR ''_'' else c) host;
          sanitized = concat (filter (\<lambda>ch. is_alphanumeric wide ch \<or> ch = ''_'') (utf8_chars replaced))
      in ''allow_'' @ sanitized @ ''_'' @ dec (unat port))"

text \<open>The distance of neighbouring 24-bit floats at \<open>n\<close>, and rounding to nearest, ties to even.\<close>

function f32_ulp :: "nat \<Rightarrow> nat" where
  "f32_ulp n = (if n < 2 ^ 24 then 1 else 2 * f32_ulp (n div 2))"
  by pat_completeness auto
termination by (relation "measure id") auto

declare f32_ulp.simps [simp del]

definition f32_round :: "nat \<Rightarrow> nat" where
  "f32_round n =
     (let u = f32_ulp n; q = n div u; r = n mod u
      in (if 2 * r < u \<or> (2 * r = u \<and> even q) then q else q + 1) * u)"

text \<open>The literals of the code, as \<open>f32\<close>.\<close>

definition f32_0_1 :: nat where "f32_0_1 = 13421773"
definition f32_0_15 :: nat where "f32_0_15 = 20132660"
definition f32_0_2 :: nat where "f32_0_2 = 26843546"
definition f32_0_5 :: nat where "f32_0_5 = 67108864"
definition f32_0_95 :: nat where "f32_0_95 = 127506840"

definition compute_confidence :: "u32 \<Rightarrow> u16 \<Rightarrow> bool \<Rightarrow> nat" where
  "compute_confidence total_count port is_ssrf =
     (let score = f32_0_5;
          score = (if 10 \<le> total_count then f32_round (score + f32_0_2)
                   else if 3 \<le> total_count then f32_round (score + f32_0_1) else score);
          score = (if list_ex (\<lambda>(p, _). p = port) WELL_KNOWN_PORTS then f32_round (score + f32_0_15) else score);
          score = (if is_ssrf then f32_round (score - f32_0_2) else score)
      in max f32_0_1 (min f32_0_95 score))"

definition generate_security_notes :: "string \<Rightarrow> u16 \<Rightarrow> bool \<Rightarrow> string" where
  "generate_security_notes host port is_ssrf =
     str_join '' ''
       ((if is_ssrf then
           [''This connection was blocked by SSRF protection. Allowing it bypasses internal-IP safety checks.''] else []) @
        (if str_starts_with host ''10.'' \<or> str_starts_with host ''172.'' \<or> str_starts_with host ''192.168.'' \<or>
            host = ''localhost'' \<or> str_starts_with host ''127.'' then
           [''Destination '' @ [CHR 0x27] @ host @ [CHR 0x27] @ '' appears to be an internal/private address.''] else []) @
        (if 49152 < port then
           [''Port '' @ dec (unat port) @ '' is in the ephemeral range '' @ em_dash @
            '' this may be a temporary service.''] else []) @
        (if port \<in> {5432, 3306, 6379, 27017, 9200, 11211, 5672} then
           [''Port '' @ dec (unat port) @ '' is a well-known database/service port. '' @
            ''Consider restricting with L7 rules or read-only access.''] else []))"

section \<open>L7 rules from samples\<close>

definition looks_like_id :: "string \<Rightarrow> bool" where
  "looks_like_id segment =
     (if segment = [] then False
      else if list_all is_ascii_digit segment \<and> 2 \<le> length segment then True
      else
        let hex_only = filter is_ascii_hexdigit segment in
        if 24 \<le> length hex_only \<and> CHR ''-'' \<in> set segment then True
        else 16 \<le> length hex_only \<and> length segment = length hex_only)"

definition generalise_path :: "string \<Rightarrow> string" where
  "generalise_path raw =
     (let path = hd (str_split (CHR ''?'') raw);
          segments = str_split (CHR ''/'') path
      in if length segments \<le> 1 then path
         else if looks_like_id (last segments) then str_join ''/'' (butlast segments) @ ''/*''
         else path)"

text \<open>The keys that were not seen before.\<close>

fun generalised_rules :: "(string \<times> string) list \<Rightarrow> (string \<times> string) list \<Rightarrow> l7_rule list" where
  "generalised_rules seen [] = []"
| "generalised_rules seen ((m, path) # keys) =
     (let generalised = generalise_path path; key = (m, generalised) in
      if key \<in> set seen then generalised_rules seen keys
      else \<lparr>lr_allow = Some \<lparr>la_method = m, la_path = generalised, la_command = ''''\<rparr>\<rparr> #
           generalised_rules (key # seen) keys)"

definition rule_key :: "l7_rule \<Rightarrow> string \<times> string" where
  "rule_key r = (case lr_allow r of Some a \<Rightarrow> (la_method a, la_path a) | None \<Rightarrow> ('''', ''''))"

definition build_l7_rules :: "(string \<times> string) list \<Rightarrow> l7_rule list" where
  "build_l7_rules keys = sort_key rule_key (generalised_rules [] keys)"

section \<open>Addresses\<close>

definition mapper_is_internal_ip :: "ip_addr \<Rightarrow> bool" where
  "mapper_is_internal_ip ip =
     (case ip of
        V4 v4 \<Rightarrow> v4_is_loopback v4 \<or> v4_is_private v4 \<or> v4_is_link_local v4
      | V6 v6 \<Rightarrow>
          if v6_is_loopback v6 then True
          else if v6_segment 0 v6 AND 0xffc0 = 0xfe80 then True
          else if v6_segment 0 v6 AND 0xfe00 = 0xfc00 then True
          else case to_ipv4_mapped v6 of
                 Some v4 \<Rightarrow> v4_is_loopback v4 \<or> v4_is_private v4 \<or> v4_is_link_local v4
               | None \<Rightarrow> False)"

definition resolve_allowed_ips_if_private ::
    "(string \<Rightarrow> string + ip_addr list) \<Rightarrow> string \<Rightarrow> u32 \<Rightarrow> string list" where
  "resolve_allowed_ips_if_private lookup_host host port =
     (case lookup_host (host @ '':'' @ dec (unat port)) of
        Inl e \<Rightarrow> []
      | Inr addrs \<Rightarrow>
          if addrs = [] then []
          else if \<not> list_ex mapper_is_internal_ip addrs then []
          else remdups_adj (sort (map show_ip addrs)))"

section \<open>Proposals\<close>

definition group_key_of :: "denial_summary \<Rightarrow> group_key" where
  "group_key_of d = (ds_host d, ds_port d, ds_binary d)"

definition group_denials :: "denial_summary list \<Rightarrow> (group_key, denial_summary list) hash_map" where
  "group_denials summaries =
     fold (\<lambda>d m. hm_insert (group_key_of d) (unwrap_or (map_of m (group_key_of d)) [] @ [d]) m) summaries []"

definition count_sample :: "l7_request_sample \<Rightarrow> sample_counts \<Rightarrow> sample_counts" where
  "count_sample s m =
     (let key = (sa_method s, sa_path s) in hm_insert key (unwrap_or (map_of m key) 0 + sa_count s) m)"

definition l7_methods_of :: "denial_summary list \<Rightarrow> sample_counts" where
  "l7_methods_of denials = fold (\<lambda>d m. fold count_sample (ds_l7_request_samples d) m) denials []"

definition has_l7 :: "denial_summary list \<Rightarrow> bool" where
  "has_l7 denials \<longleftrightarrow> list_ex (\<lambda>d. ds_l7_inspection_active d \<or> ds_l7_request_samples d \<noteq> []) denials"

definition proposed_endpoint ::
    "string \<Rightarrow> u32 \<Rightarrow> bool \<Rightarrow> l7_rule list \<Rightarrow> string list \<Rightarrow> network_endpoint" where
  "proposed_endpoint host port l7 l7_rules allowed_ips =
     (if l7 \<and> l7_rules \<noteq> [] then
        \<lparr>ep_host = host, ep_port = port, ep_protocol = ''rest'', ep_tls = ''terminate'', ep_enforcement = ''enforce'',
         ep_access = '''', ep_rules = l7_rules, ep_allowed_ips = allowed_ips, ep_ports = [port]\<rparr>
      else
        \<lparr>ep_host = host, ep_port = port, ep_protocol = '''', ep_tls = '''', ep_enforcement = '''',
         ep_access = '''', ep_rules = [], ep_allowed_ips = allowed_ips, ep_ports = [port]\<rparr>)"

definition proposed_binaries :: "string \<Rightarrow> network_binary list" where
  "proposed_binaries binary = (if binary = [] then [] else [\<lparr>nb_path = binary, nb_harness = False\<rparr>])"

definition short_binary_name :: "string \<Rightarrow> string" where
  "short_binary_name path = last (str_split (CHR ''/'') path)"

definition proposal_rationale ::
    "string \<Rightarrow> u32 \<Rightarrow> string \<Rightarrow> string list \<Rightarrow> bool \<Rightarrow> (string \<times> string) list \<Rightarrow> string" where
  "proposal_rationale host port binary allowed_ips l7 keys =
     (let binary_list = (if binary = [] then ''unknown binary'' else short_binary_name binary);
          port_name = (case find (\<lambda>(p, _). p = (ucast port :: u16)) WELL_KNOWN_PORTS of
                         Some (_, name) \<Rightarrow> '' ('' @ name @ '')'' | None \<Rightarrow> '''');
          private_ip_note = (if allowed_ips \<noteq> [] then
              '' Host resolves to private IP ('' @ str_join '', '' allowed_ips @
              ''); allowed_ips included for SSRF override.'' else '''');
          destination = ''Allow '' @ binary_list @ '' to connect to '' @ host @ '':'' @ dec (unat port) @ port_name
      in if l7 \<and> keys \<noteq> [] then
           destination @ '' with L7 inspection. Allowed paths: '' @
             str_join '', '' (map (\<lambda>(m, p). m @ '' '' @ p) keys) @ ''.'' @ private_ip_note
         else destination @ ''.'' @ private_ip_note)"

text \<open>The proposal for one group.\<close>

definition propose ::
    "(string \<Rightarrow> bool) \<Rightarrow> (string \<Rightarrow> string + ip_addr list) \<Rightarrow> hash_order \<Rightarrow> group_key \<times> denial_summary list \<Rightarrow>
     policy_chunk" where
  "propose wide lookup_host H entry =
     (case entry of ((host, port, binary), denials) \<Rightarrow>
        let rule_name = generate_rule_name wide host port;
            total_count = sum_list (map ds_count denials);
            first_seen_ms = fold (\<lambda>d acc. min acc (ds_first_seen_ms d)) denials (2 ^ 63 - 1);
            last_seen_ms = fold (\<lambda>d acc. max acc (ds_last_seen_ms d)) denials 0;
            is_ssrf = list_ex (\<lambda>d. ds_denial_stage d = ''ssrf'') denials;
            keys = ho_samples H (host, port, binary) (map fst (l7_methods_of denials));
            allowed_ips = resolve_allowed_ips_if_private lookup_host host port;
            endpoint = proposed_endpoint host port (has_l7 denials) (build_l7_rules keys) allowed_ips
        in
        \<lparr>ch_id = '''', ch_status = ''pending'', ch_rule_name = rule_name,
         ch_proposed_rule = Some \<lparr>npr_name = rule_name, npr_endpoints = [endpoint],
           npr_binaries = proposed_binaries binary\<rparr>,
         ch_rationale = proposal_rationale host port binary allowed_ips (has_l7 denials) keys,
         ch_security_notes = generate_security_notes host (ucast port) is_ssrf,
         ch_confidence = compute_confidence total_count (ucast port) is_ssrf,
         ch_denial_summary_ids = [], ch_created_at_ms = 0, ch_decided_at_ms = 0,
         ch_stage = (case denials of [] \<Rightarrow> ''connect'' | d # _ \<Rightarrow> ds_denial_stage d),
         ch_supersedes_chunk_id = '''', ch_hit_count = total_count,
         ch_first_seen_ms = first_seen_ms, ch_last_seen_ms = last_seen_ms, ch_binary = binary\<rparr>)"

text \<open>The sort is stable, the highest confidence first.\<close>

definition generate_proposals ::
    "(string \<Rightarrow> bool) \<Rightarrow> (string \<Rightarrow> string + ip_addr list) \<Rightarrow> hash_order \<Rightarrow> denial_summary list \<Rightarrow> policy_chunk list" where
  "generate_proposals wide lookup_host H summaries =
     sort_key (\<lambda>c. - int (ch_confidence c)) (map (propose wide lookup_host H) (ho_groups H (group_denials summaries)))"

section \<open>Lemmas\<close>

lemma mapper_is_internal_ip_eq: "mapper_is_internal_ip ip = is_internal_ip ip"
  by (cases ip) (simp_all add: mapper_is_internal_ip_def is_internal_ip_def)

text \<open>A group holds exactly the denials with its key, in order.\<close>

lemma group_fold:
  "hm_ok m \<Longrightarrow>
   hm_ok (fold (\<lambda>d m. hm_insert (group_key_of d) (unwrap_or (map_of m (group_key_of d)) [] @ [d]) m) ds m) \<and>
   map_of (fold (\<lambda>d m. hm_insert (group_key_of d) (unwrap_or (map_of m (group_key_of d)) [] @ [d]) m) ds m) k =
     (if filter (\<lambda>d. group_key_of d = k) ds = [] then map_of m k
      else Some (unwrap_or (map_of m k) [] @ filter (\<lambda>d. group_key_of d = k) ds))"
proof (induction ds arbitrary: m)
  case (Cons d ds)
  let ?m = "hm_insert (group_key_of d) (unwrap_or (map_of m (group_key_of d)) [] @ [d]) m"
  have "hm_ok ?m" using Cons.prems by (rule hm_ok_insert)
  from Cons.IH [OF this] show ?case by (simp add: map_of_hm_insert)
qed simp

lemma hm_ok_group_denials: "hm_ok (group_denials ds)"
  unfolding group_denials_def by (rule group_fold [THEN conjunct1]) (simp add: hm_ok_def)

lemma map_of_group_denials:
  "map_of (group_denials ds) k =
     (if filter (\<lambda>d. group_key_of d = k) ds = [] then None else Some (filter (\<lambda>d. group_key_of d = k) ds))"
  using group_fold [THEN conjunct2, of "[]" ds k] by (simp add: group_denials_def hm_ok_def)

lemma group_denials_mem:
  "(k, g) \<in> set (group_denials ds) \<longleftrightarrow> g = filter (\<lambda>d. group_key_of d = k) ds \<and> g \<noteq> []"
proof -
  have "distinct (map fst (group_denials ds))" using hm_ok_group_denials by (simp add: hm_ok_def)
  then have "(k, g) \<in> set (group_denials ds) \<longleftrightarrow> map_of (group_denials ds) k = Some g" by simp
  then show ?thesis by (auto simp: map_of_group_denials)
qed

lemma fold_count_keys:
  "fst ` set (fold count_sample ss m) = fst ` set m \<union> (\<lambda>s. (sa_method s, sa_path s)) ` set ss"
  by (induction ss arbitrary: m) (auto simp: count_sample_def Let_def keys_hm_insert)

lemma l7_methods_keys:
  "fst ` set (l7_methods_of ds) = (\<Union>d \<in> set ds. (\<lambda>s. (sa_method s, sa_path s)) ` set (ds_l7_request_samples d))"
proof -
  have "fst ` set (fold (\<lambda>d m. fold count_sample (ds_l7_request_samples d) m) ds m) =
      fst ` set m \<union> (\<Union>d \<in> set ds. (\<lambda>s. (sa_method s, sa_path s)) ` set (ds_l7_request_samples d))" for m
    by (induction ds arbitrary: m) (auto simp: fold_count_keys)
  then show ?thesis by (simp add: l7_methods_of_def)
qed

lemma generalised_rules_keys:
  "rule_key ` set (generalised_rules seen keys) = (\<lambda>(m, p). (m, generalise_path p)) ` set keys - set seen"
  by (induction seen keys rule: generalised_rules.induct) (auto simp: Let_def rule_key_def)

lemma generalised_rules_allow: "r \<in> set (generalised_rules seen keys) \<Longrightarrow> lr_allow r =
    Some \<lparr>la_method = fst (rule_key r), la_path = snd (rule_key r), la_command = ''''\<rparr>"
  by (induction seen keys rule: generalised_rules.induct) (auto simp: Let_def rule_key_def split: if_splits)

lemma build_l7_rules_keys: "rule_key ` set (build_l7_rules keys) = (\<lambda>(m, p). (m, generalise_path p)) ` set keys"
  by (simp add: build_l7_rules_def generalised_rules_keys)

lemma build_l7_rules_allow: "r \<in> set (build_l7_rules keys) \<Longrightarrow> lr_allow r =
    Some \<lparr>la_method = fst (rule_key r), la_path = snd (rule_key r), la_command = ''''\<rparr>"
  by (simp add: build_l7_rules_def generalised_rules_allow)

text \<open>An order of iteration visits every entry once.\<close>

definition order_ok :: "hash_order \<Rightarrow> bool" where
  "order_ok H \<longleftrightarrow> (\<forall>m. mset (ho_groups H m) = mset m) \<and> (\<forall>k m. mset (ho_samples H k m) = mset m)"

lemma order_ok_set:
  "order_ok H \<Longrightarrow> set (ho_groups H m) = set m" "order_ok H \<Longrightarrow> set (ho_samples H k l) = set l"
  unfolding order_ok_def by (rule mset_eq_setD, blast)+

text \<open>The rule proposed for a denial, and its endpoint.\<close>

definition endpoint_for ::
    "(string \<Rightarrow> string + ip_addr list) \<Rightarrow> hash_order \<Rightarrow> denial_summary list \<Rightarrow> denial_summary \<Rightarrow> network_endpoint" where
  "endpoint_for lookup H summaries d =
     (let g = filter (\<lambda>e. group_key_of e = group_key_of d) summaries in
      proposed_endpoint (ds_host d) (ds_port d) (has_l7 g)
        (build_l7_rules (ho_samples H (group_key_of d) (map fst (l7_methods_of g))))
        (resolve_allowed_ips_if_private lookup (ds_host d) (ds_port d)))"

definition rule_for ::
    "(string \<Rightarrow> bool) \<Rightarrow> (string \<Rightarrow> string + ip_addr list) \<Rightarrow> hash_order \<Rightarrow> denial_summary list \<Rightarrow> denial_summary \<Rightarrow>
     network_policy_rule" where
  "rule_for wide lookup H summaries d =
     \<lparr>npr_name = generate_rule_name wide (ds_host d) (ds_port d),
      npr_endpoints = [endpoint_for lookup H summaries d],
      npr_binaries = proposed_binaries (ds_binary d)\<rparr>"

lemma proposal_of_denial:
  assumes "order_ok H" "d \<in> set summaries"
  obtains c where "c \<in> set (generate_proposals wide lookup H summaries)"
    "ch_proposed_rule c = Some (rule_for wide lookup H summaries d)"
proof
  let ?g = "filter (\<lambda>e. group_key_of e = group_key_of d) summaries"
  have "(group_key_of d, ?g) \<in> set (group_denials summaries)"
    using assms(2) by (auto simp: group_denials_mem filter_empty_conv)
  then show "propose wide lookup H (group_key_of d, ?g) \<in> set (generate_proposals wide lookup H summaries)"
    by (auto simp: generate_proposals_def order_ok_set [OF assms(1)])
  show "ch_proposed_rule (propose wide lookup H (group_key_of d, ?g)) = Some (rule_for wide lookup H summaries d)"
    by (simp add: propose_def Let_def rule_for_def endpoint_for_def group_key_of_def [of d])
qed

lemma proposed_endpoint_covers:
  assumes "host \<noteq> []" "CHR ''*'' \<notin> set host"
  shows "endpoint_covers B (proposed_endpoint host port l7 rules ips) n \<longleftrightarrow>
    n_port n = unat port \<and> b_lower B (n_host n) = b_lower B host"
  using assms by (auto simp: endpoint_covers_def proposed_endpoint_def endpoint_json_ports_def str_contains_char)

lemma rule_for_covers:
  assumes "ds_host d \<noteq> []" "CHR ''*'' \<notin> set (ds_host d)" "ds_binary d \<noteq> []" "CHR ''*'' \<notin> set (ds_binary d)"
  shows "rule_covers B (rule_for wide lookup H summaries d) n x \<longleftrightarrow>
    n_port n = unat (ds_port d) \<and> b_lower B (n_host n) = b_lower B (ds_host d) \<and>
    ds_binary d \<in> set (x_path x # x_ancestors x)"
  using assms
  by (auto simp: rule_covers_def rule_for_def endpoint_for_def Let_def proposed_endpoint_covers
      proposed_binaries_def binary_matches_def str_contains_char)

lemma sort_Nil_iff: "sort xs = [] \<longleftrightarrow> xs = []"
  by (metis set_empty set_sort)

lemma str_join_snoc: "ws \<noteq> [] \<Longrightarrow> str_join sep (ws @ [w]) = str_join sep ws @ sep @ w"
  by (induction ws rule: induct_list012) auto

text \<open>A generalised path is the path without its query, or with a star for an identifier at its end.\<close>

lemma generalise_path_cases:
  obtains (same) "generalise_path raw = hd (str_split (CHR ''?'') raw)"
  | (star) q seg where "hd (str_split (CHR ''?'') raw) = q @ ''/'' @ seg" "CHR ''/'' \<notin> set seg" "seg \<noteq> []"
      "generalise_path raw = q @ ''/*''"
proof -
  let ?p = "hd (str_split (CHR ''?'') raw)"
  let ?ss = "str_split (CHR ''/'') ?p"
  show thesis
  proof (cases "1 < length ?ss \<and> looks_like_id (last ?ss)")
    case False
    then show thesis by (intro same) (auto simp: generalise_path_def Let_def)
  next
    case True
    have ne: "butlast ?ss \<noteq> []" using True by (cases ?ss rule: rev_cases) auto
    have "str_join ''/'' (butlast ?ss @ [last ?ss]) = ?p" by (simp add: str_join_split)
    then have p: "?p = str_join ''/'' (butlast ?ss) @ ''/'' @ last ?ss" unfolding str_join_snoc [OF ne] by (rule sym)
    have "last ?ss \<noteq> []" using True by (auto simp: looks_like_id_def split: if_splits)
    with True p show thesis
      using str_split_no_sep [of "last ?ss" "CHR ''/''" ?p]
      by (intro star [of "str_join ''/'' (butlast ?ss)" "last ?ss"]) (auto simp: generalise_path_def Let_def)
  qed
qed

text \<open>
  What the policy's glob matcher is relied on for: a pattern without special characters matches
  itself and nothing else, and a final \<open>/*\<close> matches any last segment.
\<close>

definition literal :: "string \<Rightarrow> bool" where
  "literal p \<longleftrightarrow> set p \<inter> set ''*?[]{}!'' = {} \<and> CHR 0x5C \<notin> set p"

definition glob_laws :: "builtins \<Rightarrow> bool" where
  "glob_laws B \<longleftrightarrow>
     (\<forall>p t. literal p \<longrightarrow> (b_glob B p [''/''] t \<longleftrightarrow> t = p)) \<and>
     (\<forall>q seg. literal q \<longrightarrow> seg \<noteq> [] \<longrightarrow> CHR ''/'' \<notin> set seg \<longrightarrow> b_glob B (q @ ''/*'') [''/''] (q @ ''/'' @ seg))"

lemma hd_split_no_query: "CHR ''?'' \<notin> set p \<Longrightarrow> hd (str_split (CHR ''?'') p) = p"
  by (simp add: str_split_single)

lemma literal_no_query: "literal p \<Longrightarrow> CHR ''?'' \<notin> set p"
  by (auto simp: literal_def)

lemma generalise_path_matches:
  assumes "glob_laws B" "literal p"
  shows "path_matches B p (generalise_path p)"
proof (cases rule: generalise_path_cases [of p])
  case same
  with assms show ?thesis
    by (simp add: hd_split_no_query literal_no_query path_matches_def glob_laws_def)
next
  case (star q seg)
  then have p: "p = q @ ''/'' @ seg" using assms(2) by (simp add: hd_split_no_query literal_no_query)
  with assms(2) have "literal q" by (auto simp: literal_def)
  with star assms(1) p show ?thesis by (auto simp: path_matches_def glob_laws_def)
qed

lemma proposed_endpoint_permits:
  assumes "l7" "keys \<noteq> []"
  shows "endpoint_permits B (proposed_endpoint host port l7 (build_l7_rules keys) ips)
      \<lparr>r_method = m, r_path = p, r_command = None\<rparr> \<longleftrightarrow>
    (\<exists>(m', p') \<in> set keys. method_matches B m m' \<and> path_matches B p (generalise_path p'))"
proof -
  let ?rules = "build_l7_rules keys"
  let ?req = "\<lparr>r_method = m, r_path = p, r_command = None\<rparr>"
  have "rule_key ` set ?rules \<noteq> {}" using assms(2) by (simp add: build_l7_rules_keys)
  then have ne: "?rules \<noteq> []" by auto
  have "endpoint_permits B (proposed_endpoint host port l7 ?rules ips) ?req \<longleftrightarrow>
      (\<exists>r \<in> set ?rules. rule_permits B ?req r)"
    using assms(1) ne by (simp add: endpoint_permits_def proposed_endpoint_def list_ex_iff)
  also have "\<dots> \<longleftrightarrow> (\<exists>r \<in> set ?rules. method_matches B m (fst (rule_key r)) \<and> path_matches B p (snd (rule_key r)))"
    by (intro bex_cong refl) (simp add: rule_permits_def build_l7_rules_allow)
  also have "\<dots> \<longleftrightarrow> (\<exists>k \<in> rule_key ` set ?rules. method_matches B m (fst k) \<and> path_matches B p (snd k))" by simp
  also have "\<dots> \<longleftrightarrow> (\<exists>(m', p') \<in> set keys. method_matches B m m' \<and> path_matches B p (generalise_path p'))"
    unfolding build_l7_rules_keys by force
  finally show ?thesis .
qed

lemma endpoint_for_permits:
  assumes "order_ok H" "d \<in> set summaries" "s \<in> set (ds_l7_request_samples d)"
  shows "endpoint_permits B (endpoint_for lookup H summaries d) \<lparr>r_method = m, r_path = p, r_command = None\<rparr> \<longleftrightarrow>
    (\<exists>e \<in> set summaries. group_key_of e = group_key_of d \<and>
       (\<exists>s' \<in> set (ds_l7_request_samples e).
          method_matches B m (sa_method s') \<and> path_matches B p (generalise_path (sa_path s'))))"
proof -
  let ?g = "filter (\<lambda>e. group_key_of e = group_key_of d) summaries"
  let ?keys = "ho_samples H (group_key_of d) (map fst (l7_methods_of ?g))"
  have l7: "has_l7 ?g" using assms(2,3) by (auto simp: has_l7_def list_ex_iff)
  have keys: "set ?keys = (\<Union>d \<in> set ?g. (\<lambda>s. (sa_method s, sa_path s)) ` set (ds_l7_request_samples d))"
    by (simp add: order_ok_set [OF assms(1)] l7_methods_keys)
  then have "(sa_method s, sa_path s) \<in> set ?keys" using assms(2,3) by auto
  then have ne: "?keys \<noteq> []" by auto
  show ?thesis
    unfolding endpoint_for_def Let_def proposed_endpoint_permits [OF l7 ne] keys by auto
qed

lemma generalise_path_query:
  assumes "literal path" "\<not> looks_like_id (last (str_split (CHR ''/'') path))"
  shows "generalise_path (path @ ''?'' @ query) = path"
  using assms(2) str_split_append [OF literal_no_query [OF assms(1)], of query]
  by (simp add: generalise_path_def Let_def)

lemma query_not_matched:
  assumes "glob_laws B" "literal path"
  shows "\<not> path_matches B (path @ ''?'' @ query) path"
proof -
  have "\<not> literal ''**''" by (simp add: literal_def)
  then have "path \<noteq> ''**''" using assms(2) by blast
  moreover have "\<not> b_glob B path [''/''] (path @ ''?'' @ query)"
    using assms unfolding glob_laws_def by simp
  ultimately show ?thesis unfolding path_matches_def by blast
qed

section \<open>Properties\<close>

text \<open>Every denial of a known binary and a plain host has its proposal, and the proposed rule covers exactly
  the connections to that port, to that host up to case, by that binary or a process under it.\<close>

theorem proposals_cover_denied:
  assumes "order_ok H" "d \<in> set summaries" "ds_host d \<noteq> []" "CHR ''*'' \<notin> set (ds_host d)"
    "ds_binary d \<noteq> []" "CHR ''*'' \<notin> set (ds_binary d)"
  shows "\<exists>c rule. c \<in> set (generate_proposals wide lookup H summaries) \<and> ch_proposed_rule c = Some rule \<and>
    (\<forall>n x. rule_covers B rule n x \<longleftrightarrow>
       n_port n = unat (ds_port d) \<and> b_lower B (n_host n) = b_lower B (ds_host d) \<and>
       ds_binary d \<in> set (x_path x # x_ancestors x))"
proof -
  from proposal_of_denial [OF assms(1,2), of wide lookup] obtain c where
    "c \<in> set (generate_proposals wide lookup H summaries)"
    "ch_proposed_rule c = Some (rule_for wide lookup H summaries d)" .
  then show ?thesis
    by (intro exI [of _ c] exI [of _ "rule_for wide lookup H summaries d"] conjI allI rule_for_covers [OF assms(3-6)])
qed


text \<open>When a host resolves to a loopback or link-local address the proposal lists its addresses, but the
  proxy's check of the destination still refuses the host, whatever networks are listed.\<close>

theorem loopback_proposal_still_denied:
  assumes "order_ok H" "d \<in> set summaries" "lookup (ds_host d @ '':'' @ dec (unat (ds_port d))) = Inr ips"
    "ip \<in> set ips" "is_always_blocked_ip ip"
  shows "\<exists>c rule e. c \<in> set (generate_proposals wide lookup H summaries) \<and> ch_proposed_rule c = Some rule \<and>
    npr_endpoints rule = [e] \<and> ep_host e = ds_host d \<and> ep_allowed_ips e \<noteq> [] \<and>
    (\<exists>reason. resolve_and_check_allowed_ips N (\<lambda>_ _. Inr ips) (ds_host d) port nets = Inl reason)"
proof -
  from proposal_of_denial [OF assms(1,2), of wide lookup] obtain c where
    c: "c \<in> set (generate_proposals wide lookup H summaries)"
      "ch_proposed_rule c = Some (rule_for wide lookup H summaries d)" .
  have "resolve_allowed_ips_if_private lookup (ds_host d) (ds_port d) \<noteq> []"
    using assms(3,4) always_blocked_internal [OF assms(5)]
    by (auto simp: resolve_allowed_ips_if_private_def mapper_is_internal_ip_eq list_ex_iff sort_Nil_iff)
  then have e: "ep_host (endpoint_for lookup H summaries d) = ds_host d"
    "ep_allowed_ips (endpoint_for lookup H summaries d) \<noteq> []"
    by (simp_all add: endpoint_for_def proposed_endpoint_def Let_def)
  have "resolve_and_check_allowed_ips N (\<lambda>_ _. Inr ips) (ds_host d) port nets \<noteq> Inr v" for v
    using assms(4,5) by (auto simp: resolve_and_check_allowed_ips_Inr)
  then have "\<exists>reason. resolve_and_check_allowed_ips N (\<lambda>_ _. Inr ips) (ds_host d) port nets = Inl reason"
    by (cases "resolve_and_check_allowed_ips N (\<lambda>_ _. Inr ips) (ds_host d) port nets") auto
  with c e show ?thesis
    by (intro exI [of _ c] exI [of _ "rule_for wide lookup H summaries d"] exI [of _ "endpoint_for lookup H summaries d"]
        conjI) (simp_all add: rule_for_def)
qed

text \<open>A proposed L7 rule permits every observed request whose path has no query and no glob characters; but
  when the only observed request has a query and no identifier at the end of its path, the rule
  proposed for it does not permit it, because the query is dropped from the rule and not from the
  request.\<close>

theorem proposed_rules_and_samples:
  assumes "order_ok H" "d \<in> set summaries" "s \<in> set (ds_l7_request_samples d)" "glob_laws B" "literal path"
    "\<not> looks_like_id (last (str_split (CHR ''/'') path))"
  shows "\<exists>c rule e. c \<in> set (generate_proposals wide lookup H summaries) \<and> ch_proposed_rule c = Some rule \<and>
    npr_endpoints rule = [e] \<and> ep_host e = ds_host d \<and>
    (sa_path s = path \<longrightarrow> endpoint_permits B e \<lparr>r_method = sa_method s, r_path = path, r_command = None\<rparr>) \<and>
    (summaries = [d] \<and> ds_l7_request_samples d = [s] \<and> sa_path s = path @ ''?'' @ query \<longrightarrow>
       \<not> endpoint_permits B e \<lparr>r_method = sa_method s, r_path = sa_path s, r_command = None\<rparr>)"
proof -
  let ?e = "endpoint_for lookup H summaries d"
  from proposal_of_denial [OF assms(1,2), of wide lookup] obtain c where
    c: "c \<in> set (generate_proposals wide lookup H summaries)"
      "ch_proposed_rule c = Some (rule_for wide lookup H summaries d)" .
  note permits = endpoint_for_permits [OF assms(1-3), of B lookup]
  have pos: "sa_path s = path \<longrightarrow> endpoint_permits B ?e \<lparr>r_method = sa_method s, r_path = path, r_command = None\<rparr>"
    unfolding permits
    by (rule impI, rule bexI [OF _ assms(2)], intro conjI refl bexI [OF _ assms(3)])
      (simp_all add: method_matches_def generalise_path_matches [OF assms(4,5)])
  have neg: "summaries = [d] \<and> ds_l7_request_samples d = [s] \<and> sa_path s = path @ ''?'' @ query \<longrightarrow>
      \<not> endpoint_permits B ?e \<lparr>r_method = sa_method s, r_path = sa_path s, r_command = None\<rparr>"
    unfolding permits using generalise_path_query [OF assms(5,6)] query_not_matched [OF assms(4,5)] by simp
  have e: "npr_endpoints (rule_for wide lookup H summaries d) = [?e]" "ep_host ?e = ds_host d"
    by (simp_all add: rule_for_def endpoint_for_def proposed_endpoint_def Let_def)
  show ?thesis
    by (rule exI [of _ c], rule exI [of _ "rule_for wide lookup H summaries d"], rule exI [of _ ?e])
      (intro conjI c e pos neg)
qed

section \<open>A denial and its proposal\<close>

definition sample_denial :: denial_summary where
  "sample_denial =
     \<lparr>ds_sandbox_id = ''s'', ds_host = ''api.x.io'', ds_port = 443, ds_binary = ''/bin/curl'', ds_ancestors = [],
      ds_deny_reason = '''', ds_first_seen_ms = 1, ds_last_seen_ms = 2, ds_count = 3, ds_suppressed_count = 0,
      ds_total_count = 3, ds_sample_cmdlines = [], ds_binary_sha256 = '''', ds_persistent = False,
      ds_denial_stage = ''l7_deny'',
      ds_l7_request_samples = [\<lparr>sa_method = ''GET'', sa_path = ''/v1/models?limit=5'', sa_decision = ''deny'', sa_count = 3\<rparr>],
      ds_l7_inspection_active = True\<rparr>"

definition sample_order :: hash_order where
  "sample_order = \<lparr>ho_groups = id, ho_samples = (\<lambda>_. id)\<rparr>"

definition sample_glob :: "string \<Rightarrow> string list \<Rightarrow> string \<Rightarrow> bool" where
  "sample_glob p seps t \<longleftrightarrow>
     t = p \<or>
     (str_ends_with p ''/*'' \<and> str_starts_with t (butlast p) \<and> CHR ''/'' \<notin> set (drop (length p - 1) t) \<and>
      length p \<le> length t)"

lemma sample_order_ok: "order_ok sample_order"
  by (simp add: order_ok_def sample_order_def)

lemma str_ends_with_iff: "str_ends_with s p \<longleftrightarrow> (\<exists>q. s = q @ p)"
  unfolding str_ends_with_def by (auto intro: append_take_drop_id [symmetric] exI [of _ "take (length s - length p) s"])
    (metis append_take_drop_id)

lemma sample_glob_laws: "glob_laws (ascii_builtins sample_glob)"
proof -
  have no_star: "\<not> str_ends_with p ''/*''" if "literal p" for p
  proof
    assume "str_ends_with p ''/*''"
    then obtain q where "p = q @ ''/*''" by (auto simp: str_ends_with_iff)
    with that show False by (simp add: literal_def)
  qed
  have star: "sample_glob (q @ ''/*'') [''/''] (q @ ''/'' @ seg)" if "seg \<noteq> []" "CHR ''/'' \<notin> set seg" for q seg
  proof -
    have "butlast (q @ ''/*'') = q @ ''/''" "q @ ''/'' @ seg = (q @ ''/'') @ seg" by (simp_all add: butlast_append)
    moreover have "str_ends_with (q @ ''/*'') ''/*''" by (auto simp: str_ends_with_iff)
    moreover have "Suc 0 \<le> length seg" using that(1) by (cases seg) auto
    moreover have "str_starts_with (q @ ''/'' @ seg) (q @ ''/'')"
      using str_starts_with_append [of "q @ ''/''" seg] by simp
    ultimately show ?thesis using that(2) by (simp add: sample_glob_def)
  qed
  show ?thesis
    unfolding glob_laws_def ascii_builtins_def
    using no_star star by (simp add: sample_glob_def)
qed

theorem proposals_cover_denied_witness:
  "\<exists>c rule. c \<in> set (generate_proposals (\<lambda>_. False) (\<lambda>_. Inr []) sample_order [sample_denial]) \<and>
     ch_proposed_rule c = Some rule \<and>
     rule_covers (ascii_builtins sample_glob) rule \<lparr>n_host = ''api.x.io'', n_port = 443\<rparr>
       \<lparr>x_path = ''/bin/curl'', x_ancestors = [], x_cmdline = []\<rparr> \<and>
     \<not> rule_covers (ascii_builtins sample_glob) rule \<lparr>n_host = ''api.x.io'', n_port = 443\<rparr>
       \<lparr>x_path = ''/bin/wget'', x_ancestors = [], x_cmdline = []\<rparr>"
proof -
  have "sample_denial \<in> set [sample_denial]" "ds_host sample_denial \<noteq> []" "CHR ''*'' \<notin> set (ds_host sample_denial)"
    "ds_binary sample_denial \<noteq> []" "CHR ''*'' \<notin> set (ds_binary sample_denial)"
    by (simp_all add: sample_denial_def)
  from proposals_cover_denied [OF sample_order_ok this, of "\<lambda>_. False" "\<lambda>_. Inr []" "ascii_builtins sample_glob"]
  obtain c rule where c: "c \<in> set (generate_proposals (\<lambda>_. False) (\<lambda>_. Inr []) sample_order [sample_denial])"
    "ch_proposed_rule c = Some rule" and cov: "\<And>n x. rule_covers (ascii_builtins sample_glob) rule n x \<longleftrightarrow>
       n_port n = unat (ds_port sample_denial) \<and>
       b_lower (ascii_builtins sample_glob) (n_host n) = b_lower (ascii_builtins sample_glob) (ds_host sample_denial) \<and>
       ds_binary sample_denial \<in> set (x_path x # x_ancestors x)"
    by blast
  show ?thesis
    by (rule exI [of _ c], rule exI [of _ rule]) (use c in \<open>simp add: cov sample_denial_def\<close>)
qed

definition sample_approved :: sandbox_policy where
  "sample_approved =
     \<lparr>sp_version = 1, sp_filesystem = None, sp_landlock = None, sp_process = None,
      sp_network_policies =
        [(''allow'', rule_for (\<lambda>_. False) (\<lambda>_. Inr []) sample_order [sample_denial] sample_denial)]\<rparr>"


theorem loopback_proposal_still_denied_witness:
  "\<exists>c reason. c \<in> set (generate_proposals (\<lambda>_. False) (\<lambda>_. Inr [V4 0x7f000001]) sample_order [sample_denial]) \<and>
     resolve_and_check_allowed_ips \<lparr>net_parse = (\<lambda>_. None), net_host = id, net_contains = (=)\<rparr>
       (\<lambda>_ _. Inr [V4 0x7f000001]) ''api.x.io'' 443 [V4 0x7f000001] = Inl reason"
proof -
  have "sample_denial \<in> set [sample_denial]"
    "(\<lambda>_. Inr [V4 0x7f000001]) (ds_host sample_denial @ '':'' @ dec (unat (ds_port sample_denial))) = Inr [V4 0x7f000001]"
    "V4 0x7f000001 \<in> set [V4 0x7f000001]" "ds_host sample_denial = ''api.x.io''"
    by (simp_all add: sample_denial_def)
  moreover have "is_always_blocked_ip (V4 0x7f000001)" by code_simp
  ultimately show ?thesis
    using loopback_proposal_still_denied [OF sample_order_ok, of sample_denial "[sample_denial]"
        "\<lambda>_. Inr [V4 0x7f000001]" "[V4 0x7f000001]" "V4 0x7f000001" "\<lambda>_. False"
        "\<lparr>net_parse = (\<lambda>_. None), net_host = id, net_contains = (=)\<rparr>" 443 "[V4 0x7f000001]"]
    by metis
qed

theorem proposed_rules_and_samples_witness:
  "\<exists>c rule e. c \<in> set (generate_proposals (\<lambda>_. False) (\<lambda>_. Inr []) sample_order [sample_denial]) \<and>
     ch_proposed_rule c = Some rule \<and> npr_endpoints rule = [e] \<and>
     \<not> endpoint_permits (ascii_builtins sample_glob) e
         \<lparr>r_method = ''GET'', r_path = ''/v1/models?limit=5'', r_command = None\<rparr>"
proof -
  let ?s = "\<lparr>sa_method = ''GET'', sa_path = ''/v1/models?limit=5'', sa_decision = ''deny'', sa_count = 3\<rparr>"
  have s: "?s \<in> set (ds_l7_request_samples sample_denial)" "ds_l7_request_samples sample_denial = [?s]"
    "sa_path ?s = ''/v1/models'' @ ''?'' @ ''limit=5''"
    by (simp_all add: sample_denial_def)
  have p: "literal ''/v1/models''" "\<not> looks_like_id (last (str_split (CHR ''/'') ''/v1/models''))"
    by code_simp+
  from proposed_rules_and_samples [OF sample_order_ok _ s(1) sample_glob_laws p, of "[sample_denial]" "\<lambda>_. False" "\<lambda>_. Inr []" "''limit=5''"]
  show ?thesis using s(2,3) by auto
qed

end
