(* ===== verification/Secrets.thy ===== *)
theory Secrets
  imports Prelude
begin

text \<open>
  Credential placeholders, \<open>crates/openshell-sandbox/src/secrets.rs\<close>: the child process gets
  a placeholder for every provider credential (\<open>from_provider_env\<close>), and the proxy puts the
  credential back into the header lines of requests it forwards (\<open>rewrite_http_header_block\<close>).
  Also the proxy and TLS variables of the child, \<open>child_env.rs\<close>. The lemmas show that the
  child never sees a credential, that every placeholder resolves, and that rewriting keeps
  the line structure of the header block and every byte after it.
\<close>

section \<open>The resolver\<close>

definition PLACEHOLDER_PREFIX :: string where
  "PLACEHOLDER_PREFIX = ''openshell:resolve:env:''"

record secret_resolver =
  by_placeholder :: "(string, string) hash_map"

definition placeholder_for_env_key :: "string \<Rightarrow> string" where
  "placeholder_for_env_key key = PLACEHOLDER_PREFIX @ key"

definition from_provider_env ::
    "(string, string) hash_map \<Rightarrow> (string, string) hash_map \<times> secret_resolver option" where
  "from_provider_env provider_env =
     (if provider_env = [] then ([], None)
      else
        let step = (\<lambda>(key, value) (child_env, by_ph).
                      let placeholder = placeholder_for_env_key key
                      in (hm_insert key placeholder child_env, hm_insert placeholder value by_ph));
            res = fold step provider_env ([], [])
        in (fst res, Some \<lparr>by_placeholder = snd res\<rparr>))"

definition resolve_placeholder :: "secret_resolver \<Rightarrow> string \<Rightarrow> string option" where
  "resolve_placeholder r value = map_of (by_placeholder r) value"

definition rewrite_header_value :: "secret_resolver \<Rightarrow> string \<Rightarrow> string option" where
  "rewrite_header_value r value =
     (case resolve_placeholder r (str_trim value) of
        Some secret \<Rightarrow> Some secret
      | None \<Rightarrow>
          let trimmed = str_trim value in
          (case find_ws trimmed of
             None \<Rightarrow> None
           | Some split_at \<Rightarrow>
               let pre = take split_at trimmed;
                   candidate = str_trim (drop split_at trimmed)
               in (case resolve_placeholder r candidate of
                     None \<Rightarrow> None
                   | Some secret \<Rightarrow> Some (pre @ '' '' @ secret))))"

definition rewrite_header_line :: "string \<Rightarrow> secret_resolver \<Rightarrow> string" where
  "rewrite_header_line line r =
     (case str_split_once line '':'' of
        None \<Rightarrow> line
      | Some (name, value) \<Rightarrow>
          (case rewrite_header_value r (str_trim value) of
             Some rewritten \<Rightarrow> name @ '': '' @ rewritten
           | None \<Rightarrow> line))"

text \<open>The loop over the header lines: it stops at the first empty line.\<close>

fun rewrite_lines :: "secret_resolver \<Rightarrow> string list \<Rightarrow> string" where
  "rewrite_lines r [] = []"
| "rewrite_lines r (line # rest) =
     (if line = [] then [] else rewrite_header_line line r @ crlf @ rewrite_lines r rest)"

definition rewrite_http_header_block :: "string \<Rightarrow> secret_resolver option \<Rightarrow> string" where
  "rewrite_http_header_block raw resolver =
     (case resolver of
        None \<Rightarrow> raw
      | Some r \<Rightarrow>
          (case str_find raw crlf2 of
             None \<Rightarrow> raw
           | Some p \<Rightarrow>
               let header_end = p + 4;
                   header_str = from_utf8_lossy (take header_end raw)
               in (case str_split_crlf header_str of
                     [] \<Rightarrow> raw
                   | request_line # lns \<Rightarrow>
                       request_line @ crlf @ rewrite_lines r lns @ crlf @ drop header_end raw)))"

section \<open>Variables of the child\<close>

definition LOCAL_NO_PROXY :: string where
  "LOCAL_NO_PROXY = ''127.0.0.1,localhost,::1''"

definition proxy_env_vars :: "string \<Rightarrow> (string \<times> string) list" where
  "proxy_env_vars proxy_url =
     [(''ALL_PROXY'', proxy_url), (''HTTP_PROXY'', proxy_url), (''HTTPS_PROXY'', proxy_url),
      (''NO_PROXY'', LOCAL_NO_PROXY), (''http_proxy'', proxy_url), (''https_proxy'', proxy_url),
      (''no_proxy'', LOCAL_NO_PROXY), (''grpc_proxy'', proxy_url), (''NODE_USE_ENV_PROXY'', ''1'')]"

definition tls_env_vars :: "string \<Rightarrow> string \<Rightarrow> (string \<times> string) list" where
  "tls_env_vars ca_cert_path combined_bundle_path =
     [(''NODE_EXTRA_CA_CERTS'', ca_cert_path), (''SSL_CERT_FILE'', combined_bundle_path),
      (''REQUESTS_CA_BUNDLE'', combined_bundle_path), (''CURL_CA_BUNDLE'', combined_bundle_path)]"

section \<open>Placeholders\<close>

lemma placeholder_inject: "placeholder_for_env_key k = placeholder_for_env_key k' \<longleftrightarrow> k = k'"
  by (simp add: placeholder_for_env_key_def)

lemma from_provider_env_fold:
  "fold (\<lambda>(key, value) (child_env, by_ph).
           let placeholder = placeholder_for_env_key key
           in (hm_insert key placeholder child_env, hm_insert placeholder value by_ph)) env (c, b) =
   (fold (\<lambda>(k, v). hm_insert k v) (map (\<lambda>(k, v). (k, placeholder_for_env_key k)) env) c,
    fold (\<lambda>(k, v). hm_insert k v) (map (\<lambda>(k, v). (placeholder_for_env_key k, v)) env) b)"
  by (induction env arbitrary: c b) (auto simp: Let_def)

lemma map_of_placeholder_values:
  "map_of (map (\<lambda>(k, v). (placeholder_for_env_key k, v)) env) (placeholder_for_env_key k) = map_of env k"
  by (induction env) (auto simp: placeholder_inject)

lemma map_of_placeholder_keys:
  "map_of (map (\<lambda>(k, v). (k, placeholder_for_env_key k)) env) k =
   map_option (\<lambda>_. placeholder_for_env_key k) (map_of env k)"
  by (induction env) auto

lemma map_of_placeholder_none:
  "p \<notin> range placeholder_for_env_key \<Longrightarrow>
   map_of (map (\<lambda>(k, v). (placeholder_for_env_key k, v)) env) p = None"
  by (induction env) auto

lemma from_provider_env_collect:
  assumes "hm_ok env" "env \<noteq> []"
  shows "from_provider_env env =
           (map (\<lambda>(k, v). (k, placeholder_for_env_key k)) env,
            Some \<lparr>by_placeholder = map (\<lambda>(k, v). (placeholder_for_env_key k, v)) env\<rparr>)"
proof -
  let ?ch = "map (\<lambda>(k, v). (k, placeholder_for_env_key k)) env"
  let ?by = "map (\<lambda>(k, v). (placeholder_for_env_key k, v)) env"
  have d: "distinct (map fst env)" using assms(1) by (simp add: hm_ok_def)
  have dch: "distinct (map fst ?ch)" using d by (simp add: split_def comp_def)
  have dby: "distinct (map fst ?by)"
    using d by (simp add: split_def comp_def distinct_map inj_on_def placeholder_inject)
  show ?thesis
    using assms(2) hm_collect_distinct [OF dch] hm_collect_distinct [OF dby]
    by (simp add: from_provider_env_def Let_def from_provider_env_fold [unfolded Let_def] hm_collect_def)
qed

text \<open>The child environment has a placeholder for every credential and nothing else, and the
  resolver maps the placeholder of each key back to its credential and no other text to anything,
  whatever the iteration order of the provider environment.\<close>

theorem from_provider_env_spec:
  assumes "hm_ok env" "env \<noteq> []"
  shows "\<exists>child r. from_provider_env env = (child, Some r) \<and>
           map_of child = (\<lambda>k. map_option (\<lambda>_. placeholder_for_env_key k) (map_of env k)) \<and>
           (\<forall>k. resolve_placeholder r (placeholder_for_env_key k) = map_of env k) \<and>
           (\<forall>t. t \<notin> range placeholder_for_env_key \<longrightarrow> resolve_placeholder r t = None)"
  using from_provider_env_collect [OF assms]
  by (auto simp: resolve_placeholder_def map_of_placeholder_values map_of_placeholder_none
      map_of_placeholder_keys fun_eq_iff)

theorem from_provider_env_spec_witness:
  "\<exists>child r. from_provider_env [(''K'', ''s''), (''L'', ''t'')] = (child, Some r) \<and>
     resolve_placeholder r (placeholder_for_env_key ''K'') = Some ''s''"
  using from_provider_env_spec [of "[(''K'', ''s''), (''L'', ''t'')]"]
  by (auto simp: hm_ok_def)

section \<open>Header blocks\<close>

lemma str_split_crlf_append: "str_split_crlf (t @ crlf @ u) = str_split_crlf t @ str_split_crlf u"
proof (induction t rule: str_split_crlf.induct)
  case (3 c d s)
  obtain w ws where w: "str_split_crlf (d # s) = w # ws" by (cases "str_split_crlf (d # s)") auto
  with 3 show ?case by auto
qed auto

lemma str_join_append:
  "xs \<noteq> [] \<Longrightarrow> ys \<noteq> [] \<Longrightarrow> str_join sep (xs @ ys) = str_join sep xs @ sep @ str_join sep ys"
  by (induction xs rule: induct_list012) (auto simp: neq_Nil_conv)

text \<open>The header block up to its first empty line, cut into lines: only the first may be empty.\<close>

lemma header_lines:
  assumes "str_find raw crlf2 = Some p"
  shows "str_split_crlf (take (p + 4) raw) = str_split_crlf (take p raw) @ [[], []]"
    and "l \<in> set (tl (str_split_crlf (take p raw))) \<Longrightarrow> l \<noteq> []"
proof -
  have s: "raw = take p raw @ crlf2 @ drop (p + 4) raw"
    using str_find_take_drop [OF assms] by (simp add: eval_nat_numeral)
  have len: "p + 4 \<le> length raw" using str_find_Some [OF assms] by simp
  have "take (p + 4) raw = take p raw @ crlf @ crlf"
  proof -
    obtain a b where "raw = a @ crlf2 @ b" "length a = p"
      using s len by (metis length_take min.absorb2 add_leD1)
    then show ?thesis by simp
  qed
  then show "str_split_crlf (take (p + 4) raw) = str_split_crlf (take p raw) @ [[], []]"
    using str_split_crlf_append [of "take p raw" crlf] str_split_crlf_append [of "[]" "[]"] by simp
  assume "l \<in> set (tl (str_split_crlf (take p raw)))"
  then obtain as bs where ab: "str_split_crlf (take p raw) = as @ l # bs" "as \<noteq> []"
    by (metis Nil_tl append_Cons hd_Cons_tl in_set_conv_decomp list.distinct(1) list.set(1) ex_in_conv)
  show "l \<noteq> []"
  proof
    assume "l = []"
    have "take p raw = str_join crlf (as @ [] # bs)"
      using ab \<open>l = []\<close> str_join_split_crlf [of "take p raw"] by simp
    then have t: "take p raw = str_join crlf as @ crlf @ str_join crlf ([] # bs)"
      using ab(2) by (simp add: str_join_append)
    let ?j = "length (str_join crlf as)"
    have "?j < p" using arg_cong [OF t, of length] len by simp
    moreover have "str_starts_with (drop ?j raw) crlf2"
    proof -
      have "raw = str_join crlf as @ crlf @ str_join crlf ([] # bs) @ crlf2 @ drop (p + 4) raw"
        using s t by simp
      then have "drop ?j raw = crlf @ str_join crlf ([] # bs) @ crlf2 @ drop (p + 4) raw"
        by (metis append_eq_conv_conj)
      then show ?thesis by (cases bs) auto
    qed
    ultimately show False using str_find_first [OF assms] by blast
  qed
qed

lemma rewrite_lines_join:
  "(\<forall>l \<in> set ls. l \<noteq> []) \<Longrightarrow>
   rewrite_lines r (ls @ [] # rest) = concat (map (\<lambda>l. rewrite_header_line l r @ crlf) ls)"
  by (induction ls) auto

lemma str_join_concat: "str_join sep (x # xs) @ sep @ u = x @ sep @ concat (map (\<lambda>l. l @ sep) xs) @ u"
  by (induction xs arbitrary: x) auto

text \<open>For a UTF-8 header block, rewriting works line by line: the request line is kept, every
  header line is passed to \<open>rewrite_header_line\<close> once, the empty line and every byte after it are
  kept. In particular no line is added, dropped or reordered.\<close>

theorem rewrite_http_header_block_lines:
  assumes "str_find raw crlf2 = Some p" "is_utf8 (take (p + 4) raw)"
  shows "rewrite_http_header_block raw (Some r) =
           str_join crlf (hd (str_split_crlf (take p raw)) #
             map (\<lambda>l. rewrite_header_line l r) (tl (str_split_crlf (take p raw)))) @
           crlf2 @ drop (p + 4) raw"
proof -
  obtain q ls where q: "str_split_crlf (take p raw) = q # ls"
    by (cases "str_split_crlf (take p raw)") auto
  have nonempty: "\<forall>l \<in> set ls. l \<noteq> []" using header_lines(2) [OF assms(1)] q by auto
  have "rewrite_http_header_block raw (Some r) =
        q @ crlf @ rewrite_lines r (ls @ [[], []]) @ crlf @ drop (p + 4) raw"
    using assms by (simp add: rewrite_http_header_block_def Let_def from_utf8_lossy_valid
        header_lines(1) q)
  also have "\<dots> = q @ crlf @ concat (map (\<lambda>l. l @ crlf) (map (\<lambda>l. rewrite_header_line l r) ls)) @
                  crlf @ drop (p + 4) raw"
    using nonempty by (simp add: rewrite_lines_join comp_def)
  also have "\<dots> = str_join crlf (q # map (\<lambda>l. rewrite_header_line l r) ls) @ crlf @ crlf @ drop (p + 4) raw"
    by (simp only: str_join_concat)
  finally show ?thesis using q by simp
qed

theorem rewrite_http_header_block_lines_witness:
  "rewrite_http_header_block (''G'' @ crlf @ ''K: p'' @ crlf2 @ ''b'')
     (Some \<lparr>by_placeholder = [(''p'', ''sec'')]\<rparr>) = ''G'' @ crlf @ ''K: sec'' @ crlf2 @ ''b''"
proof -
  have f: "str_find (''G'' @ crlf @ ''K: p'' @ crlf2 @ ''b'') crlf2 = Some 7" by simp
  have u: "is_utf8 (take (7 + 4) (''G'' @ crlf @ ''K: p'' @ crlf2 @ ''b''))" by code_simp
  have l: "rewrite_header_line ''K: p'' \<lparr>by_placeholder = [(''p'', ''sec'')]\<rparr> = ''K: sec''" by code_simp
  show ?thesis
    using rewrite_http_header_block_lines [OF f u, of "\<lparr>by_placeholder = [(''p'', ''sec'')]\<rparr>"] l by simp
qed

text \<open>C30: A header value is rewritten only when, trimmed, it is the placeholder of a credential of
  the provider environment, or one word followed by such a placeholder; the credential put in is
  the one of that key.\<close>

theorem rewrite_header_value_only_placeholders:
  assumes "hm_ok env" "from_provider_env env = (child, Some r)" "rewrite_header_value r v = Some w"
  shows "\<exists>k secret. map_of env k = Some secret \<and>
           (str_trim v = placeholder_for_env_key k \<and> w = secret \<or>
            (\<exists>i. find_ws (str_trim v) = Some i \<and>
                 str_trim (drop i (str_trim v)) = placeholder_for_env_key k \<and>
                 w = take i (str_trim v) @ '' '' @ secret))"
proof -
  have "env \<noteq> []" using assms(2) by (auto simp: from_provider_env_def)
  then have r: "by_placeholder r = map (\<lambda>(k, v). (placeholder_for_env_key k, v)) env"
    using from_provider_env_collect [OF assms(1)] assms(2) by auto
  have key: "\<exists>k. t = placeholder_for_env_key k \<and> map_of env k = Some s"
    if "resolve_placeholder r t = Some s" for t s
  proof -
    from that r have "t \<in> range placeholder_for_env_key"
      using map_of_placeholder_none [of t env] by (auto simp: resolve_placeholder_def)
    with that r show ?thesis by (auto simp: resolve_placeholder_def map_of_placeholder_values)
  qed
  show ?thesis
    using assms(3) by (auto simp: rewrite_header_value_def Let_def split: option.splits dest!: key)
qed

theorem rewrite_header_value_only_placeholders_witness:
  "\<exists>k secret. map_of [(''K'', ''s'')] k = Some secret \<and>
     (str_trim (placeholder_for_env_key ''K'') = placeholder_for_env_key k \<and> ''s'' = secret \<or>
      (\<exists>i. find_ws (str_trim (placeholder_for_env_key ''K'')) = Some i \<and>
           str_trim (drop i (str_trim (placeholder_for_env_key ''K''))) = placeholder_for_env_key k \<and>
           ''s'' = take i (str_trim (placeholder_for_env_key ''K'')) @ '' '' @ secret))"
proof (rule rewrite_header_value_only_placeholders)
  show "hm_ok [(''K'', ''s'')]" by (simp add: hm_ok_def)
  show "from_provider_env [(''K'', ''s'')] =
          ([(''K'', placeholder_for_env_key ''K'')],
           Some \<lparr>by_placeholder = [(placeholder_for_env_key ''K'', ''s'')]\<rparr>)"
    by (simp add: from_provider_env_def Let_def)
  show "rewrite_header_value \<lparr>by_placeholder = [(placeholder_for_env_key ''K'', ''s'')]\<rparr>
          (placeholder_for_env_key ''K'') = Some ''s''"
    by code_simp
qed

end
