(* ===== verification/Streams.thy ===== *)
theory Streams
  imports Prelude
begin

text \<open>
  The byte streams the relays work on. A reader is the list of what a peer delivers: the
  segments that arrive, in any sizes, I/O errors, and silences longer than an idle timeout;
  the end of the list is end of file. A writer accepts bytes until it breaks. \<open>read\<close>,
  \<open>read_u8\<close>, \<open>timeout(.., read)\<close> and \<open>write_all\<close> follow \<open>tokio::io\<close>. The locale \<open>forwarder\<close>
  is the contract of an operation that copies from a reader to a writer: what it takes from
  the one is what it puts into the other, in order, nothing twice.
\<close>

section \<open>Errors, readers and writers\<close>

datatype io_error_kind =
    UnexpectedEof | ConnectionReset | ConnectionAborted | BrokenPipe | TimedOut | OtherKind

record io_error =
  io_kind :: io_error_kind
  io_msg :: string

datatype segment = Bytes string | Fail io_error | Stall

type_synonym reader = "segment list"

record writer =
  written :: string
  budget :: "(nat \<times> io_error) option"

record duplex =
  rx :: reader
  tx :: writer

text \<open>One \<open>read\<close> into a buffer of \<open>n\<close> bytes: an empty result is end of file.\<close>

fun read :: "nat \<Rightarrow> reader \<Rightarrow> (io_error + string) \<times> reader" where
  "read n [] = (Inr [], [])"
| "read n (Bytes bs # r) =
     (if bs = [] then read n r
      else (Inr (take n bs), if length bs \<le> n then r else Bytes (drop n bs) # r))"
| "read n (Fail e # r) = (Inl e, r)"
| "read n (Stall # r) = read n r"

text \<open>\<open>read_u8\<close>: end of file is the error \<open>UnexpectedEof\<close>, with the text of \<open>std::io\<close>.\<close>

definition early_eof :: io_error where
  "early_eof = \<lparr>io_kind = UnexpectedEof, io_msg = ''early eof''\<rparr>"

definition read_u8 :: "reader \<Rightarrow> (io_error + char) \<times> reader" where
  "read_u8 s =
     (case read 1 s of
        (Inl e, r) \<Rightarrow> (Inl e, r)
      | (Inr bs, r) \<Rightarrow> (case bs of [] \<Rightarrow> (Inl early_eof, r) | b # _ \<Rightarrow> (Inr b, r)))"

text \<open>A read under an idle timeout: \<open>None\<close> when the silence lasts longer.\<close>

fun read_timeout :: "nat \<Rightarrow> reader \<Rightarrow> (io_error + string) option \<times> reader" where
  "read_timeout n [] = (Some (Inr []), [])"
| "read_timeout n (Bytes bs # r) =
     (if bs = [] then read_timeout n r
      else (Some (Inr (take n bs)), if length bs \<le> n then r else Bytes (drop n bs) # r))"
| "read_timeout n (Fail e # r) = (Some (Inl e), r)"
| "read_timeout n (Stall # r) = (None, r)"

definition write_all :: "string \<Rightarrow> writer \<Rightarrow> (io_error + unit) \<times> writer" where
  "write_all data w =
     (case budget w of
        None \<Rightarrow> (Inr (), w\<lparr>written := written w @ data\<rparr>)
      | Some (n, e) \<Rightarrow>
          if length data \<le> n
          then (Inr (), w\<lparr>written := written w @ data, budget := Some (n - length data, e)\<rparr>)
          else (Inl e, w\<lparr>written := written w @ take n data, budget := Some (0, e)\<rparr>))"

text \<open>\<open>flush\<close>: writers here do not buffer, so it only reports a writer that broke.\<close>

definition flush :: "writer \<Rightarrow> (io_error + unit) \<times> writer" where
  "flush w =
     (case budget w of
        Some (n, e) \<Rightarrow> if n = 0 then (Inl e, w) else (Inr (), w)
      | None \<Rightarrow> (Inr (), w))"

text \<open>What is still to come from a reader, whether an error lies ahead, and healthy writers.\<close>

fun pending :: "reader \<Rightarrow> string" where
  "pending [] = []"
| "pending (Bytes bs # r) = bs @ pending r"
| "pending (Fail e # r) = pending r"
| "pending (Stall # r) = pending r"

fun clean :: "reader \<Rightarrow> bool" where
  "clean [] = True"
| "clean (Bytes bs # r) = clean r"
| "clean (Fail e # r) = False"
| "clean (Stall # r) = clean r"

definition healthy :: "writer \<Rightarrow> bool" where
  "healthy w \<longleftrightarrow> budget w = None"

abbreviation fresh_writer :: writer where
  "fresh_writer \<equiv> \<lparr>written = [], budget = None\<rparr>"

section \<open>Laws of reading\<close>

lemma read_Inr: "read n s = (Inr bs, r) \<Longrightarrow> pending s = bs @ pending r \<and> length bs \<le> n"
  by (induction n s rule: read.induct) (auto split: if_splits)

lemma read_Inl: "read n s = (Inl e, r) \<Longrightarrow> pending s = pending r \<and> \<not> clean s"
  by (induction n s rule: read.induct) (auto split: if_splits)

lemma read_eof: "read n s = (Inr [], r) \<Longrightarrow> 0 < n \<Longrightarrow> pending s = [] \<and> r = []"
  by (induction n s rule: read.induct) (auto split: if_splits)

lemma read_shorter: "read n s = (Inr bs, r) \<Longrightarrow> bs \<noteq> [] \<Longrightarrow> length (pending r) < length (pending s)"
  using read_Inr [of n s bs r] by auto

lemma read_clean: "read n s = (x, r) \<Longrightarrow> clean s \<Longrightarrow> clean r"
  by (induction n s rule: read.induct) (auto split: if_splits)

lemma read_cleanE:
  assumes "clean s" "0 < n"
  obtains bs r where "read n s = (Inr bs, r)" "pending s = bs @ pending r" "clean r"
    "length bs \<le> n" "bs = [] \<longleftrightarrow> pending s = []"
proof (cases "read n s")
  case (Pair x r)
  then obtain bs where x: "x = Inr bs" using assms read_Inl by (cases x) blast+
  show thesis
  proof (rule that)
    show "read n s = (Inr bs, r)" using Pair x by simp
    then show "pending s = bs @ pending r" "clean r" "length bs \<le> n"
      using read_Inr read_clean assms by blast+
    with \<open>read n s = (Inr bs, r)\<close> show "bs = [] \<longleftrightarrow> pending s = []"
      using read_eof assms(2) by auto
  qed
qed

lemma read_u8_Inr: "read_u8 s = (Inr b, r) \<Longrightarrow> pending s = b # pending r"
  using read_Inr [of 1 s] by (auto simp: read_u8_def split: prod.splits sum.splits list.splits)

lemma read_u8_clean: "read_u8 s = (x, r) \<Longrightarrow> clean s \<Longrightarrow> clean r"
  using read_clean [of 1 s] by (auto simp: read_u8_def split: prod.splits sum.splits list.splits)

lemma read_u8_pending:
  assumes "clean s" "pending s = b # t"
  obtains r where "read_u8 s = (Inr b, r)" "pending r = t" "clean r"
proof -
  obtain bs r where r: "read 1 s = (Inr bs, r)" "pending s = bs @ pending r" "clean r"
    "length bs \<le> 1" "bs = [] \<longleftrightarrow> pending s = []"
    using read_cleanE [OF assms(1), of 1] by auto
  with assms(2) have "bs = [b] \<and> pending r = t" by (cases bs) auto
  with r show thesis using that by (simp add: read_u8_def)
qed

lemma read_timeout_Inr: "read_timeout n s = (Some (Inr bs), r) \<Longrightarrow> pending s = bs @ pending r"
  by (induction n s rule: read_timeout.induct) (auto split: if_splits)

lemma read_timeout_other:
  "read_timeout n s = (Some (Inl e), r) \<Longrightarrow> pending s = pending r"
  "read_timeout n s = (None, r) \<Longrightarrow> pending s = pending r"
  by (induction n s rule: read_timeout.induct) (auto split: if_splits)

lemma read_timeout_shorter:
  "read_timeout n s = (Some (Inr bs), r) \<Longrightarrow> bs \<noteq> [] \<Longrightarrow> length (pending r) < length (pending s)"
  using read_timeout_Inr [of n s bs r] by auto

lemma write_all_Inr: "write_all d w = (Inr u, w') \<Longrightarrow> written w' = written w @ d"
  by (auto simp: write_all_def split: option.splits if_splits)

lemma write_all_prefix: "write_all d w = (x, w') \<Longrightarrow> \<exists>e. written w' = written w @ e \<and> prefix e d"
  by (auto simp: write_all_def take_is_prefix split: option.splits if_splits)

lemma write_all_healthy [simp]:
  "healthy w \<Longrightarrow> write_all d w = (Inr (), w\<lparr>written := written w @ d\<rparr>)"
  by (simp add: write_all_def healthy_def)

lemma flush_written: "flush w = (x, w') \<Longrightarrow> w' = w"
  by (auto simp: flush_def split: option.splits if_splits)

lemma healthy_flush [simp]: "healthy w \<Longrightarrow> flush w = (Inr (), w)"
  by (simp add: flush_def healthy_def)

lemma healthy_update [simp]: "healthy (w\<lparr>written := x\<rparr>) = healthy w"
  by (simp add: healthy_def)

section \<open>The forwarding contract\<close>

text \<open>
  \<open>run\<close> takes bytes from a reader and puts them into a writer. Whatever it returns, the bytes
  it took are a prefix of what was pending, what it put is a prefix of what it took, and when
  it succeeds it put all of it.
\<close>

definition forwards :: "reader \<Rightarrow> writer \<Rightarrow> bool \<Rightarrow> reader \<Rightarrow> writer \<Rightarrow> bool" where
  "forwards s w ok s' w' \<longleftrightarrow>
     (\<exists>c d. pending s = c @ pending s' \<and> written w' = written w @ d \<and> prefix d c \<and>
        (ok \<longrightarrow> d = c))"

lemma forwards_refl: "forwards s w ok s w"
  by (auto simp: forwards_def)

lemma forwards_trans:
  assumes "forwards s w True s1 w1" "forwards s1 w1 ok s2 w2"
  shows "forwards s w ok s2 w2"
proof -
  from assms obtain c c' d' where "pending s = c @ pending s1" "written w1 = written w @ c"
    "pending s1 = c' @ pending s2" "written w2 = written w1 @ d'" "prefix d' c'" "ok \<longrightarrow> d' = c'"
    by (auto simp: forwards_def)
  then show ?thesis
    unfolding forwards_def
    by (intro exI [of _ "c @ c'"] exI [of _ "c @ d'"]) auto
qed

lemma forwards_copy:
  assumes "read n s = (Inr bs, r)" "write_all bs w = (x, w')"
  shows "forwards s w (is_ok x) r w'"
proof -
  obtain e where e: "written w' = written w @ e" "prefix e bs" using write_all_prefix [OF assms(2)] by auto
  have "is_ok x \<Longrightarrow> e = bs" using write_all_Inr [of bs w] assms(2) e(1) by (cases x) auto
  with e read_Inr [OF assms(1)] show ?thesis unfolding forwards_def by blast
qed

lemma forwards_stop: "pending s = pending r \<Longrightarrow> forwards s w ok r w"
  by (auto simp: forwards_def)

lemma forwards_weaken: "forwards s w True s' w' \<Longrightarrow> forwards s w ok s' w'"
  by (auto simp: forwards_def)

locale forwarder =
  fixes run :: "reader \<Rightarrow> writer \<Rightarrow> ('e + 'r) \<times> reader \<times> writer"
  assumes run_forwards: "run s w = (x, s', w') \<Longrightarrow> forwards s w (is_ok x) s' w'"
begin

lemma output_in_order:
  assumes "run s w = (x, s', w')"
  shows "prefix (written w') (written w @ pending s)" "prefix (written w) (written w')"
  using run_forwards [OF assms] by (auto simp: forwards_def prefix_def)

lemma success_exact:
  assumes "run s w = (Inr y, s', w')"
  shows "written w' @ pending s' = written w @ pending s"
  using run_forwards [OF assms] by (auto simp: forwards_def)

lemma nothing_left_behind:
  assumes "run s w = (x, s', w')"
  shows "length (written w') + length (pending s') \<le> length (written w) + length (pending s)"
  using run_forwards [OF assms] by (auto simp: forwards_def dest: prefix_length_le)

end

end
