(* ===== verification/Rest.thy ===== *)
theory Rest
  imports Streams Secrets Json
begin

text \<open>
  The HTTP/1.1 provider, \<open>crates/openshell-sandbox/src/l7/rest.rs\<close> with the types of
  \<open>l7/provider.rs\<close>: reading one request head, body framing, relaying fixed-length and chunked
  bodies, relaying a response, the deny response. Errors are values of \<open>l7_error\<close>; \<open>usize\<close> is
  64 bits wide.
\<close>

section \<open>Types\<close>

datatype body_length = ContentLength u64 | Chunked | NoBody

record l7_request =
  action :: string
  target :: string
  raw_header :: string
  req_body_length :: body_length

datatype l7_error =
    Io io_error
  | RequestHeadersTooLarge
  | ResponseHeadersTooLarge
  | EmptyRequest
  | MissingMethod
  | MissingPath
  | ClosedWithRemaining nat
  | EndedBeforeSizeLine
  | SizeLineNotUtf8
  | InvalidChunkSize string
  | EndedBeforeTrailerEnd
  | ChunkSizeOverflow
  | EndedMidChunk
  | ChunkMissingCrlf
  | UnwrapNone

definition MAX_HEADER_BYTES :: nat where "MAX_HEADER_BYTES = 16384"

definition RELAY_BUF_SIZE :: nat where "RELAY_BUF_SIZE = 8192"

definition usize_max :: nat where "usize_max = 2 ^ 64 - 1"

section \<open>Request heads\<close>

definition is_benign_close :: "io_error \<Rightarrow> bool" where
  "is_benign_close e \<longleftrightarrow> io_kind e \<in> {UnexpectedEof, ConnectionReset, BrokenPipe}"

text \<open>The byte-at-a-time loop: \<open>None\<close> is a clean close before any data.\<close>

function read_head :: "string \<Rightarrow> reader \<Rightarrow> (l7_error + string option) \<times> reader" where
  "read_head buf s =
     (if MAX_HEADER_BYTES < length buf then (Inl RequestHeadersTooLarge, s)
      else case read_u8 s of
             (Inl e, r) \<Rightarrow>
               if buf = [] \<and> is_benign_close e then (Inr None, r)
               else if buf = [] \<and> io_kind e = UnexpectedEof then (Inr None, r)
               else (Inl (Io e), r)
           | (Inr b, r) \<Rightarrow>
               let buf' = buf @ [b] in
               if str_ends_with buf' crlf2 then (Inr (Some buf'), r) else read_head buf' r)"
  by pat_completeness auto
termination
  by (relation "measure (\<lambda>(buf, s). length (pending s))")
    (simp_all add: read_u8_Inr [OF sym])

definition header_value :: "string \<Rightarrow> string" where
  "header_value lower =
     (case str_split_once lower '':'' of None \<Rightarrow> '''' | Some (_, v) \<Rightarrow> str_trim v)"

fun body_length_of_lines :: "string list \<Rightarrow> body_length" where
  "body_length_of_lines [] = NoBody"
| "body_length_of_lines (line # rest) =
     (let lower = to_ascii_lowercase line in
      if str_starts_with lower ''transfer-encoding:'' \<and> str_contains (header_value lower) ''chunked''
      then Chunked
      else if str_starts_with lower ''content-length:''
      then (case parse_u64 (header_value lower) of
              Some len \<Rightarrow> ContentLength len
            | None \<Rightarrow> body_length_of_lines rest)
      else body_length_of_lines rest)"

definition parse_body_length :: "string \<Rightarrow> body_length" where
  "parse_body_length headers = body_length_of_lines (drop 1 (str_lines headers))"

definition parse_head :: "string \<Rightarrow> l7_error + l7_request" where
  "parse_head buf =
     and_then (ok_or (str_find buf crlf2) UnwrapNone) (\<lambda>p.
       let header_str = from_utf8_lossy (take (p + 4) buf) in
       and_then (ok_or (case str_lines header_str of [] \<Rightarrow> None | l # _ \<Rightarrow> Some l) EmptyRequest)
         (\<lambda>request_line.
            (case split_whitespace request_line of
               [] \<Rightarrow> Inl MissingMethod
             | [m] \<Rightarrow> Inl MissingPath
             | m # path # _ \<Rightarrow>
                 Inr \<lparr>action = m, target = path, raw_header = buf,
                      req_body_length = parse_body_length header_str\<rparr>)))"

definition parse_http_request :: "reader \<Rightarrow> (l7_error + l7_request option) \<times> reader" where
  "parse_http_request client =
     (case read_head [] client of
        (Inl e, r) \<Rightarrow> (Inl e, r)
      | (Inr None, r) \<Rightarrow> (Inr None, r)
      | (Inr (Some buf), r) \<Rightarrow> (and_then (parse_head buf) (\<lambda>req. Inr (Some req)), r))"

section \<open>Bodies\<close>

text \<open>
  One round of a copying loop, \<open>reader.read(..).await?\<close> followed by \<open>writer.write_all(..).await?\<close>:
  the bytes copied, none at end of file.
\<close>

definition copy_some :: "nat \<Rightarrow> reader \<Rightarrow> writer \<Rightarrow> (l7_error + string) \<times> reader \<times> writer" where
  "copy_some n s w =
     (case read n s of
        (Inl e, r) \<Rightarrow> (Inl (Io e), r, w)
      | (Inr bs, r) \<Rightarrow>
          if bs = [] then (Inr [], r, w)
          else case write_all bs w of
                 (Inl e, w') \<Rightarrow> (Inl (Io e), r, w')
               | (Inr _, w') \<Rightarrow> (Inr bs, r, w'))"

lemma copy_some_Inr:
  "copy_some n s w = (Inr bs, r, w') \<Longrightarrow>
   pending s = bs @ pending r \<and> written w' = written w @ bs \<and> length bs \<le> n"
  by (auto simp: copy_some_def split: prod.splits sum.splits if_splits dest: read_Inr write_all_Inr)

lemma copy_some_shorter:
  "copy_some n s w = (Inr bs, r, w') \<Longrightarrow> bs \<noteq> [] \<Longrightarrow> length (pending r) < length (pending s)"
  using copy_some_Inr [of n s w bs r w'] by auto

lemma copy_some_forwards:
  assumes "copy_some n s w = (x, r, w')"
  shows "forwards s w (is_ok x) r w'"
proof (cases x)
  case (Inr bs)
  with assms copy_some_Inr [of n s w bs r w'] show ?thesis by (auto simp: forwards_def)
next
  case (Inl err)
  obtain y s1 where rd: "read n s = (y, s1)" by fastforce
  show ?thesis
  proof (cases y)
    case (Inl e)
    with assms rd show ?thesis by (auto simp: copy_some_def intro: forwards_stop dest: read_Inl)
  next
    case (Inr bs)
    obtain z w1 where wr: "write_all bs w = (z, w1)" by fastforce
    with assms rd Inr \<open>x = Inl err\<close> have "r = s1 \<and> w' = w1 \<and> \<not> is_ok z"
      by (cases z) (auto simp: copy_some_def split: if_splits)
    with forwards_copy [OF rd [unfolded Inr] wr] \<open>x = Inl err\<close> show ?thesis by simp
  qed
qed

lemma copy_some_cleanE:
  assumes "clean s" "healthy w" "0 < n"
  obtains bs r where "copy_some n s w = (Inr bs, r, w\<lparr>written := written w @ bs\<rparr>)"
    "pending s = bs @ pending r" "clean r" "length bs \<le> n" "bs = [] \<longleftrightarrow> pending s = []"
proof -
  obtain bs r where "read n s = (Inr bs, r)" "pending s = bs @ pending r" "clean r"
    "length bs \<le> n" "bs = [] \<longleftrightarrow> pending s = []"
    using read_cleanE [OF assms(1,3)] by metis
  with assms(2) show thesis by (intro that [of bs r]) (auto simp: copy_some_def)
qed

function relay_fixed :: "nat \<Rightarrow> reader \<Rightarrow> writer \<Rightarrow> (l7_error + unit) \<times> reader \<times> writer" where
  "relay_fixed remaining s w =
     (if remaining = 0 then (Inr (), s, w)
      else case copy_some (min remaining RELAY_BUF_SIZE) s w of
             (Inl e, r, w') \<Rightarrow> (Inl e, r, w')
           | (Inr bs, r, w') \<Rightarrow>
               if bs = [] then (Inl (ClosedWithRemaining remaining), r, w')
               else relay_fixed (remaining - length bs) r w')"
  by pat_completeness auto
termination
  by (relation "measure fst") (auto simp: neq_Nil_conv)

definition find_crlf :: "string \<Rightarrow> nat \<Rightarrow> nat option" where
  "find_crlf buf start =
     (if start \<le> length buf then map_option (\<lambda>offset. start + offset) (str_find (drop start buf) crlf)
      else None)"

text \<open>
  The three inner loops of \<open>relay_chunked\<close> that read until enough is buffered: a line from
  \<open>pos\<close> (with the error of the place it is used at), and \<open>target\<close> bytes. Everything read is
  written out as it arrives.
\<close>

function fill_line ::
    "l7_error \<Rightarrow> nat \<Rightarrow> string \<Rightarrow> reader \<Rightarrow> writer \<Rightarrow> (l7_error + nat \<times> string) \<times> reader \<times> writer" where
  "fill_line err pos buf s w =
     (case find_crlf buf pos of
        Some e \<Rightarrow> (Inr (e, buf), s, w)
      | None \<Rightarrow>
          (case copy_some RELAY_BUF_SIZE s w of
             (Inl e, r, w') \<Rightarrow> (Inl e, r, w')
           | (Inr bs, r, w') \<Rightarrow>
               if bs = [] then (Inl err, r, w') else fill_line err pos (buf @ bs) r w'))"
  by pat_completeness auto
termination
  by (relation "measure (\<lambda>(err, pos, buf, s, w). length (pending s))")
    (auto dest: copy_some_shorter [OF sym])

function fill_to ::
    "nat \<Rightarrow> string \<Rightarrow> reader \<Rightarrow> writer \<Rightarrow> (l7_error + string) \<times> reader \<times> writer" where
  "fill_to target_len buf s w =
     (if target_len \<le> length buf then (Inr buf, s, w)
      else case copy_some RELAY_BUF_SIZE s w of
             (Inl e, r, w') \<Rightarrow> (Inl e, r, w')
           | (Inr bs, r, w') \<Rightarrow>
               if bs = [] then (Inl EndedMidChunk, r, w') else fill_to target_len (buf @ bs) r w')"
  by pat_completeness auto
termination
  by (relation "measure (\<lambda>(t, buf, s, w). length (pending s))")
    (auto dest: copy_some_shorter [OF sym])

declare read_head.simps [simp del] relay_fixed.simps [simp del] fill_line.simps [simp del]
  fill_to.simps [simp del]

lemma find_crlf_Some: "find_crlf buf pos = Some e \<Longrightarrow> pos \<le> e \<and> e + 2 \<le> length buf"
  using str_find_Some [of "drop pos buf" crlf]
  by (auto simp: find_crlf_def split: if_splits)

lemma fill_line_Inr:
  "fill_line err pos buf s w = (Inr (e, buf'), s', w') \<Longrightarrow>
   find_crlf buf' pos = Some e \<and> buf' @ pending s' = buf @ pending s"
proof (induction err pos buf s w rule: fill_line.induct)
  case (1 err pos buf s w)
  then show ?case
    by (subst (asm) (2) fill_line.simps)
      (fastforce split: option.splits prod.splits sum.splits if_splits dest!: copy_some_Inr)
qed

lemma fill_to_Inr:
  "fill_to n buf s w = (Inr buf', s', w') \<Longrightarrow>
   n \<le> length buf' \<and> buf' @ pending s' = buf @ pending s"
proof (induction n buf s w rule: fill_to.induct)
  case (1 n buf s w)
  then show ?case
    by (subst (asm) (2) fill_to.simps)
      (fastforce split: prod.splits sum.splits if_splits dest!: copy_some_Inr)
qed

lemma fill_line_measure:
  assumes "(Inr (e, buf'), s', w') = fill_line err pos buf s w"
  shows "length buf' + length (pending s') = length buf + length (pending s) \<and> pos \<le> e \<and>
    e + 2 \<le> length buf'"
proof -
  from fill_line_Inr [OF assms [symmetric]] have "find_crlf buf' pos = Some e"
    and e: "buf' @ pending s' = buf @ pending s" by auto
  then have "length buf' + length (pending s') = length buf + length (pending s)"
    by (metis length_append)
  with \<open>find_crlf buf' pos = Some e\<close> find_crlf_Some [of buf' pos e] show ?thesis by simp
qed

lemma fill_to_measure:
  assumes "(Inr buf', s', w') = fill_to n buf s w"
  shows "length buf' + length (pending s') = length buf + length (pending s) \<and> n \<le> length buf'"
proof -
  from fill_to_Inr [OF assms [symmetric]]
  have e: "buf' @ pending s' = buf @ pending s" and n: "n \<le> length buf'" by auto
  then show ?thesis by (metis length_append)
qed

function trailers :: "nat \<Rightarrow> string \<Rightarrow> reader \<Rightarrow> writer \<Rightarrow> (l7_error + unit) \<times> reader \<times> writer" where
  "trailers pos buf s w =
     (case fill_line EndedBeforeTrailerEnd pos buf s w of
        (Inl e, r, w') \<Rightarrow> (Inl e, r, w')
      | (Inr (trailer_end, buf'), r, w') \<Rightarrow>
          if trailer_end = pos then (Inr (), r, w')
          else trailers (trailer_end + 2) buf' r w')"
  by pat_completeness auto
termination
  by (relation "measure (\<lambda>(pos, buf, s, w). length buf + length (pending s) - pos)")
    (auto dest!: fill_line_measure)

text \<open>The size of a chunk from its size line \<open>"<hex>[;extensions]"\<close>.\<close>

definition parse_chunk_size :: "string \<Rightarrow> l7_error + nat" where
  "parse_chunk_size size_line =
     (if \<not> is_utf8 size_line then Inl SizeLineNotUtf8
      else let size_token = str_trim (hd (str_split (CHR '';'') size_line))
           in ok_or (from_str_radix 64 16 size_token) (InvalidChunkSize size_token))"

text \<open>
  The chunk loop. Here \<open>n\<close> is the chunk size and \<open>e + 2\<close> the position after the size line, so
  the chunk ends at \<open>e + 2 + n\<close>; the buffer is drained when the position passes four read buffers.
\<close>

function relay_chunks :: "nat \<Rightarrow> string \<Rightarrow> reader \<Rightarrow> writer \<Rightarrow> (l7_error + unit) \<times> reader \<times> writer" where
  "relay_chunks pos buf s w =
     (case fill_line EndedBeforeSizeLine pos buf s w of
        (Inl err, r, w') \<Rightarrow> (Inl err, r, w')
      | (Inr (e, buf1), r, w') \<Rightarrow>
          (case parse_chunk_size (take (e - pos) (drop pos buf1)) of
             Inl err \<Rightarrow> (Inl err, r, w')
           | Inr n \<Rightarrow>
               if n = 0 then trailers (e + 2) buf1 r w'
               else if usize_max < e + 2 + n + 2 then (Inl ChunkSizeOverflow, r, w')
               else
                 (case fill_to (e + 2 + n + 2) buf1 r w' of
                    (Inl err, r', w'') \<Rightarrow> (Inl err, r', w'')
                  | (Inr buf2, r', w'') \<Rightarrow>
                      if take 2 (drop (e + 2 + n) buf2) \<noteq> crlf then (Inl ChunkMissingCrlf, r', w'')
                      else if RELAY_BUF_SIZE * 4 < e + 2 + n + 2
                      then relay_chunks 0 (drop (e + 2 + n + 2) buf2) r' w''
                      else relay_chunks (e + 2 + n + 2) buf2 r' w'')))"
  by pat_completeness auto
termination
  by (relation "measure (\<lambda>(pos, buf, s, w). length buf + length (pending s) - pos)")
    (auto dest!: fill_line_measure fill_to_measure)


declare trailers.simps [simp del] relay_chunks.simps [simp del]

definition relay_chunked :: "string \<Rightarrow> reader \<Rightarrow> writer \<Rightarrow> (l7_error + unit) \<times> reader \<times> writer" where
  "relay_chunked already_forwarded s w = relay_chunks 0 already_forwarded s w"

function relay_until_eof :: "reader \<Rightarrow> writer \<Rightarrow> (l7_error + unit) \<times> reader \<times> writer" where
  "relay_until_eof s w =
     (case read_timeout RELAY_BUF_SIZE s of
        (None, r) \<Rightarrow> (Inr (), r, w)
      | (Some (Inl e), r) \<Rightarrow> (Inl (Io e), r, w)
      | (Some (Inr bs), r) \<Rightarrow>
          if bs = [] then (Inr (), r, w)
          else (case write_all bs w of
                  (Inl e, w') \<Rightarrow> (Inl (Io e), r, w')
                | (Inr _, w') \<Rightarrow> relay_until_eof r w'))"
  by pat_completeness auto
termination
  by (relation "measure (\<lambda>(s, w). length (pending s))")
    (simp_all add: read_timeout_shorter [OF sym])

declare relay_until_eof.simps [simp del]

section \<open>Responses\<close>

definition parse_status_code :: "string \<Rightarrow> u16 option" where
  "parse_status_code headers =
     (case str_lines headers of
        [] \<Rightarrow> None
      | status_line # _ \<Rightarrow>
          (case split_whitespace status_line of
             _ # code_str # _ \<Rightarrow> parse_u16 code_str
           | _ \<Rightarrow> None))"

fun connection_close_of_lines :: "string list \<Rightarrow> bool" where
  "connection_close_of_lines [] = False"
| "connection_close_of_lines (line # rest) =
     (let lower = to_ascii_lowercase line in
      if str_starts_with lower ''connection:'' then str_contains (header_value lower) ''close''
      else connection_close_of_lines rest)"

definition parse_connection_close :: "string \<Rightarrow> bool" where
  "parse_connection_close headers = connection_close_of_lines (drop 1 (str_lines headers))"

definition is_bodiless_response :: "string \<Rightarrow> u16 \<Rightarrow> bool" where
  "is_bodiless_response request_method status_code \<longleftrightarrow>
     eq_ignore_ascii_case request_method ''HEAD'' \<or>
     (100 \<le> status_code \<and> status_code < 200) \<or> status_code = 204 \<or> status_code = 304"

text \<open>Reading the response head: \<open>False\<close> with what was read when the upstream closes first.\<close>

function read_response_head :: "string \<Rightarrow> reader \<Rightarrow> (l7_error + bool \<times> string) \<times> reader" where
  "read_response_head buf s =
     (if MAX_HEADER_BYTES < length buf then (Inl ResponseHeadersTooLarge, s)
      else case read 1024 s of
             (Inl e, r) \<Rightarrow> (Inl (Io e), r)
           | (Inr bs, r) \<Rightarrow>
               if bs = [] then (Inr (False, buf), r)
               else let buf' = buf @ bs in
                    if str_contains buf' crlf2 then (Inr (True, buf'), r)
                    else read_response_head buf' r)"
  by pat_completeness auto
termination
  by (relation "measure (\<lambda>(buf, s). length (pending s))") (simp_all add: read_shorter [OF sym])

declare read_response_head.simps [simp del]

text \<open>\<open>?\<close> on a write: continue with the writer, or stop with the error.\<close>

definition put :: "string \<Rightarrow> reader \<Rightarrow> writer \<Rightarrow>
    (writer \<Rightarrow> (l7_error + 'r) \<times> reader \<times> writer) \<Rightarrow> (l7_error + 'r) \<times> reader \<times> writer" where
  "put data s w k =
     (case write_all data w of (Inl e, w') \<Rightarrow> (Inl (Io e), s, w') | (Inr _, w') \<Rightarrow> k w')"

definition flush_then :: "reader \<Rightarrow> writer \<Rightarrow>
    (writer \<Rightarrow> (l7_error + 'r) \<times> reader \<times> writer) \<Rightarrow> (l7_error + 'r) \<times> reader \<times> writer" where
  "flush_then s w k =
     (case flush w of (Inl e, w') \<Rightarrow> (Inl (Io e), s, w') | (Inr _, w') \<Rightarrow> k w')"

definition relayed :: "(l7_error + unit) \<times> reader \<times> writer \<Rightarrow>
    (reader \<Rightarrow> writer \<Rightarrow> (l7_error + 'r) \<times> reader \<times> writer) \<Rightarrow> (l7_error + 'r) \<times> reader \<times> writer" where
  "relayed res k = (case res of (Inl e, s, w) \<Rightarrow> (Inl e, s, w) | (Inr _, s, w) \<Rightarrow> k s w)"

text \<open>The body of a message with explicit framing, \<open>overflow\<close> being already written.\<close>

definition relay_body ::
    "body_length \<Rightarrow> string \<Rightarrow> reader \<Rightarrow> writer \<Rightarrow> (l7_error + unit) \<times> reader \<times> writer" where
  "relay_body bl overflow s w =
     (case bl of
        ContentLength len \<Rightarrow>
          let remaining = unat len - length overflow in
          if 0 < remaining then relay_fixed remaining s w else (Inr (), s, w)
      | Chunked \<Rightarrow> relay_chunked overflow s w
      | NoBody \<Rightarrow> (Inr (), s, w))"

definition relay_response :: "string \<Rightarrow> reader \<Rightarrow> writer \<Rightarrow> (l7_error + bool) \<times> reader \<times> writer" where
  "relay_response request_method upstream client =
     (case read_response_head [] upstream of
        (Inl e, r) \<Rightarrow> (Inl e, r, client)
      | (Inr (False, buf), r) \<Rightarrow>
          if buf \<noteq> [] then put buf r client (\<lambda>w. (Inr False, r, w)) else (Inr False, r, client)
      | (Inr (True, buf), r) \<Rightarrow>
          (case str_find buf crlf2 of
             None \<Rightarrow> (Inl UnwrapNone, r, client)
           | Some p \<Rightarrow>
               let header_end = p + 4;
                   header_str = from_utf8_lossy (take header_end buf);
                   status_code = unwrap_or (parse_status_code header_str) 200;
                   server_wants_close = parse_connection_close header_str;
                   body_len = parse_body_length header_str;
                   overflow = drop header_end buf
               in
               if is_bodiless_response request_method status_code then
                 put (take header_end buf) r client (\<lambda>w. flush_then r w (\<lambda>w. (Inr (\<not> server_wants_close), r, w)))
               else if body_len = NoBody then
                 (if server_wants_close then
                    put (take (header_end - 2) buf) r client (\<lambda>w.
                    put (''Connection: close'' @ crlf2) r w (\<lambda>w.
                    (if overflow \<noteq> [] then put overflow r w else (\<lambda>k. k w)) (\<lambda>w.
                    relayed (relay_until_eof r w) (\<lambda>r w. flush_then r w (\<lambda>w. (Inr False, r, w))))))
                  else
                    put (take header_end buf) r client (\<lambda>w. flush_then r w (\<lambda>w. (Inr True, r, w))))
               else
                 put buf r client (\<lambda>w.
                 relayed (relay_body body_len overflow r w) (\<lambda>r w.
                 flush_then r w (\<lambda>w. (Inr True, r, w))))))"

section \<open>Requests\<close>

text \<open>
  Forwarding a parsed request and relaying the response: client and upstream are both duplex.
  \<open>send_request\<close> is the half that writes upstream: the head with its credentials put in, what
  was read behind it, and the rest of the body.
\<close>

definition header_end_of :: "string \<Rightarrow> nat" where
  "header_end_of raw = (case str_find raw crlf2 of None \<Rightarrow> length raw | Some p \<Rightarrow> p + 4)"

definition request_head :: "l7_request \<Rightarrow> secret_resolver option \<Rightarrow> string" where
  "request_head req resolver =
     rewrite_http_header_block (take (header_end_of (raw_header req)) (raw_header req)) resolver"

definition send_request ::
    "l7_request \<Rightarrow> secret_resolver option \<Rightarrow> reader \<Rightarrow> writer \<Rightarrow> (l7_error + unit) \<times> reader \<times> writer" where
  "send_request req resolver s w =
     (let overflow = drop (header_end_of (raw_header req)) (raw_header req) in
      put (request_head req resolver) s w (\<lambda>w.
      (if overflow \<noteq> [] then put overflow s w else (\<lambda>k. k w)) (\<lambda>w.
      relayed (relay_body (req_body_length req) overflow s w) (\<lambda>r w.
      flush_then r w (\<lambda>w. (Inr (), r, w))))))"

definition relay_http_request_with_resolver ::
    "l7_request \<Rightarrow> secret_resolver option \<Rightarrow> duplex \<Rightarrow> duplex \<Rightarrow> (l7_error + bool) \<times> duplex \<times> duplex" where
  "relay_http_request_with_resolver req resolver client upstream =
     (case send_request req resolver (rx client) (tx upstream) of
        (Inl e, r, w) \<Rightarrow> (Inl e, client\<lparr>rx := r\<rparr>, upstream\<lparr>tx := w\<rparr>)
      | (Inr _, r, w) \<Rightarrow>
          (case relay_response (action req) (rx upstream) (tx client) of
             (res, ur, cw) \<Rightarrow> (res, \<lparr>rx = r, tx = cw\<rparr>, \<lparr>rx = ur, tx = w\<rparr>)))"

definition deny_response :: "(json \<Rightarrow> string) \<Rightarrow> l7_request \<Rightarrow> string \<Rightarrow> string \<Rightarrow> string" where
  "deny_response json_to_string req policy_name reason =
     (let body_bytes = json_to_string (jobject
            [(''error'', JString ''policy_denied''), (''policy'', JString policy_name),
             (''rule'', JString (action req @ '' '' @ target req)), (''detail'', JString reason)])
      in ''HTTP/1.1 403 Forbidden'' @ crlf @
         ''Content-Type: application/json'' @ crlf @
         ''Content-Length: '' @ dec (length body_bytes) @ crlf @
         ''X-OpenShell-Policy: '' @ policy_name @ crlf @
         ''Connection: close'' @ crlf @ crlf @ body_bytes)"

definition send_deny_response ::
    "(json \<Rightarrow> string) \<Rightarrow> l7_request \<Rightarrow> string \<Rightarrow> string \<Rightarrow> duplex \<Rightarrow> (l7_error + unit) \<times> duplex" where
  "send_deny_response json_to_string req policy_name reason client =
     (case put (deny_response json_to_string req policy_name reason) (rx client) (tx client)
             (\<lambda>w. flush_then (rx client) w (\<lambda>w. (Inr (), rx client, w))) of
        (res, r, w) \<Rightarrow> (res, client\<lparr>tx := w\<rparr>))"

definition http_methods :: "string list" where
  "http_methods = [''GET '', ''HEAD '', ''POST '', ''PUT '', ''DELETE '', ''PATCH '', ''OPTIONS '',
     ''CONNECT '', ''TRACE '']"

definition looks_like_http :: "string \<Rightarrow> bool" where
  "looks_like_http peek \<longleftrightarrow> list_ex (\<lambda>m. str_starts_with peek m) http_methods"

end
