(* ===== verification/RestProps.thy ===== *)
theory RestProps
  imports Rest
begin

text \<open>
  What the HTTP/1.1 relay guarantees, for every way the bytes are cut into reads: the copying
  loops forward verbatim (they are \<open>forwarder\<close>s), a fixed-length body is relayed exactly, a
  chunked body completely, and a request head is read up to its empty line and not a byte
  further.
\<close>

section \<open>Forwarding\<close>

lemma forwards_after_copy:
  assumes "copy_some n s w = (Inr bs, r, w1)" "forwards r w1 ok s' w'"
  shows "forwards s w ok s' w'"
  using forwards_trans [OF _ assms(2)] copy_some_forwards [OF assms(1)] by simp

lemma forwards_then_stop:
  assumes "copy_some n s w = (Inr bs, r, w1)"
  shows "forwards s w ok r w1"
  using copy_some_forwards [OF assms] by (auto intro: forwards_weaken)

lemma relay_fixed_forwards: "relay_fixed n s w = (x, s', w') \<Longrightarrow> forwards s w (is_ok x) s' w'"
proof (induction n s w rule: relay_fixed.induct)
  case (1 n s w)
  show ?case
    using "1.prems" "1.IH"
    by (subst (asm) relay_fixed.simps)
      (auto split: prod.splits sum.splits if_splits intro: forwards_refl forwards_after_copy forwards_then_stop
         dest: copy_some_forwards)
qed
lemma fill_line_forwards: "fill_line err pos buf s w = (x, s', w') \<Longrightarrow> forwards s w (is_ok x) s' w'"
proof (induction err pos buf s w rule: fill_line.induct)
  case (1 err pos buf s w)
  show ?case
    using "1.prems" "1.IH"
    by (subst (asm) fill_line.simps)
      (auto split: option.splits prod.splits sum.splits if_splits
         intro: forwards_refl forwards_after_copy forwards_then_stop dest: copy_some_forwards)
qed
lemma fill_to_forwards: "fill_to n buf s w = (x, s', w') \<Longrightarrow> forwards s w (is_ok x) s' w'"
proof (induction n buf s w rule: fill_to.induct)
  case (1 n buf s w)
  show ?case
    using "1.prems" "1.IH"
    by (subst (asm) fill_to.simps)
      (auto split: option.splits prod.splits sum.splits if_splits
         intro: forwards_refl forwards_after_copy forwards_then_stop dest: copy_some_forwards)
qed

lemma trailers_forwards: "trailers pos buf s w = (x, s', w') \<Longrightarrow> forwards s w (is_ok x) s' w'"
proof (induction pos buf s w rule: trailers.induct)
  case (1 pos buf s w)
  show ?case
    using "1.prems" "1.IH"
    by (subst (asm) trailers.simps)
      (fastforce split: prod.splits sum.splits if_splits dest: fill_line_forwards intro: forwards_trans)
qed

text \<open>One round of the chunk loop: what it does when the size line, and then the chunk, is there.\<close>

lemma relay_chunks_line_error:
  "fill_line EndedBeforeSizeLine pos buf s w = (Inl err, r, w1) \<Longrightarrow> relay_chunks pos buf s w = (Inl err, r, w1)"
  by (subst relay_chunks.simps) simp

lemma relay_chunks_line:
  assumes "fill_line EndedBeforeSizeLine pos buf s w = (Inr (e, buf1), r, w1)"
  shows "parse_chunk_size (take (e - pos) (drop pos buf1)) = Inl err \<Longrightarrow>
           relay_chunks pos buf s w = (Inl err, r, w1)"
    and "parse_chunk_size (take (e - pos) (drop pos buf1)) = Inr 0 \<Longrightarrow>
           relay_chunks pos buf s w = trailers (e + 2) buf1 r w1"
    and "parse_chunk_size (take (e - pos) (drop pos buf1)) = Inr n \<Longrightarrow> 0 < n \<Longrightarrow>
           usize_max < e + 2 + n + 2 \<Longrightarrow> relay_chunks pos buf s w = (Inl ChunkSizeOverflow, r, w1)"
  by (subst relay_chunks.simps, use assms in simp)+

lemma relay_chunks_chunk:
  assumes "fill_line EndedBeforeSizeLine pos buf s w = (Inr (e, buf1), r, w1)"
    "parse_chunk_size (take (e - pos) (drop pos buf1)) = Inr n" "0 < n" "\<not> usize_max < e + 2 + n + 2"
    and q: "q = e + 2 + n + 2"
  shows "fill_to q buf1 r w1 = (Inl err, r2, w2) \<Longrightarrow> relay_chunks pos buf s w = (Inl err, r2, w2)"
    and "fill_to q buf1 r w1 = (Inr buf2, r2, w2) \<Longrightarrow>
         relay_chunks pos buf s w =
           (if take 2 (drop (e + 2 + n) buf2) \<noteq> crlf then (Inl ChunkMissingCrlf, r2, w2)
            else if RELAY_BUF_SIZE * 4 < q then relay_chunks 0 (drop q buf2) r2 w2
            else relay_chunks q buf2 r2 w2)"
proof -
  have n: "n \<noteq> 0" using assms(3) by simp
  show "relay_chunks pos buf s w = (Inl err, r2, w2)" if "fill_to q buf1 r w1 = (Inl err, r2, w2)"
    by (subst relay_chunks.simps)
      (simp only: assms(1,2,4) n if_False sum.case prod.case that [unfolded q])
  show "relay_chunks pos buf s w =
           (if take 2 (drop (e + 2 + n) buf2) \<noteq> crlf then (Inl ChunkMissingCrlf, r2, w2)
            else if RELAY_BUF_SIZE * 4 < q then relay_chunks 0 (drop q buf2) r2 w2
            else relay_chunks q buf2 r2 w2)" if "fill_to q buf1 r w1 = (Inr buf2, r2, w2)"
    by (subst relay_chunks.simps)
      (simp only: assms(1,2,4) q n if_False sum.case prod.case that [unfolded q])
qed
lemma relay_chunks_forwards: "relay_chunks pos buf s w = (x, s', w') \<Longrightarrow> forwards s w (is_ok x) s' w'"
proof (induction "length buf + length (pending s) - pos" arbitrary: pos buf s w rule: less_induct)
  case less
  obtain y r w1 where line: "fill_line EndedBeforeSizeLine pos buf s w = (y, r, w1)" by (metis surj_pair)
  show ?case
  proof (cases y)
    case (Inl err)
    with less.prems line fill_line_forwards [OF line] show ?thesis
      by (auto simp: relay_chunks_line_error)
  next
    case (Inr z)
    then obtain e buf1 where ln: "fill_line EndedBeforeSizeLine pos buf s w = (Inr (e, buf1), r, w1)"
      using line by (cases z) simp
    note m1 = fill_line_measure [OF ln [symmetric]]
    have f1: "forwards s w True r w1" using fill_line_forwards [OF ln] by simp
    have "forwards r w1 (is_ok x) s' w'"
    proof (cases "parse_chunk_size (take (e - pos) (drop pos buf1))")
      case (Inl err)
      with less.prems relay_chunks_line(1) [OF ln Inl] show ?thesis by (auto simp: forwards_refl)
    next
      case (Inr n)
      consider "n = 0" | "0 < n" "usize_max < e + 2 + n + 2" | "0 < n" "\<not> usize_max < e + 2 + n + 2"
        by blast
      then show ?thesis
      proof cases
        case 1
        with less.prems Inr relay_chunks_line(2) [OF ln] show ?thesis by (auto dest: trailers_forwards)
      next
        case 2
        with less.prems relay_chunks_line(3) [OF ln Inr] show ?thesis by (auto simp: forwards_refl)
      next
        case 3
        define q where "q = e + 2 + n + 2"
        obtain v r2 w2 where to: "fill_to q buf1 r w1 = (v, r2, w2)" by (metis surj_pair)
        note f2 = fill_to_forwards [OF to]
        note chunk = relay_chunks_chunk [OF ln Inr 3 q_def]
        show ?thesis
        proof (cases v)
          case (Inl err)
          with less.prems f2 chunk(1) to show ?thesis by auto
        next
          case v: (Inr buf2)
          note m2 = fill_to_measure [OF to [symmetric, unfolded v]]
          have q: "pos < q" "q \<le> length buf2" using m1 m2 by (auto simp: q_def)
          have "forwards r2 w2 (is_ok x) s' w'"
            using less.prems less.hyps [of "drop q buf2" r2 0] less.hyps [of buf2 r2 q]
              chunk(2) [OF to [unfolded v]] q m1 m2
            by (auto simp: forwards_refl split: if_splits)
          with f2 v show ?thesis by (auto intro: forwards_trans)
        qed
      qed
    qed
    with f1 show ?thesis by (rule forwards_trans)
  qed
qed

lemma forwards_read_write:
  assumes "pending s = bs @ pending r" "write_all bs w = (z, w')"
  shows "forwards s w (is_ok z) r w'"
  using assms(1) write_all_prefix [OF assms(2)] write_all_Inr [of bs w _ w'] assms(2)
  by (cases z) (auto simp: forwards_def)

lemma read_timeout_stop:
  "read_timeout n s = (y, r) \<Longrightarrow> y = None \<or> y = Some (Inr []) \<or> y = Some (Inl e) \<Longrightarrow> forwards s w ok r w"
  using read_timeout_other [of n s] read_timeout_Inr [of n s "[]" r] by (auto intro!: forwards_stop)

lemma relay_until_eof_forwards: "relay_until_eof s w = (x, s', w') \<Longrightarrow> forwards s w (is_ok x) s' w'"
proof (induction s w rule: relay_until_eof.induct)
  case (1 s w)
  obtain y r where rd: "read_timeout RELAY_BUF_SIZE s = (y, r)" by (metis surj_pair)
  show ?case
  proof (cases "y = None \<or> y = Some (Inr []) \<or> (\<exists>e. y = Some (Inl e))")
    case True
    with "1.prems" rd have "r = s' \<and> w = w'" by (subst (asm) relay_until_eof.simps) auto
    with True read_timeout_stop [OF rd] show ?thesis by blast
  next
    case False
    then obtain bs where y: "y = Some (Inr bs)" "bs \<noteq> []" by (metis not_None_eq sum.exhaust)
    obtain z w1 where wr: "write_all bs w = (z, w1)" by fastforce
    note f = forwards_read_write [OF read_timeout_Inr [OF rd [unfolded y(1)]] wr]
    show ?thesis
    proof (cases z)
      case (Inl e)
      with "1.prems" rd y wr f show ?thesis by (subst (asm) relay_until_eof.simps) auto
    next
      case (Inr u)
      with "1.prems" rd y wr have "relay_until_eof r w1 = (x, s', w')"
        by (subst (asm) relay_until_eof.simps) auto
      with "1.IH" rd y wr Inr f show ?thesis by (auto intro: forwards_trans)
    qed
  qed
qed

interpretation fixed: forwarder "relay_fixed n" for n
  by unfold_locales (rule relay_fixed_forwards)

interpretation chunked: forwarder "relay_chunked buf" for buf
  by unfold_locales (simp add: relay_chunked_def relay_chunks_forwards)

interpretation until_eof: forwarder relay_until_eof
  by unfold_locales (rule relay_until_eof_forwards)

lemma relay_body_forwards: "relay_body bl overflow s w = (x, s', w') \<Longrightarrow> forwards s w (is_ok x) s' w'"
  by (auto simp: relay_body_def Let_def forwards_refl split: body_length.splits if_splits
      dest: fixed.run_forwards chunked.run_forwards)

interpretation body: forwarder "relay_body bl overflow" for bl overflow
  by unfold_locales (rule relay_body_forwards)

section \<open>Bodies of known length\<close>

lemma RELAY_BUF_SIZE_pos [simp]: "0 < RELAY_BUF_SIZE"
  by (simp add: RELAY_BUF_SIZE_def)

lemma relay_fixed_complete:
  assumes "clean s" "healthy w"
  shows "\<exists>r. relay_fixed n s w =
     ((if n \<le> length (pending s) then Inr () else Inl (ClosedWithRemaining (n - length (pending s)))), r,
      w\<lparr>written := written w @ take n (pending s)\<rparr>) \<and> pending r = drop n (pending s) \<and> clean r"
  using assms
proof (induction n s w rule: relay_fixed.induct)
  case (1 n s w)
  show ?case
  proof (cases "n = 0")
    case True
    with "1.prems" show ?thesis by (auto simp: relay_fixed.simps)
  next
    case False
    then have "0 < min n RELAY_BUF_SIZE" by simp
    then obtain bs r where c: "copy_some (min n RELAY_BUF_SIZE) s w = (Inr bs, r, w\<lparr>written := written w @ bs\<rparr>)"
      "pending s = bs @ pending r" "clean r" "length bs \<le> min n RELAY_BUF_SIZE" "bs = [] \<longleftrightarrow> pending s = []"
      using copy_some_cleanE [OF "1.prems"] by metis
    show ?thesis
    proof (cases "bs = []")
      case True
      with c False show ?thesis by (auto simp: relay_fixed.simps [of n])
    next
      case bs: False
      have "relay_fixed n s w = relay_fixed (n - length bs) r (w\<lparr>written := written w @ bs\<rparr>)"
        using c False bs by (simp add: relay_fixed.simps [of n])
      with "1.IH" [OF False c(1) [symmetric] refl refl bs c(3)] c(2,4) "1.prems"(2) show ?thesis
        by auto
    qed
  qed
qed

section \<open>Chunked bodies\<close>

lemma str_find_append: "str_find s p = Some i \<Longrightarrow> str_find (s @ t) p = Some i"
proof (induction s arbitrary: i)
  case Nil
  then show ?case by (cases t) (auto split: if_splits)
next
  case (Cons c s)
  show ?case
  proof (cases "str_starts_with (c # s) p")
    case True
    then have "str_starts_with ((c # s) @ t) p" unfolding str_starts_with_prefix by (rule prefix_prefix)
    with True Cons.prems show ?thesis by simp
  next
    case False
    with Cons.prems obtain k where k: "i = Suc k" "str_find s p = Some k" by auto
    then have "length p \<le> length (c # s)" using str_find_Some by fastforce
    then have "take (length p) ((c # s) @ t) = take (length p) (c # s)"
      by (simp only: take_append) simp
    with False have "\<not> str_starts_with ((c # s) @ t) p" by (simp add: str_starts_with_def)
    with False k Cons.IH show ?thesis by simp
  qed
qed

lemma str_find_crlf:
  "\<not> str_contains line crlf \<Longrightarrow> str_find (line @ crlf @ rest) crlf = Some (length line)"
proof (induction line)
  case (Cons a l)
  then show ?case by (cases l) (auto simp: str_contains_def split: if_splits)
qed simp

text \<open>Reading on until a line or a number of bytes is there, when the peer sends it.\<close>

lemma fill_line_complete:
  assumes "clean s" "healthy w" "pos \<le> length buf" "drop pos buf @ pending s = line @ crlf @ rest"
    "\<not> str_contains line crlf"
  shows "\<exists>d r. fill_line err pos buf s w =
           (Inr (pos + length line, buf @ d), r, w\<lparr>written := written w @ d\<rparr>) \<and>
           pending s = d @ pending r \<and> clean r \<and>
           (d = [] \<or> length (buf @ d) < pos + length line + 2 + RELAY_BUF_SIZE)"
  using assms
proof (induction err pos buf s w rule: fill_line.induct)
  case (1 err pos buf s w)
  have whole: "str_find (drop pos buf @ pending s) crlf = Some (length line)"
    unfolding "1.prems"(4) by (rule str_find_crlf [OF "1.prems"(5)])
  show ?case
  proof (cases "find_crlf buf pos")
    case (Some e)
    then obtain i where i: "str_find (drop pos buf) crlf = Some i" "e = pos + i"
      using "1.prems"(3) by (auto simp: find_crlf_def)
    with str_find_append [OF i(1), of "pending s"] whole have "e = pos + length line" by simp
    with Some "1.prems"(1,2) show ?thesis by (intro exI [of _ "[]"] exI [of _ s]) (simp add: fill_line.simps)
  next
    case None
    have short: "length (drop pos buf) < length line + 2"
    proof (rule ccontr)
      assume "\<not> ?thesis"
      then have "take (length line + 2) (drop pos buf @ pending s) = take (length line + 2) (drop pos buf)"
        by simp
      then have "take (length line + 2) (drop pos buf) = line @ crlf"
        using "1.prems"(4) by simp
      then have "drop pos buf = line @ crlf @ drop (length line + 2) (drop pos buf)"
        by (metis append.assoc append_take_drop_id)
      then have "str_find (drop pos buf) crlf = Some (length line)"
        using str_find_crlf [OF "1.prems"(5)] by metis
      with None "1.prems"(3) show False by (simp add: find_crlf_def)
    qed
    obtain bs r where c: "copy_some RELAY_BUF_SIZE s w = (Inr bs, r, w\<lparr>written := written w @ bs\<rparr>)"
      "pending s = bs @ pending r" "clean r" "length bs \<le> RELAY_BUF_SIZE" "bs = [] \<longleftrightarrow> pending s = []"
      using copy_some_cleanE [OF "1.prems"(1,2)] RELAY_BUF_SIZE_pos by metis
    have "pending s \<noteq> []"
    proof
      assume "pending s = []"
      with "1.prems"(4) have "length (drop pos buf) = length line + 2 + length rest" by simp
      with short show False by simp
    qed
    with c have bs: "bs \<noteq> []" by simp
    from "1.IH" [OF None c(1) [symmetric] refl refl bs c(3)] "1.prems" c(2)
    obtain d r' where d: "fill_line err pos (buf @ bs) r (w\<lparr>written := written w @ bs\<rparr>) =
        (Inr (pos + length line, (buf @ bs) @ d), r', w\<lparr>written := written w @ bs @ d\<rparr>)"
      "pending r = d @ pending r'" "clean r'"
      "d = [] \<or> length ((buf @ bs) @ d) < pos + length line + 2 + RELAY_BUF_SIZE"
      by auto
    have "length (buf @ bs) < pos + length line + 2 + RELAY_BUF_SIZE"
      using short c(4) "1.prems"(3) by simp
    with d c None bs show ?thesis
      by (intro exI [of _ "bs @ d"] exI [of _ r']) (auto simp: fill_line.simps [of err pos buf])
  qed
qed

lemma fill_to_complete:
  assumes "clean s" "healthy w" "n \<le> length buf + length (pending s)"
  shows "\<exists>d r. fill_to n buf s w = (Inr (buf @ d), r, w\<lparr>written := written w @ d\<rparr>) \<and>
           pending s = d @ pending r \<and> clean r \<and> n \<le> length (buf @ d) \<and>
           (d = [] \<or> length (buf @ d) < n + RELAY_BUF_SIZE)"
  using assms
proof (induction n buf s w rule: fill_to.induct)
  case (1 n buf s w)
  show ?case
  proof (cases "n \<le> length buf")
    case True
    with "1.prems" show ?thesis by (intro exI [of _ "[]"] exI [of _ s]) (simp add: fill_to.simps)
  next
    case False
    obtain bs r where c: "copy_some RELAY_BUF_SIZE s w = (Inr bs, r, w\<lparr>written := written w @ bs\<rparr>)"
      "pending s = bs @ pending r" "clean r" "length bs \<le> RELAY_BUF_SIZE" "bs = [] \<longleftrightarrow> pending s = []"
      using copy_some_cleanE [OF "1.prems"(1,2)] RELAY_BUF_SIZE_pos by metis
    with False "1.prems"(3) have bs: "bs \<noteq> []" by auto
    from "1.IH" [OF False c(1) [symmetric] refl refl bs c(3)] "1.prems" c(2)
    obtain d r' where d: "fill_to n (buf @ bs) r (w\<lparr>written := written w @ bs\<rparr>) =
        (Inr ((buf @ bs) @ d), r', w\<lparr>written := written w @ bs @ d\<rparr>)"
      "pending r = d @ pending r'" "clean r'" "n \<le> length ((buf @ bs) @ d)"
      "d = [] \<or> length ((buf @ bs) @ d) < n + RELAY_BUF_SIZE"
      by auto
    with c False bs show ?thesis
      by (intro exI [of _ "bs @ d"] exI [of _ r']) (auto simp: fill_to.simps [of n buf])
  qed
qed

text \<open>
  Chunked messages on the wire: chunks with their size lines (which may carry extensions), the
  last size line, and trailer lines. \<open>reads_body\<close> says that a run took a body of \<open>n\<close> bytes of
  which \<open>have\<close> were buffered before, and fewer than one read buffer more.
\<close>

definition chunk_ok :: "string \<times> string \<Rightarrow> bool" where
  "chunk_ok c \<longleftrightarrow>
     \<not> str_contains (fst c) crlf \<and> snd c \<noteq> [] \<and> parse_chunk_size (fst c) = Inr (length (snd c))"

definition encode_chunk :: "string \<times> string \<Rightarrow> string" where
  "encode_chunk c = fst c @ crlf @ snd c @ crlf"

definition encode_trailers :: "string list \<Rightarrow> string" where
  "encode_trailers ts = concat (map (\<lambda>t. t @ crlf) ts) @ crlf"

definition encode_chunked :: "(string \<times> string) list \<Rightarrow> string \<Rightarrow> string list \<Rightarrow> string" where
  "encode_chunked cs last_line ts =
     concat (map encode_chunk cs) @ last_line @ crlf @ encode_trailers ts"

definition reads_body ::
    "(l7_error + unit) \<times> reader \<times> writer \<Rightarrow> reader \<Rightarrow> writer \<Rightarrow> nat \<Rightarrow> nat \<Rightarrow> bool" where
  "reads_body res s w buffered n \<longleftrightarrow>
     (\<exists>d r. res = (Inr (), r, w\<lparr>written := written w @ d\<rparr>) \<and> pending s = d @ pending r \<and> clean r \<and>
        n \<le> buffered + length d \<and> buffered + length d < n + RELAY_BUF_SIZE)"

lemma reads_body_after:
  assumes "reads_body res r (w\<lparr>written := written w @ d\<rparr>) b m" "pending s = d @ pending r"
    "buffered + length d = b + k" "n = m + k"
  shows "reads_body res s w buffered n"
proof -
  from assms(1) obtain d' r' where "res = (Inr (), r', w\<lparr>written := written w @ (d @ d')\<rparr>)"
    "pending r = d' @ pending r'" "clean r'" "m \<le> b + length d'" "b + length d' < m + RELAY_BUF_SIZE"
    by (auto simp: reads_body_def)
  with assms(2-4) show ?thesis
    unfolding reads_body_def by (intro exI [of _ "d @ d'"] exI [of _ r']) auto
qed

lemma drop_further:
  assumes "drop pos b @ p = x @ y" "q = pos + length x" "q \<le> length b"
  shows "drop q b @ p = y"
proof -
  have "drop (length x) (drop pos b) @ p = drop (length x) (drop pos b @ p)"
    using assms(2,3) by simp
  then show ?thesis using assms(1,2) by (simp add: add.commute)
qed

lemma trailers_complete:
  assumes "clean s" "healthy w" "pos \<le> length buf" "drop pos buf @ pending s = encode_trailers ts @ rest"
    "\<forall>t \<in> set ts. t \<noteq> [] \<and> \<not> str_contains t crlf"
    "length buf < pos + length (encode_trailers ts) + RELAY_BUF_SIZE"
  shows "reads_body (trailers pos buf s w) s w (length buf - pos) (length (encode_trailers ts))"
  using assms
proof (induction ts arbitrary: pos buf s w)
  case Nil
  have eq: "drop pos buf @ pending s = [] @ crlf @ rest" using Nil.prems(4) by (simp add: encode_trailers_def)
  obtain d r where d: "fill_line EndedBeforeTrailerEnd pos buf s w =
      (Inr (pos + length [], buf @ d), r, w\<lparr>written := written w @ d\<rparr>)" "pending s = d @ pending r" "clean r"
     "d = [] \<or> length (buf @ d) < pos + length ([] :: string) + 2 + RELAY_BUF_SIZE"
    using fill_line_complete [OF Nil.prems(1-3) eq, of EndedBeforeTrailerEnd] by (auto simp: str_contains_def)
  have "find_crlf (buf @ d) pos = Some pos" using fill_line_Inr [OF d(1)] by simp
  then have "pos + 2 \<le> length (buf @ d)" using find_crlf_Some by blast
  with d Nil.prems(3,6) show ?case
    unfolding reads_body_def
    by (intro exI [of _ d] exI [of _ r]) (auto simp: trailers.simps [of pos] encode_trailers_def)
next
  case (Cons t ts)
  have eq: "drop pos buf @ pending s = t @ crlf @ encode_trailers ts @ rest"
    using Cons.prems(4) by (simp add: encode_trailers_def)
  have t: "t \<noteq> []" "\<not> str_contains t crlf" using Cons.prems(5) by auto
  obtain d r where d: "fill_line EndedBeforeTrailerEnd pos buf s w =
      (Inr (pos + length t, buf @ d), r, w\<lparr>written := written w @ d\<rparr>)" "pending s = d @ pending r" "clean r"
     "d = [] \<or> length (buf @ d) < pos + length t + 2 + RELAY_BUF_SIZE"
    using fill_line_complete [OF Cons.prems(1-3) eq t(2), of EndedBeforeTrailerEnd] by auto
  define q where "q = pos + length t + 2"
  have "find_crlf (buf @ d) pos = Some (pos + length t)" using fill_line_Inr [OF d(1)] by simp
  then have q: "q \<le> length (buf @ d)" using find_crlf_Some unfolding q_def by blast
  have len: "length (encode_trailers (t # ts)) = length (encode_trailers ts) + (length t + 2)"
    by (simp add: encode_trailers_def)
  have "drop pos (buf @ d) @ pending r = t @ crlf @ encode_trailers ts @ rest"
    using eq d(2) Cons.prems(3) by simp
  then have rest: "drop q (buf @ d) @ pending r = encode_trailers ts @ rest"
    using drop_further [of pos "buf @ d" "pending r" "t @ crlf" "encode_trailers ts @ rest" q] q
    by (simp add: q_def)
  have bound: "length (buf @ d) < q + length (encode_trailers ts) + RELAY_BUF_SIZE"
    using d(4) Cons.prems(6) len by (auto simp: q_def)
  have "trailers pos buf s w = trailers q (buf @ d) r (w\<lparr>written := written w @ d\<rparr>)"
    using d(1) t(1) by (simp add: trailers.simps [of pos] q_def)
  moreover have "reads_body (trailers q (buf @ d) r (w\<lparr>written := written w @ d\<rparr>)) r
      (w\<lparr>written := written w @ d\<rparr>) (length (buf @ d) - q) (length (encode_trailers ts))"
    using Cons.IH [OF d(3) _ q rest _ bound] Cons.prems(2,5) by simp
  ultimately show ?case
    using reads_body_after [OF _ d(2), of _ w "length (buf @ d) - q" "length (encode_trailers ts)"
        "length buf - pos" "length t + 2"] q len Cons.prems(3)
    by (simp add: q_def)
qed

lemma encode_chunked_Cons:
  "encode_chunked (c # cs) l ts = encode_chunk c @ encode_chunked cs l ts"
  by (simp add: encode_chunked_def)

lemma relay_chunks_complete:
  assumes "clean s" "healthy w" "pos \<le> length buf" "pos \<le> RELAY_BUF_SIZE * 4"
    "drop pos buf @ pending s = encode_chunked cs l ts @ rest"
    "list_all chunk_ok cs" "\<not> str_contains l crlf" "parse_chunk_size l = Inr 0"
    "\<forall>t \<in> set ts. t \<noteq> [] \<and> \<not> str_contains t crlf"
    "RELAY_BUF_SIZE * 4 + length (encode_chunked cs l ts) \<le> usize_max"
    "length buf < pos + length (encode_chunked cs l ts) + RELAY_BUF_SIZE"
  shows "reads_body (relay_chunks pos buf s w) s w (length buf - pos) (length (encode_chunked cs l ts))"
  using assms
proof (induction cs arbitrary: pos buf s w)
  case Nil
  have eq: "drop pos buf @ pending s = l @ crlf @ encode_trailers ts @ rest"
    using Nil.prems(5) by (simp add: encode_chunked_def)
  obtain d r where d: "fill_line EndedBeforeSizeLine pos buf s w =
      (Inr (pos + length l, buf @ d), r, w\<lparr>written := written w @ d\<rparr>)" "pending s = d @ pending r" "clean r"
     "d = [] \<or> length (buf @ d) < pos + length l + 2 + RELAY_BUF_SIZE"
    using fill_line_complete [OF Nil.prems(1-3) eq Nil.prems(7), of EndedBeforeSizeLine] by auto
  define q where "q = pos + length l + 2"
  have q: "q \<le> length (buf @ d)" using fill_line_measure [OF d(1) [symmetric]] by (simp add: q_def)
  have dl: "drop pos (buf @ d) @ pending r = l @ crlf @ encode_trailers ts @ rest"
    using eq d(2) Nil.prems(3) by simp
  have rest: "drop q (buf @ d) @ pending r = encode_trailers ts @ rest"
    using drop_further [of pos "buf @ d" "pending r" "l @ crlf" "encode_trailers ts @ rest" q] q dl
    by (simp add: q_def)
  have line: "take (pos + length l - pos) (drop pos (buf @ d)) = l"
  proof -
    have "take (length l) (drop pos (buf @ d) @ pending r) = l" using dl by simp
    then show ?thesis using q by (simp add: q_def)
  qed
  have run: "relay_chunks pos buf s w = trailers q (buf @ d) r (w\<lparr>written := written w @ d\<rparr>)"
    using relay_chunks_line(2) [OF d(1)] line Nil.prems(8) by (simp add: q_def)
  have bound: "length (buf @ d) < q + length (encode_trailers ts) + RELAY_BUF_SIZE"
    using d(4) Nil.prems(11) by (auto simp: q_def encode_chunked_def)
  have "reads_body (trailers q (buf @ d) r (w\<lparr>written := written w @ d\<rparr>)) r
      (w\<lparr>written := written w @ d\<rparr>) (length (buf @ d) - q) (length (encode_trailers ts))"
    using trailers_complete [OF d(3) _ q rest Nil.prems(9) bound] Nil.prems(2) by simp
  then show ?case
    unfolding run using q Nil.prems(3)
    by (intro reads_body_after [OF _ d(2), where k = "length l + 2"]) (auto simp: q_def encode_chunked_def)
next
  case (Cons c cs)
  obtain cl p where c: "c = (cl, p)" by fastforce
  have ok: "\<not> str_contains cl crlf" "p \<noteq> []" "parse_chunk_size cl = Inr (length p)"
    using Cons.prems(6) by (auto simp: c chunk_ok_def)
  let ?more = "encode_chunked cs l ts"
  have len: "length (encode_chunked (c # cs) l ts) = length cl + 2 + length p + 2 + length ?more"
    by (simp add: encode_chunked_Cons encode_chunk_def c)
  have eq: "drop pos buf @ pending s = cl @ crlf @ p @ crlf @ ?more @ rest"
    using Cons.prems(5) by (simp add: encode_chunked_Cons encode_chunk_def c)
  obtain d r where d: "fill_line EndedBeforeSizeLine pos buf s w =
      (Inr (pos + length cl, buf @ d), r, w\<lparr>written := written w @ d\<rparr>)" "pending s = d @ pending r" "clean r"
     "d = [] \<or> length (buf @ d) < pos + length cl + 2 + RELAY_BUF_SIZE"
    using fill_line_complete [OF Cons.prems(1-3) eq ok(1), of EndedBeforeSizeLine] by auto
  have dl: "drop pos (buf @ d) @ pending r = cl @ crlf @ p @ crlf @ ?more @ rest"
    using eq d(2) Cons.prems(3) by simp
  have m: "pos + length cl + 2 \<le> length (buf @ d)" using fill_line_measure [OF d(1) [symmetric]] by simp
  have line: "take (pos + length cl - pos) (drop pos (buf @ d)) = cl"
  proof -
    have "take (length cl) (drop pos (buf @ d) @ pending r) = cl" using dl by simp
    then show ?thesis using m by simp
  qed
  define q where "q = pos + length cl + 2 + length p + 2"
  have q_le: "q \<le> length (buf @ d) + length (pending r)"
    using arg_cong [OF dl, of length] Cons.prems(3) m by (simp add: q_def)
  obtain d2 r2 where d2: "fill_to q (buf @ d) r (w\<lparr>written := written w @ d\<rparr>) =
      (Inr ((buf @ d) @ d2), r2, w\<lparr>written := written w @ d @ d2\<rparr>)" "pending r = d2 @ pending r2" "clean r2"
      "q \<le> length ((buf @ d) @ d2)" "d2 = [] \<or> length ((buf @ d) @ d2) < q + RELAY_BUF_SIZE"
    using fill_to_complete [OF d(3) _ q_le, of "w\<lparr>written := written w @ d\<rparr>"] Cons.prems(2) by auto
  let ?b = "(buf @ d) @ d2" and ?w2 = "w\<lparr>written := written w @ d @ d2\<rparr>"
  have dl2: "drop pos ?b @ pending r2 = (cl @ crlf @ p) @ crlf @ ?more @ rest"
    using dl d2(2) m by simp
  have e: "drop (pos + length cl + 2 + length p) ?b @ pending r2 = crlf @ ?more @ rest"
    by (rule drop_further [OF dl2]) (use d2(4) in \<open>simp_all add: q_def\<close>)
  have more: "drop q ?b @ pending r2 = ?more @ rest"
    by (rule drop_further [OF e]) (use d2(4) in \<open>simp_all add: q_def\<close>)
  have crlf: "take 2 (drop (pos + length cl + 2 + length p) ?b) = crlf"
  proof -
    have "take 2 (drop (pos + length cl + 2 + length p) ?b @ pending r2) = crlf"
      by (simp only: e) simp
    moreover have "2 \<le> length (drop (pos + length cl + 2 + length p) ?b)" using d2(4) by (simp add: q_def)
    ultimately show ?thesis by simp
  qed
  have size: "\<not> usize_max < pos + length cl + 2 + length p + 2"
    using Cons.prems(4,10) len by simp
  have bound: "length ?b < q + length ?more + RELAY_BUF_SIZE"
    using d(4) d2(5) Cons.prems(11) len by (auto simp: q_def)
  have small: "RELAY_BUF_SIZE * 4 + length ?more \<le> usize_max" using Cons.prems(10) len by simp
  have run: "relay_chunks pos buf s w =
      (if RELAY_BUF_SIZE * 4 < q then relay_chunks 0 (drop q ?b) r2 ?w2 else relay_chunks q ?b r2 ?w2)"
    using relay_chunks_chunk(2) [OF d(1) _ _ size q_def d2(1)] line ok(2,3) crlf by simp
  have "reads_body (relay_chunks pos buf s w) r2 ?w2 (length ?b - q) (length ?more)"
  proof (cases "RELAY_BUF_SIZE * 4 < q")
    case True
    have "length (drop q ?b) < length ?more + RELAY_BUF_SIZE"
      using bound d2(4) unfolding length_drop by linarith
    then have "reads_body (relay_chunks 0 (drop q ?b) r2 ?w2) r2 ?w2 (length (drop q ?b) - 0) (length ?more)"
      using Cons.prems(2,6-9) more small bound d2(3) by (intro Cons.IH) auto
    with True run show ?thesis by (simp only: length_drop diff_zero if_True)
  next
    case False
    have "reads_body (relay_chunks q ?b r2 ?w2) r2 ?w2 (length ?b - q) (length ?more)"
      using Cons.prems(2,6-9) more small bound d2(3,4) False by (intro Cons.IH) auto
    with False run show ?thesis by simp
  qed
  then show ?case
    using d(2) d2(2,4) Cons.prems(3) len
    by (intro reads_body_after [of _ r2 w "d @ d2" "length ?b - q" "length ?more" s "length buf - pos"
          "length cl + 2 + length p + 2"]) (auto simp: q_def)
qed

section \<open>Request heads\<close>

lemma read_head_Some:
  assumes "read_head buf s = (Inr (Some h), r)"
  shows "h @ pending r = buf @ pending s \<and> length h \<le> Suc MAX_HEADER_BYTES \<and>
         (\<exists>g. h = buf @ g \<and> g \<noteq> [] \<and> str_ends_with h crlf2 \<and>
            (\<forall>g'. g' \<noteq> [] \<longrightarrow> strict_prefix g' g \<longrightarrow> \<not> str_ends_with (buf @ g') crlf2))"
  using assms
proof (induction buf s rule: read_head.induct)
  case (1 buf s)
  from "1.prems" obtain b r1 where b: "read_u8 s = (Inr b, r1)" and len: "\<not> MAX_HEADER_BYTES < length buf"
    by (subst (asm) read_head.simps) (auto split: if_splits prod.splits sum.splits)
  have p: "pending s = b # pending r1" using read_u8_Inr [OF b] .
  show ?case
  proof (cases "str_ends_with (buf @ [b]) crlf2")
    case True
    with "1.prems" b len have "h = buf @ [b]" "r = r1"
      by (simp_all add: read_head.simps [of buf])
    with p len True show ?thesis
      by (auto intro!: exI [of _ "[b]"] simp: strict_prefix_def prefix_Cons)
  next
    case False
    with "1.prems" b len have "read_head (buf @ [b]) r1 = (Inr (Some h), r)"
      by (simp add: read_head.simps [of buf])
    from "1.IH" [OF len b [symmetric] refl refl False this] obtain g where
      g: "h @ pending r = (buf @ [b]) @ pending r1" "length h \<le> Suc MAX_HEADER_BYTES" "h = (buf @ [b]) @ g"
      "g \<noteq> []" "str_ends_with h crlf2"
      "\<And>g'. g' \<noteq> [] \<Longrightarrow> strict_prefix g' g \<Longrightarrow> \<not> str_ends_with ((buf @ [b]) @ g') crlf2"
      by blast
    have "\<not> str_ends_with (buf @ g') crlf2" if "g' \<noteq> []" "strict_prefix g' (b # g)" for g'
      using that g(6) [of "tl g'"] False by (cases g') (auto simp: strict_prefix_def split: list.splits)
    with g p show ?thesis by (intro conjI exI [of _ "b # g"]) auto
  qed
qed

lemma str_find_of_ends:
  assumes "str_ends_with h crlf2"
    "\<And>g'. g' \<noteq> [] \<Longrightarrow> strict_prefix g' h \<Longrightarrow> \<not> str_ends_with g' crlf2"
  shows "str_find (h @ rest) crlf2 = Some (length h - 4)"
proof -
  obtain t where t: "h = t @ crlf2"
    using assms(1) unfolding str_ends_with_def by (metis append_take_drop_id)
  have "str_starts_with (drop (length t) (h @ rest)) crlf2" by (simp add: t)
  then obtain i where i: "i \<le> length t" "str_find (h @ rest) crlf2 = Some i"
    using str_find_le [of "length t" "h @ rest" crlf2] by (auto simp: t)
  have "\<not> i < length t"
  proof
    assume lt: "i < length t"
    define g where "g = take (i + 4) h"
    have "take 4 (drop i (h @ rest)) = crlf2"
      using str_find_Some [OF i(2)] by (simp add: eval_nat_numeral)
    have "length h = length t + 4" by (simp add: t)
    with \<open>take 4 (drop i (h @ rest)) = crlf2\<close> have "take 4 (drop i h) = crlf2"
      using lt by (subst (asm) drop_append, subst (asm) take_append) simp
    then have "g = take i h @ crlf2" by (simp add: g_def take_add)
    moreover have "strict_prefix g h"
      using lt \<open>length h = length t + 4\<close> take_is_prefix [of "i + 4" h]
      by (auto simp: g_def strict_prefix_def dest: arg_cong [of _ _ length])
    ultimately show False using assms(2) [of g] by (simp add: str_ends_with_def)
  qed
  with i t show ?thesis by simp
qed

lemma ends_with_find:
  assumes "str_ends_with b crlf2" shows "\<exists>i. str_find (b @ t) crlf2 = Some i \<and> i + 4 \<le> length b"
proof -
  obtain u where u: "b = u @ crlf2"
    using assms unfolding str_ends_with_def by (metis append_take_drop_id)
  then show ?thesis
    using str_find_le [of "length u" "b @ t" crlf2] by auto
qed

lemma read_head_complete:
  assumes "clean s" "str_find (buf @ pending s) crlf2 = Some p" "length buf < p + 4"
    "p + 4 \<le> Suc MAX_HEADER_BYTES"
  shows "\<exists>r. read_head buf s = (Inr (Some (take (p + 4) (buf @ pending s))), r) \<and>
             pending r = drop (p + 4) (buf @ pending s) \<and> clean r"
  using assms
proof (induction buf s rule: read_head.induct)
  case (1 buf s)
  have len: "\<not> MAX_HEADER_BYTES < length buf" using "1.prems"(3,4) by simp
  have fits: "p + 4 \<le> length (buf @ pending s)" using str_find_Some [OF "1.prems"(2)] by simp
  with "1.prems"(3) obtain b t where bt: "pending s = b # t" by (cases "pending s") auto
  obtain r where r: "read_u8 s = (Inr b, r)" "pending r = t" "clean r"
    using read_u8_pending [OF "1.prems"(1) bt] .
  have same: "(buf @ [b]) @ pending r = buf @ pending s" using bt r(2) by simp
  show ?case
  proof (cases "str_ends_with (buf @ [b]) crlf2")
    case True
    then obtain i where "str_find (buf @ pending s) crlf2 = Some i" "i + 4 \<le> length (buf @ [b])"
      using ends_with_find [of "buf @ [b]" "pending r"] unfolding same by blast
    with "1.prems"(2,3) have "p + 4 = length (buf @ [b])" by simp
    then have "p + 4 - length buf = 1" by simp
    with True r bt len show ?thesis by (simp add: read_head.simps [of buf])
  next
    case False
    have less: "length (buf @ [b]) < p + 4"
    proof (rule ccontr)
      assume "\<not> ?thesis"
      with "1.prems"(3) have eq: "p + 4 = length (buf @ [b])" by simp
      have "take 4 (drop p ((buf @ [b]) @ pending r)) = crlf2"
        using str_find_Some [OF "1.prems"(2)] unfolding same by (simp add: eval_nat_numeral)
      then have "drop p (buf @ [b]) = crlf2"
        using eq by (subst (asm) drop_append, subst (asm) take_append) simp
      moreover have "p = length (buf @ [b]) - length crlf2" using eq by simp
      ultimately show False using False eq unfolding str_ends_with_def by simp
    qed
    have "read_head buf s = read_head (buf @ [b]) r"
      using False r len by (simp add: read_head.simps [of buf])
    with "1.IH" [OF len r(1) [symmetric] refl refl False r(3)] "1.prems"(2,4) less show ?thesis
      unfolding same by simp
  qed
qed

section \<open>Properties\<close>

lemma parse_head_raw: "parse_head h = Inr req \<Longrightarrow> raw_header req = h"
  by (auto simp: parse_head_def Let_def and_then_def ok_or_def split: list.splits option.splits sum.splits)

text \<open>Reading a request takes exactly the head: the raw header kept is what was taken from the
  connection, it ends at the first empty line of the pending bytes, and it has at most
  \<open>MAX_HEADER_BYTES + 1\<close> bytes; every later byte stays unread for the next request.\<close>

theorem parse_http_request_no_overread:
  assumes "parse_http_request s = (Inr (Some req), r)"
  shows "raw_header req @ pending r = pending s \<and>
         str_find (pending s) crlf2 = Some (length (raw_header req) - 4) \<and>
         length (raw_header req) \<le> MAX_HEADER_BYTES + 1"
proof -
  from assms obtain h where h: "read_head [] s = (Inr (Some h), r)" "parse_head h = Inr req"
    by (auto simp: parse_http_request_def and_then_eq_Inr split: prod.splits sum.splits option.splits)
  have "raw_header req = h"
    by (rule parse_head_raw [OF h(2)])
  with read_head_Some [OF h(1)] str_find_of_ends [of h "pending r"] show ?thesis by auto
qed

theorem parse_http_request_no_overread_witness:
  "\<exists>req r. parse_http_request [Bytes ''GET /a H'', Bytes (crlf2 @ ''POST'')] = (Inr (Some req), r) \<and>
     raw_header req @ pending r = ''GET /a H'' @ crlf2 @ ''POST''"
proof -
  have "fst (parse_http_request [Bytes ''GET /a H'', Bytes (crlf2 @ ''POST'')]) =
        Inr (Some \<lparr>action = ''GET'', target = ''/a'', raw_header = ''GET /a H'' @ crlf2, req_body_length = NoBody\<rparr>)"
    by code_simp
  then obtain req r where "parse_http_request [Bytes ''GET /a H'', Bytes (crlf2 @ ''POST'')] = (Inr (Some req), r)"
    by (metis prod.collapse)
  from this parse_http_request_no_overread [OF this] show ?thesis by simp
qed

text \<open>C19: On a connection without I/O errors, parsing depends only on the bytes sent and not on how
  they arrive: if the head ends within the limit, the request parsed is that of the head's bytes
  and the connection is left right after them.\<close>

theorem parse_http_request_segmentation:
  assumes "clean s" "str_find (pending s) crlf2 = Some p" "p + 4 \<le> MAX_HEADER_BYTES + 1"
  shows "\<exists>r. parse_http_request s = (and_then (parse_head (take (p + 4) (pending s))) (\<lambda>q. Inr (Some q)), r) \<and>
             pending r = drop (p + 4) (pending s) \<and> clean r"
  using read_head_complete [of s "[]" p] assms by (auto simp: parse_http_request_def)

theorem parse_http_request_segmentation_witness:
  "\<exists>r. parse_http_request [Bytes ''G'', Bytes (''ET /'' @ crlf2), Bytes ''x''] =
     (and_then (parse_head (''GET /'' @ crlf2)) (\<lambda>q. Inr (Some q)), r) \<and> pending r = ''x''"
  using parse_http_request_segmentation [of "[Bytes ''G'', Bytes (''ET /'' @ crlf2), Bytes ''x'']" 5]
  by (auto simp: MAX_HEADER_BYTES_def)

text \<open>A body of known length is relayed exactly: with the bytes there the copy succeeds, writes the
  first \<open>n\<close> of them and leaves the others unread; with too few it forwards what there is and
  reports how many are missing. This holds for every segmentation.\<close>

theorem relay_fixed_exact:
  assumes "clean s" "healthy w"
  shows "\<exists>r. relay_fixed n s w =
     ((if n \<le> length (pending s) then Inr () else Inl (ClosedWithRemaining (n - length (pending s)))), r,
      w\<lparr>written := written w @ take n (pending s)\<rparr>) \<and> pending r = drop n (pending s)"
  using relay_fixed_complete [OF assms] by blast

theorem relay_fixed_exact_witness:
  "\<exists>r. relay_fixed 3 [Bytes ''ab'', Bytes ''cd''] fresh_writer =
     (Inr (), r, \<lparr>written = ''abc'', budget = None\<rparr>) \<and> pending r = ''d''"
  using relay_fixed_exact [of "[Bytes ''ab'', Bytes ''cd'']" fresh_writer 3]
  by (simp add: healthy_def numeral_3_eq_3)

text \<open>C20: A well-formed chunked message, with extensions and trailers and cut in any way, is relayed
  completely: the copy succeeds and writes the whole message. It may have read on past its end,
  by less than one read buffer, and then those bytes are forwarded too.\<close>

theorem relay_chunked_complete:
  assumes "clean s" "healthy w" "pending s = encode_chunked cs l ts @ rest"
    "list_all chunk_ok cs" "\<not> str_contains l crlf" "parse_chunk_size l = Inr 0"
    "list_all (\<lambda>t. t \<noteq> [] \<and> \<not> str_contains t crlf) ts"
    "RELAY_BUF_SIZE * 4 + length (encode_chunked cs l ts) \<le> usize_max"
  shows "\<exists>over r. relay_chunked [] s w =
           (Inr (), r, w\<lparr>written := written w @ encode_chunked cs l ts @ over\<rparr>) \<and>
           rest = over @ pending r \<and> length over < RELAY_BUF_SIZE"
proof -
  have "reads_body (relay_chunks 0 [] s w) s w (length ([] :: string) - 0) (length (encode_chunked cs l ts))"
    using assms by (intro relay_chunks_complete) (auto simp: list_all_iff)
  then obtain d r where d: "relay_chunks 0 [] s w = (Inr (), r, w\<lparr>written := written w @ d\<rparr>)"
    "pending s = d @ pending r" "length (encode_chunked cs l ts) \<le> length d"
    "length d < length (encode_chunked cs l ts) + RELAY_BUF_SIZE"
    by (auto simp: reads_body_def)
  define over where "over = drop (length (encode_chunked cs l ts)) d"
  have eq: "encode_chunked cs l ts @ rest = d @ pending r" using assms(3) d(2) by simp
  have "take (length (encode_chunked cs l ts)) (d @ pending r) = encode_chunked cs l ts"
    unfolding eq [symmetric] by simp
  then have de: "d = encode_chunked cs l ts @ over"
    using d(3) append_take_drop_id [of "length (encode_chunked cs l ts)" d] by (simp add: over_def)
  moreover have "rest = over @ pending r" using eq unfolding de by simp
  ultimately show ?thesis using d
    by (intro exI [of _ over] exI [of _ r]) (auto simp: relay_chunked_def)
qed

theorem relay_chunked_complete_witness:
  "\<exists>over r. relay_chunked [] [Bytes ''2;x'', Bytes (crlf @ ''ab'' @ crlf @ ''0''), Bytes (crlf2 @ ''N'')] fresh_writer =
     (Inr (), r, fresh_writer\<lparr>written := encode_chunked [(''2;x'', ''ab'')] ''0'' [] @ over\<rparr>) \<and>
     ''N'' = over @ pending r"
proof -
  have c: "list_all chunk_ok [(''2;x'', ''ab'')]" by code_simp
  have z: "parse_chunk_size ''0'' = Inr 0" by code_simp
  have "encode_chunked [(''2;x'', ''ab'')] ''0'' [] = ''2;x'' @ crlf @ ''ab'' @ crlf @ ''0'' @ crlf2"
    by (simp add: encode_chunked_def encode_chunk_def encode_trailers_def)
  then show ?thesis
    using relay_chunked_complete [of "[Bytes ''2;x'', Bytes (crlf @ ''ab'' @ crlf @ ''0''), Bytes (crlf2 @ ''N'')]"
        fresh_writer "[(''2;x'', ''ab'')]" "''0''" "[]" "''N''"] c z
    by (auto simp: healthy_def str_contains_def RELAY_BUF_SIZE_def usize_max_def)
qed

text \<open>Whatever goes wrong, relaying a message body never invents, reorders or repeats bytes: what
  reached the writer is a prefix of what the reader had pending, and on success the bytes written
  and the bytes left unread make up exactly what was pending.\<close>

theorem relay_body_verbatim:
  assumes "relay_body bl overflow s w = (x, s', w')"
  shows "prefix (written w') (written w @ pending s) \<and> prefix (written w) (written w') \<and>
         (is_ok x \<longrightarrow> written w' @ pending s' = written w @ pending s)"
proof -
  have "is_ok x \<Longrightarrow> written w' @ pending s' = written w @ pending s"
    using assms body.success_exact [of bl overflow s w] by (cases x) auto
  with body.output_in_order [OF assms] show ?thesis by blast
qed

theorem relay_body_verbatim_witness:
  "prefix ''ab'' ''abcd'' \<and>
   relay_body (ContentLength 9) [] [Bytes ''abcd''] \<lparr>written = [], budget = Some (2, early_eof)\<rparr> =
     (Inl (Io early_eof), [], \<lparr>written = ''ab'', budget = Some (0, early_eof)\<rparr>)"
proof -
  have run: "relay_body (ContentLength 9) [] [Bytes ''abcd''] \<lparr>written = [], budget = Some (2, early_eof)\<rparr> =
     (Inl (Io early_eof), [], \<lparr>written = ''ab'', budget = Some (0, early_eof)\<rparr>)"
    by code_simp
  with relay_body_verbatim [OF run] show ?thesis by simp
qed

text \<open>The chunked relay does not stop at the end of the message: bytes of a following pipelined
  request that arrive in the same read are written upstream with it, and are no longer there to
  be parsed and checked.\<close>

theorem relay_chunked_forwards_pipelined_bytes:
  "relay_chunked [] [Bytes (''0'' @ crlf2 @ ''DELETE /x HTTP/1.1'' @ crlf2)] fresh_writer =
     (Inr (), [], \<lparr>written = ''0'' @ crlf2 @ ''DELETE /x HTTP/1.1'' @ crlf2, budget = None\<rparr>)"
  by code_simp

text \<open>When a request has both framing headers the first line decides: with \<open>Content-Length\<close>
  before \<open>Transfer-Encoding: chunked\<close> the body is taken to have the given length.\<close>

theorem body_framing_first_header_wins:
  "parse_body_length (''POST / HTTP/1.1'' @ crlf @ ''Content-Length: 4'' @ crlf @
     ''Transfer-Encoding: chunked'' @ crlf2) = ContentLength 4 \<and>
   parse_body_length (''POST / HTTP/1.1'' @ crlf @ ''Transfer-Encoding: chunked'' @ crlf @
     ''Content-Length: 4'' @ crlf2) = Chunked"
  by code_simp

end
