(* ===== verification/Relay.thy ===== *)
theory Relay
  imports RestProps OpaProps
begin

text \<open>
  The L7 relay, \<open>crates/openshell-sandbox/src/l7/relay.rs\<close>: in a tunnel with inspection every
  request is parsed, evaluated against the policy data of the tunnel's engine, logged, and
  then forwarded or denied (\<open>relay_rest\<close>). The loop ends because every request takes bytes from
  the client. The copying of an uninspected tunnel is \<open>tokio\<close>'s and stays a parameter.
\<close>

section \<open>Context and evaluation\<close>

record l7_eval_context =
  lx_host :: string
  lx_port :: u16
  lx_policy_name :: string
  lx_binary_path :: string
  lx_ancestors :: "string list"
  lx_cmdline_paths :: "string list"
  lx_secret_resolver :: "secret_resolver option"

record l7_request_info =
  ri_action :: string
  ri_target :: string

definition l7_input :: "l7_eval_context \<Rightarrow> l7_request_info \<Rightarrow> rego_input" where
  "l7_input ctx request =
     \<lparr>in_network = Some \<lparr>n_host = lx_host ctx, n_port = unat (lx_port ctx)\<rparr>,
      in_exec = Some \<lparr>x_path = lx_binary_path ctx, x_ancestors = lx_ancestors ctx,
        x_cmdline = lx_cmdline_paths ctx\<rparr>,
      in_request = Some \<lparr>r_method = ri_action request, r_path = ri_target request, r_command = None\<rparr>\<rparr>"

definition evaluate_l7_request ::
    "builtins \<Rightarrow> json \<Rightarrow> l7_eval_context \<Rightarrow> l7_request_info \<Rightarrow> bool \<times> string" where
  "evaluate_l7_request B data ctx request =
     (let allowed = allow_request B data (l7_input ctx request);
          reason = (if allowed then ''''
                    else unwrap_or (request_deny_reason B data (l7_input ctx request)) ''request denied by policy'')
      in (allowed, reason))"

definition benign_patterns :: "string list" where
  "benign_patterns = [''close_notify'', ''tls handshake eof'', ''connection reset'', ''broken pipe'',
     ''unexpected eof'', ''client disconnected mid-request'']"

definition is_benign_connection_error :: "string \<Rightarrow> bool" where
  "is_benign_connection_error msg \<longleftrightarrow>
     list_ex (\<lambda>pat. str_contains (to_ascii_lowercase msg) pat) benign_patterns"

section \<open>The relay loop\<close>

text \<open>An \<open>L7_REQUEST\<close> log line.\<close>

record l7_log =
  log_action :: string
  log_target :: string
  log_decision :: string
  log_reason :: string

definition decision_str :: "bool \<Rightarrow> enforcement_mode \<Rightarrow> string" where
  "decision_str allowed enforcement =
     (if allowed then ''allow'' else case enforcement of Audit \<Rightarrow> ''audit'' | Enforce \<Rightarrow> ''deny'')"

definition log_line :: "enforcement_mode \<Rightarrow> l7_request \<Rightarrow> bool \<times> string \<Rightarrow> l7_log" where
  "log_line enf req d =
     \<lparr>log_action = action req, log_target = target req, log_decision = decision_str (fst d) enf,
      log_reason = snd d\<rparr>"

text \<open>What sending a request writes and takes.\<close>

lemma putE:
  assumes "put d s w k = (x, r, w')"
  obtains (fail) e where "write_all d w = (Inl e, w')" "x = Inl (Io e)" "r = s"
  | (ok) w1 where "write_all d w = (Inr (), w1)" "k w1 = (x, r, w')"
  using assms by (cases "write_all d w"; cases "fst (write_all d w)") (auto simp: put_def)

lemma flush_thenE:
  assumes "flush_then s w k = (x, r, w')"
  obtains (fail) e where "x = Inl (Io e)" "r = s" "w' = w" | (ok) "k w = (x, r, w')"
proof -
  obtain y w1 where f: "flush w = (y, w1)" by fastforce
  with flush_written [OF f] assms show thesis
    by (cases y) (auto simp: flush_then_def intro: fail ok)
qed

lemma send_request_written:
  assumes "send_request req res s w = (x, r, w')" "header_end_of (raw_header req) = length (raw_header req)"
  shows "\<exists>b d. pending s = b @ pending r \<and> written w' = written w @ d \<and>
           prefix d (request_head req res @ b) \<and> (is_ok x \<longrightarrow> d = request_head req res @ b)"
proof -
  have "put (request_head req res) s w (\<lambda>w.
      relayed (relay_body (req_body_length req) [] s w) (\<lambda>r w.
      flush_then r w (\<lambda>w. (Inr (), r, w)))) = (x, r, w')"
    using assms by (simp add: send_request_def)
  then show ?thesis
  proof (cases rule: putE)
    case (fail e)
    obtain d where "written w' = written w @ d" "prefix d (request_head req res)"
      using write_all_prefix [OF fail(1)] by blast
    with fail show ?thesis by (intro exI [of _ "[]"] exI [of _ d]) auto
  next
    case (ok w1)
    have w1: "written w1 = written w @ request_head req res" by (rule write_all_Inr [OF ok(1)])
    obtain y r1 w2 where b: "relay_body (req_body_length req) [] s w1 = (y, r1, w2)" by (metis surj_pair)
    have same: "r = r1 \<and> w' = w2 \<and> (is_ok x \<longrightarrow> is_ok y)"
      using ok(2) b by (cases y) (auto simp: relayed_def elim!: flush_thenE)
    from relay_body_forwards [OF b] obtain c d where
      "pending s = c @ pending r1" "written w2 = written w1 @ d" "prefix d c" "is_ok y \<longrightarrow> d = c"
      by (auto simp: forwards_def)
    with w1 same show ?thesis
      by (intro exI [of _ c] exI [of _ "request_head req res @ d"]) auto
  qed
qed

lemma relay_http_request_written:
  assumes "relay_http_request_with_resolver req res client upstream = (x, c, u)"
    "header_end_of (raw_header req) = length (raw_header req)"
  shows "\<exists>b d. pending (rx client) = b @ pending (rx c) \<and> written (tx u) = written (tx upstream) @ d \<and>
           prefix d (request_head req res @ b) \<and> (is_ok x \<longrightarrow> d = request_head req res @ b)"
proof -
  obtain y r w where s: "send_request req res (rx client) (tx upstream) = (y, r, w)" by (metis surj_pair)
  with assms(1) have "rx c = r \<and> tx u = w \<and> (is_ok x \<longrightarrow> is_ok y)"
    by (cases y) (auto simp: relay_http_request_with_resolver_def split: prod.splits)
  with send_request_written [OF s assms(2)] show ?thesis by auto
qed

text \<open>A parsed request is exactly the head it was read from.\<close>

lemma parse_http_request_head:
  assumes "parse_http_request s = (Inr (Some req), r)"
  shows "pending s = raw_header req @ pending r" "header_end_of (raw_header req) = length (raw_header req)"
    "length (pending r) < length (pending s)"
proof -
  from assms obtain h where h: "read_head [] s = (Inr (Some h), r)" "parse_head h = Inr req"
    by (auto simp: parse_http_request_def and_then_eq_Inr split: prod.splits sum.splits option.splits)
  note raw = parse_head_raw [OF h(2)]
  from read_head_Some [OF h(1)] have g: "h @ pending r = pending s" "str_ends_with h crlf2"
    "\<And>g'. g' \<noteq> [] \<Longrightarrow> strict_prefix g' h \<Longrightarrow> \<not> str_ends_with g' crlf2" by auto
  have len: "4 \<le> length h" using g(2) by (auto simp: str_ends_with_def)
  show "pending s = raw_header req @ pending r" using g(1) raw by simp
  show "header_end_of (raw_header req) = length (raw_header req)"
    using str_find_of_ends [OF g(2,3), of "[]"] len raw by (simp add: header_end_of_def)
  show "length (pending r) < length (pending s)"
    using arg_cong [OF g(1), of length] len by simp
qed

lemma relay_http_request_shorter:
  assumes "relay_http_request_with_resolver req res client upstream = (x, c, u)"
    "parse_http_request s = (Inr (Some req), rx client)"
  shows "length (pending (rx c)) < length (pending s)"
proof -
  obtain b where "pending (rx client) = b @ pending (rx c)"
    using relay_http_request_written [OF assms(1) parse_http_request_head(2) [OF assms(2)]] by blast
  then show ?thesis using parse_http_request_head(3) [OF assms(2)] by simp
qed

text \<open>
  The loop: parse, evaluate, log, then relay the request (and go on while the upstream
  connection is reusable) or deny it and close. A request that does not parse closes quietly.
\<close>

function relay_rest ::
    "(json \<Rightarrow> string) \<Rightarrow> builtins \<Rightarrow> json \<Rightarrow> l7_endpoint_config \<Rightarrow> l7_eval_context \<Rightarrow> duplex \<Rightarrow> duplex \<Rightarrow>
     (l7_error + unit) \<times> duplex \<times> duplex \<times> l7_log list" where
  "relay_rest ser B data config ctx client upstream =
     (case parse_http_request (rx client) of
        (Inl e, r) \<Rightarrow> (Inr (), client\<lparr>rx := r\<rparr>, upstream, [])
      | (Inr None, r) \<Rightarrow> (Inr (), client\<lparr>rx := r\<rparr>, upstream, [])
      | (Inr (Some req), r) \<Rightarrow>
          let decision = evaluate_l7_request B data ctx \<lparr>ri_action = action req, ri_target = target req\<rparr>;
              entry = log_line (cfg_enforcement config) req decision
          in
          if fst decision \<or> cfg_enforcement config = Audit then
            (case relay_http_request_with_resolver req (lx_secret_resolver ctx) (client\<lparr>rx := r\<rparr>) upstream of
               (Inl e, c, u) \<Rightarrow> (Inl e, c, u, [entry])
             | (Inr reusable, c, u) \<Rightarrow>
                 if \<not> reusable then (Inr (), c, u, [entry])
                 else (case relay_rest ser B data config ctx c u of
                         (res, c', u', log) \<Rightarrow> (res, c', u', entry # log)))
          else
            (case send_deny_response ser req (lx_policy_name ctx) (snd decision) (client\<lparr>rx := r\<rparr>) of
               (res, c) \<Rightarrow> (res, c, upstream, [entry])))"
  by pat_completeness auto
termination
proof (relation "measure (\<lambda>(ser, B, data, config, ctx, client, upstream). length (pending (rx client)))", goal_cases)
  case (2 ser B data config ctx client upstream)
  then show ?case
    by (auto dest!: relay_http_request_shorter [OF sym])
qed simp

declare relay_rest.simps [simp del]

definition relay_with_inspection ::
    "(json \<Rightarrow> string) \<Rightarrow> (duplex \<Rightarrow> duplex \<Rightarrow> (io_error + nat \<times> nat) \<times> duplex \<times> duplex) \<Rightarrow> builtins \<Rightarrow> json \<Rightarrow>
     l7_endpoint_config \<Rightarrow> l7_eval_context \<Rightarrow> duplex \<Rightarrow> duplex \<Rightarrow>
     (l7_error + unit) \<times> duplex \<times> duplex \<times> l7_log list" where
  "relay_with_inspection ser copy_bidirectional B data config ctx client upstream =
     (case cfg_protocol config of
        Rest \<Rightarrow> relay_rest ser B data config ctx client upstream
      | Sql \<Rightarrow>
          (case copy_bidirectional client upstream of
             (Inl e, c, u) \<Rightarrow> (Inl (Io e), c, u, [])
           | (Inr _, c, u) \<Rightarrow> (Inr (), c, u, [])))"

section \<open>What reaches the upstream\<close>

text \<open>
  What a tunnel sent upstream, against what the client sent: message by message, each for a
  request that \<open>ok\<close> holds of and that stands next in the client's bytes; the message is its
  head, with the credentials put in, and the client's bytes behind it, unchanged. Only the last
  message may be cut short, when a connection breaks.
\<close>

inductive served ::
    "(l7_request \<Rightarrow> bool) \<Rightarrow> secret_resolver option \<Rightarrow> string \<Rightarrow> string \<Rightarrow> string \<Rightarrow> bool"
  for ok res where
  served_end: "served ok res cin b b"
| served_last:
    "ok req \<Longrightarrow> prefix d (request_head req res @ body) \<Longrightarrow>
     served ok res (raw_header req @ body @ rest) b (b @ d)"
| served_more:
    "ok req \<Longrightarrow> served ok res rest (b @ request_head req res @ body) c \<Longrightarrow>
     served ok res (raw_header req @ body @ rest) b c"

inductive_cases served_elim: "served ok res cin b c"

lemma served_prefix: "served ok res cin b c \<Longrightarrow> prefix b c"
  by (induction rule: served.induct) (auto intro: prefix_order.trans simp: prefix_def)

lemma served_none: "served (\<lambda>_. False) res cin b c \<longleftrightarrow> c = b"
  by (auto elim: served_elim intro: served_end)

lemma served_mono: "served ok res cin b c \<Longrightarrow> (\<And>r. ok r \<Longrightarrow> ok' r) \<Longrightarrow> served ok' res cin b c"
  by (induction rule: served.induct) (auto intro: served.intros)

definition l7_allowed :: "builtins \<Rightarrow> json \<Rightarrow> l7_eval_context \<Rightarrow> l7_request \<Rightarrow> bool" where
  "l7_allowed B data ctx req =
     allow_request B data (l7_input ctx \<lparr>ri_action = action req, ri_target = target req\<rparr>)"

lemma fst_evaluate [simp]:
  "fst (evaluate_l7_request B data ctx \<lparr>ri_action = action req, ri_target = target req\<rparr>) =
   l7_allowed B data ctx req"
  by (simp add: evaluate_l7_request_def l7_allowed_def Let_def)

text \<open>One round of the loop, by cases.\<close>

lemma relay_rest_cases:
  assumes "relay_rest ser B data config ctx client upstream = (res, c', u', log)"
  obtains (closed) r where "c' = client\<lparr>rx := r\<rparr>" "u' = upstream" "log = []" "res = Inr ()"
  | (denied) req r where "parse_http_request (rx client) = (Inr (Some req), r)"
      "\<not> l7_allowed B data ctx req" "cfg_enforcement config = Enforce" "u' = upstream"
      "log = [log_line Enforce req (evaluate_l7_request B data ctx \<lparr>ri_action = action req, ri_target = target req\<rparr>)]"
  | (last) req r reusable where "parse_http_request (rx client) = (Inr (Some req), r)"
      "l7_allowed B data ctx req \<or> cfg_enforcement config = Audit"
      "relay_http_request_with_resolver req (lx_secret_resolver ctx) (client\<lparr>rx := r\<rparr>) upstream = (reusable, c', u')"
      "log = [log_line (cfg_enforcement config) req (evaluate_l7_request B data ctx \<lparr>ri_action = action req, ri_target = target req\<rparr>)]"
  | (again) req r c u log' where "parse_http_request (rx client) = (Inr (Some req), r)"
      "l7_allowed B data ctx req \<or> cfg_enforcement config = Audit"
      "relay_http_request_with_resolver req (lx_secret_resolver ctx) (client\<lparr>rx := r\<rparr>) upstream = (Inr True, c, u)"
      "relay_rest ser B data config ctx c u = (res, c', u', log')"
      "log = log_line (cfg_enforcement config) req (evaluate_l7_request B data ctx \<lparr>ri_action = action req, ri_target = target req\<rparr>) # log'"
proof -
  obtain x r where p: "parse_http_request (rx client) = (x, r)" by fastforce
  show thesis
  proof (cases "\<exists>req. x = Inr (Some req)")
    case False
    with assms p show thesis
      by (intro closed) (auto simp: relay_rest.simps [of ser B data config ctx client] split: sum.splits option.splits)
  next
    case True
    then obtain req where x: "x = Inr (Some req)" by blast
    let ?d = "evaluate_l7_request B data ctx \<lparr>ri_action = action req, ri_target = target req\<rparr>"
    show thesis
    proof (cases "l7_allowed B data ctx req \<or> cfg_enforcement config = Audit")
      case False
      then have "cfg_enforcement config = Enforce" by (cases "cfg_enforcement config") auto
      with False assms p x show thesis
        by (intro denied [of req r])
          (auto simp: relay_rest.simps [of ser B data config ctx client] Let_def split: prod.splits)
    next
      case ok: True
      obtain y c u where rel:
        "relay_http_request_with_resolver req (lx_secret_resolver ctx) (client\<lparr>rx := r\<rparr>) upstream = (y, c, u)"
        by (metis surj_pair)
      show thesis
      proof (cases "y = Inr True")
        case False
        with ok assms p x rel show thesis
          by (intro last [of req r y])
            (auto simp: relay_rest.simps [of ser B data config ctx client] Let_def split: sum.splits)
      next
        case True
        obtain res2 c2 u2 log2 where "relay_rest ser B data config ctx c u = (res2, c2, u2, log2)"
          by (metis surj_pair)
        with True ok assms p x rel show thesis
          by (intro again [of req r c u log2])
            (auto simp: relay_rest.simps [of ser B data config ctx client] Let_def)
      qed
    qed
  qed
qed

lemma relay_rest_served:
  "relay_rest ser B data config ctx client upstream = (res, c', u', log) \<Longrightarrow>
   served (\<lambda>req. l7_allowed B data ctx req \<or> cfg_enforcement config = Audit) (lx_secret_resolver ctx)
     (pending (rx client)) (written (tx upstream)) (written (tx u'))"
proof (induction "length (pending (rx client))" arbitrary: client upstream log rule: less_induct)
  case less
  from less.prems show ?case
  proof (cases rule: relay_rest_cases)
    case (last req r x)
    note head = parse_http_request_head [OF last(1)]
    from relay_http_request_written [OF last(3) head(2)] obtain b d where
      "pending r = b @ pending (rx c')" "written (tx u') = written (tx upstream) @ d"
      "prefix d (request_head req (lx_secret_resolver ctx) @ b)" by auto
    with last(2) head(1) show ?thesis by (auto intro: served_last)
  next
    case (again req r c u log')
    note head = parse_http_request_head [OF again(1)]
    from relay_http_request_written [OF again(3) head(2)] obtain b where
      b: "pending r = b @ pending (rx c)"
        "written (tx u) = written (tx upstream) @ request_head req (lx_secret_resolver ctx) @ b" by auto
    have "length (pending (rx c)) < length (pending (rx client))"
      using relay_http_request_shorter [OF again(3), of "rx client"] again(1) by simp
    from less.hyps [OF this again(4)] show ?thesis
      using again(2) b head(1) by (auto intro: served_more)
  qed (simp_all add: served_end)
qed

lemma relay_rest_log:
  "relay_rest ser B data config ctx client upstream = (res, c', u', log) \<Longrightarrow>
   cfg_enforcement config = Enforce \<Longrightarrow>
   list_all (\<lambda>l. log_decision l = ''allow'') (butlast log) \<and>
   list_all (\<lambda>l. log_decision l = ''allow'' \<or> log_decision l = ''deny'') log"
proof (induction "length (pending (rx client))" arbitrary: client upstream log rule: less_induct)
  case less
  from less.prems(1) show ?case
  proof (cases rule: relay_rest_cases)
    case (again req r c u log')
    have "length (pending (rx c)) < length (pending (rx client))"
      using relay_http_request_shorter [OF again(3), of "rx client"] again(1) by simp
    from less.hyps [OF this again(4) less.prems(2)] show ?thesis
      using again(2,5) less.prems(2) by (auto simp: log_line_def decision_str_def)
  qed (use less.prems(2) in \<open>auto simp: log_line_def decision_str_def\<close>)
qed

text \<open>A tunnel of the sample policy: one allowed request, then one that is denied.\<close>

definition sample_ctx :: l7_eval_context where
  "sample_ctx = \<lparr>lx_host = ''api.x.io'', lx_port = 443, lx_policy_name = ''api'', lx_binary_path = ''/bin/curl'',
     lx_ancestors = [], lx_cmdline_paths = [], lx_secret_resolver = None\<rparr>"

definition sample_config :: l7_endpoint_config where
  "sample_config = \<lparr>cfg_protocol = Rest, cfg_tls = Terminate, cfg_enforcement = Enforce\<rparr>"

definition sample_client :: duplex where
  "sample_client = \<lparr>rx = [Bytes (''GET /v1 H'' @ crlf2 @ ''POST /v1 H'' @ crlf2)], tx = fresh_writer\<rparr>"

definition sample_upstream :: duplex where
  "sample_upstream = \<lparr>rx = [Bytes (''H 204 N'' @ crlf2)], tx = fresh_writer\<rparr>"

definition sample_run :: "(l7_error + unit) \<times> duplex \<times> duplex \<times> l7_log list" where
  "sample_run = relay_rest (\<lambda>_. ''{}'') (ascii_builtins (\<lambda>_ _ _. False)) (eng_data sample_eng) sample_config sample_ctx
     sample_client sample_upstream"

lemma sample_run_value:
  "fst sample_run = Inr () \<and> written (tx (fst (snd (snd sample_run)))) = ''GET /v1 H'' @ crlf2 \<and>
   map log_decision (snd (snd (snd sample_run))) = [''allow'', ''deny'']"
  by code_simp

section \<open>Properties\<close>



text \<open>A denied request in an enforcing tunnel is answered with the 403 response and nothing else
  happens: the client gets exactly the response, the upstream nothing, the tunnel closes and the
  denial is logged with its reason.\<close>

theorem denied_request_answered:
  assumes "parse_http_request (rx client) = (Inr (Some req), r)" "\<not> l7_allowed B data ctx req"
    "cfg_enforcement config = Enforce" "healthy (tx client)"
  shows "relay_rest ser B data config ctx client upstream =
           (Inr (),
            \<lparr>rx = r, tx = (tx client)\<lparr>written := written (tx client) @
               deny_response ser req (lx_policy_name ctx)
                 (action req @ '' '' @ target req @ '' not permitted by policy'')\<rparr>\<rparr>,
            upstream,
            [\<lparr>log_action = action req, log_target = target req, log_decision = ''deny'',
              log_reason = action req @ '' '' @ target req @ '' not permitted by policy''\<rparr>])"
proof -
  have "evaluate_l7_request B data ctx \<lparr>ri_action = action req, ri_target = target req\<rparr> =
        (False, action req @ '' '' @ target req @ '' not permitted by policy'')"
    using assms(2)
    by (simp add: evaluate_l7_request_def l7_allowed_def request_deny_reason_def l7_input_def Let_def)
  then show ?thesis
    using assms
    by (simp add: relay_rest.simps [of ser B data config ctx client] send_deny_response_def put_def
        flush_then_def log_line_def decision_str_def Let_def)
qed

theorem denied_request_answered_witness:
  "\<exists>req r. parse_http_request [Bytes (''POST /v1 H'' @ crlf2)] = (Inr (Some req), r) \<and>
     fst (snd (snd (relay_rest (\<lambda>_. ''{}'') (ascii_builtins (\<lambda>_ _ _. False)) (eng_data sample_eng) sample_config
       sample_ctx \<lparr>rx = [Bytes (''POST /v1 H'' @ crlf2)], tx = fresh_writer\<rparr> sample_upstream))) = sample_upstream"
proof -
  let ?req = "\<lparr>action = ''POST'', target = ''/v1'', raw_header = ''POST /v1 H'' @ crlf2, req_body_length = NoBody\<rparr>"
  have p: "parse_http_request (rx \<lparr>rx = [Bytes (''POST /v1 H'' @ crlf2)], tx = fresh_writer\<rparr>) = (Inr (Some ?req), [])"
    by code_simp
  have d: "\<not> l7_allowed (ascii_builtins (\<lambda>_ _ _. False)) (eng_data sample_eng) sample_ctx ?req" by code_simp
  have "relay_rest (\<lambda>_. ''{}'') (ascii_builtins (\<lambda>_ _ _. False)) (eng_data sample_eng) sample_config
       sample_ctx \<lparr>rx = [Bytes (''POST /v1 H'' @ crlf2)], tx = fresh_writer\<rparr> sample_upstream = (Inr (),
            \<lparr>rx = [], tx = (tx \<lparr>rx = [Bytes (''POST /v1 H'' @ crlf2)], tx = fresh_writer\<rparr>)\<lparr>written :=
               written (tx \<lparr>rx = [Bytes (''POST /v1 H'' @ crlf2)], tx = fresh_writer\<rparr>) @
               deny_response (\<lambda>_. ''{}'') ?req (lx_policy_name sample_ctx)
                 (action ?req @ '' '' @ target ?req @ '' not permitted by policy'')\<rparr>\<rparr>,
            sample_upstream,
            [\<lparr>log_action = action ?req, log_target = target ?req, log_decision = ''deny'',
              log_reason = action ?req @ '' '' @ target ?req @ '' not permitted by policy''\<rparr>])"
    by (rule denied_request_answered [OF p d]) (simp_all add: sample_config_def healthy_def)
  with p show ?thesis by auto
qed

text \<open>In an enforcing tunnel every request is logged as allowed or denied, and a denial is the last
  decision of the tunnel.\<close>

theorem enforced_tunnel_log:
  assumes "relay_rest ser B data config ctx client upstream = (res, c', u', log)"
    "cfg_enforcement config = Enforce"
  shows "list_all (\<lambda>l. log_decision l = ''allow'') (butlast log) \<and>
         list_all (\<lambda>l. log_decision l = ''allow'' \<or> log_decision l = ''deny'') log"
  by (rule relay_rest_log [OF assms])

theorem enforced_tunnel_log_witness:
  "list_all (\<lambda>l. log_decision l = ''allow'') (butlast (snd (snd (snd sample_run)))) \<and>
   map log_decision (snd (snd (snd sample_run))) = [''allow'', ''deny'']"
proof -
  obtain res c u log where run: "sample_run = (res, c, u, log)" by (metis surj_pair)
  have "cfg_enforcement sample_config = Enforce" by (simp add: sample_config_def)
  from enforced_tunnel_log [OF run [unfolded sample_run_def] this] sample_run_value show ?thesis
    unfolding run by simp
qed

end
