(* ===== verification/Inference.thy ===== *)
theory Inference
  imports RestProps
begin

text \<open>
  Requests to \<open>inference.local\<close>, \<open>crates/openshell-sandbox/src/l7/inference.rs\<close>: the known API
  patterns and their detection, parsing a request from the bytes buffered so far (with its
  fixed or chunked body), and formatting responses, whole or chunk by chunk. \<open>usize\<close> is 64 bits
  wide; where an addition overflows the program panics, with overflow checks at the addition
  and without them at the slice that follows, and the outcome is \<open>Panicked\<close>.
\<close>

section \<open>Patterns\<close>

record inference_api_pattern =
  ip_method :: string
  ip_path_glob :: string
  ip_protocol :: string
  ip_kind :: string

definition default_patterns :: "inference_api_pattern list" where
  "default_patterns =
     [\<lparr>ip_method = ''POST'', ip_path_glob = ''/v1/chat/completions'',
        ip_protocol = ''openai_chat_completions'', ip_kind = ''chat_completion''\<rparr>,
      \<lparr>ip_method = ''POST'', ip_path_glob = ''/v1/completions'',
        ip_protocol = ''openai_completions'', ip_kind = ''completion''\<rparr>,
      \<lparr>ip_method = ''POST'', ip_path_glob = ''/v1/responses'',
        ip_protocol = ''openai_responses'', ip_kind = ''responses''\<rparr>,
      \<lparr>ip_method = ''POST'', ip_path_glob = ''/v1/messages'',
        ip_protocol = ''anthropic_messages'', ip_kind = ''messages''\<rparr>,
      \<lparr>ip_method = ''GET'', ip_path_glob = ''/v1/models'',
        ip_protocol = ''model_discovery'', ip_kind = ''models_list''\<rparr>,
      \<lparr>ip_method = ''GET'', ip_path_glob = ''/v1/models/*'',
        ip_protocol = ''model_discovery'', ip_kind = ''models_get''\<rparr>]"

definition pattern_matches :: "string \<Rightarrow> string \<Rightarrow> inference_api_pattern \<Rightarrow> bool" where
  "pattern_matches m path_only p \<longleftrightarrow>
     eq_ignore_ascii_case m (ip_method p) \<and>
     (case str_strip_suffix (ip_path_glob p) ''/*'' of
        Some pre \<Rightarrow>
          path_only = pre \<or>
          (case str_strip_prefix path_only pre of
             Some rest \<Rightarrow> str_starts_with rest ''/''
           | None \<Rightarrow> False)
      | None \<Rightarrow> path_only = ip_path_glob p)"

definition detect_inference_pattern ::
    "string \<Rightarrow> string \<Rightarrow> inference_api_pattern list \<Rightarrow> inference_api_pattern option" where
  "detect_inference_pattern m path patterns =
     find (pattern_matches m (hd (str_split (CHR ''?'') path))) patterns"

section \<open>Parsing a request\<close>

record parsed_http_request =
  ph_method :: string
  ph_path :: string
  ph_headers :: "(string \<times> string) list"
  ph_body :: string

datatype 'a outcome = Complete 'a nat | Incomplete | Panicked

fun skip_trailers :: "nat \<Rightarrow> string \<Rightarrow> nat \<Rightarrow> nat option" where
  "skip_trailers 0 buf pos = None"
| "skip_trailers (Suc fuel) buf pos =
     (case find_crlf buf pos of
        None \<Rightarrow> None
      | Some e \<Rightarrow> if e = pos then Some (e + 2) else skip_trailers fuel buf (e + 2))"

text \<open>The trailer loop advances by at least two bytes, so the buffer's length bounds its rounds.\<close>

function parse_chunks :: "string \<Rightarrow> string \<Rightarrow> nat \<Rightarrow> string outcome" where
  "parse_chunks body buf pos =
     (case find_crlf buf pos of
        None \<Rightarrow> Incomplete
      | Some e \<Rightarrow>
          (case parse_chunk_size (take (e - pos) (drop pos buf)) of
             Inl _ \<Rightarrow> Incomplete
           | Inr n \<Rightarrow>
               if n = 0 then
                 (case skip_trailers (length buf) buf (e + 2) of
                    None \<Rightarrow> Incomplete
                  | Some q \<Rightarrow> Complete body q)
               else if usize_max < e + 2 + n then Incomplete
               else if usize_max < e + 2 + n + 2 then Panicked
               else if length buf < e + 2 + n + 2 then Incomplete
               else if take 2 (drop (e + 2 + n) buf) \<noteq> crlf then Incomplete
               else parse_chunks (body @ take n (drop (e + 2) buf)) buf (e + 2 + n + 2)))"
  by pat_completeness auto
termination
  by (relation "measure (\<lambda>(body, buf, pos). length buf - pos)") (auto dest!: find_crlf_Some)

declare parse_chunks.simps [simp del]

definition parse_chunked_body :: "string \<Rightarrow> nat \<Rightarrow> string outcome" where
  "parse_chunked_body buf start = parse_chunks [] buf start"

record header_state =
  hs_headers :: "(string \<times> string) list"
  hs_content_length :: nat
  hs_chunked :: bool

definition header_line :: "string \<Rightarrow> header_state \<Rightarrow> header_state" where
  "header_line line st =
     (case str_split_once line '':'' of
        None \<Rightarrow> st
      | Some (n, v) \<Rightarrow>
          let name = str_trim n; val = str_trim v in
          \<lparr>hs_headers = hs_headers st @ [(name, val)],
           hs_content_length =
             (if eq_ignore_ascii_case name ''content-length'' then unwrap_or (from_str_radix 64 10 val) 0
              else hs_content_length st),
           hs_chunked =
             (hs_chunked st \<or> (eq_ignore_ascii_case name ''transfer-encoding'' \<and>
                list_ex (\<lambda>enc. eq_ignore_ascii_case (str_trim enc) ''chunked'') (str_split (CHR '','') val)))\<rparr>)"

fun header_lines_state :: "string list \<Rightarrow> header_state \<Rightarrow> header_state" where
  "header_lines_state [] st = st"
| "header_lines_state (l # ls) st = (if l = [] then st else header_lines_state ls (header_line l st))"

definition try_parse_http_request :: "string \<Rightarrow> parsed_http_request outcome" where
  "try_parse_http_request buf =
     (case str_find buf crlf2 of
        None \<Rightarrow> Incomplete
      | Some header_end \<Rightarrow>
          if \<not> is_utf8 (take header_end buf) then Incomplete
          else
            let body_start = header_end + 4;
                lns = str_split_crlf (take header_end buf)
            in case split_whitespace (hd lns) of
                 m # path # _ \<Rightarrow>
                   let st = header_lines_state (tl lns)
                              \<lparr>hs_headers = [], hs_content_length = 0, hs_chunked = False\<rparr>;
                       req = (\<lambda>b. \<lparr>ph_method = m, ph_path = path, ph_headers = hs_headers st, ph_body = b\<rparr>)
                   in if hs_chunked st then
                        (case parse_chunked_body buf body_start of
                           Complete b consumed \<Rightarrow> Complete (req b) consumed
                         | Incomplete \<Rightarrow> Incomplete
                         | Panicked \<Rightarrow> Panicked)
                      else
                        let total_len = body_start + hs_content_length st in
                        if usize_max < total_len then Panicked
                        else if length buf < total_len then Incomplete
                        else Complete (req (take (hs_content_length st) (drop body_start buf))) total_len
               | _ \<Rightarrow> Incomplete)"

section \<open>Formatting responses\<close>

definition status_text :: "u16 \<Rightarrow> string" where
  "status_text status =
     (if status = 200 then ''OK'' else if status = 400 then ''Bad Request''
      else if status = 403 then ''Forbidden'' else if status = 411 then ''Length Required''
      else if status = 413 then ''Payload Too Large'' else if status = 500 then ''Internal Server Error''
      else if status = 502 then ''Bad Gateway'' else ''Unknown'')"

definition status_text_streaming :: "u16 \<Rightarrow> string" where
  "status_text_streaming status = (if status = 503 then ''Service Unavailable'' else status_text status)"

definition header_text :: "string \<times> string \<Rightarrow> string" where
  "header_text h = fst h @ '': '' @ snd h @ crlf"

definition format_http_response :: "u16 \<Rightarrow> (string \<times> string) list \<Rightarrow> string \<Rightarrow> string" where
  "format_http_response status headers body =
     ''HTTP/1.1 '' @ dec (unat status) @ '' '' @ status_text status @ crlf @
     concat (map header_text headers) @
     (if list_ex (\<lambda>h. eq_ignore_ascii_case (fst h) ''content-length'') headers then ''''
      else ''content-length: '' @ dec (length body) @ crlf) @ crlf @ body"

definition is_framing_header :: "string \<Rightarrow> bool" where
  "is_framing_header name \<longleftrightarrow>
     eq_ignore_ascii_case name ''content-length'' \<or> eq_ignore_ascii_case name ''transfer-encoding''"

definition format_http_response_header :: "u16 \<Rightarrow> (string \<times> string) list \<Rightarrow> string" where
  "format_http_response_header status headers =
     ''HTTP/1.1 '' @ dec (unat status) @ '' '' @ status_text_streaming status @ crlf @
     concat (map header_text (filter (\<lambda>h. \<not> is_framing_header (fst h)) headers)) @
     ''transfer-encoding: chunked'' @ crlf @ crlf"

definition format_chunk :: "string \<Rightarrow> string" where
  "format_chunk data = hex (length data) @ crlf @ data @ crlf"

definition format_chunk_terminator :: string where
  "format_chunk_terminator = ''0'' @ crlf2"

section \<open>Lemmas\<close>

lemma find_crlf_append: "find_crlf buf pos = Some e \<Longrightarrow> find_crlf (buf @ extra) pos = Some e"
  by (auto simp: find_crlf_def str_find_append split: if_splits)

lemma skip_trailers_append:
  "skip_trailers fuel buf pos = Some q \<Longrightarrow> fuel \<le> fuel' \<Longrightarrow> skip_trailers fuel' (buf @ extra) pos = Some q"
proof (induction fuel buf pos arbitrary: fuel' rule: skip_trailers.induct)
  case (2 fuel buf pos)
  from "2.prems"(2) obtain f where f: "fuel' = Suc f" "fuel \<le> f" by (cases fuel') auto
  from "2.prems"(1) obtain e where e: "find_crlf buf pos = Some e"
    and q: "(if e = pos then Some (e + 2) else skip_trailers fuel buf (e + 2)) = Some q"
    by (auto split: option.splits)
  with "2.IH" [OF e] f find_crlf_append [OF e, of extra] show ?case
    by (auto split: if_splits)
qed simp

lemma skip_trailers_bounds: "skip_trailers fuel buf pos = Some q \<Longrightarrow> pos \<le> q \<and> q \<le> length buf"
  by (induction fuel buf pos rule: skip_trailers.induct)
    (auto split: option.splits if_splits dest!: find_crlf_Some)

lemma take_drop_append: "a + n \<le> length buf \<Longrightarrow> take n (drop a (buf @ extra)) = take n (drop a buf)"
  by simp

lemma parse_chunks_append:
  "parse_chunks body buf pos = Complete b q \<Longrightarrow>
   parse_chunks body (buf @ extra) pos = Complete b q \<and> q \<le> length buf"
proof (induction body buf pos rule: parse_chunks.induct)
  case (1 body buf pos)
  from "1.prems" obtain e where e: "find_crlf buf pos = Some e"
    by (subst (asm) parse_chunks.simps) (auto split: option.splits)
  note eb = find_crlf_Some [OF e]
  note e' = find_crlf_append [OF e, of extra]
  have line: "take (e - pos) (drop pos (buf @ extra)) = take (e - pos) (drop pos buf)" using eb by simp
  from "1.prems" e obtain n where n: "parse_chunk_size (take (e - pos) (drop pos buf)) = Inr n"
    by (subst (asm) parse_chunks.simps) (auto split: sum.splits)
  show ?case
  proof (cases "n = 0")
    case True
    with "1.prems" e n obtain q' where q': "skip_trailers (length buf) buf (e + 2) = Some q'" "b = body" "q = q'"
      by (subst (asm) parse_chunks.simps) (auto split: option.splits)
    have s: "skip_trailers (length (buf @ extra)) (buf @ extra) (e + 2) = Some q'"
      by (rule skip_trailers_append [OF q'(1)]) simp
    have "parse_chunks body (buf @ extra) pos = Complete body q'"
      by (subst parse_chunks.simps) (simp only: e' line n s option.case sum.case True if_True simp_thms)
    with q'(2,3) skip_trailers_bounds [OF q'(1)] show ?thesis by simp
  next
    case False
    have c: "\<not> usize_max < e + 2 + n" "\<not> usize_max < e + 2 + n + 2" "\<not> length buf < e + 2 + n + 2"
      "take 2 (drop (e + 2 + n) buf) = crlf"
      "parse_chunks (body @ take n (drop (e + 2) buf)) buf (e + 2 + n + 2) = Complete b q"
      using "1.prems" e n False by (subst (asm) parse_chunks.simps, simp split: if_splits)+
    have IH: "parse_chunks (body @ take n (drop (e + 2) buf)) (buf @ extra) (e + 2 + n + 2) = Complete b q \<and> q \<le> length buf"
      using "1.IH" [OF e n False c(1-3)] c(4,5) by simp
    have t: "take 2 (drop (e + 2 + n) (buf @ extra)) = crlf" "take n (drop (e + 2) (buf @ extra)) = take n (drop (e + 2) buf)"
      using c(3,4) take_drop_append [of "e + 2 + n" 2 buf extra] take_drop_append [of "e + 2" n buf extra] by simp_all
    have "parse_chunks body (buf @ extra) pos =
        parse_chunks (body @ take n (drop (e + 2) buf)) (buf @ extra) (e + 2 + n + 2)"
      using e' line n False c(1-3) t
      by (subst parse_chunks.simps) (simp only: option.case sum.case if_False length_append, simp)
    with IH show ?thesis by simp
  qed
qed

lemma plain_not_ws:
  assumes "is_ascii_digit c \<or> is_ascii_lowercase c"
  shows "\<not> ws1 (code c)" "\<not> ws2 (code c) b" "\<not> ws2 b (code c)" "\<not> ws3 (code c) b d" "\<not> ws3 b d (code c)"
proof -
  have "48 \<le> code c \<and> code c \<le> 122" using assms by (auto simp: ascii_defs)
  then show "\<not> ws1 (code c)" "\<not> ws2 (code c) b" "\<not> ws2 b (code c)" "\<not> ws3 (code c) b d" "\<not> ws3 b d (code c)"
    by (simp_all add: ws1_def ws2_def ws3_def)
qed

lemma ws_len_plain: "is_ascii_digit c \<or> is_ascii_lowercase c \<Longrightarrow> ws_len (c # s) = 0"
  by (cases s; cases "tl s") (simp_all add: plain_not_ws)

lemma ws_len_rev_plain: "is_ascii_digit c \<or> is_ascii_lowercase c \<Longrightarrow> ws_len_rev (c # s) = 0"
  by (cases s; cases "tl s") (simp_all add: plain_not_ws)

lemma str_trim_plain:
  assumes "\<forall>c \<in> set s. is_ascii_digit c \<or> is_ascii_lowercase c"
  shows "str_trim s = s"
proof -
  have "trim_start s = s"
    using assms by (subst trim_start.simps, cases s) (simp_all add: ws_len_plain)
  moreover have "trim_rev (rev s) = rev s"
  proof (cases "rev s")
    case (Cons c t)
    then have "c \<in> set s" by (metis list.set_intros(1) set_rev)
    then have "ws_len_rev (rev s) = 0" using assms Cons by (simp add: ws_len_rev_plain)
    then show ?thesis by (subst trim_rev.simps) simp
  qed (subst trim_rev.simps, simp)
  ultimately show ?thesis by (simp add: str_trim_def trim_end_def)
qed

lemma hex_chars: "c \<in> set (hex n) \<Longrightarrow> is_ascii_digit c \<or> is_ascii_lowercase c"
  using to_radix_chars [of 16 c n] by (simp add: hex_def)

lemma hex_avoids: "\<not> (is_ascii_digit c \<or> is_ascii_lowercase c) \<Longrightarrow> c \<notin> set (hex n)"
  using hex_chars by blast

lemma parse_chunk_size_hex:
  assumes "n < 2 ^ 64"
  shows "parse_chunk_size (hex n) = Inr n"
proof -
  have "is_ascii_str (hex n)"
    using hex_chars by (fastforce simp: is_ascii_str_def list_all_iff ascii_defs)
  then have u: "is_utf8 (hex n)" by (rule is_utf8_ascii)
  have s: "str_split (CHR '';'') (hex n) = [hex n]"
    by (rule str_split_single, rule hex_avoids) (simp add: ascii_defs code_def)
  have "str_trim (hex n) = hex n" using hex_chars by (intro str_trim_plain) blast
  with u s assms show ?thesis
    by (simp add: parse_chunk_size_def Let_def from_str_radix_to_radix hex_def)
qed

lemma hex_no_crlf: "\<not> str_contains (hex n) crlf"
proof
  assume "str_contains (hex n) crlf"
  then obtain i where "str_find (hex n) crlf = Some i" by (auto simp: str_contains_def)
  from arg_cong [OF str_find_take_drop [OF this], of set]
  have "CHR 0x0D \<in> set (hex n)" by auto
  then show False using hex_avoids [of "CHR 0x0D" n] by (simp add: ascii_defs code_def)
qed

lemma find_crlf_line:
  assumes "drop pos buf = line @ crlf @ rest" "pos \<le> length buf" "\<not> str_contains line crlf"
  shows "find_crlf buf pos = Some (pos + length line)"
  using assms str_find_crlf [OF assms(3), of rest] by (simp add: find_crlf_def)

lemma drop_step: "drop pos b = x @ y \<Longrightarrow> drop (pos + length x) b = y"
  by (metis add.commute append_eq_conv_conj drop_drop)

lemma parse_chunks_format:
  assumes "drop pos buf = concat (map format_chunk ds) @ format_chunk_terminator @ rest" "pos \<le> length buf"
    "length buf + 2 \<le> usize_max" "\<forall>d \<in> set ds. d \<noteq> []"
  shows "parse_chunks body buf pos =
         Complete (body @ concat ds) (pos + length (concat (map format_chunk ds)) + length format_chunk_terminator)"
  using assms
proof (induction ds arbitrary: body pos)
  case Nil
  have d: "drop pos buf = ''0'' @ crlf @ crlf @ rest" using Nil.prems(1) by (simp add: format_chunk_terminator_def)
  have f: "find_crlf buf pos = Some (pos + length ''0'')"
    by (rule find_crlf_line [OF d Nil.prems(2)]) (simp add: str_contains_def)
  have z: "parse_chunk_size ''0'' = Inr 0" by code_simp
  have d2: "drop (pos + 3) buf = [] @ crlf @ rest" using drop_step [of pos buf "''0'' @ crlf"] d by (simp add: eval_nat_numeral)
  have len: "pos + 5 \<le> length buf" using arg_cong [OF d, of length] Nil.prems(2) by simp
  have f2: "find_crlf buf (pos + 3) = Some (pos + 3)"
    using find_crlf_line [OF d2] len by (simp add: str_contains_def)
  have "skip_trailers (length buf) buf (pos + 3) = Some (pos + 5)"
    using f2 len by (cases "length buf") simp_all
  with f z d show ?case
    by (simp add: parse_chunks.simps [of body] format_chunk_terminator_def eval_nat_numeral)
next
  case (Cons c ds)
  let ?more = "concat (map format_chunk ds) @ format_chunk_terminator @ rest"
  have d: "drop pos buf = hex (length c) @ crlf @ c @ crlf @ ?more"
    using Cons.prems(1) by (simp add: format_chunk_def [of c])
  have f: "find_crlf buf pos = Some (pos + length (hex (length c)))"
    by (rule find_crlf_line [OF d Cons.prems(2) hex_no_crlf])
  have len: "pos + length (hex (length c)) + 2 + length c + 2 + length ?more = length buf"
    using arg_cong [OF d, of length] Cons.prems(2) by simp
  have big: "length c < 2 ^ 64" using len Cons.prems(3) by (simp add: usize_max_def)
  let ?e = "pos + length (hex (length c))"
  have d1: "drop (?e + 2) buf = c @ crlf @ ?more"
    using drop_step [of pos buf "hex (length c) @ crlf"] d by (simp add: add.assoc)
  have d2: "drop (?e + 2 + length c) buf = crlf @ ?more"
    using drop_step [OF d1] by simp
  have d3: "drop (?e + 2 + length c + 2) buf = ?more"
    using drop_step [of "?e + 2 + length c" buf crlf ?more] d2 by simp
  have c0: "c \<noteq> []" using Cons.prems(4) by simp
  have line: "take (?e - pos) (drop pos buf) = hex (length c)" using d by simp
  have "parse_chunks body buf pos = parse_chunks (body @ c) buf (?e + 2 + length c + 2)"
    using len Cons.prems(3) c0
    by (subst parse_chunks.simps)
      (simp only: f option.case line parse_chunk_size_hex [OF big] sum.case d1 d2, simp)
  also have "\<dots> = Complete ((body @ c) @ concat ds)
      (?e + 2 + length c + 2 + length (concat (map format_chunk ds)) + length format_chunk_terminator)"
    using Cons.IH [OF d3] len Cons.prems(3,4) by simp
  finally show ?case by (simp add: format_chunk_def [of c])
qed

lemma try_parse_append:
  assumes "try_parse_http_request buf = Complete req n"
  shows "try_parse_http_request (buf @ extra) = Complete req n \<and> n \<le> length buf"
proof -
  obtain p where p: "str_find buf crlf2 = Some p"
    using assms by (auto simp: try_parse_http_request_def split: option.splits)
  have len: "p + 4 \<le> length buf" using str_find_Some [OF p] by simp
  have t: "take p (buf @ extra) = take p buf" using len by simp
  note p' = str_find_append [OF p, of extra]
  let ?lns = "str_split_crlf (take p buf)"
  let ?st = "header_lines_state (tl ?lns) \<lparr>hs_headers = [], hs_content_length = 0, hs_chunked = False\<rparr>"
  have u: "is_utf8 (take p buf)"
    using assms p by (auto simp: try_parse_http_request_def split: if_splits)
  obtain m path ws where w: "split_whitespace (hd ?lns) = m # path # ws"
    using assms p u by (auto simp: try_parse_http_request_def Let_def split: list.splits)
  show ?thesis
  proof (cases "hs_chunked ?st")
    case True
    then obtain b where b: "parse_chunks [] buf (p + 4) = Complete b n"
      "req = \<lparr>ph_method = m, ph_path = path, ph_headers = hs_headers ?st, ph_body = b\<rparr>"
      using assms p u w
      by (auto simp: try_parse_http_request_def Let_def parse_chunked_body_def split: outcome.splits)
    with parse_chunks_append [OF b(1), of extra] True u w show ?thesis
      unfolding try_parse_http_request_def p' option.case t Let_def parse_chunked_body_def by simp
  next
    case False
    define k where "k = hs_content_length ?st"
    have c: "\<not> usize_max < p + 4 + k" "\<not> length buf < p + 4 + k" "n = p + 4 + k"
      "req = \<lparr>ph_method = m, ph_path = path, ph_headers = hs_headers ?st, ph_body = take k (drop (p + 4) buf)\<rparr>"
      using assms p u w False by (auto simp: try_parse_http_request_def Let_def k_def split: if_splits)
    have "take k (drop (p + 4) (buf @ extra)) = take k (drop (p + 4) buf)" using c(2) by simp
    with c False u w show ?thesis
      unfolding try_parse_http_request_def p' option.case t Let_def k_def by simp
  qed
qed

text \<open>A complete request takes at least the blank line after its head.\<close>

lemma parse_chunks_advances: "parse_chunks body buf pos = Complete b q \<Longrightarrow> pos \<le> q"
proof (induction body buf pos rule: parse_chunks.induct)
  case (1 body buf pos)
  from "1.prems" obtain e where e: "find_crlf buf pos = Some e"
    by (subst (asm) parse_chunks.simps) (auto split: option.splits)
  note eb = find_crlf_Some [OF e]
  from "1.prems" e obtain n where n: "parse_chunk_size (take (e - pos) (drop pos buf)) = Inr n"
    by (subst (asm) parse_chunks.simps) (auto split: sum.splits)
  show ?case
  proof (cases "n = 0")
    case True
    with "1.prems" e n obtain q' where q': "skip_trailers (length buf) buf (e + 2) = Some q'" "q = q'"
      by (subst (asm) parse_chunks.simps) (auto split: option.splits)
    with skip_trailers_bounds [OF q'(1)] eb show ?thesis by simp
  next
    case False
    have c: "\<not> usize_max < e + 2 + n" "\<not> usize_max < e + 2 + n + 2" "\<not> length buf < e + 2 + n + 2"
      "take 2 (drop (e + 2 + n) buf) = crlf"
      "parse_chunks (body @ take n (drop (e + 2) buf)) buf (e + 2 + n + 2) = Complete b q"
      using "1.prems" e n False by (subst (asm) parse_chunks.simps, simp split: if_splits)+
    have "e + 2 + n + 2 \<le> q" using "1.IH" [OF e n False c(1-3)] c(4,5) by simp
    with eb show ?thesis by simp
  qed
qed

lemma try_parse_consumes: "try_parse_http_request buf = Complete req n \<Longrightarrow> 4 \<le> n"
  by (auto simp: try_parse_http_request_def Let_def parse_chunked_body_def
      split: option.splits if_splits list.splits outcome.splits dest!: parse_chunks_advances)

section \<open>Properties\<close>

text \<open>Chunked encoding round trip: the chunks the proxy formats, followed by its terminator, are read
  back by the proxy's own parser as the concatenated data, consuming exactly those bytes and
  ignoring what follows.\<close>

theorem chunked_format_parse_roundtrip:
  assumes "\<forall>d \<in> set ds. d \<noteq> []"
    "length (pre @ concat (map format_chunk ds) @ format_chunk_terminator @ rest) + 2 \<le> usize_max"
  shows "parse_chunked_body (pre @ concat (map format_chunk ds) @ format_chunk_terminator @ rest) (length pre) =
         Complete (concat ds) (length (pre @ concat (map format_chunk ds) @ format_chunk_terminator))"
  using parse_chunks_format [of "length pre" "pre @ concat (map format_chunk ds) @ format_chunk_terminator @ rest"
      ds rest "[]"] assms
  by (simp add: parse_chunked_body_def)

theorem chunked_format_parse_roundtrip_witness:
  "parse_chunked_body (''H'' @ format_chunk ''abc'' @ format_chunk ''d'' @ format_chunk_terminator @ ''N'') 1 =
   Complete ''abcd'' (length (''H'' @ format_chunk ''abc'' @ format_chunk ''d'' @ format_chunk_terminator))"
proof -
  have "length (''H'' @ format_chunk ''abc'' @ format_chunk ''d'' @ format_chunk_terminator @ ''N'') + 2 \<le> usize_max"
    by code_simp
  then show ?thesis
    using chunked_format_parse_roundtrip [of "[''abc'', ''d'']" "''H''" "''N''"] by simp
qed

text \<open>A request that is complete in the buffer is parsed the same whatever bytes are buffered behind
  it, and the parser never consumes more than the buffer holds: pipelined data cannot change an
  earlier request.\<close>

theorem parse_request_prefix_stable:
  assumes "try_parse_http_request buf = Complete req n"
  shows "try_parse_http_request (buf @ extra) = Complete req n \<and> n \<le> length buf"
  using assms by (rule try_parse_append)

theorem parse_request_prefix_stable_witness:
  "try_parse_http_request ((''POST /v H'' @ crlf @ ''Content-Length: 2'' @ crlf2 @ ''ab'') @ ''GET'') =
   try_parse_http_request (''POST /v H'' @ crlf @ ''Content-Length: 2'' @ crlf2 @ ''ab'')"
proof -
  have "try_parse_http_request (''POST /v H'' @ crlf @ ''Content-Length: 2'' @ crlf2 @ ''ab'') =
    Complete \<lparr>ph_method = ''POST'', ph_path = ''/v'', ph_headers = [(''Content-Length'', ''2'')], ph_body = ''ab''\<rparr>
      (length (''POST /v H'' @ crlf @ ''Content-Length: 2'' @ crlf2 @ ''ab''))"
    by code_simp
  from this parse_request_prefix_stable [OF this, of "''GET''"] show ?thesis by metis
qed

text \<open>A request head can crash the parser: a \<open>Content-Length\<close> of \<open>usize::MAX\<close> overflows the total
  length, and so does a chunk size just below it.\<close>

theorem huge_length_panics:
  "try_parse_http_request (''POST /v H'' @ crlf @ ''Content-Length: 18446744073709551615'' @ crlf2) = Panicked \<and>
   parse_chunked_body (''ffffffffffffffec'' @ crlf) 0 = Panicked"
  by code_simp

end
