(* ===== verification/Identity.thy ===== *)
theory Identity
  imports Policy
begin

text \<open>
  The trust-on-first-use cache of binary hashes, \<open>crates/openshell-sandbox/src/identity.rs\<close>.
  Stat and hash of a file are arguments of the operations, as the file may change between two
  of them. \<open>verify_or_cache_with_hasher\<close> takes the lock twice and hashes in between, so
  calls on different connections interleave: \<open>lookup_cached\<close> and \<open>commit_hash\<close> are its two
  locked sections, and \<open>verify_step\<close> is the step relation of any number of concurrent calls.
\<close>

section \<open>Data\<close>

record metadata =
  md_len :: u64
  md_mtime :: i64
  md_mtime_nsec :: i64
  md_ctime :: i64
  md_ctime_nsec :: i64
  md_dev :: u64
  md_ino :: u64

record file_fingerprint =
  fp_len :: u64
  fp_mtime_sec :: i64
  fp_mtime_nsec :: i64
  fp_ctime_sec :: i64
  fp_ctime_nsec :: i64
  fp_dev :: u64
  fp_ino :: u64

definition fingerprint_of :: "metadata \<Rightarrow> file_fingerprint" where
  "fingerprint_of md =
     \<lparr>fp_len = md_len md, fp_mtime_sec = md_mtime md, fp_mtime_nsec = md_mtime_nsec md,
      fp_ctime_sec = md_ctime md, fp_ctime_nsec = md_ctime_nsec md, fp_dev = md_dev md, fp_ino = md_ino md\<rparr>"

definition fingerprint_eq :: "file_fingerprint \<Rightarrow> file_fingerprint \<Rightarrow> bool" where
  "fingerprint_eq a b \<longleftrightarrow>
     fp_len a = fp_len b \<and> fp_mtime_sec a = fp_mtime_sec b \<and> fp_mtime_nsec a = fp_mtime_nsec b \<and>
     fp_ctime_sec a = fp_ctime_sec b \<and> fp_ctime_nsec a = fp_ctime_nsec b \<and>
     fp_dev a = fp_dev b \<and> fp_ino a = fp_ino b"

record cached_binary =
  cb_hash :: string
  cb_fingerprint :: file_fingerprint

text \<open>
  The key of the map is a \<open>PathBuf\<close>, which is compared and hashed by its components:
  \<open>/usr//bin/sh\<close> and \<open>/usr/bin/sh\<close> are the same key. A lock is poisoned when a thread panics
  while it holds it.
\<close>

record binary_identity_cache =
  bc_hashes :: "(component list, cached_binary) hash_map"
  bc_poisoned :: bool

definition new_cache :: binary_identity_cache where
  "new_cache = \<lparr>bc_hashes = [], bc_poisoned = False\<rparr>"

definition get_cached :: "binary_identity_cache \<Rightarrow> string \<Rightarrow> cached_binary option" where
  "get_cached c path = map_of (bc_hashes c) (path_components path)"

section \<open>Operations\<close>

definition stat_failed :: "string \<Rightarrow> string \<Rightarrow> string" where
  "stat_failed path err = ''Failed to stat '' @ from_utf8_lossy path @ '': '' @ err"

definition lock_poisoned :: string where
  "lock_poisoned = ''Binary identity cache lock poisoned''"

definition integrity_violation :: "string \<Rightarrow> string \<Rightarrow> string \<Rightarrow> string" where
  "integrity_violation path cached current =
     ''Binary integrity violation: '' @ from_utf8_lossy path @ '' hash changed (cached: '' @ cached @
     '', current: '' @ current @ '')''"

text \<open>The call up to the hashing: \<open>Inl r\<close> when it returns at once, \<open>Inr fp\<close> when it goes on to hash.\<close>

definition lookup_cached ::
    "binary_identity_cache \<Rightarrow> string \<Rightarrow> string + metadata \<Rightarrow> (string + string) + file_fingerprint" where
  "lookup_cached c path stat =
     (case stat of
        Inl err \<Rightarrow> Inl (Inl (stat_failed path err))
      | Inr md \<Rightarrow>
          let fingerprint = fingerprint_of md in
          if bc_poisoned c then Inl (Inl lock_poisoned)
          else case get_cached c path of
                 Some cached \<Rightarrow>
                   if fingerprint_eq (cb_fingerprint cached) fingerprint then Inl (Inr (cb_hash cached))
                   else Inr fingerprint
               | None \<Rightarrow> Inr fingerprint)"

text \<open>The second locked section, with the hash computed meanwhile.\<close>

definition commit_hash ::
    "binary_identity_cache \<Rightarrow> string \<Rightarrow> file_fingerprint \<Rightarrow> string \<Rightarrow> binary_identity_cache \<times> (string + string)" where
  "commit_hash c path fingerprint current =
     (if bc_poisoned c then (c, Inl lock_poisoned)
      else
        let ins = c\<lparr>bc_hashes := hm_insert (path_components path)
                      \<lparr>cb_hash = current, cb_fingerprint = fingerprint\<rparr> (bc_hashes c)\<rparr>
        in case get_cached c path of
             Some existing \<Rightarrow>
               if cb_hash existing \<noteq> current then (c, Inl (integrity_violation path (cb_hash existing) current))
               else (ins, Inr current)
           | None \<Rightarrow> (ins, Inr current))"

definition verify_or_cache_with_hasher ::
    "binary_identity_cache \<Rightarrow> string \<Rightarrow> (string \<Rightarrow> string + metadata) \<Rightarrow> (string \<Rightarrow> string + string) \<Rightarrow>
     binary_identity_cache \<times> (string + string)" where
  "verify_or_cache_with_hasher c path fs_metadata hash_file =
     (case lookup_cached c path (fs_metadata path) of
        Inl r \<Rightarrow> (c, r)
      | Inr fingerprint \<Rightarrow>
          (case hash_file path of
             Inl e \<Rightarrow> (c, Inl e)
           | Inr current \<Rightarrow> commit_hash c path fingerprint current))"

text \<open>\<open>procfs::file_sha256\<close>: reading the file, the digest and its hexadecimal form are parameters.\<close>

definition file_sha256 ::
    "(string \<Rightarrow> string + bytes) \<Rightarrow> (bytes \<Rightarrow> bytes) \<Rightarrow> (bytes \<Rightarrow> string) \<Rightarrow> string \<Rightarrow> string + string" where
  "file_sha256 fs_read sha256 hex_encode path =
     (case fs_read path of Inl e \<Rightarrow> Inl e | Inr content \<Rightarrow> Inr (hex_encode (sha256 content)))"

definition verify_or_cache ::
    "(string \<Rightarrow> string + bytes) \<Rightarrow> (bytes \<Rightarrow> bytes) \<Rightarrow> (bytes \<Rightarrow> string) \<Rightarrow> binary_identity_cache \<Rightarrow> string \<Rightarrow>
     (string \<Rightarrow> string + metadata) \<Rightarrow> binary_identity_cache \<times> (string + string)" where
  "verify_or_cache fs_read sha256 hex_encode c path fs_metadata =
     verify_or_cache_with_hasher c path fs_metadata (file_sha256 fs_read sha256 hex_encode)"

section \<open>Concurrent calls\<close>

text \<open>
  Where a call stands: before its first locked section, after it, after hashing, or done. The
  system is the shared cache and the calls; a step lets one call run to its next point, with
  whatever the file system answers at that moment.
\<close>

datatype call =
    Started string
  | Looked_up string file_fingerprint
  | Hashed string file_fingerprint string
  | Done string "string + string"

definition advance ::
    "string + metadata \<Rightarrow> string + string \<Rightarrow> binary_identity_cache \<Rightarrow> call \<Rightarrow> binary_identity_cache \<times> call" where
  "advance stat digest c k =
     (case k of
        Started p \<Rightarrow> (c, case lookup_cached c p stat of Inl r \<Rightarrow> Done p r | Inr fp \<Rightarrow> Looked_up p fp)
      | Looked_up p fp \<Rightarrow> (c, case digest of Inl e \<Rightarrow> Done p (Inl e) | Inr h \<Rightarrow> Hashed p fp h)
      | Hashed p fp h \<Rightarrow> (case commit_hash c p fp h of (c', r) \<Rightarrow> (c', Done p r))
      | Done p r \<Rightarrow> (c, Done p r))"

inductive verify_step ::
    "binary_identity_cache \<times> call list \<Rightarrow> binary_identity_cache \<times> call list \<Rightarrow> bool" where
  start: "verify_step (c, ks) (c, ks @ [Started p])"
| step: "i < length ks \<Longrightarrow> advance stat digest c (ks ! i) = (c', k) \<Longrightarrow> verify_step (c, ks) (c', ks[i := k])"

inductive_cases verify_stepE: "verify_step s t"

section \<open>Lemmas\<close>

lemma fingerprint_eq_iff [simp]: "fingerprint_eq a b \<longleftrightarrow> a = b"
  by (cases a; cases b) (auto simp: fingerprint_eq_def)

lemma get_cached_insert:
  "get_cached (c\<lparr>bc_hashes := hm_insert (path_components p) cb (bc_hashes c)\<rparr>) q =
   (if path_components q = path_components p then Some cb else get_cached c q)"
  by (simp add: get_cached_def map_of_hm_insert)

text \<open>The hash a path is trusted with.\<close>

definition golden :: "binary_identity_cache \<Rightarrow> string \<Rightarrow> string option" where
  "golden c path = map_option cb_hash (get_cached c path)"

lemma golden_same: "path_components p = path_components q \<Longrightarrow> golden c p = golden c q"
  by (simp add: golden_def get_cached_def)

lemma lookup_cached_ok: "lookup_cached c p stat = Inl (Inr h) \<Longrightarrow> golden c p = Some h"
  by (auto simp: lookup_cached_def golden_def Let_def split: sum.splits if_splits option.splits)

lemma commit_hash_ok: "commit_hash c p fp h = (c', Inr r) \<Longrightarrow> r = h \<and> golden c' p = Some h"
  by (auto simp: commit_hash_def golden_def get_cached_insert Let_def split: if_splits option.splits)

lemma commit_hash_golden:
  "commit_hash c p fp h = (c', r) \<Longrightarrow> golden c q = Some g \<Longrightarrow> golden c' q = Some g"
  by (auto simp: commit_hash_def golden_def get_cached_insert Let_def split: if_splits option.splits)
    (simp_all add: get_cached_def)

lemma advance_golden:
  "advance stat digest c k = (c', k') \<Longrightarrow> golden c q = Some g \<Longrightarrow> golden c' q = Some g"
  by (auto simp: advance_def split: call.splits prod.splits intro: commit_hash_golden)

lemma advance_done:
  "advance stat digest c k = (c', Done p (Inr h)) \<Longrightarrow> k = Done p (Inr h) \<or> golden c' p = Some h"
  by (auto simp: advance_def dest: lookup_cached_ok commit_hash_ok split: call.splits prod.splits sum.splits)

lemma verify_step_golden: "verify_step s t \<Longrightarrow> golden (fst s) q = Some g \<Longrightarrow> golden (fst t) q = Some g"
  by (induction rule: verify_step.induct) (auto intro: advance_golden)

lemma verify_steps_golden: "verify_step\<^sup>*\<^sup>* s t \<Longrightarrow> golden (fst s) q = Some g \<Longrightarrow> golden (fst t) q = Some g"
  by (induction rule: rtranclp_induct) (auto intro: verify_step_golden)

definition results_trusted :: "binary_identity_cache \<times> call list \<Rightarrow> bool" where
  "results_trusted s \<longleftrightarrow> (\<forall>p h. Done p (Inr h) \<in> set (snd s) \<longrightarrow> golden (fst s) p = Some h)"

lemma verify_step_trusted: "verify_step s t \<Longrightarrow> results_trusted s \<Longrightarrow> results_trusted t"
proof (induction rule: verify_step.induct)
  case (step i ks stat digest c c' k)
  show ?case
    unfolding results_trusted_def
  proof (intro allI impI)
    fix p h
    assume "Done p (Inr h) \<in> set (snd (c', ks[i := k]))"
    then consider "Done p (Inr h) \<in> set ks" | "k = Done p (Inr h)"
      using set_update_subset_insert [of ks i k] by auto
    then show "golden (fst (c', ks[i := k])) p = Some h"
    proof cases
      case 1
      with step.prems advance_golden [OF step.hyps(2)] show ?thesis by (simp add: results_trusted_def)
    next
      case 2
      with step.hyps have "ks ! i = Done p (Inr h) \<or> golden c' p = Some h" by (blast dest: advance_done)
      with step.hyps step.prems advance_golden [OF step.hyps(2)] show ?thesis
        by (auto simp: results_trusted_def dest: nth_mem)
    qed
  qed
qed (auto simp: results_trusted_def)

lemma verify_steps_trusted: "verify_step\<^sup>*\<^sup>* s t \<Longrightarrow> results_trusted s \<Longrightarrow> results_trusted t"
  by (induction rule: rtranclp_induct) (auto intro: verify_step_trusted)

lemma verify_or_cache_steps:
  "verify_step\<^sup>*\<^sup>* (c, ks)
     (fst (verify_or_cache_with_hasher c p md hf), ks @ [Done p (snd (verify_or_cache_with_hasher c p md hf))])"
proof -
  have at: "i = length ks \<Longrightarrow> advance stat digest d k = (d', k') \<Longrightarrow>
      verify_step (d, ks @ [k]) (d', ks @ [k'])" for i stat digest d d' k k'
    using verify_step.step [of "length ks" "ks @ [k]" stat digest d d' k'] by simp
  note [intro] = rtranclp.rtrancl_into_rtrancl
  have a: "verify_step\<^sup>*\<^sup>* (c, ks) (c, ks @ [Started p])"
    by (rule r_into_rtranclp) (rule verify_step.start)
  show ?thesis
  proof (cases "lookup_cached c p (md p)")
    case (Inl r)
    have "verify_step (c, ks @ [Started p]) (c, ks @ [Done p r])"
      by (rule at [of "length ks" "md p" "Inl ''''"]) (simp_all add: advance_def Inl)
    with a show ?thesis by (auto simp: verify_or_cache_with_hasher_def Inl)
  next
    case (Inr fp)
    have "verify_step (c, ks @ [Started p]) (c, ks @ [Looked_up p fp])"
      by (rule at [of "length ks" "md p" "Inl ''''"]) (simp_all add: advance_def Inr)
    with a have b: "verify_step\<^sup>*\<^sup>* (c, ks) (c, ks @ [Looked_up p fp])" by blast
    show ?thesis
    proof (cases "hf p")
      case (Inl e)
      have "verify_step (c, ks @ [Looked_up p fp]) (c, ks @ [Done p (Inl e)])"
        by (rule at [of "length ks" "md p" "hf p"]) (simp_all add: advance_def Inl)
      with b show ?thesis by (auto simp: verify_or_cache_with_hasher_def Inr Inl)
    next
      case h: (Inr h)
      have "verify_step (c, ks @ [Looked_up p fp]) (c, ks @ [Hashed p fp h])"
        by (rule at [of "length ks" "md p" "hf p"]) (simp_all add: advance_def h)
      with b have b2: "verify_step\<^sup>*\<^sup>* (c, ks) (c, ks @ [Hashed p fp h])" by blast
      have "verify_step (c, ks @ [Hashed p fp h])
          (fst (commit_hash c p fp h), ks @ [Done p (snd (commit_hash c p fp h))])"
        by (rule at [of "length ks" "md p" "hf p"]) (simp_all add: advance_def split: prod.splits)
      with b2 show ?thesis by (auto simp: verify_or_cache_with_hasher_def Inr h)
    qed
  qed
qed

section \<open>Properties\<close>

text \<open>C14: Trust on first use under concurrency: however the calls of different connections interleave and
  whatever the file system answers in between, all calls that succeed for one path return the
  same hash, and it is the hash the cache still holds for that path.\<close>

theorem tofu_one_hash_per_path:
  assumes "verify_step\<^sup>*\<^sup>* (new_cache, []) (c, ks)"
    "Done p (Inr h) \<in> set ks" "Done q (Inr g) \<in> set ks" "path_components p = path_components q"
  shows "h = g \<and> map_option cb_hash (get_cached c p) = Some h"
proof -
  have "results_trusted (c, ks)"
    by (rule verify_steps_trusted [OF assms(1)]) (simp add: results_trusted_def)
  with assms(2,3) have "golden c p = Some h" "golden c q = Some g"
    by (auto simp: results_trusted_def)
  with golden_same [OF assms(4), of c] have "h = g" "golden c p = Some h" by simp_all
  then show ?thesis by (simp add: golden_def)
qed

abbreviation md_at :: "u64 \<Rightarrow> metadata" where
  "md_at n \<equiv> \<lparr>md_len = n, md_mtime = 0, md_mtime_nsec = 0, md_ctime = 0, md_ctime_nsec = 0, md_dev = 1, md_ino = 2\<rparr>"

theorem tofu_one_hash_per_path_witness:
  "\<exists>c ks. verify_step\<^sup>*\<^sup>* (new_cache, []) (c, ks) \<and> Done ''/bin/a'' (Inr ''h'') \<in> set ks \<and>
     Done ''/bin//a'' (Inr ''h'') \<in> set ks \<and> map_option cb_hash (get_cached c ''/bin/a'') = Some ''h''"
proof -
  define r where "r = verify_or_cache_with_hasher new_cache ''/bin/a'' (\<lambda>_. Inr (md_at 1)) (\<lambda>_. Inr ''h'')"
  define s where "s = verify_or_cache_with_hasher (fst r) ''/bin//a'' (\<lambda>_. Inr (md_at 2)) (\<lambda>_. Inr ''h'')"
  have ok: "snd r = Inr ''h''" "snd s = Inr ''h''"
    unfolding s_def r_def by code_simp+
  have run: "verify_step\<^sup>*\<^sup>* (new_cache, []) (fst s, [Done ''/bin/a'' (snd r), Done ''/bin//a'' (snd s)])"
    using rtranclp_trans [OF verify_or_cache_steps verify_or_cache_steps,
        of new_cache "[]" "''/bin/a''" "\<lambda>_. Inr (md_at 1)" "\<lambda>_. Inr ''h''"
          "''/bin//a''" "\<lambda>_. Inr (md_at 2)" "\<lambda>_. Inr ''h''"]
    by (simp add: r_def s_def)
  have same: "path_components ''/bin/a'' = path_components ''/bin//a''" by code_simp
  from tofu_one_hash_per_path [OF run, of "''/bin/a''" "''h''" "''/bin//a''" "''h''"] run ok same
  show ?thesis by (intro exI [of _ "fst s"] exI [of _ "[Done ''/bin/a'' (snd r), Done ''/bin//a'' (snd s)]"]) auto
qed

text \<open>One call: it returns a hash exactly when the file can be stat'ed and either nothing is cached
  and the file hashes to it, or it is the cached hash and the file's fingerprint is unchanged or
  the file still hashes to it; then the path is trusted with that hash and no other path is
  touched, and a failing call leaves the cache as it was.\<close>

theorem verify_or_cache_spec:
  "(snd (verify_or_cache_with_hasher c p md hf) = Inr h \<longleftrightarrow>
      \<not> bc_poisoned c \<and>
      (case md p of
         Inl _ \<Rightarrow> False
       | Inr m \<Rightarrow>
           (case get_cached c p of
              None \<Rightarrow> hf p = Inr h
            | Some cb \<Rightarrow> cb_hash cb = h \<and> (cb_fingerprint cb = fingerprint_of m \<or> hf p = Inr h)))) \<and>
   (case verify_or_cache_with_hasher c p md hf of
      (c', Inl _) \<Rightarrow> c' = c
    | (c', Inr g) \<Rightarrow>
        map_option cb_hash (get_cached c' p) = Some g \<and>
        get_cached c' q =
          (if path_components q = path_components p then get_cached c' p else get_cached c q))"
proof -
  show ?thesis
  proof (cases "path_components q = path_components p")
    case True
    then have q: "get_cached d q = get_cached d p" for d by (simp add: get_cached_def)
    show ?thesis
      by (cases "md p"; cases "get_cached c p"; cases "hf p")
        (auto simp: verify_or_cache_with_hasher_def lookup_cached_def commit_hash_def Let_def get_cached_insert q True
          split: if_splits)
  next
    case False
    then show ?thesis
      by (cases "md p"; cases "get_cached c p"; cases "hf p")
        (auto simp: verify_or_cache_with_hasher_def lookup_cached_def commit_hash_def Let_def get_cached_insert
          split: if_splits)
  qed
qed

end
