(* ===== verification/Denials.thy ===== *)
theory Denials
  imports Prelude
begin

text \<open>
  The denial aggregator, \<open>crates/openshell-sandbox/src/denial_aggregator.rs\<close>: denial events are merged by
  \<open>(host, port, binary)\<close> and flushed in batches. The clock is an argument; the branches that
  \<open>tokio::select!\<close> takes are the input of \<open>run\<close>, and its output is the batches given to the flush
  callback. Counters are \<open>u32\<close> and wrap around, as in a build without overflow checks. The order
  of a batch is the iteration order of a hash map and no theorem depends on it.
\<close>

section \<open>Data\<close>

record denial_event =
  de_host :: string
  de_port :: u16
  de_binary :: string
  de_ancestors :: "string list"
  de_deny_reason :: string
  de_denial_stage :: string
  de_l7_method :: "string option"
  de_l7_path :: "string option"

record l7_sample =
  ls_method :: string
  ls_path :: string
  ls_count :: u32

record aggregated_denial =
  ad_host :: string
  ad_port :: u16
  ad_binary :: string
  ad_ancestors :: "string list"
  ad_deny_reason :: string
  ad_denial_stage :: string
  ad_first_seen_ms :: int
  ad_last_seen_ms :: int
  ad_count :: u32
  ad_sample_cmdlines :: "string list"
  ad_l7_samples :: "l7_sample list"

record flushable_l7_sample =
  fl_method :: string
  fl_path :: string
  fl_count :: u32

record flushable_denial_summary =
  fd_host :: string
  fd_port :: u16
  fd_binary :: string
  fd_ancestors :: "string list"
  fd_deny_reason :: string
  fd_denial_stage :: string
  fd_first_seen_ms :: int
  fd_last_seen_ms :: int
  fd_count :: u32
  fd_sample_cmdlines :: "string list"
  fd_l7_samples :: "flushable_l7_sample list"

type_synonym denial_key = "string \<times> u16 \<times> string"
type_synonym summaries = "(denial_key, aggregated_denial) hash_map"

section \<open>Operations\<close>

text \<open>
  Milliseconds since the epoch as an \<open>i64\<close>, saturating; \<open>None\<close> is a clock before the epoch.
\<close>

definition current_time_ms :: "nat option \<Rightarrow> int" where
  "current_time_ms clock =
     (case clock of
        None \<Rightarrow> 0
      | Some ms \<Rightarrow> if int ms \<le> 2 ^ 63 - 1 then int ms else 2 ^ 63 - 1)"

definition event_key :: "denial_event \<Rightarrow> denial_key" where
  "event_key e = (de_host e, de_port e, de_binary e)"

definition new_entry :: "int \<Rightarrow> denial_event \<Rightarrow> aggregated_denial" where
  "new_entry now_ms e =
     \<lparr>ad_host = de_host e, ad_port = de_port e, ad_binary = de_binary e, ad_ancestors = de_ancestors e,
      ad_deny_reason = de_deny_reason e, ad_denial_stage = de_denial_stage e,
      ad_first_seen_ms = now_ms, ad_last_seen_ms = now_ms, ad_count = 0,
      ad_sample_cmdlines = [], ad_l7_samples = []\<rparr>"

text \<open>\<open>iter_mut().find\<close> and the increment: the first sample of the request, or \<open>None\<close>.\<close>

fun bump_sample :: "string \<Rightarrow> string \<Rightarrow> l7_sample list \<Rightarrow> l7_sample list option" where
  "bump_sample m p [] = None"
| "bump_sample m p (s # ss) =
     (if ls_method s = m \<and> ls_path s = p then Some (s\<lparr>ls_count := ls_count s + 1\<rparr> # ss)
      else map_option ((#) s) (bump_sample m p ss))"

definition merge_sample :: "string \<Rightarrow> string \<Rightarrow> l7_sample list \<Rightarrow> l7_sample list" where
  "merge_sample m p samples =
     (case bump_sample m p samples of
        Some samples' \<Rightarrow> samples'
      | None \<Rightarrow>
          if length samples < 20 then samples @ [\<lparr>ls_method = m, ls_path = p, ls_count = 1\<rparr>]
          else samples)"

definition merge_event :: "int \<Rightarrow> denial_event \<Rightarrow> aggregated_denial \<Rightarrow> aggregated_denial" where
  "merge_event now_ms e entry =
     entry\<lparr>ad_count := ad_count entry + 1, ad_last_seen_ms := now_ms,
       ad_l7_samples :=
         (case (de_l7_method e, de_l7_path e) of
            (Some m, Some p) \<Rightarrow> merge_sample m p (ad_l7_samples entry)
          | _ \<Rightarrow> ad_l7_samples entry)\<rparr>"

definition ingest :: "nat option \<Rightarrow> denial_event \<Rightarrow> summaries \<Rightarrow> summaries" where
  "ingest clock e s =
     (let now_ms = current_time_ms clock;
          key = event_key e;
          entry = unwrap_or (map_of s key) (new_entry now_ms e)
      in hm_insert key (merge_event now_ms e entry) s)"

definition flush_sample :: "l7_sample \<Rightarrow> flushable_l7_sample" where
  "flush_sample s = \<lparr>fl_method = ls_method s, fl_path = ls_path s, fl_count = ls_count s\<rparr>"

definition flush_summary :: "aggregated_denial \<Rightarrow> flushable_denial_summary" where
  "flush_summary v =
     \<lparr>fd_host = ad_host v, fd_port = ad_port v, fd_binary = ad_binary v, fd_ancestors = ad_ancestors v,
      fd_deny_reason = ad_deny_reason v, fd_denial_stage = ad_denial_stage v,
      fd_first_seen_ms = ad_first_seen_ms v, fd_last_seen_ms = ad_last_seen_ms v, fd_count = ad_count v,
      fd_sample_cmdlines = ad_sample_cmdlines v, fd_l7_samples = map flush_sample (ad_l7_samples v)\<rparr>"

definition drain :: "summaries \<Rightarrow> summaries \<times> flushable_denial_summary list" where
  "drain s = ([], map (\<lambda>(_, v). flush_summary v) s)"

datatype branch =
    Received denial_event "nat option"
  | Channel_closed
  | Flush_tick

fun run :: "branch list \<Rightarrow> summaries \<Rightarrow> summaries \<times> flushable_denial_summary list list" where
  "run [] s = (s, [])"
| "run (Received e clock # bs) s = run bs (ingest clock e s)"
| "run (Channel_closed # bs) s =
     (if s \<noteq> [] then (case drain s of (s', batch) \<Rightarrow> (s', [batch])) else (s, []))"
| "run (Flush_tick # bs) s =
     (if s \<noteq> [] then
        (case drain s of (s', batch) \<Rightarrow> (case run bs s' of (s'', batches) \<Rightarrow> (s'', batch # batches)))
      else run bs s)"

section \<open>Lemmas\<close>

text \<open>The events a run receives: those before the channel is closed.\<close>

fun received :: "branch list \<Rightarrow> denial_event list" where
  "received [] = []"
| "received (Received e clock # bs) = e # received bs"
| "received (Channel_closed # bs) = []"
| "received (Flush_tick # bs) = received bs"

definition summary_key :: "flushable_denial_summary \<Rightarrow> denial_key" where
  "summary_key d = (fd_host d, fd_port d, fd_binary d)"

definition tally :: "denial_key \<Rightarrow> flushable_denial_summary list \<Rightarrow> u32" where
  "tally k ds = sum_list (map fd_count (filter (\<lambda>d. summary_key d = k) ds))"

definition entry_ok :: "denial_key \<Rightarrow> aggregated_denial \<Rightarrow> bool" where
  "entry_ok k v \<longleftrightarrow>
     k = (ad_host v, ad_port v, ad_binary v) \<and> length (ad_l7_samples v) \<le> 20 \<and>
     distinct (map (\<lambda>s. (ls_method s, ls_path s)) (ad_l7_samples v))"

definition summaries_ok :: "summaries \<Rightarrow> bool" where
  "summaries_ok s \<longleftrightarrow> hm_ok s \<and> (\<forall>(k, v) \<in> set s. entry_ok k v)"

lemma bump_sample_keys:
  "bump_sample m p ss = Some ss' \<Longrightarrow>
   map (\<lambda>s. (ls_method s, ls_path s)) ss' = map (\<lambda>s. (ls_method s, ls_path s)) ss"
  by (induction ss arbitrary: ss') (auto split: if_splits)

lemma bump_sample_None: "bump_sample m p ss = None \<longleftrightarrow> (m, p) \<notin> (\<lambda>s. (ls_method s, ls_path s)) ` set ss"
  by (induction ss) auto

lemma merge_sample_ok:
  assumes "length ss \<le> 20" "distinct (map (\<lambda>s. (ls_method s, ls_path s)) ss)"
  shows "length (merge_sample m p ss) \<le> 20 \<and> distinct (map (\<lambda>s. (ls_method s, ls_path s)) (merge_sample m p ss))"
proof (cases "bump_sample m p ss")
  case None
  with assms bump_sample_None [of m p ss] show ?thesis by (auto simp: merge_sample_def)
next
  case (Some ss')
  have "length ss' = length ss" using arg_cong [OF bump_sample_keys [OF Some], of length] by simp
  with bump_sample_keys [OF Some] assms Some show ?thesis by (simp add: merge_sample_def)
qed

lemma merge_event_ok: "entry_ok k v \<Longrightarrow> entry_ok k (merge_event now e v)"
  using merge_sample_ok [of "ad_l7_samples v"]
  by (auto simp: entry_ok_def merge_event_def split: option.split)

lemma new_entry_ok: "entry_ok (event_key e) (new_entry now e)"
  by (simp add: entry_ok_def event_key_def new_entry_def)

lemma hm_insert_set: "hm_ok m \<Longrightarrow> set (hm_insert k v m) = insert (k, v) {e \<in> set m. fst e \<noteq> k}"
  by (induction m) (force simp: hm_ok_def)+

lemma summaries_ok_ingest:
  assumes "summaries_ok s"
  shows "summaries_ok (ingest clock e s)"
proof -
  have "entry_ok (event_key e) (unwrap_or (map_of s (event_key e)) (new_entry (current_time_ms clock) e))"
    using assms new_entry_ok by (cases "map_of s (event_key e)") (auto simp: summaries_ok_def dest: map_of_SomeD)
  then show ?thesis using assms merge_event_ok
    by (auto simp: summaries_ok_def ingest_def Let_def hm_ok_insert hm_insert_set)
qed

lemma tally_append [simp]: "tally k (xs @ ys) = tally k xs + tally k ys"
  by (simp add: tally_def)

lemma tally_Nil [simp]: "tally k [] = 0"
  by (simp add: tally_def)

lemma tally_drain:
  assumes "summaries_ok s"
  shows "tally k (snd (drain s)) = (case map_of s k of None \<Rightarrow> 0 | Some v \<Rightarrow> ad_count v)"
  using assms
proof (induction s)
  case (Cons e s)
  obtain k' v where e: "e = (k', v)" by (cases e)
  from Cons.prems have ok: "summaries_ok s" "entry_ok k' v" "k' \<notin> fst ` set s"
    by (auto simp: summaries_ok_def hm_ok_def e)
  then have none: "map_of s k' = None" by (simp add: map_of_eq_None_iff)
  from ok(2) have key: "summary_key (flush_summary v) = k'"
    by (simp add: entry_ok_def summary_key_def flush_summary_def)
  from Cons.IH [OF ok(1)] show ?case
    using none key by (cases "k = k'") (simp_all add: e drain_def tally_def flush_summary_def)
qed (simp add: drain_def)

lemma tally_ingest:
  assumes "summaries_ok s"
  shows "tally k (snd (drain (ingest clock e s))) =
         tally k (snd (drain s)) + (if event_key e = k then 1 else 0)"
proof -
  have "ad_count (merge_event now e v) = ad_count v + 1" for now v by (simp add: merge_event_def)
  moreover have "ad_count (new_entry now e) = 0" for now by (simp add: new_entry_def)
  ultimately show ?thesis
    unfolding tally_drain [OF assms] tally_drain [OF summaries_ok_ingest [OF assms]]
    by (auto simp: ingest_def Let_def map_of_hm_insert split: option.split)
qed

lemma summaries_ok_Nil [simp]: "summaries_ok []"
  by (simp add: summaries_ok_def hm_ok_def)

lemma fst_drain [simp]: "fst (drain s) = []"
  by (simp add: drain_def)

lemma drain_eq: "drain s = ([], snd (drain s))"
  by (simp add: drain_def)

lemma tally_drain_Nil [simp]: "tally k (snd (drain [])) = 0"
  by (simp add: drain_def)

lemma run_simps [simp]:
  "run (Channel_closed # bs) s = ([], if s = [] then [] else [snd (drain s)])"
  "run (Flush_tick # bs) s =
     (fst (run bs []), (if s = [] then id else (#) (snd (drain s))) (snd (run bs [])))"
  by (simp_all add: drain_def split: prod.split)

lemma run_tally:
  "summaries_ok s \<Longrightarrow>
   tally k (concat (snd (run bs s))) + tally k (snd (drain (fst (run bs s)))) =
   tally k (snd (drain s)) + of_nat (length (filter (\<lambda>e. event_key e = k) (received bs)))"
proof (induction bs arbitrary: s)
  case (Cons b bs)
  then show ?case
    by (cases b) (auto simp: tally_ingest summaries_ok_ingest add.assoc simp del: run.simps(3,4))
qed simp

definition batch_ok :: "flushable_denial_summary list \<Rightarrow> bool" where
  "batch_ok b \<longleftrightarrow>
     b \<noteq> [] \<and> distinct (map summary_key b) \<and>
     list_all (\<lambda>d. length (fd_l7_samples d) \<le> 20 \<and>
                   distinct (map (\<lambda>s. (fl_method s, fl_path s)) (fd_l7_samples d))) b"

lemma flush_summary_key: "entry_ok k v \<Longrightarrow> summary_key (flush_summary v) = k"
  by (simp add: entry_ok_def summary_key_def flush_summary_def)

lemma drain_batch_ok:
  assumes "summaries_ok s" "s \<noteq> []"
  shows "batch_ok (snd (drain s))"
proof -
  have "map summary_key (snd (drain s)) = map fst s"
    using assms(1) by (auto simp: drain_def summaries_ok_def flush_summary_key)
  then have "distinct (map summary_key (snd (drain s)))"
    using assms(1) by (simp add: summaries_ok_def hm_ok_def)
  moreover have "list_all (\<lambda>d. length (fd_l7_samples d) \<le> 20 \<and>
      distinct (map (\<lambda>s. (fl_method s, fl_path s)) (fd_l7_samples d))) (snd (drain s))"
    using assms(1)
    by (auto simp: drain_def summaries_ok_def entry_ok_def list_all_iff flush_summary_def flush_sample_def comp_def)
  moreover have "snd (drain s) \<noteq> []" using assms(2) by (simp add: drain_def)
  ultimately show ?thesis by (simp add: batch_ok_def)
qed

lemma run_batches_ok: "summaries_ok s \<Longrightarrow> list_all batch_ok (snd (run bs s))"
proof (induction bs arbitrary: s)
  case (Cons b bs)
  then show ?case
    by (cases b) (auto simp: summaries_ok_ingest drain_batch_ok simp del: run.simps(3,4))
qed simp

section \<open>Properties\<close>

text \<open>No denial is lost or counted twice: over any sequence of received events and flushes, the counts
  flushed for a key plus the count still held are the number of events received for it, modulo
  the width of the counter; once the channel is closed nothing is held back.\<close>

theorem denials_conserved:
  "tally k (concat (snd (run bs []))) + tally k (snd (drain (fst (run bs [])))) =
     of_nat (length (filter (\<lambda>e. event_key e = k) (received bs))) \<and>
   tally k (concat (snd (run (bs @ [Channel_closed]) []))) =
     of_nat (length (filter (\<lambda>e. event_key e = k) (received bs)))"
proof -
  have closed: "fst (run (cs @ [Channel_closed]) s) = []" for cs s
    by (induction cs arbitrary: s rule: received.induct) (simp_all del: run.simps(3,4))
  have rec: "received (cs @ [Channel_closed]) = received cs" for cs
    by (induction cs rule: received.induct) simp_all
  from run_tally [of "[]" k bs] run_tally [of "[]" k "bs @ [Channel_closed]"] show ?thesis
    by (simp add: closed rec)
qed

text \<open>Every batch given to the flush callback is non-empty, has at most one summary for each host, port
  and binary, and each summary at most 20 request samples, each request once.\<close>

theorem flushed_batches_bounded: "list_all batch_ok (snd (run bs []))"
  by (rule run_batches_ok) simp

end
