(* ===== verification/Router.thy ===== *)
theory Router
  imports Json
begin

text \<open>
  The inference router, \<open>crates/openshell-router\<close> (\<open>lib.rs\<close>, \<open>config.rs\<close>, \<open>backend.rs\<close>, \<open>mock.rs\<close>) and the
  provider profiles of \<open>crates/openshell-core/src/inference.rs\<close>: how routes are resolved from their
  configuration, which route serves a protocol, and the request that is sent to it. The HTTP
  client (\<open>reqwest\<close>), the JSON printer and parser, YAML and the environment are parameters.
\<close>

section \<open>Provider profiles\<close>

datatype auth_header = Bearer | CustomHeader string

record inference_provider_profile =
  ipp_provider_type :: string
  ipp_default_base_url :: string
  ipp_protocols :: "string list"
  ipp_credential_key_names :: "string list"
  ipp_base_url_config_keys :: "string list"
  ipp_auth :: auth_header
  ipp_default_headers :: "(string \<times> string) list"

definition OPENAI_PROTOCOLS :: "string list" where
  "OPENAI_PROTOCOLS = [''openai_chat_completions'', ''openai_completions'', ''openai_responses'', ''model_discovery'']"

definition ANTHROPIC_PROTOCOLS :: "string list" where
  "ANTHROPIC_PROTOCOLS = [''anthropic_messages'', ''model_discovery'']"

definition OPENAI_PROFILE :: inference_provider_profile where
  "OPENAI_PROFILE =
     \<lparr>ipp_provider_type = ''openai'', ipp_default_base_url = ''https://api.openai.com/v1'',
      ipp_protocols = OPENAI_PROTOCOLS, ipp_credential_key_names = [''OPENAI_API_KEY''],
      ipp_base_url_config_keys = [''OPENAI_BASE_URL''], ipp_auth = Bearer, ipp_default_headers = []\<rparr>"

definition ANTHROPIC_PROFILE :: inference_provider_profile where
  "ANTHROPIC_PROFILE =
     \<lparr>ipp_provider_type = ''anthropic'', ipp_default_base_url = ''https://api.anthropic.com/v1'',
      ipp_protocols = ANTHROPIC_PROTOCOLS, ipp_credential_key_names = [''ANTHROPIC_API_KEY''],
      ipp_base_url_config_keys = [''ANTHROPIC_BASE_URL''], ipp_auth = CustomHeader ''x-api-key'',
      ipp_default_headers = [(''anthropic-version'', ''2023-06-01'')]\<rparr>"

definition NVIDIA_PROFILE :: inference_provider_profile where
  "NVIDIA_PROFILE =
     \<lparr>ipp_provider_type = ''nvidia'', ipp_default_base_url = ''https://integrate.api.nvidia.com/v1'',
      ipp_protocols = OPENAI_PROTOCOLS, ipp_credential_key_names = [''NVIDIA_API_KEY''],
      ipp_base_url_config_keys = [''NVIDIA_BASE_URL''], ipp_auth = Bearer, ipp_default_headers = []\<rparr>"

definition profile_for :: "string \<Rightarrow> inference_provider_profile option" where
  "profile_for provider_type =
     (let t = to_ascii_lowercase (str_trim provider_type) in
      if t = ''openai'' then Some OPENAI_PROFILE
      else if t = ''anthropic'' then Some ANTHROPIC_PROFILE
      else if t = ''nvidia'' then Some NVIDIA_PROFILE
      else None)"

definition auth_for_provider_type :: "string \<Rightarrow> auth_header \<times> (string \<times> string) list" where
  "auth_for_provider_type provider_type =
     (case profile_for provider_type of
        Some p \<Rightarrow> (ipp_auth p, ipp_default_headers p)
      | None \<Rightarrow> (Bearer, []))"

fun normalize_from :: "string list \<Rightarrow> string list \<Rightarrow> string list" where
  "normalize_from normalized [] = normalized"
| "normalize_from normalized (protocol # rest) =
     (let candidate = to_ascii_lowercase (str_trim protocol) in
      if candidate = [] then normalize_from normalized rest
      else if candidate \<in> set normalized then normalize_from normalized rest
      else normalize_from (normalized @ [candidate]) rest)"

definition normalize_protocols :: "string list \<Rightarrow> string list" where
  "normalize_protocols protocols = normalize_from [] protocols"

section \<open>Configuration\<close>

datatype router_error =
    RouteNotFound string
  | NoCompatibleRoute string
  | Unauthorized string
  | UpstreamUnavailable string
  | UpstreamProtocol string
  | InternalError string

record route_config =
  rc_name :: string
  rc_endpoint :: string
  rc_model :: string
  rc_provider_type :: "string option"
  rc_protocols :: "string list"
  rc_api_key :: "string option"
  rc_api_key_env :: "string option"

record resolved_route =
  rr_name :: string
  rr_endpoint :: string
  rr_model :: string
  rr_api_key :: string
  rr_protocols :: "string list"
  rr_auth :: auth_header
  rr_default_headers :: "(string \<times> string) list"

definition quoted :: "string \<Rightarrow> string" where
  "quoted s = [CHR 0x27] @ s @ [CHR 0x27]"

definition resolve_api_key :: "(string \<Rightarrow> string option) \<Rightarrow> route_config \<Rightarrow> router_error + string" where
  "resolve_api_key env_var r =
     (case rc_api_key r of
        Some key \<Rightarrow> Inr key
      | None \<Rightarrow>
          (case rc_api_key_env r of
             Some v \<Rightarrow>
               ok_or (env_var v)
                 (InternalError (''environment variable '' @ v @ '' not set for route '' @ quoted (rc_name r)))
           | None \<Rightarrow>
               Inl (InternalError (''route '' @ quoted (rc_name r) @ '' has neither api_key nor api_key_env''))))"

definition auth_from_provider_type :: "string option \<Rightarrow> auth_header \<times> (string \<times> string) list" where
  "auth_from_provider_type provider_type = auth_for_provider_type (unwrap_or provider_type '''')"

definition resolve_route :: "(string \<Rightarrow> string option) \<Rightarrow> route_config \<Rightarrow> router_error + resolved_route" where
  "resolve_route env_var r =
     (let protocols = normalize_protocols (rc_protocols r) in
      if protocols = [] then Inl (InternalError (''route '' @ quoted (rc_name r) @ '' has no protocols''))
      else
        (case auth_from_provider_type (rc_provider_type r) of
           (auth, default_headers) \<Rightarrow>
             and_then (resolve_api_key env_var r) (\<lambda>key.
               Inr \<lparr>rr_name = rc_name r, rr_endpoint = rc_endpoint r, rr_model = rc_model r, rr_api_key = key,
                 rr_protocols = protocols, rr_auth = auth, rr_default_headers = default_headers\<rparr>)))"

text \<open>\<open>collect\<close> into a \<open>Result\<close>: the first error, or all values.\<close>

fun try_collect :: "('e + 'a) list \<Rightarrow> 'e + 'a list" where
  "try_collect [] = Inr []"
| "try_collect (x # xs) = and_then x (\<lambda>a. and_then (try_collect xs) (\<lambda>as. Inr (a # as)))"

definition resolve_routes ::
    "(string \<Rightarrow> string option) \<Rightarrow> route_config list \<Rightarrow> router_error + resolved_route list" where
  "resolve_routes env_var routes = try_collect (map (resolve_route env_var) routes)"

definition config_resolve ::
    "(string \<Rightarrow> string option) \<Rightarrow> route_config list \<Rightarrow> router_error + route_config list" where
  "config_resolve env_var routes =
     and_then (try_collect (map (resolve_api_key env_var) routes)) (\<lambda>_. Inr routes)"

definition load_from_file ::
    "(string \<Rightarrow> string + string) \<Rightarrow> (string \<Rightarrow> string + route_config list) \<Rightarrow> (string \<Rightarrow> string option) \<Rightarrow>
     string \<Rightarrow> router_error + route_config list" where
  "load_from_file read_to_string from_yaml env_var path =
     (case read_to_string path of
        Inl e \<Rightarrow> Inl (InternalError (''failed to read router config '' @ from_utf8_lossy path @ '': '' @ e))
      | Inr content \<Rightarrow>
          (case from_yaml content of
             Inl e \<Rightarrow> Inl (InternalError (''failed to parse router config '' @ from_utf8_lossy path @ '': '' @ e))
           | Inr config \<Rightarrow> config_resolve env_var config))"

section \<open>Backend requests\<close>

record http_request =
  hq_method :: string
  hq_url :: string
  hq_headers :: "(string \<times> string) list"
  hq_body :: bytes

record send_error =
  se_timeout :: bool
  se_connect :: bool
  se_msg :: string

text \<open>A response: a header value that is not visible ASCII has no text; the body comes in chunks.\<close>

record http_response =
  hr_status :: u16
  hr_headers :: "(string \<times> string option) list"
  hr_chunks :: "(string + bytes) list"

record http_client =
  hc_valid_method :: "string \<Rightarrow> bool"
  hc_send :: "http_request \<Rightarrow> send_error + http_response"
  hc_text :: "http_response \<Rightarrow> string + string"
  hc_status_text :: "u16 \<Rightarrow> string"

record json_text =
  jt_parse :: "bytes \<Rightarrow> json option"
  jt_print :: "json \<Rightarrow> string"

record proxy_response =
  px_status :: u16
  px_headers :: "(string \<times> string) list"
  px_body :: bytes

datatype streaming_body = Live "(string + bytes) list" | Buffered "bytes option"

record streaming_proxy_response =
  sp_status :: u16
  sp_headers :: "(string \<times> string) list"
  sp_body :: streaming_body

definition from_buffered :: "proxy_response \<Rightarrow> streaming_proxy_response" where
  "from_buffered resp =
     \<lparr>sp_status = px_status resp, sp_headers = px_headers resp, sp_body = Buffered (Some (px_body resp))\<rparr>"

definition next_chunk ::
    "streaming_proxy_response \<Rightarrow> (router_error + bytes option) \<times> streaming_proxy_response" where
  "next_chunk resp =
     (case sp_body resp of
        Live [] \<Rightarrow> (Inr None, resp)
      | Live (Inr c # cs) \<Rightarrow> (Inr (Some c), resp\<lparr>sp_body := Live cs\<rparr>)
      | Live (Inl e # cs) \<Rightarrow>
          (Inl (UpstreamProtocol (''failed to read response chunk: '' @ e)), resp\<lparr>sp_body := Live cs\<rparr>)
      | Buffered buf \<Rightarrow> (Inr buf, resp\<lparr>sp_body := Buffered None\<rparr>))"

definition trim_end_slashes :: "string \<Rightarrow> string" where
  "trim_end_slashes s = rev (dropWhile (\<lambda>c. c = CHR ''/'') (rev s))"

definition build_backend_url :: "string \<Rightarrow> string \<Rightarrow> string" where
  "build_backend_url endpoint path =
     (let base = trim_end_slashes endpoint in
      if str_ends_with base ''/v1'' \<and> (path = ''/v1'' \<or> str_starts_with path ''/v1/'') then base @ drop 3 path
      else base @ path)"

definition strip_headers :: "string list" where
  "strip_headers = [''authorization'', ''x-api-key'', ''host'']"

definition auth_field :: "resolved_route \<Rightarrow> string \<times> string" where
  "auth_field route =
     (case rr_auth route of
        Bearer \<Rightarrow> (''authorization'', ''Bearer '' @ rr_api_key route)
      | CustomHeader header_name \<Rightarrow> (header_name, rr_api_key route))"

definition rewrite_model :: "json_text \<Rightarrow> resolved_route \<Rightarrow> bytes \<Rightarrow> bytes" where
  "rewrite_model J route body =
     (case jt_parse J body of
        Some j \<Rightarrow> jt_print J (json_set ''model'' (JString (rr_model route)) j)
      | None \<Rightarrow> body)"

definition backend_request ::
    "json_text \<Rightarrow> resolved_route \<Rightarrow> string \<Rightarrow> string \<Rightarrow> (string \<times> string) list \<Rightarrow> bytes \<Rightarrow> http_request" where
  "backend_request J route method path headers body =
     \<lparr>hq_method = method, hq_url = build_backend_url (rr_endpoint route) path,
      hq_headers =
        auth_field route #
        filter (\<lambda>(name, _). to_ascii_lowercase name \<notin> set strip_headers) headers @
        filter (\<lambda>(name, _). \<not> list_ex (\<lambda>(h, _). eq_ignore_ascii_case h name) headers) (rr_default_headers route),
      hq_body = rewrite_model J route body\<rparr>"

definition send_backend_request ::
    "http_client \<Rightarrow> json_text \<Rightarrow> resolved_route \<Rightarrow> string \<Rightarrow> string \<Rightarrow> (string \<times> string) list \<Rightarrow> bytes \<Rightarrow>
     router_error + http_response" where
  "send_backend_request C J route method path headers body =
     (let url = build_backend_url (rr_endpoint route) path in
      if \<not> hc_valid_method C method then Inl (InternalError (''invalid HTTP method: '' @ method))
      else
        (case hc_send C (backend_request J route method path headers body) of
           Inr resp \<Rightarrow> Inr resp
         | Inl e \<Rightarrow>
             Inl (if se_timeout e then UpstreamUnavailable (''request to '' @ url @ '' timed out'')
                  else if se_connect e then UpstreamUnavailable (''failed to connect to '' @ url @ '': '' @ se_msg e)
                  else InternalError (''HTTP request failed: '' @ se_msg e))))"

definition extract_response_metadata :: "http_response \<Rightarrow> u16 \<times> (string \<times> string) list" where
  "extract_response_metadata response =
     (hr_status response, map (\<lambda>(k, v). (k, unwrap_or v '''')) (hr_headers response))"

text \<open>\<open>Response::bytes\<close>: all chunks, or the first error.\<close>

definition response_bytes :: "http_response \<Rightarrow> string + bytes" where
  "response_bytes response = and_then (try_collect (hr_chunks response)) (\<lambda>cs. Inr (concat cs))"

definition proxy_to_backend ::
    "http_client \<Rightarrow> json_text \<Rightarrow> resolved_route \<Rightarrow> string \<Rightarrow> string \<Rightarrow> string \<Rightarrow> (string \<times> string) list \<Rightarrow> bytes \<Rightarrow>
     router_error + proxy_response" where
  "proxy_to_backend C J route source_protocol method path headers body =
     and_then (send_backend_request C J route method path headers body) (\<lambda>response.
       case extract_response_metadata response of
         (status, resp_headers) \<Rightarrow>
           (case response_bytes response of
              Inl e \<Rightarrow> Inl (UpstreamProtocol (''failed to read response body: '' @ e))
            | Inr resp_body \<Rightarrow> Inr \<lparr>px_status = status, px_headers = resp_headers, px_body = resp_body\<rparr>))"

definition proxy_to_backend_streaming ::
    "http_client \<Rightarrow> json_text \<Rightarrow> resolved_route \<Rightarrow> string \<Rightarrow> string \<Rightarrow> string \<Rightarrow> (string \<times> string) list \<Rightarrow> bytes \<Rightarrow>
     router_error + streaming_proxy_response" where
  "proxy_to_backend_streaming C J route source_protocol method path headers body =
     and_then (send_backend_request C J route method path headers body) (\<lambda>response.
       case extract_response_metadata response of
         (status, resp_headers) \<Rightarrow>
           Inr \<lparr>sp_status = status, sp_headers = resp_headers, sp_body = Live (hr_chunks response)\<rparr>)"

section \<open>Mock routes\<close>

definition is_mock_route :: "resolved_route \<Rightarrow> bool" where
  "is_mock_route route \<longleftrightarrow> str_starts_with (rr_endpoint route) ''mock://''"

definition openai_chat_completion_body :: "json_text \<Rightarrow> string \<Rightarrow> bytes" where
  "openai_chat_completion_body J model =
     jt_print J (jobject
       [(''id'', JString ''mock-chatcmpl-001''), (''object'', JString ''chat.completion''),
        (''created'', JInt 1700000000), (''model'', JString model),
        (''choices'', JArray [jobject [(''index'', JInt 0),
           (''message'', jobject [(''role'', JString ''assistant''), (''content'', JString ''Hello from openshell mock backend'')]),
           (''finish_reason'', JString ''stop'')]]),
        (''usage'', jobject [(''prompt_tokens'', JInt 1), (''completion_tokens'', JInt 5), (''total_tokens'', JInt 6)])])"

definition openai_completion_body :: "json_text \<Rightarrow> string \<Rightarrow> bytes" where
  "openai_completion_body J model =
     jt_print J (jobject
       [(''id'', JString ''mock-cmpl-001''), (''object'', JString ''text_completion''),
        (''created'', JInt 1700000000), (''model'', JString model),
        (''choices'', JArray [jobject [(''index'', JInt 0), (''text'', JString ''Hello from openshell mock backend''),
           (''finish_reason'', JString ''stop'')]]),
        (''usage'', jobject [(''prompt_tokens'', JInt 1), (''completion_tokens'', JInt 5), (''total_tokens'', JInt 6)])])"

definition anthropic_messages_body :: "json_text \<Rightarrow> string \<Rightarrow> bytes" where
  "anthropic_messages_body J model =
     jt_print J (jobject
       [(''id'', JString ''mock-msg-001''), (''type'', JString ''message''), (''role'', JString ''assistant''),
        (''model'', JString model),
        (''content'', JArray [jobject [(''type'', JString ''text''), (''text'', JString ''Hello from openshell mock backend'')]]),
        (''stop_reason'', JString ''end_turn''),
        (''usage'', jobject [(''input_tokens'', JInt 1), (''output_tokens'', JInt 5)])])"

definition generic_body :: "json_text \<Rightarrow> string \<Rightarrow> bytes" where
  "generic_body J model =
     jt_print J (jobject
       [(''mock'', JBool True), (''model'', JString model), (''message'', JString ''Hello from openshell mock backend'')])"

definition mock_response :: "json_text \<Rightarrow> resolved_route \<Rightarrow> string \<Rightarrow> proxy_response" where
  "mock_response J route source_protocol =
     (let protocol = (if source_protocol \<in> set (rr_protocols route) then source_protocol
                      else case rr_protocols route of [] \<Rightarrow> '''' | p # _ \<Rightarrow> p);
          body = (if protocol = ''openai_chat_completions'' then openai_chat_completion_body J (rr_model route)
                  else if protocol = ''openai_completions'' then openai_completion_body J (rr_model route)
                  else if protocol = ''anthropic_messages'' then anthropic_messages_body J (rr_model route)
                  else generic_body J (rr_model route))
      in \<lparr>px_status = 200,
          px_headers = [(''content-type'', ''application/json''), (''x-openshell-mock'', ''true'')], px_body = body\<rparr>)"

section \<open>The router\<close>

record router =
  ro_routes :: "resolved_route list"

definition router_from_config ::
    "(string \<Rightarrow> string option) \<Rightarrow> (string + unit) \<Rightarrow> route_config list \<Rightarrow> router_error + router" where
  "router_from_config env_var build_client routes =
     and_then (resolve_routes env_var routes) (\<lambda>resolved.
       case build_client of
         Inl e \<Rightarrow> Inl (InternalError (''failed to build HTTP client: '' @ e))
       | Inr _ \<Rightarrow> Inr \<lparr>ro_routes = resolved\<rparr>)"

definition select_route :: "string \<Rightarrow> resolved_route list \<Rightarrow> router_error + resolved_route" where
  "select_route source_protocol candidates =
     ok_or (find (\<lambda>r. to_ascii_lowercase (str_trim source_protocol) \<in> set (rr_protocols r)) candidates)
       (NoCompatibleRoute source_protocol)"

definition proxy_with_candidates ::
    "http_client \<Rightarrow> json_text \<Rightarrow> string \<Rightarrow> string \<Rightarrow> string \<Rightarrow> (string \<times> string) list \<Rightarrow> bytes \<Rightarrow>
     resolved_route list \<Rightarrow> router_error + proxy_response" where
  "proxy_with_candidates C J source_protocol method path headers body candidates =
     (let normalized_source = to_ascii_lowercase (str_trim source_protocol) in
      and_then (select_route source_protocol candidates) (\<lambda>route.
        if is_mock_route route then Inr (mock_response J route normalized_source)
        else proxy_to_backend C J route normalized_source method path headers body))"

definition proxy_with_candidates_streaming ::
    "http_client \<Rightarrow> json_text \<Rightarrow> string \<Rightarrow> string \<Rightarrow> string \<Rightarrow> (string \<times> string) list \<Rightarrow> bytes \<Rightarrow>
     resolved_route list \<Rightarrow> router_error + streaming_proxy_response" where
  "proxy_with_candidates_streaming C J source_protocol method path headers body candidates =
     (let normalized_source = to_ascii_lowercase (str_trim source_protocol) in
      and_then (select_route source_protocol candidates) (\<lambda>route.
        if is_mock_route route then Inr (from_buffered (mock_response J route normalized_source))
        else proxy_to_backend_streaming C J route normalized_source method path headers body))"

section \<open>Validating an endpoint\<close>

record validated_endpoint =
  ve_url :: string
  ve_protocol :: string

datatype validation_failure_kind =
  RequestShape | Credentials | RateLimited | Connectivity | UpstreamHealth | Unexpected

record validation_failure =
  vf_kind :: validation_failure_kind
  vf_details :: string

record validation_probe =
  vp_path :: string
  vp_protocol :: string
  vp_body :: bytes

definition dquoted :: "string \<Rightarrow> string" where
  "dquoted s = [CHR 0x22] @ s @ [CHR 0x22]"

definition validation_probe_for :: "resolved_route \<Rightarrow> validation_failure + validation_probe" where
  "validation_probe_for route =
     (if ''openai_chat_completions'' \<in> set (rr_protocols route) then
        Inr \<lparr>vp_path = ''/v1/chat/completions'', vp_protocol = ''openai_chat_completions'',
          vp_body = ''{'' @ dquoted ''messages'' @ '':[{'' @ dquoted ''role'' @ '':'' @ dquoted ''user'' @ '','' @
            dquoted ''content'' @ '':'' @ dquoted ''ping'' @ ''}],'' @ dquoted ''max_tokens'' @ '':32}''\<rparr>
      else if ''anthropic_messages'' \<in> set (rr_protocols route) then
        Inr \<lparr>vp_path = ''/v1/messages'', vp_protocol = ''anthropic_messages'',
          vp_body = ''{'' @ dquoted ''messages'' @ '':[{'' @ dquoted ''role'' @ '':'' @ dquoted ''user'' @ '','' @
            dquoted ''content'' @ '':'' @ dquoted ''ping'' @ ''}],'' @ dquoted ''max_tokens'' @ '':32}''\<rparr>
      else if ''openai_responses'' \<in> set (rr_protocols route) then
        Inr \<lparr>vp_path = ''/v1/responses'', vp_protocol = ''openai_responses'',
          vp_body = ''{'' @ dquoted ''input'' @ '':'' @ dquoted ''ping'' @ '','' @ dquoted ''max_output_tokens'' @ '':32}''\<rparr>
      else if ''openai_completions'' \<in> set (rr_protocols route) then
        Inr \<lparr>vp_path = ''/v1/completions'', vp_protocol = ''openai_completions'',
          vp_body = ''{'' @ dquoted ''prompt'' @ '':'' @ dquoted ''ping'' @ '','' @ dquoted ''max_tokens'' @ '':32}''\<rparr>
      else
        Inl \<lparr>vf_kind = RequestShape,
          vf_details = ''route '' @ quoted (rr_name route) @
            '' does not expose a writable inference protocol for validation''\<rparr>)"

definition send_failure :: "router_error \<Rightarrow> validation_failure" where
  "send_failure err =
     (case err of
        UpstreamUnavailable details \<Rightarrow> \<lparr>vf_kind = Connectivity, vf_details = details\<rparr>
      | InternalError details \<Rightarrow> \<lparr>vf_kind = Unexpected, vf_details = details\<rparr>
      | UpstreamProtocol details \<Rightarrow> \<lparr>vf_kind = Unexpected, vf_details = details\<rparr>
      | RouteNotFound details \<Rightarrow> \<lparr>vf_kind = Unexpected, vf_details = details\<rparr>
      | NoCompatibleRoute details \<Rightarrow> \<lparr>vf_kind = Unexpected, vf_details = details\<rparr>
      | Unauthorized details \<Rightarrow> \<lparr>vf_kind = Unexpected, vf_details = details\<rparr>)"

definition status_kind :: "u16 \<Rightarrow> validation_failure_kind" where
  "status_kind s =
     (if s = 400 \<or> s = 404 \<or> s = 405 \<or> s = 422 then RequestShape
      else if s = 401 \<or> s = 403 then Credentials
      else if s = 429 then RateLimited
      else if 500 \<le> s \<and> s \<le> 599 then UpstreamHealth
      else Unexpected)"

definition status_details :: "http_client \<Rightarrow> u16 \<Rightarrow> string \<Rightarrow> string" where
  "status_details C s body_suffix =
     (let shown = ''HTTP '' @ hc_status_text C s @ ''.'' @ body_suffix in
      case status_kind s of
        RequestShape \<Rightarrow> ''upstream rejected the validation request with '' @ shown
      | Credentials \<Rightarrow> ''upstream rejected credentials with '' @ shown
      | RateLimited \<Rightarrow> ''upstream rate-limited the validation request with '' @ shown
      | UpstreamHealth \<Rightarrow> ''upstream returned '' @ shown
      | _ \<Rightarrow> ''upstream returned unexpected '' @ shown)"

text \<open>\<open>chars().take(n)\<close> on text in UTF-8.\<close>

fun take_chars :: "nat \<Rightarrow> string \<Rightarrow> string" where
  "take_chars 0 s = []"
| "take_chars (Suc n) s =
     (if s = [] then [] else (let k = snd (utf8_step s) in take k s @ take_chars n (drop k s)))"

definition verify_backend_endpoint ::
    "http_client \<Rightarrow> json_text \<Rightarrow> resolved_route \<Rightarrow> validation_failure + validated_endpoint" where
  "verify_backend_endpoint C J route =
     and_then (validation_probe_for route) (\<lambda>probe.
       let headers = [(''content-type'', ''application/json'')];
           ok = \<lparr>ve_url = build_backend_url (rr_endpoint route) (vp_path probe), ve_protocol = vp_protocol probe\<rparr>
       in
       if is_mock_route route then Inr ok
       else
         (case send_backend_request C J route ''POST'' (vp_path probe) headers (vp_body probe) of
            Inl err \<Rightarrow> Inl (send_failure err)
          | Inr response \<Rightarrow>
              let status = hr_status response in
              if 200 \<le> status \<and> status < 300 then Inr ok
              else
                (case hc_text C response of
                   Inl e \<Rightarrow>
                     Inl \<lparr>vf_kind = Unexpected, vf_details = ''failed to read validation response body: '' @ e\<rparr>
                 | Inr text \<Rightarrow>
                     let body = str_trim text;
                         body_suffix = (if body = [] then '''' else '' Response body: '' @ take_chars 200 body)
                     in Inl \<lparr>vf_kind = status_kind status, vf_details = status_details C status body_suffix\<rparr>)))"

section \<open>Lemmas\<close>

abbreviation norm_protocol :: "string \<Rightarrow> string" where
  "norm_protocol p \<equiv> to_ascii_lowercase (str_trim p)"

lemma normalize_from_set:
  "set (normalize_from ns ps) = set ns \<union> (norm_protocol ` set ps - {[]})"
  by (induction ns ps rule: normalize_from.induct) (auto simp: Let_def)

lemma normalize_from_distinct: "distinct ns \<Longrightarrow> distinct (normalize_from ns ps)"
  by (induction ns ps rule: normalize_from.induct) (auto simp: Let_def)

lemma normalize_protocols_set: "set (normalize_protocols ps) = norm_protocol ` set ps - {[]}"
  by (simp add: normalize_protocols_def normalize_from_set)

lemma try_collect_Inr: "try_collect xs = Inr ys \<longleftrightarrow> xs = map Inr ys"
proof (induction xs arbitrary: ys)
  case Nil
  show ?case by (cases ys) auto
next
  case (Cons x xs)
  then show ?case by (cases ys) (auto simp: and_then_eq_Inr)
qed

lemma resolve_route_protocols: "resolve_route env c = Inr r \<Longrightarrow> rr_protocols r = normalize_protocols (rc_protocols c)"
  by (auto simp: resolve_route_def Let_def and_then_eq_Inr split: if_splits prod.splits)

lemma profile_auth:
  "auth_for_provider_type t = (a, ds) \<Longrightarrow>
   (a = Bearer \<or> a = CustomHeader ''x-api-key'') \<and> set ds \<subseteq> {(''anthropic-version'', ''2023-06-01'')}"
  by (auto simp: auth_for_provider_type_def profile_for_def Let_def OPENAI_PROFILE_def ANTHROPIC_PROFILE_def
      NVIDIA_PROFILE_def split: option.splits if_splits)

lemma resolve_route_auth:
  assumes "resolve_route env c = Inr r"
  shows "rr_auth r = Bearer \<or> rr_auth r = CustomHeader ''x-api-key''"
    "set (rr_default_headers r) \<subseteq> {(''anthropic-version'', ''2023-06-01'')}"
proof -
  obtain a ds where a: "auth_from_provider_type (rc_provider_type c) = (a, ds)" by fastforce
  with assms have "rr_auth r = a" "rr_default_headers r = ds"
    by (auto simp: resolve_route_def Let_def and_then_eq_Inr split: if_splits)
  with profile_auth [OF a [unfolded auth_from_provider_type_def]]
  show "rr_auth r = Bearer \<or> rr_auth r = CustomHeader ''x-api-key''"
    "set (rr_default_headers r) \<subseteq> {(''anthropic-version'', ''2023-06-01'')}" by auto
qed

lemma resolve_route_key: "resolve_route env c = Inr r \<Longrightarrow> resolve_api_key env c = Inr (rr_api_key r) \<and> rr_endpoint r = rc_endpoint c \<and> rr_model r = rc_model c"
  by (auto simp: resolve_route_def Let_def and_then_eq_Inr split: if_splits prod.splits)

text \<open>A header that carries credentials or names the host.\<close>

definition sensitive :: "string \<times> string \<Rightarrow> bool" where
  "sensitive h \<longleftrightarrow> to_ascii_lowercase (fst h) \<in> {''authorization'', ''x-api-key'', ''host''}"

lemma sensitive_constants:
  "to_ascii_lowercase ''authorization'' = ''authorization''" "to_ascii_lowercase ''x-api-key'' = ''x-api-key''"
  "to_ascii_lowercase ''anthropic-version'' = ''anthropic-version''"
  by code_simp+

section \<open>Properties\<close>

text \<open>C16: A request routed through a configured route goes to that route's endpoint, and among its
  credential and host headers there is exactly one: the configured key, in the header of the
  route's provider. The client's own credentials never leave; its other headers do, in order.\<close>

theorem routed_request_confined:
  assumes "resolve_route env cfg = Inr route"
  shows "let q = backend_request J route m path headers body in
    str_starts_with (hq_url q) (trim_end_slashes (rc_endpoint cfg)) \<and>
    filter sensitive (hq_headers q) = [auth_field route] \<and>
    snd (auth_field route) \<in> {rr_api_key route, ''Bearer '' @ rr_api_key route} \<and>
    resolve_api_key env cfg = Inr (rr_api_key route) \<and>
    (\<exists>ds. hq_headers q = auth_field route # filter (\<lambda>h. \<not> sensitive h) headers @ ds \<and>
       set ds \<subseteq> {(''anthropic-version'', ''2023-06-01'')})"
proof -
  let ?q = "backend_request J route m path headers body"
  note key = resolve_route_key [OF assms]
  note auth = resolve_route_auth [OF assms]
  define ds where
    "ds = filter (\<lambda>(name, _). \<not> list_ex (\<lambda>(h, _). eq_ignore_ascii_case h name) headers) (rr_default_headers route)"
  have ds: "set ds \<subseteq> {(''anthropic-version'', ''2023-06-01'')}" using auth(2) by (auto simp: ds_def)
  have client: "filter (\<lambda>(name, _). to_ascii_lowercase name \<notin> set strip_headers) headers =
      filter (\<lambda>h. \<not> sensitive h) headers"
    by (rule filter_cong [OF refl]) (simp add: sensitive_def strip_headers_def split: prod.split)
  have hs: "hq_headers ?q = auth_field route # filter (\<lambda>h. \<not> sensitive h) headers @ ds"
    by (simp add: backend_request_def client ds_def)
  have "sensitive (auth_field route)"
    using auth(1) sensitive_constants(1,2) by (elim disjE) (simp_all add: sensitive_def auth_field_def)
  moreover have "\<not> sensitive (''anthropic-version'', ''2023-06-01'')"
    by (simp add: sensitive_def sensitive_constants(3))
  then have "filter sensitive ds = []"
    using ds unfolding filter_empty_conv by blast
  ultimately have one: "filter sensitive (hq_headers ?q) = [auth_field route]" by (simp add: hs)
  have url: "str_starts_with (hq_url ?q) (trim_end_slashes (rc_endpoint cfg))"
    using key by (simp add: backend_request_def build_backend_url_def Let_def)
  have sent: "snd (auth_field route) \<in> {rr_api_key route, ''Bearer '' @ rr_api_key route}"
    by (cases "rr_auth route") (simp_all add: auth_field_def)
  show ?thesis
    unfolding Let_def by (intro conjI exI [of _ ds] url one sent key [THEN conjunct1] hs ds)
qed

definition sample_route_config :: route_config where
  "sample_route_config =
     \<lparr>rc_name = ''inference.local'', rc_endpoint = ''https://api.anthropic.com/v1/'', rc_model = ''m'',
      rc_provider_type = Some ''Anthropic'', rc_protocols = ['' Anthropic_Messages''], rc_api_key = Some ''sk'',
      rc_api_key_env = None\<rparr>"

definition sample_route :: resolved_route where
  "sample_route =
     \<lparr>rr_name = ''inference.local'', rr_endpoint = ''https://api.anthropic.com/v1/'', rr_model = ''m'',
      rr_api_key = ''sk'', rr_protocols = [''anthropic_messages''], rr_auth = CustomHeader ''x-api-key'',
      rr_default_headers = [(''anthropic-version'', ''2023-06-01'')]\<rparr>"

lemma sample_route_resolves: "resolve_route (\<lambda>_. None) sample_route_config = Inr sample_route"
  by code_simp

theorem routed_request_confined_witness:
  "filter sensitive (hq_headers (backend_request \<lparr>jt_parse = (\<lambda>_. None), jt_print = (\<lambda>_. [])\<rparr> sample_route ''POST'' ''/v1/messages'' [(''X-Api-Key'', ''c'')] '''')) =
     [(''x-api-key'', ''sk'')]"
proof -
  have "auth_field sample_route = (''x-api-key'', ''sk'')" by code_simp
  with routed_request_confined [OF sample_route_resolves, of "\<lparr>jt_parse = (\<lambda>_. None), jt_print = (\<lambda>_. [])\<rparr>" "''POST''" "''/v1/messages''" "[(''X-Api-Key'', ''c'')]" "''''"]
  show ?thesis by (simp add: Let_def)
qed

text \<open>Selecting among the resolved routes is selecting in the configuration: the route that serves a
  protocol is the one resolved from the first configured route that lists the protocol, up to case
  and surrounding space; when none lists it nothing is sent.\<close>

theorem select_route_is_first_configured:
  assumes "resolve_routes env cfgs = Inr routes" "norm_protocol p \<noteq> []"
  shows "select_route p routes =
    (case find (\<lambda>c. norm_protocol p \<in> norm_protocol ` set (rc_protocols c)) cfgs of
       None \<Rightarrow> Inl (NoCompatibleRoute p)
     | Some c \<Rightarrow> resolve_route env c)"
proof -
  have "map (resolve_route env) cfgs = map Inr routes"
    using assms(1) by (simp add: resolve_routes_def try_collect_Inr)
  then show ?thesis
  proof (induction cfgs arbitrary: routes)
    case Nil
    then show ?case by (simp add: select_route_def)
  next
    case (Cons c cfgs)
    then obtain r rs where r: "routes = r # rs" "resolve_route env c = Inr r" "map (resolve_route env) cfgs = map Inr rs"
      by (cases routes) auto
    have "norm_protocol p \<in> set (rr_protocols r) \<longleftrightarrow> norm_protocol p \<in> norm_protocol ` set (rc_protocols c)"
      using resolve_route_protocols [OF r(2)] assms(2) by (simp add: normalize_protocols_set)
    with r Cons.IH [OF r(3)] show ?case by (simp add: select_route_def)
  qed
qed

theorem select_route_is_first_configured_witness:
  "select_route ''ANTHROPIC_messages '' [sample_route] = Inr sample_route"
proof -
  have r: "resolve_routes (\<lambda>_. None) [sample_route_config] = Inr [sample_route]"
    by (simp add: resolve_routes_def sample_route_resolves)
  have n: "norm_protocol ''ANTHROPIC_messages '' \<noteq> []" by code_simp
  have f: "find (\<lambda>c. norm_protocol ''ANTHROPIC_messages '' \<in> norm_protocol ` set (rc_protocols c))
      [sample_route_config] = Some sample_route_config" by code_simp
  show ?thesis unfolding select_route_is_first_configured [OF r n] f by (simp add: sample_route_resolves)
qed

end
