(* ===== verification/Forward.thy ===== *)
theory Forward
  imports Secrets Router
begin

text \<open>
  The text processing of the proxy, \<open>crates/openshell-sandbox/src/proxy.rs\<close>: the targets of CONNECT
  and of plain proxy requests, the rewriting of a plain request to origin form, the headers
  that are stripped around the inference router, and the errors of the router as responses.
\<close>

section \<open>Targets\<close>

definition parse_target :: "string \<Rightarrow> string + string \<times> u16" where
  "parse_target target =
     (case str_split_once target '':'' of
        None \<Rightarrow> Inl (''CONNECT target missing port: '' @ target)
      | Some (host, port_str) \<Rightarrow>
          (case parse_u16 port_str of
             None \<Rightarrow> Inl (''Invalid port in CONNECT target: '' @ target)
           | Some port \<Rightarrow> Inr (host, port)))"

definition find_byte :: "char \<Rightarrow> string \<Rightarrow> nat option" where
  "find_byte c s = find_char (\<lambda>d. d = c) s"

definition normalize_inference_path :: "string \<Rightarrow> string" where
  "normalize_inference_path path =
     (case str_find path ''://'' of
        None \<Rightarrow> path
      | Some scheme_idx \<Rightarrow>
          let after_scheme = drop (scheme_idx + 3) path in
          (case find_byte (CHR ''/'') after_scheme of
             Some path_start \<Rightarrow> drop path_start after_scheme
           | None \<Rightarrow> ''/''))"

definition default_port :: "string \<Rightarrow> u16" where
  "default_port scheme = (if scheme = ''https'' then 443 else 80)"

text \<open>The authority and the path of what follows the scheme.\<close>

definition split_authority :: "string \<Rightarrow> string \<Rightarrow> string + string \<times> string" where
  "split_authority uri rest =
     (if str_starts_with rest ''['' then
        (case find_byte (CHR '']'') rest of
           None \<Rightarrow> Inl (''Unclosed IPv6 bracket in URI: '' @ uri)
         | Some bracket_end \<Rightarrow>
             let after_bracket = drop (bracket_end + 1) rest in
             (case find_byte (CHR ''/'') after_bracket of
                Some slash_pos \<Rightarrow>
                  Inr (take (bracket_end + 1 + slash_pos) rest, drop slash_pos after_bracket)
              | None \<Rightarrow> Inr (rest, ''/'')))
      else
        (case find_byte (CHR ''/'') rest of
           Some slash_pos \<Rightarrow> Inr (take slash_pos rest, drop slash_pos rest)
         | None \<Rightarrow> Inr (rest, ''/'')))"

definition host_and_port :: "string \<Rightarrow> string \<Rightarrow> string \<Rightarrow> string + string \<times> u16" where
  "host_and_port uri scheme authority =
     (if str_starts_with authority ''['' then
        (case find_byte (CHR '']'') authority of
           None \<Rightarrow> Inl (''Unclosed IPv6 bracket: '' @ uri)
         | Some bracket_end \<Rightarrow>
             let host = drop 1 (take bracket_end authority) in
             (case str_strip_prefix (drop (bracket_end + 1) authority) '':'' of
                Some port_str \<Rightarrow>
                  (case parse_u16 port_str of
                     None \<Rightarrow> Inl (''Invalid port in URI: '' @ uri)
                   | Some port \<Rightarrow> Inr (host, port))
              | None \<Rightarrow> Inr (host, default_port scheme)))
      else
        (case str_rsplit_once authority (CHR '':'') of
           Some (h, p) \<Rightarrow>
             (case parse_u16 p of
                None \<Rightarrow> Inl (''Invalid port in URI: '' @ uri)
              | Some port \<Rightarrow> Inr (h, port))
         | None \<Rightarrow> Inr (authority, default_port scheme)))"

definition parse_proxy_uri :: "string \<Rightarrow> string + string \<times> string \<times> u16 \<times> string" where
  "parse_proxy_uri uri =
     (case str_split_once uri ''://'' of
        None \<Rightarrow> Inl (''Missing scheme in proxy URI: '' @ uri)
      | Some (s, rest) \<Rightarrow>
          let scheme = to_ascii_lowercase s in
          and_then (split_authority uri rest) (\<lambda>(authority, path).
          and_then (host_and_port uri scheme authority) (\<lambda>(host, port).
            if host = [] then Inl (''Empty host in URI: '' @ uri)
            else Inr (scheme, host, port, if path = [] then ''/'' else path))))"

section \<open>Rewriting a plain request\<close>

text \<open>\<open>splitn(3, ' ')\<close>.\<close>

definition splitn3 :: "string \<Rightarrow> string list" where
  "splitn3 s =
     (case str_split_once s '' '' of
        None \<Rightarrow> [s]
      | Some (a, r) \<Rightarrow> (case str_split_once r '' '' of None \<Rightarrow> [a, r] | Some (b, t) \<Rightarrow> [a, b, t]))"

definition forward_request_line :: "string \<Rightarrow> string \<Rightarrow> string" where
  "forward_request_line path line =
     (case splitn3 line of [m, _, version] \<Rightarrow> m @ '' '' @ path @ '' '' @ version | _ \<Rightarrow> line)"

definition is_proxy_header_line :: "string \<Rightarrow> bool" where
  "is_proxy_header_line lower \<longleftrightarrow>
     str_starts_with lower ''proxy-connection:'' \<or> str_starts_with lower ''proxy-authorization:'' \<or>
     str_starts_with lower ''proxy-authenticate:''"

fun forward_header_lines ::
    "secret_resolver option \<Rightarrow> string list \<Rightarrow> bool \<Rightarrow> bool \<Rightarrow> string \<times> bool \<times> bool" where
  "forward_header_lines res [] has_connection has_via = ([], has_connection, has_via)"
| "forward_header_lines res (line # rest) has_connection has_via =
     (if line = [] then ([], has_connection, has_via)
      else
        let lower = to_ascii_lowercase line in
        if is_proxy_header_line lower then forward_header_lines res rest has_connection has_via
        else if str_starts_with lower ''connection:'' then
          (case forward_header_lines res rest True has_via of
             (out, c, v) \<Rightarrow> (''Connection: close'' @ crlf @ out, c, v))
        else
          let rewritten = (case res of Some resolver \<Rightarrow> rewrite_header_line line resolver | None \<Rightarrow> line) in
          (case forward_header_lines res rest has_connection (has_via \<or> str_starts_with lower ''via:'') of
             (out, c, v) \<Rightarrow> (rewritten @ crlf @ out, c, v)))"

definition rewrite_forward_request ::
    "string \<Rightarrow> nat \<Rightarrow> string \<Rightarrow> secret_resolver option \<Rightarrow> string" where
  "rewrite_forward_request raw used path res =
     (let header_end = (case str_find (take used raw) crlf2 of Some p \<Rightarrow> p + 4 | None \<Rightarrow> used);
          lns = str_split_crlf (from_utf8_lossy (take header_end raw))
      in case forward_header_lines res (tl lns) False False of
           (out, has_connection, has_via) \<Rightarrow>
             forward_request_line path (hd lns) @ crlf @ out @
             (if has_connection then '''' else ''Connection: close'' @ crlf) @
             (if has_via then '''' else ''Via: 1.1 openshell-sandbox'' @ crlf) @ crlf @
             (if header_end < used then drop header_end (take used raw) else ''''))"

section \<open>Headers around the inference router\<close>

definition is_hop_by_hop_header :: "string \<Rightarrow> bool" where
  "is_hop_by_hop_header name \<longleftrightarrow>
     name \<in> {''connection'', ''keep-alive'', ''proxy-authenticate'', ''proxy-authorization'',
       ''proxy-connection'', ''te'', ''trailer'', ''transfer-encoding'', ''upgrade''}"

definition should_strip_request_header :: "string \<Rightarrow> bool" where
  "should_strip_request_header name \<longleftrightarrow>
     (let name_lc = to_ascii_lowercase name in
      name_lc \<in> {''authorization'', ''x-api-key'', ''host'', ''content-length''} \<or> is_hop_by_hop_header name_lc)"

definition should_strip_response_header :: "string \<Rightarrow> bool" where
  "should_strip_response_header name \<longleftrightarrow>
     (let name_lc = to_ascii_lowercase name in
      name_lc = ''content-length'' \<or> is_hop_by_hop_header name_lc)"

definition sanitize_inference_request_headers :: "(string \<times> string) list \<Rightarrow> (string \<times> string) list" where
  "sanitize_inference_request_headers headers =
     filter (\<lambda>(name, _). \<not> should_strip_request_header name) headers"

definition sanitize_inference_response_headers :: "(string \<times> string) list \<Rightarrow> (string \<times> string) list" where
  "sanitize_inference_response_headers headers =
     filter (\<lambda>(name, _). \<not> should_strip_response_header name) headers"

definition router_error_to_http :: "router_error \<Rightarrow> u16 \<times> string" where
  "router_error_to_http err =
     (case err of
        RouteNotFound hint \<Rightarrow> (400, ''no route configured for route '' @ [CHR 0x27] @ hint @ [CHR 0x27])
      | NoCompatibleRoute protocol \<Rightarrow>
          (400, ''no compatible route for source protocol '' @ [CHR 0x27] @ protocol @ [CHR 0x27])
      | Unauthorized msg \<Rightarrow> (401, msg)
      | UpstreamUnavailable msg \<Rightarrow> (503, msg)
      | UpstreamProtocol msg \<Rightarrow> (502, msg)
      | InternalError msg \<Rightarrow> (502, msg))"

definition is_benign_relay_error :: "string \<Rightarrow> bool" where
  "is_benign_relay_error msg \<longleftrightarrow>
     list_ex (\<lambda>pat. str_contains (to_ascii_lowercase msg) pat)
       [''close_notify'', ''tls handshake eof'', ''connection reset'', ''broken pipe'', ''unexpected eof'']"

section \<open>Lemmas\<close>

lemma find_byte_append: "c \<notin> set a \<Longrightarrow> find_byte c (a @ c # b) = Some (length a)"
  by (auto simp: find_byte_def find_char_Some nth_append)

lemma find_byte_None: "c \<notin> set a \<Longrightarrow> find_byte c a = None"
  unfolding find_byte_def by (induction a) auto

lemma rsplit_once_append: "c \<notin> set b \<Longrightarrow> str_rsplit_once (a @ c # b) c = Some (a, b)"
  using find_byte_append [of c "rev b" "rev a"] by (simp add: str_rsplit_once_def find_byte_def)

lemma rsplit_once_None: "c \<notin> set a \<Longrightarrow> str_rsplit_once a c = None"
  using find_byte_None [of c "rev a"] by (simp add: str_rsplit_once_def find_byte_def)

lemma dec_no_char: "\<not> is_ascii_digit c \<Longrightarrow> \<not> is_ascii_lowercase c \<Longrightarrow> c \<notin> set (dec n)"
  using to_radix_chars [of 10 c n] by (auto simp: dec_def)

lemma str_find_fresh: "c \<notin> set a \<Longrightarrow> str_find (a @ c # t @ b) (c # t) = Some (length a)"
  by (induction a) auto

lemma split_scheme: "CHR '':'' \<notin> set s \<Longrightarrow> str_split_once (s @ ''://'' @ r) ''://'' = Some (s, r)"
  using str_find_fresh [of "CHR '':''" s "''//''" r] by (simp add: str_split_once_def)

text \<open>The header lines in closed form: up to the first empty one, without those of the proxy.\<close>

definition head_lines :: "string list \<Rightarrow> string list" where
  "head_lines ls = filter (\<lambda>l. \<not> is_proxy_header_line (to_ascii_lowercase l)) (takeWhile (\<lambda>l. l \<noteq> []) ls)"

definition is_connection_line :: "string \<Rightarrow> bool" where
  "is_connection_line l \<longleftrightarrow> str_starts_with (to_ascii_lowercase l) ''connection:''"

definition is_via_line :: "string \<Rightarrow> bool" where
  "is_via_line l \<longleftrightarrow> str_starts_with (to_ascii_lowercase l) ''via:''"

definition forwarded_line :: "secret_resolver option \<Rightarrow> string \<Rightarrow> string" where
  "forwarded_line res l =
     (if is_connection_line l then ''Connection: close''
      else case res of Some resolver \<Rightarrow> rewrite_header_line l resolver | None \<Rightarrow> l)"

lemma via_not_connection: "str_starts_with l ''via:'' \<Longrightarrow> \<not> str_starts_with l ''connection:''"
  by (cases l) (auto simp: str_starts_with_iff)

lemma forward_header_lines_eq:
  "forward_header_lines res ls hc hv =
   (concat (map (\<lambda>l. forwarded_line res l @ crlf) (head_lines ls)),
    hc \<or> list_ex is_connection_line (head_lines ls), hv \<or> list_ex is_via_line (head_lines ls))"
  by (induction res ls hc hv rule: forward_header_lines.induct)
    (auto simp: head_lines_def forwarded_line_def is_connection_line_def is_via_line_def Let_def
      dest: via_not_connection)

lemma starts_with_field:
  "c \<notin> set n \<Longrightarrow> c \<notin> set p \<Longrightarrow> str_starts_with (n @ c # x) (p @ [c]) \<longleftrightarrow> n = p"
proof (induction n arbitrary: p)
  case Nil
  then show ?case by (cases p) auto
next
  case (Cons a n)
  then show ?case by (cases p) auto
qed

lemma split_once_colon:
  assumes s: "str_split_once l '':'' = Some (n, v)"
  shows "l = n @ CHR '':'' # v" "CHR '':'' \<notin> set n"
proof -
  from str_split_once_Some [OF s] show l: "l = n @ CHR '':'' # v" by simp
  show "CHR '':'' \<notin> set n"
  proof
    assume "CHR '':'' \<in> set n"
    then obtain a b where n: "n = a @ CHR '':'' # b" "CHR '':'' \<notin> set a"
      using split_list_first [of "CHR '':''" n] by blast
    have "str_find l '':'' = Some (length a)"
      using str_find_fresh [OF n(2), of "[]" "b @ CHR '':'' # v"] unfolding l n(1) by simp
    with s have "n = take (length a) l" by (simp add: str_split_once_def)
    then have "length n \<le> length a" by (metis length_take min.cobounded2)
    with n(1) show False by simp
  qed
qed

lemma ascii_lower_colon [simp]: "ascii_lower c = CHR '':'' \<longleftrightarrow> c = CHR '':''"
  by (rule ascii_lower_sep) (simp_all add: ascii_defs code_def)

lemma lower_colon: "CHR '':'' \<notin> set n \<Longrightarrow> CHR '':'' \<notin> set (to_ascii_lowercase n)"
  by (auto simp: to_ascii_lowercase_def dest: sym)

text \<open>Putting a credential into a line keeps its field name.\<close>

lemma rewrite_keeps_field:
  assumes "CHR '':'' \<notin> set p"
  shows "str_starts_with (to_ascii_lowercase (rewrite_header_line l r)) (p @ '':'') \<longleftrightarrow>
         str_starts_with (to_ascii_lowercase l) (p @ '':'')"
proof (cases "str_split_once l '':''")
  case None
  then show ?thesis by (simp add: rewrite_header_line_def)
next
  case (Some nv)
  obtain n v where nv: "nv = (n, v)" by (cases nv)
  note l = split_once_colon [OF Some [unfolded nv]]
  have low: "to_ascii_lowercase (n @ CHR '':'' # x) = to_ascii_lowercase n @ CHR '':'' # to_ascii_lowercase x" for x
    by (simp add: to_ascii_lowercase_def)
  have field: "str_starts_with (to_ascii_lowercase (n @ CHR '':'' # x)) (p @ '':'') \<longleftrightarrow> to_ascii_lowercase n = p" for x
    unfolding low using starts_with_field [OF lower_colon [OF l(2)] assms] by simp
  obtain x where "rewrite_header_line l r = n @ CHR '':'' # x"
    using Some nv l(1) by (cases "rewrite_header_value r (str_trim v)") (auto simp: rewrite_header_line_def)
  with field l(1) show ?thesis by metis
qed

lemma line_kind_of_rewritten:
  "str_starts_with (to_ascii_lowercase (forwarded_line res l)) (p @ '':'') \<longleftrightarrow>
     str_starts_with (to_ascii_lowercase l) (p @ '':'')"
  if "CHR '':'' \<notin> set p" "\<not> is_connection_line l"
  using that rewrite_keeps_field [OF that(1)] by (auto simp: forwarded_line_def split: option.split)

lemma connection_close_line: "is_connection_line ''Connection: close'' \<and> \<not> is_proxy_header_line (to_ascii_lowercase ''Connection: close'')"
  by code_simp

lemma via_line: "is_via_line ''Via: 1.1 openshell-sandbox'' \<and> \<not> is_connection_line ''Via: 1.1 openshell-sandbox'' \<and>
   \<not> is_proxy_header_line (to_ascii_lowercase ''Via: 1.1 openshell-sandbox'')"
  by code_simp

lemma forwarded_not_proxy:
  assumes "\<not> is_proxy_header_line (to_ascii_lowercase l)"
  shows "\<not> is_proxy_header_line (to_ascii_lowercase (forwarded_line res l))"
proof (cases "is_connection_line l")
  case True
  then show ?thesis using connection_close_line by (simp add: forwarded_line_def)
next
  case False
  with assms line_kind_of_rewritten [OF _ False, of "''proxy-connection''" res]
    line_kind_of_rewritten [OF _ False, of "''proxy-authorization''" res]
    line_kind_of_rewritten [OF _ False, of "''proxy-authenticate''" res]
  show ?thesis by (simp add: is_proxy_header_line_def)
qed

lemma forwarded_connection: "is_connection_line (forwarded_line res l) \<Longrightarrow> forwarded_line res l = ''Connection: close''"
  using line_kind_of_rewritten [of "''connection''" l res]
  by (cases "is_connection_line l") (auto simp: is_connection_line_def forwarded_line_def)

lemma forwarded_via: "is_via_line l \<Longrightarrow> is_via_line (forwarded_line res l)"
  using line_kind_of_rewritten [of "''via''" l res] via_not_connection
  by (cases "is_connection_line l") (auto simp: is_connection_line_def is_via_line_def)

lemma forwarded_is_connection: "is_connection_line l \<Longrightarrow> is_connection_line (forwarded_line res l)"
  using connection_close_line by (simp add: forwarded_line_def)

section \<open>Properties\<close>

text \<open>Plain proxy requests: a URI with scheme, host, port and path is taken apart into exactly these, for
  a host name, for a bracketed IPv6 address, and with the scheme's default port.\<close>

theorem parse_proxy_uri_roundtrip:
  assumes "CHR '':'' \<notin> set s" "host \<noteq> []" "CHR ''/'' \<notin> set host" "CHR '']'' \<notin> set host" "hd host \<noteq> CHR ''[''"
    "path = CHR ''/'' # tail"
  shows "parse_proxy_uri (s @ ''://'' @ host @ '':'' @ dec (unat (port :: u16)) @ path) =
           Inr (to_ascii_lowercase s, host, port, path) \<and>
         parse_proxy_uri (s @ ''://['' @ host @ '']:'' @ dec (unat port) @ path) =
           Inr (to_ascii_lowercase s, host, port, path) \<and>
         (CHR '':'' \<in> set host \<or>
          parse_proxy_uri (s @ ''://'' @ host @ path) =
            Inr (to_ascii_lowercase s, host, default_port (to_ascii_lowercase s), path))"
proof (intro conjI)
  have d: "CHR '':'' \<notin> set (dec (unat port))" "CHR ''/'' \<notin> set (dec (unat port))" "CHR ''['' \<notin> set (dec (unat port))"
    by (rule dec_no_char; simp add: ascii_defs code_def)+
  have nb: "\<not> str_starts_with (host @ x) ''[''" for x
    using assms(2,5) by (cases host) (auto simp: str_starts_with_iff)
  have host0: "\<not> str_starts_with host ''[''" using nb [of "[]"] by simp
  have split1: "split_authority uri (host @ '':'' @ dec (unat port) @ path) = Inr (host @ '':'' @ dec (unat port), path)" for uri
    using find_byte_append [of "CHR ''/''" "host @ '':'' @ dec (unat port)" tail] assms(3,6) d(2) nb
    by (simp add: split_authority_def)
  show "parse_proxy_uri (s @ ''://'' @ host @ '':'' @ dec (unat port) @ path) =
      Inr (to_ascii_lowercase s, host, port, path)"
    using split_scheme [OF assms(1), of "host @ '':'' @ dec (unat port) @ path"] split1
      rsplit_once_append [OF d(1), of host] nb assms(2,6)
    by (simp add: parse_proxy_uri_def host_and_port_def Let_def)
  let ?auth = "CHR ''['' # host @ '']:'' @ dec (unat port)"
  have fb: "find_byte (CHR '']'') (CHR ''['' # host @ CHR '']'' # x) = Some (Suc (length host))" for x
    using find_byte_append [of "CHR '']''" "CHR ''['' # host" x] assms(4) by simp
  have split2: "split_authority uri (?auth @ path) = Inr (?auth, path)" for uri
    using find_byte_append [of "CHR ''/''" "'':'' @ dec (unat port)" tail] assms(6) d(2) fb
    by (simp add: split_authority_def Let_def)
  show "parse_proxy_uri (s @ ''://['' @ host @ '']:'' @ dec (unat port) @ path) =
      Inr (to_ascii_lowercase s, host, port, path)"
    using split_scheme [OF assms(1), of "?auth @ path"] split2 fb assms(2,6)
    by (simp add: parse_proxy_uri_def host_and_port_def Let_def str_strip_prefix_def)
  show "CHR '':'' \<in> set host \<or> parse_proxy_uri (s @ ''://'' @ host @ path) =
      Inr (to_ascii_lowercase s, host, default_port (to_ascii_lowercase s), path)"
  proof (cases "CHR '':'' \<in> set host")
    case False
    with split_scheme [OF assms(1), of "host @ path"] find_byte_append [of "CHR ''/''" host tail] assms(2,3,6) nb
      rsplit_once_None [of "CHR '':''" host] host0
    show ?thesis by (simp add: parse_proxy_uri_def host_and_port_def split_authority_def Let_def)
  qed simp
qed

theorem parse_proxy_uri_roundtrip_witness:
  "parse_proxy_uri (''HTTP'' @ ''://'' @ ''a.io'' @ '':'' @ dec (unat (8000 :: u16)) @ ''/x?y'') =
     Inr (to_ascii_lowercase ''HTTP'', ''a.io'', 8000, ''/x?y'')"
  using parse_proxy_uri_roundtrip [of "''HTTP''" "''a.io''" "''/x?y''" "''x?y''" 8000] by simp

text \<open>C31: A forwarded plain request is a request line, header lines and the unchanged rest of the bytes read:
  no header line of the proxy (\<open>Proxy-Authorization\<close> and the like) is among them, the only
  \<open>Connection\<close> lines say \<open>close\<close> and there is one, and there is a \<open>Via\<close> line.\<close>

theorem forwarded_request_sanitized:
  assumes "str_find (take used raw) crlf2 = Some p"
  shows "\<exists>ls. rewrite_forward_request raw used path res =
      forward_request_line path (hd (str_split_crlf (from_utf8_lossy (take (p + 4) raw)))) @ crlf @
      concat (map (\<lambda>l. l @ crlf) ls) @ crlf @ drop (p + 4) (take used raw) \<and>
    list_all (\<lambda>l. \<not> is_proxy_header_line (to_ascii_lowercase l)) ls \<and>
    set (filter is_connection_line ls) = {''Connection: close''} \<and> list_ex is_via_line ls"
proof -
  let ?lns = "tl (str_split_crlf (from_utf8_lossy (take (p + 4) raw)))"
  let ?hs = "head_lines ?lns"
  define ls where "ls = map (forwarded_line res) ?hs @
    (if list_ex is_connection_line ?hs then [] else [''Connection: close'']) @
    (if list_ex is_via_line ?hs then [] else [''Via: 1.1 openshell-sandbox''])"
  have "rewrite_forward_request raw used path res =
      forward_request_line path (hd (str_split_crlf (from_utf8_lossy (take (p + 4) raw)))) @ crlf @
      concat (map (\<lambda>l. l @ crlf) ls) @ crlf @ drop (p + 4) (take used raw)"
    unfolding rewrite_forward_request_def assms option.case Let_def forward_header_lines_eq prod.case ls_def
    by (simp add: comp_def)
  moreover have "list_all (\<lambda>l. \<not> is_proxy_header_line (to_ascii_lowercase l)) ls"
    unfolding list_all_iff
  proof
    fix l
    assume "l \<in> set ls"
    then consider h where "h \<in> set ?hs" "l = forwarded_line res h" | "l = ''Connection: close''"
      | "l = ''Via: 1.1 openshell-sandbox''"
      by (auto simp: ls_def split: if_splits)
    then show "\<not> is_proxy_header_line (to_ascii_lowercase l)"
    proof cases
      case 1
      then have "\<not> is_proxy_header_line (to_ascii_lowercase h)" by (simp add: head_lines_def)
      with 1 forwarded_not_proxy show ?thesis by blast
    qed (use connection_close_line via_line in blast)+
  qed
  moreover have "set (filter is_connection_line ls) = {''Connection: close''}"
  proof
    show "set (filter is_connection_line ls) \<subseteq> {''Connection: close''}"
    proof
      fix l
      assume "l \<in> set (filter is_connection_line ls)"
      then have "l \<in> set ls" "is_connection_line l" by simp_all
      then consider h where "l = forwarded_line res h" | "l = ''Connection: close''" | "l = ''Via: 1.1 openshell-sandbox''"
        by (auto simp: ls_def split: if_splits)
      then have "l = ''Connection: close''"
        using \<open>is_connection_line l\<close> forwarded_connection via_line by cases blast+
      then show "l \<in> {''Connection: close''}" by blast
    qed
    have "''Connection: close'' \<in> set ls"
    proof (cases "list_ex is_connection_line ?hs")
      case True
      then obtain h where "h \<in> set ?hs" "is_connection_line h" by (auto simp: list_ex_iff)
      then have "h \<in> set ?hs" "forwarded_line res h = ''Connection: close''" by (simp_all add: forwarded_line_def)
      then show ?thesis unfolding ls_def set_append set_map by (metis UnI1 image_eqI)
    qed (simp add: ls_def)
    with connection_close_line show "{''Connection: close''} \<subseteq> set (filter is_connection_line ls)"
      unfolding set_filter by blast
  qed
  moreover have "list_ex is_via_line ls"
  proof (cases "list_ex is_via_line ?hs")
    case True
    then obtain h where "h \<in> set ?hs" "is_via_line h" by (auto simp: list_ex_iff)
    then have "forwarded_line res h \<in> set ls" "is_via_line (forwarded_line res h)"
      using forwarded_via by (auto simp: ls_def)
    then show ?thesis unfolding list_ex_iff by blast
  next
    case False
    then have "''Via: 1.1 openshell-sandbox'' \<in> set ls" by (simp add: ls_def)
    with via_line show ?thesis unfolding list_ex_iff by blast
  qed
  ultimately show ?thesis by blast
qed

theorem forwarded_request_sanitized_witness:
  "\<exists>ls. rewrite_forward_request (''GET http://h/p HTTP/1.1'' @ crlf @ ''Proxy-Authorization: s'' @ crlf2 @ ''b'') 52 ''/p'' None =
      ''GET /p HTTP/1.1'' @ crlf @ concat (map (\<lambda>l. l @ crlf) ls) @ crlf @ ''b'' \<and>
      set (filter is_connection_line ls) = {''Connection: close''}"
proof -
  let ?raw = "''GET http://h/p HTTP/1.1'' @ crlf @ ''Proxy-Authorization: s'' @ crlf2 @ ''b''"
  have p: "str_find (take 52 ?raw) crlf2 = Some 47" by code_simp
  have l: "forward_request_line ''/p'' (hd (str_split_crlf (from_utf8_lossy (take (47 + 4) ?raw)))) = ''GET /p HTTP/1.1''"
    by code_simp
  have d: "drop (47 + 4) (take 52 ?raw) = ''b''" by code_simp
  from forwarded_request_sanitized [OF p, of "''/p''" None, unfolded l d] show ?thesis by blast
qed

end
