(* ===== verification/InferenceProxy.thy ===== *)
theory InferenceProxy
  imports Inference Forward
begin

text \<open>
  The interception of \<open>inference.local\<close> in \<open>crates/openshell-sandbox/src/proxy.rs\<close>: requests are read from
  the decrypted tunnel, known inference calls are routed through the router and everything else
  is denied. The client is a duplex of plaintext bytes; what the router is asked is returned
  beside the result, in order. The logging hooks of the feature \<open>darkshell-inference-log\<close> send
  copies to an observer and are not modelled.
\<close>

section \<open>Outcomes of a task\<close>

text \<open>
  What a task ends with: a value, an error, a panic, or nothing at all when a loop does not end.
\<close>

datatype 'a task = Returns 'a | Fails string | Panics | Diverges

datatype inference_outcome = Routed | Denied string

record inference_context =
  ic_patterns :: "inference_api_pattern list"
  ic_routes :: "resolved_route list"
  ic_system_routes :: "resolved_route list"
  ic_client :: http_client
  ic_json :: json_text

record router_call =
  ca_protocol :: string
  ca_method :: string
  ca_path :: string
  ca_headers :: "(string \<times> string) list"
  ca_body :: bytes

definition system_inference ::
    "inference_context \<Rightarrow> string \<Rightarrow> string \<Rightarrow> string \<Rightarrow> (string \<times> string) list \<Rightarrow> bytes \<Rightarrow>
     router_error + proxy_response" where
  "system_inference ctx protocol method path headers body =
     proxy_with_candidates (ic_client ctx) (ic_json ctx) protocol method path headers body (ic_system_routes ctx)"

section \<open>Routing one request\<close>

text \<open>\<open>write_all\<close> of the proxy: write and flush.\<close>

definition proxy_write_all :: "string \<Rightarrow> writer \<Rightarrow> (string + unit) \<times> writer" where
  "proxy_write_all data w =
     (case write_all data w of
        (Inl e, w') \<Rightarrow> (Inl (io_msg e), w')
      | (Inr _, w') \<Rightarrow>
          (case flush w' of
             (Inl e, w'') \<Rightarrow> (Inl (io_msg e), w'')
           | (Inr _, w'') \<Rightarrow> (Inr (), w'')))"

definition json_response :: "json_text \<Rightarrow> u16 \<Rightarrow> json \<Rightarrow> string" where
  "json_response J status body =
     format_http_response status [(''content-type'', ''application/json'')] (jt_print J body)"

text \<open>Streaming the body: chunk by chunk until it is exhausted or the upstream fails.\<close>

function stream_chunks :: "streaming_proxy_response \<Rightarrow> writer \<Rightarrow> (string + unit) \<times> writer" where
  "stream_chunks resp w =
     (case next_chunk resp of
        (Inr (Some chunk), resp') \<Rightarrow>
          (case proxy_write_all (format_chunk chunk) w of
             (Inl e, w') \<Rightarrow> (Inl e, w')
           | (Inr _, w') \<Rightarrow> stream_chunks resp' w')
      | (Inr None, _) \<Rightarrow> (Inr (), w)
      | (Inl e, _) \<Rightarrow> (Inr (), w))"
  by pat_completeness auto
termination
  by (relation "measure (\<lambda>(resp, w). case sp_body resp of Live cs \<Rightarrow> length cs | Buffered None \<Rightarrow> 0 | Buffered (Some _) \<Rightarrow> 1)")
    (auto simp: next_chunk_def split: streaming_body.splits list.splits sum.splits option.splits)

declare stream_chunks.simps [simp del]

definition send_streaming_response ::
    "streaming_proxy_response \<Rightarrow> writer \<Rightarrow> (string + unit) \<times> writer" where
  "send_streaming_response resp w =
     (let resp_headers = sanitize_inference_response_headers (sp_headers resp);
          header_bytes = format_http_response_header (sp_status resp) resp_headers
      in case proxy_write_all header_bytes w of
           (Inl e, w1) \<Rightarrow> (Inl e, w1)
         | (Inr _, w1) \<Rightarrow>
             (case stream_chunks resp w1 of
                (Inl e, w2) \<Rightarrow> (Inl e, w2)
              | (Inr _, w2) \<Rightarrow> proxy_write_all format_chunk_terminator w2))"

definition after_write :: "(string + unit) \<times> writer \<Rightarrow> bool \<Rightarrow> (string + bool) \<times> writer" where
  "after_write r b = (case r of (Inl e, w) \<Rightarrow> (Inl e, w) | (Inr _, w) \<Rightarrow> (Inr b, w))"

definition route_inference_request ::
    "inference_context \<Rightarrow> parsed_http_request \<Rightarrow> writer \<Rightarrow> (string + bool) \<times> writer \<times> router_call list" where
  "route_inference_request ctx request w =
     (let normalized_path = normalize_inference_path (ph_path request); J = ic_json ctx in
      case detect_inference_pattern (ph_method request) normalized_path (ic_patterns ctx) of
        Some pattern \<Rightarrow>
          let filtered_headers = sanitize_inference_request_headers (ph_headers request) in
          if ic_routes ctx = [] then
            (case after_write (proxy_write_all (json_response J 503
                (jobject [(''error'', JString ''cluster inference is not configured''),
                  (''hint'', JString ''run: openshell cluster inference set --help'')])) w) True of
               (r, w') \<Rightarrow> (r, w', []))
          else
            let ca = \<lparr>ca_protocol = ip_protocol pattern, ca_method = ph_method request, ca_path = normalized_path,
                        ca_headers = filtered_headers, ca_body = ph_body request\<rparr> in
            (case proxy_with_candidates_streaming (ic_client ctx) J (ip_protocol pattern) (ph_method request)
                normalized_path filtered_headers (ph_body request) (ic_routes ctx) of
               Inr resp \<Rightarrow>
                 (case after_write (send_streaming_response resp w) True of (r, w') \<Rightarrow> (r, w', [ca]))
             | Inl e \<Rightarrow>
                 (case router_error_to_http e of
                    (status, msg) \<Rightarrow>
                      (case after_write (proxy_write_all (json_response J status
                          (jobject [(''error'', JString msg)])) w) True of
                         (r, w') \<Rightarrow> (r, w', [ca]))))
      | None \<Rightarrow>
          (case after_write (proxy_write_all (json_response J 403
              (jobject [(''error'', JString ''connection not allowed by policy'')])) w) False of
             (r, w') \<Rightarrow> (r, w', [])))"

section \<open>The interception loop\<close>

definition MAX_INFERENCE_BUF :: nat where
  "MAX_INFERENCE_BUF = 10 * 1024 * 1024"

definition INITIAL_INFERENCE_BUF :: nat where
  "INITIAL_INFERENCE_BUF = 65536"

text \<open>
  \<open>buf[..used]\<close> is \<open>acc\<close> and \<open>buf.len()\<close> is \<open>cap\<close>. Every round takes bytes or ends the loop.
\<close>

function interception_loop ::
    "inference_context \<Rightarrow> bool \<Rightarrow> nat \<Rightarrow> string \<Rightarrow> duplex \<Rightarrow> inference_outcome task \<times> duplex \<times> router_call list" where
  "interception_loop ctx routed_any cap acc client =
     (case read (cap - length acc) (rx client) of
        (Inl e, r) \<Rightarrow>
          (Returns (if routed_any then Routed else Denied (''I/O error: '' @ io_msg e)), client\<lparr>rx := r\<rparr>, [])
      | (Inr bs, r) \<Rightarrow>
          if bs = [] then
            (Returns (if routed_any then Routed else Denied ''client closed connection''), client\<lparr>rx := r\<rparr>, [])
          else
            let acc' = acc @ bs in
            (case try_parse_http_request acc' of
               Complete request consumed \<Rightarrow>
                 (case route_inference_request ctx request (tx client) of
                    (Inl e, w, calls) \<Rightarrow> (Fails e, client\<lparr>rx := r, tx := w\<rparr>, calls)
                  | (Inr was_routed, w, calls) \<Rightarrow>
                      if \<not> was_routed \<and> \<not> routed_any then
                        (Returns (Denied ''connection not allowed by policy''), client\<lparr>rx := r, tx := w\<rparr>, calls)
                      else
                        (case interception_loop ctx (routed_any \<or> was_routed) cap (drop consumed acc')
                            (client\<lparr>rx := r, tx := w\<rparr>) of
                           (res, c, calls') \<Rightarrow> (res, c, calls @ calls')))
             | Incomplete \<Rightarrow>
                 if length acc' = cap then
                   if MAX_INFERENCE_BUF \<le> cap then
                     (case proxy_write_all (format_http_response 413 [] ''Payload Too Large'') (tx client) of
                        (Inl e, w) \<Rightarrow> (Fails e, client\<lparr>rx := r, tx := w\<rparr>, [])
                      | (Inr _, w) \<Rightarrow>
                          (Returns (if routed_any then Routed else Denied ''payload too large''),
                           client\<lparr>rx := r, tx := w\<rparr>, []))
                   else interception_loop ctx routed_any (min (cap * 2) MAX_INFERENCE_BUF) acc' (client\<lparr>rx := r\<rparr>)
                 else interception_loop ctx routed_any cap acc' (client\<lparr>rx := r\<rparr>)
             | Panicked \<Rightarrow> (Panics, client\<lparr>rx := r\<rparr>, [])))"
  by pat_completeness auto
termination
  by (relation "measure (\<lambda>(ctx, routed_any, cap, acc, client). length (pending (rx client)))")
    (auto dest!: read_shorter [OF sym])

declare interception_loop.simps [simp del]

text \<open>TLS termination is the parameter \<open>terminate\<close>; it fails or gives the plaintext stream.\<close>

definition handle_inference_interception ::
    "(string \<Rightarrow> duplex \<Rightarrow> string + duplex) option \<Rightarrow> inference_context option \<Rightarrow> string \<Rightarrow> duplex \<Rightarrow>
     inference_outcome task \<times> duplex \<times> router_call list" where
  "handle_inference_interception tls_state inference_ctx host client =
     (case inference_ctx of
        None \<Rightarrow> (Returns (Denied ''cluster inference context not configured''), client, [])
      | Some ctx \<Rightarrow>
          (case tls_state of
             None \<Rightarrow> (Returns (Denied ''missing TLS state''), client, [])
           | Some terminate \<Rightarrow>
               (case terminate host client of
                  Inl e \<Rightarrow> (Returns (Denied (''TLS handshake failed: '' @ e)), client, [])
                | Inr tls_client \<Rightarrow> interception_loop ctx False INITIAL_INFERENCE_BUF [] tls_client)))"

section \<open>Lemmas: writing responses\<close>

lemma proxy_write_all_healthy:
  "healthy w \<Longrightarrow> proxy_write_all d w = (Inr (), w\<lparr>written := written w @ d\<rparr>)"
  by (simp add: proxy_write_all_def write_all_def flush_def healthy_def)

text \<open>The chunks a streamed response delivers: those before the end or the first error.\<close>

fun delivered :: "(string + bytes) list \<Rightarrow> bytes list" where
  "delivered (Inr c # cs) = c # delivered cs"
| "delivered _ = []"

definition body_chunks :: "streaming_proxy_response \<Rightarrow> bytes list" where
  "body_chunks resp = (case sp_body resp of Live cs \<Rightarrow> delivered cs | Buffered None \<Rightarrow> [] | Buffered (Some b) \<Rightarrow> [b])"

lemma stream_chunks_live:
  "healthy w \<Longrightarrow> sp_body resp = Live cs \<Longrightarrow>
   stream_chunks resp w = (Inr (), w\<lparr>written := written w @ concat (map format_chunk (delivered cs))\<rparr>)"
proof (induction cs arbitrary: resp w rule: delivered.induct)
  case (1 c cs)
  have "healthy (w\<lparr>written := written w @ format_chunk c\<rparr>)" using "1.prems"(1) by (simp add: healthy_def)
  from "1.IH" [OF this, of "resp\<lparr>sp_body := Live cs\<rparr>"] "1.prems" show ?case
    by (subst stream_chunks.simps) (simp add: next_chunk_def proxy_write_all_healthy)
qed (subst stream_chunks.simps, simp add: next_chunk_def)+

lemma stream_chunks_healthy:
  assumes "healthy w"
  shows "stream_chunks resp w = (Inr (), w\<lparr>written := written w @ concat (map format_chunk (body_chunks resp))\<rparr>)"
proof (cases "sp_body resp")
  case (Live cs)
  with assms show ?thesis by (simp add: stream_chunks_live body_chunks_def)
next
  case (Buffered buf)
  have eof: "stream_chunks (resp\<lparr>sp_body := Buffered None\<rparr>) v = (Inr (), v)" for v
    by (subst stream_chunks.simps) (simp add: next_chunk_def)
  show ?thesis
    using assms Buffered
    by (cases buf; subst stream_chunks.simps)
      (simp_all add: next_chunk_def proxy_write_all_healthy eof body_chunks_def)
qed

lemma send_streaming_healthy:
  assumes "healthy w"
  shows "send_streaming_response resp w =
    (Inr (), w\<lparr>written := written w @
       format_http_response_header (sp_status resp) (sanitize_inference_response_headers (sp_headers resp)) @
       concat (map format_chunk (body_chunks resp)) @ format_chunk_terminator\<rparr>)"
proof -
  have h: "healthy (w\<lparr>written := x\<rparr>)" for x using assms by (simp add: healthy_def)
  show ?thesis
    by (simp add: send_streaming_response_def Let_def proxy_write_all_healthy [OF assms]
        stream_chunks_healthy [OF h] proxy_write_all_healthy [OF h])
qed

section \<open>Lemmas: the requests of a stream\<close>

text \<open>The requests a byte stream holds, parsed one after the other, wherever the segments end.\<close>

function requests_of :: "string \<Rightarrow> parsed_http_request list" where
  "requests_of s =
     (case try_parse_http_request s of
        Complete req n \<Rightarrow> req # requests_of (drop n s)
      | _ \<Rightarrow> [])"
  by pat_completeness auto
termination
proof (relation "measure length", goal_cases)
  case (2 s req n)
  with try_parse_consumes [OF sym, of req n s] try_parse_append [OF sym, of req n s "[]"] show ?case by auto
qed simp

declare requests_of.simps [simp del]

text \<open>What the router is asked for a request.\<close>

definition call_for :: "inference_context \<Rightarrow> parsed_http_request \<Rightarrow> router_call list" where
  "call_for ctx req =
     (case detect_inference_pattern (ph_method req) (normalize_inference_path (ph_path req)) (ic_patterns ctx) of
        None \<Rightarrow> []
      | Some pattern \<Rightarrow>
          if ic_routes ctx = [] then []
          else [\<lparr>ca_protocol = ip_protocol pattern, ca_method = ph_method req,
                 ca_path = normalize_inference_path (ph_path req),
                 ca_headers = sanitize_inference_request_headers (ph_headers req), ca_body = ph_body req\<rparr>])"

lemma route_inference_calls:
  "route_inference_request ctx req w = (x, w', calls) \<Longrightarrow> calls = call_for ctx req"
  by (auto simp: route_inference_request_def call_for_def Let_def split: option.splits if_splits sum.splits prod.splits)

lemma interception_calls:
  "interception_loop ctx routed_any cap acc client = (res, c, calls) \<Longrightarrow>
   \<exists>k. calls = concat (map (call_for ctx) (take k (requests_of (acc @ pending (rx client)))))"
proof (induction "length (pending (rx client))" arbitrary: routed_any cap acc client calls res c rule: less_induct)
  case less
  obtain x r where rd: "read (cap - length acc) (rx client) = (x, r)" by fastforce
  show ?case
  proof (cases "\<exists>bs. x = Inr bs \<and> bs \<noteq> []")
    case False
    with less.prems rd have "calls = []"
      by (subst (asm) interception_loop.simps) (auto split: sum.splits)
    then show ?thesis by (intro exI [of _ 0]) simp
  next
    case True
    then obtain bs where x: "x = Inr bs" "bs \<noteq> []" by blast
    note rd = rd [unfolded x(1)]
    have p: "pending (rx client) = bs @ pending r" using read_Inr [OF rd] by simp
    have shorter: "length (pending r) < length (pending (rx client))" by (rule read_shorter [OF rd x(2)])
    note step = less.prems [unfolded interception_loop.simps [of ctx routed_any cap acc client] rd, simplified x(2)]
    show ?thesis
    proof (cases "try_parse_http_request (acc @ bs)")
      case (Complete req n)
      from try_parse_append [OF Complete, of "pending r"]
      have reqs: "requests_of (acc @ pending (rx client)) = req # requests_of (drop n (acc @ bs) @ pending r)"
        by (subst requests_of.simps) (simp add: p)
      obtain y w cs where rt: "route_inference_request ctx req (tx client) = (y, w, cs)" by (metis surj_pair)
      have cs: "cs = call_for ctx req" by (rule route_inference_calls [OF rt])
      show ?thesis
      proof (cases "\<exists>b. y = Inr b \<and> (b \<or> routed_any)")
        case False
        with step Complete rt have "calls = cs" using x(2) by (auto simp: Let_def split: sum.splits if_splits)
        with cs reqs show ?thesis by (intro exI [of _ 1]) simp
      next
        case True
        then obtain b where y: "y = Inr b" "b \<or> routed_any" by blast
        obtain res2 c2 cs2 where rec: "interception_loop ctx (routed_any \<or> b) cap (drop n (acc @ bs))
            (client\<lparr>rx := r, tx := w\<rparr>) = (res2, c2, cs2)" by (metis surj_pair)
        with step Complete rt y have calls: "calls = cs @ cs2" using x(2) by (auto simp: Let_def)
        from less.hyps [OF _ rec] shorter obtain k where
          "cs2 = concat (map (call_for ctx) (take k (requests_of (drop n (acc @ bs) @ pending r))))" by auto
        with calls cs reqs show ?thesis by (intro exI [of _ "Suc k"]) simp
      qed
    next
      case Incomplete
      have IH: "\<exists>k. calls = concat (map (call_for ctx) (take k (requests_of (acc @ pending (rx client)))))"
        if "interception_loop ctx routed_any cap' (acc @ bs) (client\<lparr>rx := r\<rparr>) = (res, c, calls)" for cap'
        using less.hyps [OF _ that] shorter by (simp add: p)
      show ?thesis
      proof (cases "length (acc @ bs) = cap \<and> MAX_INFERENCE_BUF \<le> cap")
        case True
        with step Incomplete have "calls = []" using x(2) by (auto simp: Let_def split: sum.splits prod.splits)
        then show ?thesis by (intro exI [of _ 0]) simp
      next
        case False
        with step Incomplete show ?thesis using x(2) by (auto simp: Let_def split: if_splits intro: IH)
      qed
    next
      case Panicked
      with step x(2) have "calls = []" by (simp add: Let_def)
      then show ?thesis by (intro exI [of _ 0]) simp
    qed
  qed
qed

lemma find_matches: "find P xs = Some x \<Longrightarrow> x \<in> set xs \<and> P x"
  by (induction xs) (auto split: if_splits)

lemma call_for_checked:
  assumes "ca \<in> set (call_for ctx req)"
  shows "list_all (\<lambda>(name, _). \<not> should_strip_request_header name) (ca_headers ca)"
    "\<exists>p \<in> set (ic_patterns ctx). ca_protocol ca = ip_protocol p \<and>
       pattern_matches (ca_method ca) (hd (str_split (CHR ''?'') (ca_path ca))) p"
proof -
  let ?path = "normalize_inference_path (ph_path req)"
  from assms obtain p where p: "detect_inference_pattern (ph_method req) ?path (ic_patterns ctx) = Some p"
    and ca: "ca = \<lparr>ca_protocol = ip_protocol p, ca_method = ph_method req, ca_path = ?path,
      ca_headers = sanitize_inference_request_headers (ph_headers req), ca_body = ph_body req\<rparr>"
    by (cases "detect_inference_pattern (ph_method req) ?path (ic_patterns ctx)")
      (auto simp: call_for_def split: if_splits)
  show "list_all (\<lambda>(name, _). \<not> should_strip_request_header name) (ca_headers ca)"
    by (auto simp: ca sanitize_inference_request_headers_def list_all_iff)
  from find_matches [OF p [unfolded detect_inference_pattern_def]]
  show "\<exists>p \<in> set (ic_patterns ctx). ca_protocol ca = ip_protocol p \<and>
      pattern_matches (ca_method ca) (hd (str_split (CHR ''?'') (ca_path ca))) p"
    by (intro bexI [of _ p]) (simp_all add: ca)
qed

text \<open>The header names that never reach the router.\<close>

definition confined_headers :: "string list" where
  "confined_headers =
     [''authorization'', ''x-api-key'', ''host'', ''content-length'', ''connection'', ''keep-alive'',
      ''proxy-authenticate'', ''proxy-authorization'', ''proxy-connection'', ''te'', ''trailer'',
      ''transfer-encoding'', ''upgrade'']"

lemma confined_headers_stripped:
  "to_ascii_lowercase name \<in> set confined_headers \<Longrightarrow> should_strip_request_header name"
  by (auto simp: confined_headers_def should_strip_request_header_def is_hop_by_hop_header_def Let_def)

section \<open>Properties\<close>

text \<open>C18: What the router is asked on an intercepted connection depends only on the bytes the client sends,
  not on how they are segmented: it is the inference calls among the first requests of that stream,
  in order, each matching a known pattern, with the protocol of that pattern and without any
  credential, host, length or hop-by-hop header.\<close>

theorem intercepted_calls_are_inference:
  assumes "interception_loop ctx False cap [] client = (res, c, calls)"
  shows "(\<exists>k. calls = concat (map (call_for ctx) (take k (requests_of (pending (rx client)))))) \<and>
    list_all (\<lambda>ca. list_all (\<lambda>(name, _). to_ascii_lowercase name \<notin> set confined_headers) (ca_headers ca) \<and>
      list_ex (\<lambda>p. ca_protocol ca = ip_protocol p \<and>
         pattern_matches (ca_method ca) (hd (str_split (CHR ''?'') (ca_path ca))) p) (ic_patterns ctx)) calls"
proof -
  from interception_calls [OF assms] obtain k where
    k: "calls = concat (map (call_for ctx) (take k (requests_of (pending (rx client)))))" by auto
  have "list_all (\<lambda>ca. list_all (\<lambda>(name, _). to_ascii_lowercase name \<notin> set confined_headers) (ca_headers ca) \<and>
      list_ex (\<lambda>p. ca_protocol ca = ip_protocol p \<and>
         pattern_matches (ca_method ca) (hd (str_split (CHR ''?'') (ca_path ca))) p) (ic_patterns ctx)) calls"
    unfolding list_all_iff [of _ calls]
  proof
    fix ca
    assume "ca \<in> set calls"
    with k obtain req where "ca \<in> set (call_for ctx req)" by auto
    note checked = call_for_checked [OF this]
    then show "list_all (\<lambda>(name, _). to_ascii_lowercase name \<notin> set confined_headers) (ca_headers ca) \<and>
      list_ex (\<lambda>p. ca_protocol ca = ip_protocol p \<and>
         pattern_matches (ca_method ca) (hd (str_split (CHR ''?'') (ca_path ca))) p) (ic_patterns ctx)"
      using confined_headers_stripped unfolding list_ex_iff list_all_iff by fast
  qed
  with k show ?thesis by blast
qed

definition sample_inference_context :: inference_context where
  "sample_inference_context =
     \<lparr>ic_patterns = default_patterns, ic_routes = [sample_route], ic_system_routes = [],
      ic_client =
        \<lparr>hc_valid_method = (\<lambda>_. True),
         hc_send = (\<lambda>_. Inr \<lparr>hr_status = 200, hr_headers = [], hr_chunks = [Inr ''hi'']\<rparr>),
         hc_text = (\<lambda>_. Inr ''''), hc_status_text = (\<lambda>_. '''')\<rparr>,
      ic_json = \<lparr>jt_parse = (\<lambda>_. None), jt_print = (\<lambda>_. ''{}'')\<rparr>\<rparr>"

definition sample_inference_client :: duplex where
  "sample_inference_client =
     \<lparr>rx = [Bytes (''POST /v1/mess''), Bytes (''ages H'' @ crlf @ ''X-Api-Key: k'' @ crlf @ ''A: b'' @ crlf2)],
      tx = fresh_writer\<rparr>"

theorem intercepted_calls_are_inference_witness:
  "\<exists>k ca. concat (map (call_for sample_inference_context) (take k (requests_of (pending (rx sample_inference_client))))) = [ca] \<and>
     ca_path ca = ''/v1/messages'' \<and> ca_headers ca = [(''A'', ''b'')]"
proof -
  let ?ca = "\<lparr>ca_protocol = ''anthropic_messages'', ca_method = ''POST'', ca_path = ''/v1/messages'',
      ca_headers = [(''A'', ''b'')], ca_body = ''''\<rparr>"
  have "fst (interception_loop sample_inference_context False 65536 [] sample_inference_client) = Returns Routed \<and>
      snd (snd (interception_loop sample_inference_context False 65536 [] sample_inference_client)) = [?ca]" by code_simp
  then obtain c where
    run: "interception_loop sample_inference_context False 65536 [] sample_inference_client = (Returns Routed, c, [?ca])"
    by (cases "interception_loop sample_inference_context False 65536 [] sample_inference_client") auto
  from intercepted_calls_are_inference [OF run] obtain k where
    "[?ca] = concat (map (call_for sample_inference_context) (take k (requests_of (pending (rx sample_inference_client)))))" by blast
  then show ?thesis by (intro exI [of _ k] exI [of _ ?ca]) simp
qed

text \<open>A response streamed to a client that keeps reading is one the proxy's own parser decodes to exactly
  the body the upstream delivered, consuming every byte sent, provided the upstream delivers no
  empty chunk; an empty chunk is encoded as the end of the body.\<close>

theorem streamed_response_decodes:
  assumes "healthy w" "[] \<notin> set (body_chunks resp)"
    "length (written w') + 2 \<le> usize_max"
    "send_streaming_response resp w = (x, w')"
    "hdr = format_http_response_header (sp_status resp) (sanitize_inference_response_headers (sp_headers resp))"
  shows "x = Inr () \<and>
    take (length (written w) + length hdr) (written w') = written w @ hdr \<and>
    parse_chunked_body (written w') (length (written w) + length hdr) =
      Complete (concat (body_chunks resp)) (length (written w')) \<and>
    format_chunk [] = format_chunk_terminator"
proof -
  let ?cs = "body_chunks resp"
  have w': "x = Inr ()" "written w' = (written w @ hdr) @ concat (map format_chunk ?cs) @ format_chunk_terminator @ []"
    using assms(4,5) send_streaming_healthy [OF assms(1), of resp] by auto
  have ne: "\<forall>d \<in> set ?cs. d \<noteq> []" using assms(2) by auto
  have "parse_chunks [] (written w') (length (written w @ hdr)) =
      Complete ([] @ concat ?cs)
        (length (written w @ hdr) + length (concat (map format_chunk ?cs)) + length format_chunk_terminator)"
    by (rule parse_chunks_format [where rest = "[]"]) (use w'(2) assms(3) ne in auto)
  moreover have "format_chunk [] = format_chunk_terminator" by code_simp
  ultimately show ?thesis using w' by (simp add: parse_chunked_body_def)
qed

theorem streamed_response_decodes_witness:
  "parse_chunked_body (written (snd (send_streaming_response
       \<lparr>sp_status = 200, sp_headers = [], sp_body = Live [Inr ''ab'', Inr ''c'', Inl ''reset'']\<rparr> fresh_writer)))
     (length (format_http_response_header 200 [])) =
   Complete ''abc'' (length (written (snd (send_streaming_response
       \<lparr>sp_status = 200, sp_headers = [], sp_body = Live [Inr ''ab'', Inr ''c'', Inl ''reset'']\<rparr> fresh_writer))))"
proof -
  let ?resp = "\<lparr>sp_status = 200, sp_headers = [], sp_body = Live [Inr ''ab'', Inr ''c'', Inl ''reset'']\<rparr> :: streaming_proxy_response"
  obtain x w' where s: "send_streaming_response ?resp fresh_writer = (x, w')" by fastforce
  have h: "healthy fresh_writer" by (simp add: healthy_def)
  have b: "body_chunks ?resp = [''ab'', ''c'']" by (simp add: body_chunks_def)
  have e: "send_streaming_response ?resp fresh_writer = (Inr (), fresh_writer\<lparr>written := [] @
      format_http_response_header 200 (sanitize_inference_response_headers []) @
      concat (map format_chunk [''ab'', ''c'']) @ format_chunk_terminator\<rparr>)"
    using send_streaming_healthy [OF h, of ?resp] by (simp add: b)
  have len: "length (format_http_response_header 200 (sanitize_inference_response_headers []) @
      concat (map format_chunk [''ab'', ''c'']) @ format_chunk_terminator) + 2 \<le> usize_max" by code_simp
  have w': "written w' = format_http_response_header 200 (sanitize_inference_response_headers []) @
      concat (map format_chunk [''ab'', ''c'']) @ format_chunk_terminator"
    using s e by auto
  have san: "sanitize_inference_response_headers [] = []" by (simp add: sanitize_inference_response_headers_def)
  from streamed_response_decodes [OF h _ _ s refl] w' len b show ?thesis by (simp add: s san)
qed

text \<open>
  A second request that arrives in the same segment waits in the buffer until the client sends
  more: when the client has nothing more to say and closes, it is dropped without an answer.
\<close>

lemma pipelined_request_dropped:
  "(let bs = ''GET /v1/models H'' @ crlf2;
        ctx = sample_inference_context\<lparr>ic_routes := [sample_route\<lparr>rr_protocols := [''model_discovery'']\<rparr>]\<rparr>
    in
    length (snd (snd (interception_loop ctx False 65536 [] \<lparr>rx = [Bytes (bs @ bs)], tx = fresh_writer\<rparr>))) = 1 \<and>
    length (concat (map (call_for ctx) (requests_of (bs @ bs)))) = 2)"
  by code_simp

end
