(* ===== verification/Proxy.thy ===== *)
theory Proxy
  imports Relay Identity Procfs Denials Ssrf InferenceProxy
begin

text \<open>
  The connection handlers of \<open>crates/openshell-sandbox/src/proxy.rs\<close>: the decision for a connection
  (\<open>evaluate_opa_tcp\<close>: peer process, trust on first use, policy), CONNECT tunnels
  (\<open>handle_tcp_connection\<close>) and plain requests (\<open>handle_forward_proxy\<close>). What surrounds a
  connection is a \<open>proxy_env\<close>: the policy engine, \<open>/proc\<close>, files, DNS, the network, TLS. The
  state shared by connections, a \<open>proxy_state\<close>, is the identity cache, the denial events sent and
  the log. A handler gives the outcome of its task, the new state, the client's stream and the
  upstream it connected to, if any, with the addresses used; once TLS is terminated both
  streams are the plaintext ones. Warnings and debug messages are not modelled.
\<close>

section \<open>Environment and state\<close>

record connect_decision =
  cd_action :: network_action
  cd_binary :: "string option"
  cd_binary_pid :: "u32 option"
  cd_ancestors :: "string list"
  cd_cmdline_paths :: "string list"

record tls_io =
  tls_terminate_client :: "string \<Rightarrow> duplex \<Rightarrow> string + duplex"
  tls_connect_upstream :: "string \<Rightarrow> duplex \<Rightarrow> string + duplex"

text \<open>
  \<open>pe_fault\<close> is a failure of the policy evaluator, by query; \<open>pe_peer\<close> and \<open>pe_local\<close> are the
  addresses of the client's socket.
\<close>

record 'net proxy_env =
  pe_engine :: opa_engine
  pe_builtins :: builtins
  pe_fault :: "string \<Rightarrow> network_input \<Rightarrow> string option"
  pe_proc :: proc_fs
  pe_metadata :: "string \<Rightarrow> string + metadata"
  pe_hash_file :: "string \<Rightarrow> string + string"
  pe_entrypoint_pid :: u32
  pe_peer :: "string + socket_addr"
  pe_local :: "string + socket_addr"
  pe_lookup_host :: resolver
  pe_ipnet :: "'net ipnet"
  pe_connect :: "socket_addr list \<Rightarrow> string + duplex"
  pe_tls :: "tls_io option"
  pe_inference :: "inference_context option"
  pe_secrets :: "secret_resolver option"
  pe_denial_tx :: bool
  pe_json_text :: "json \<Rightarrow> string"
  pe_copy :: "duplex \<Rightarrow> duplex \<Rightarrow> (io_error + nat \<times> nat) \<times> duplex \<times> duplex"

record connect_log =
  cl_src :: socket_addr
  cl_proxy :: socket_addr
  cl_dst_host :: string
  cl_dst_port :: u16
  cl_binary :: string
  cl_binary_pid :: string
  cl_ancestors :: string
  cl_cmdline :: string
  cl_action :: string
  cl_policy :: string
  cl_reason :: string
  cl_message :: string

record proxy_state =
  ps_cache :: binary_identity_cache
  ps_denials :: "denial_event list"
  ps_log :: "connect_log list"
  ps_l7_log :: "l7_log list"

record conn_result =
  cr_result :: "unit task"
  cr_state :: proxy_state
  cr_client :: duplex
  cr_upstream :: "(socket_addr list \<times> duplex) option"

section \<open>The decision\<close>

definition deny_decision ::
    "string \<Rightarrow> string option \<Rightarrow> u32 option \<Rightarrow> string list \<Rightarrow> string list \<Rightarrow> connect_decision" where
  "deny_decision reason binary binary_pid ancestors cmdline_paths =
     \<lparr>cd_action = DenyNet reason, cd_binary = binary, cd_binary_pid = binary_pid,
      cd_ancestors = ancestors, cd_cmdline_paths = cmdline_paths\<rparr>"

definition network_action_of :: "'net proxy_env \<Rightarrow> network_input \<Rightarrow> string + network_action" where
  "network_action_of env i =
     (case pe_fault env ''network_action'' i of
        Some e \<Rightarrow> Inl e
      | None \<Rightarrow> Inr (evaluate_network_action (pe_builtins env) (pe_engine env) i))"

definition verify_binary ::
    "'net proxy_env \<Rightarrow> binary_identity_cache \<Rightarrow> string \<Rightarrow> binary_identity_cache \<times> (string + string)" where
  "verify_binary env cache path = verify_or_cache_with_hasher cache path (pe_metadata env) (pe_hash_file env)"

text \<open>The ancestors one by one; \<open>Some\<close> is the reason of the first that fails.\<close>

fun verify_ancestors ::
    "'net proxy_env \<Rightarrow> binary_identity_cache \<Rightarrow> string list \<Rightarrow> binary_identity_cache \<times> string option" where
  "verify_ancestors env cache [] = (cache, None)"
| "verify_ancestors env cache (ancestor # rest) =
     (case verify_binary env cache ancestor of
        (cache', Inl e) \<Rightarrow>
          (cache', Some (''ancestor integrity check failed for '' @ from_utf8_lossy ancestor @ '': '' @ e))
      | (cache', Inr _) \<Rightarrow> verify_ancestors env cache' rest)"

text \<open>\<open>None\<close> when the scan of the process tree does not return.\<close>

definition evaluate_opa_tcp ::
    "'net proxy_env \<Rightarrow> binary_identity_cache \<Rightarrow> u16 \<Rightarrow> string \<Rightarrow> u16 \<Rightarrow>
     (binary_identity_cache \<times> connect_decision) option" where
  "evaluate_opa_tcp env cache peer_port host port =
     (let pid = pe_entrypoint_pid env in
      if pid = 0 then Some (cache, deny_decision ''entrypoint process not yet spawned'' None None [] [])
      else
        case resolve_tcp_peer_identity (pe_proc env) pid peer_port of
          None \<Rightarrow> None
        | Some (Inl e) \<Rightarrow>
            Some (cache, deny_decision (''failed to resolve peer binary: '' @ e) None None [] [])
        | Some (Inr (bin_path, binary_pid)) \<Rightarrow>
            (case verify_binary env cache bin_path of
               (cache1, Inl e) \<Rightarrow>
                 Some (cache1, deny_decision (''binary integrity check failed: '' @ e)
                   (Some bin_path) (Some binary_pid) [] [])
             | (cache1, Inr bin_hash) \<Rightarrow>
                 let ancestors = collect_ancestor_binaries (pe_proc env) binary_pid pid in
                 (case verify_ancestors env cache1 ancestors of
                    (cache2, Some reason) \<Rightarrow>
                      Some (cache2, deny_decision reason (Some bin_path) (Some binary_pid) ancestors [])
                  | (cache2, None) \<Rightarrow>
                      let exclude = ancestors @ [bin_path];
                          cmdline_paths = collect_cmdline_paths (pe_proc env) binary_pid pid exclude;
                          input = \<lparr>ni_host = host, ni_port = port, ni_binary_path = bin_path,
                            ni_binary_sha256 = bin_hash, ni_ancestors = ancestors,
                            ni_cmdline_paths = cmdline_paths\<rparr>
                      in
                      (case network_action_of env input of
                         Inr act \<Rightarrow>
                           Some (cache2, \<lparr>cd_action = act, cd_binary = Some bin_path,
                             cd_binary_pid = Some binary_pid, cd_ancestors = ancestors,
                             cd_cmdline_paths = cmdline_paths\<rparr>)
                       | Inl e \<Rightarrow>
                           Some (cache2, deny_decision (''policy evaluation error: '' @ e)
                             (Some bin_path) (Some binary_pid) ancestors cmdline_paths)))))"

section \<open>Endpoint configuration of an allowed connection\<close>

definition decision_input :: "connect_decision \<Rightarrow> string \<Rightarrow> u16 \<Rightarrow> network_input" where
  "decision_input decision host port =
     \<lparr>ni_host = host, ni_port = port, ni_binary_path = unwrap_or (cd_binary decision) '''',
      ni_binary_sha256 = '''', ni_ancestors = cd_ancestors decision,
      ni_cmdline_paths = cd_cmdline_paths decision\<rparr>"

definition has_policy :: "connect_decision \<Rightarrow> bool" where
  "has_policy decision = (case cd_action decision of AllowNet m \<Rightarrow> m \<noteq> None | _ \<Rightarrow> False)"

definition query_l7_config ::
    "'net proxy_env \<Rightarrow> connect_decision \<Rightarrow> string \<Rightarrow> u16 \<Rightarrow> l7_endpoint_config option" where
  "query_l7_config env decision host port =
     (if \<not> has_policy decision then None
      else
        let input = decision_input decision host port in
        case pe_fault env ''matched_endpoint_config'' input of
          Some e \<Rightarrow> None
        | None \<Rightarrow> Option.bind (query_endpoint_config (pe_builtins env) (pe_engine env) input) parse_l7_config)"

definition query_allowed_ips :: "'net proxy_env \<Rightarrow> connect_decision \<Rightarrow> string \<Rightarrow> u16 \<Rightarrow> string list" where
  "query_allowed_ips env decision host port =
     (if \<not> has_policy decision then []
      else
        let input = decision_input decision host port in
        case pe_fault env ''allowed_ips'' input of
          Some e \<Rightarrow> []
        | None \<Rightarrow> query_allowed_ips_engine (pe_builtins env) (pe_engine env) input)"

text \<open>The check of the destination that both handlers make, and the addresses to connect to.\<close>

definition check_destination :: "'net proxy_env \<Rightarrow> string list \<Rightarrow> string \<Rightarrow> u16 \<Rightarrow> string + socket_addr list" where
  "check_destination env raw_allowed_ips host port =
     (if raw_allowed_ips \<noteq> [] then
        (case parse_allowed_ips (pe_ipnet env) raw_allowed_ips of
           Inl reason \<Rightarrow> Inl reason
         | Inr nets \<Rightarrow> resolve_and_check_allowed_ips (pe_ipnet env) (pe_lookup_host env) host port nets)
      else resolve_and_reject_internal (pe_lookup_host env) host port)"

section \<open>Replies, denial events and log lines\<close>

definition respond :: "string \<Rightarrow> duplex \<Rightarrow> (string + unit) \<times> duplex" where
  "respond bytes client =
     (case write_all bytes (tx client) of
        (Inl e, w) \<Rightarrow> (Inl (io_msg e), client\<lparr>tx := w\<rparr>)
      | (Inr _, w) \<Rightarrow> (Inr (), client\<lparr>tx := w\<rparr>))"

text \<open>\<open>respond(..).await?; return Ok(())\<close>.\<close>

definition reply :: "string \<Rightarrow> proxy_state \<Rightarrow> duplex \<Rightarrow> conn_result" where
  "reply bytes st client =
     (case respond bytes client of
        (Inl e, c) \<Rightarrow> \<lparr>cr_result = Fails e, cr_state = st, cr_client = c, cr_upstream = None\<rparr>
      | (Inr _, c) \<Rightarrow> \<lparr>cr_result = Returns (), cr_state = st, cr_client = c, cr_upstream = None\<rparr>)"

definition emit_denial ::
    "'net proxy_env \<Rightarrow> string \<Rightarrow> u16 \<Rightarrow> string \<Rightarrow> connect_decision \<Rightarrow> string \<Rightarrow> string \<Rightarrow> proxy_state \<Rightarrow> proxy_state" where
  "emit_denial env host port binary decision reason stage st =
     (if pe_denial_tx env then
        st\<lparr>ps_denials := ps_denials st @
          [\<lparr>de_host = host, de_port = port, de_binary = binary,
            de_ancestors = map from_utf8_lossy (cd_ancestors decision), de_deny_reason = reason,
            de_denial_stage = stage, de_l7_method = None, de_l7_path = None\<rparr>]\<rparr>
      else st)"

definition binary_str :: "connect_decision \<Rightarrow> string" where
  "binary_str decision = (case cd_binary decision of None \<Rightarrow> ''-'' | Some p \<Rightarrow> from_utf8_lossy p)"

definition joined_or_dash :: "string \<Rightarrow> string list \<Rightarrow> string" where
  "joined_or_dash sep ps = (if ps = [] then ''-'' else str_join sep (map from_utf8_lossy ps))"

definition log_entry ::
    "socket_addr \<Rightarrow> socket_addr \<Rightarrow> connect_decision \<Rightarrow> string \<Rightarrow> u16 \<Rightarrow> string \<Rightarrow> string \<Rightarrow> string \<Rightarrow> string \<Rightarrow> connect_log" where
  "log_entry peer local decision host port act policy reason message =
     \<lparr>cl_src = peer, cl_proxy = local, cl_dst_host = host, cl_dst_port = port,
      cl_binary = binary_str decision,
      cl_binary_pid = (case cd_binary_pid decision of None \<Rightarrow> ''-'' | Some p \<Rightarrow> dec (unat p)),
      cl_ancestors = joined_or_dash '' -> '' (cd_ancestors decision),
      cl_cmdline = joined_or_dash '', '' (cd_cmdline_paths decision),
      cl_action = act, cl_policy = policy, cl_reason = reason, cl_message = message\<rparr>"

definition add_log :: "connect_log \<Rightarrow> proxy_state \<Rightarrow> proxy_state" where
  "add_log l st = st\<lparr>ps_log := ps_log st @ [l]\<rparr>"

abbreviation forbidden :: string where
  "forbidden \<equiv> ''HTTP/1.1 403 Forbidden'' @ crlf2"

abbreviation established_reply :: string where
  "established_reply \<equiv> ''HTTP/1.1 200 Connection Established'' @ crlf2"

section \<open>Plain requests\<close>

definition handle_forward_proxy ::
    "'net proxy_env \<Rightarrow> proxy_state \<Rightarrow> string \<Rightarrow> string \<Rightarrow> string \<Rightarrow> nat \<Rightarrow> duplex \<Rightarrow> conn_result" where
  "handle_forward_proxy env st m target_uri buf used client =
     (let stop = (\<lambda>r. \<lparr>cr_result = r, cr_state = st, cr_client = client, cr_upstream = None\<rparr>) in
      case parse_proxy_uri target_uri of
        Inl e \<Rightarrow> reply (''HTTP/1.1 400 Bad Request'' @ crlf2) st client
      | Inr (scheme, host, port, path) \<Rightarrow>
          let host_lc = to_ascii_lowercase host in
          if scheme = ''https'' then
            reply (''HTTP/1.1 400 Bad Request'' @ crlf @ ''Content-Length: 27'' @ crlf2 @
              ''Use CONNECT for HTTPS URLs'') st client
          else
          (case (pe_peer env, pe_local env) of
             (Inl e, _) \<Rightarrow> stop (Fails e)
           | (Inr _, Inl e) \<Rightarrow> stop (Fails e)
           | (Inr peer, Inr local) \<Rightarrow>
          (case evaluate_opa_tcp env (ps_cache st) (snd peer) host_lc port of
             None \<Rightarrow> stop Diverges
           | Some (cache, decision) \<Rightarrow>
               let st = st\<lparr>ps_cache := cache\<rparr>;
                   deny = (\<lambda>reason stage st.
                     reply forbidden (emit_denial env host_lc port (binary_str decision) decision reason stage st) client)
               in
               (case cd_action decision of
                  DenyNet reason \<Rightarrow>
                    deny reason ''forward''
                      (add_log (log_entry peer local decision host_lc port ''deny'' ''-'' reason ''FORWARD'') st)
                | AllowNet matched_policy \<Rightarrow>
                    let policy_str = unwrap_or matched_policy ''-'' in
                    if query_l7_config env decision host_lc port \<noteq> None then
                      deny (''endpoint has L7 rules configured; forward proxy bypasses L7 inspection '' @ em_dash @
                            '' use CONNECT'') ''forward-l7-bypass''
                        (add_log (log_entry peer local decision host_lc port ''deny'' policy_str
                          ''endpoint has L7 rules; use CONNECT'' ''FORWARD'') st)
                    else
                      (case check_destination env (query_allowed_ips env decision host_lc port) host port of
                         Inl reason \<Rightarrow> deny reason ''ssrf'' st
                       | Inr addrs \<Rightarrow>
                           (case pe_connect env addrs of
                              Inl e \<Rightarrow> reply (''HTTP/1.1 502 Bad Gateway'' @ crlf2) st client
                            | Inr upstream \<Rightarrow>
                                let st = add_log (log_entry peer local decision host_lc port ''allow'' policy_str
                                           '''' ''FORWARD'') st;
                                    rewritten = rewrite_forward_request buf used path (pe_secrets env)
                                in
                                (case respond rewritten upstream of
                                   (Inl e, u) \<Rightarrow>
                                     \<lparr>cr_result = Fails e, cr_state = st, cr_client = client,
                                      cr_upstream = Some (addrs, u)\<rparr>
                                 | (Inr _, u) \<Rightarrow>
                                     (case pe_copy env client u of
                                        (Inl e, c, u') \<Rightarrow>
                                          \<lparr>cr_result = Fails (io_msg e), cr_state = st, cr_client = c,
                                           cr_upstream = Some (addrs, u')\<rparr>
                                      | (Inr _, c, u') \<Rightarrow>
                                          \<lparr>cr_result = Returns (), cr_state = st, cr_client = c,
                                           cr_upstream = Some (addrs, u')\<rparr>))))))))"

section \<open>Tunnels\<close>

definition l7_context :: "'net proxy_env \<Rightarrow> connect_decision \<Rightarrow> string \<Rightarrow> u16 \<Rightarrow> l7_eval_context" where
  "l7_context env decision host port =
     \<lparr>lx_host = host, lx_port = port,
      lx_policy_name = (case cd_action decision of AllowNet m \<Rightarrow> unwrap_or m '''' | _ \<Rightarrow> ''''),
      lx_binary_path = (case cd_binary decision of None \<Rightarrow> '''' | Some p \<Rightarrow> from_utf8_lossy p),
      lx_ancestors = map from_utf8_lossy (cd_ancestors decision),
      lx_cmdline_paths = map from_utf8_lossy (cd_cmdline_paths decision),
      lx_secret_resolver = pe_secrets env\<rparr>"

text \<open>Copying without inspection; its error ends the task.\<close>

definition copy_tunnel ::
    "'net proxy_env \<Rightarrow> proxy_state \<Rightarrow> duplex \<Rightarrow> socket_addr list \<Rightarrow> duplex \<Rightarrow> conn_result" where
  "copy_tunnel env st client addrs upstream =
     (case pe_copy env client upstream of
        (Inl e, c, u) \<Rightarrow>
          \<lparr>cr_result = Fails (io_msg e), cr_state = st, cr_client = c, cr_upstream = Some (addrs, u)\<rparr>
      | (Inr _, c, u) \<Rightarrow>
          \<lparr>cr_result = Returns (), cr_state = st, cr_client = c, cr_upstream = Some (addrs, u)\<rparr>)"

text \<open>Inspection; its errors are only logged.\<close>

definition inspect_tunnel ::
    "'net proxy_env \<Rightarrow> proxy_state \<Rightarrow> l7_endpoint_config \<Rightarrow> l7_eval_context \<Rightarrow> duplex \<Rightarrow> socket_addr list \<Rightarrow> duplex \<Rightarrow>
     conn_result" where
  "inspect_tunnel env st config ctx client addrs upstream =
     (case relay_with_inspection (pe_json_text env) (pe_copy env) (pe_builtins env) (eng_data (pe_engine env))
             config ctx client upstream of
        (_, c, u, log) \<Rightarrow>
          \<lparr>cr_result = Returns (), cr_state = st\<lparr>ps_l7_log := ps_l7_log st @ log\<rparr>, cr_client = c,
           cr_upstream = Some (addrs, u)\<rparr>)"

definition l7_tunnel ::
    "'net proxy_env \<Rightarrow> proxy_state \<Rightarrow> l7_endpoint_config \<Rightarrow> connect_decision \<Rightarrow> string \<Rightarrow> u16 \<Rightarrow> duplex \<Rightarrow>
     socket_addr list \<Rightarrow> duplex \<Rightarrow> conn_result" where
  "l7_tunnel env st config decision host port client addrs upstream =
     (let ctx = l7_context env decision host port;
          stop = (\<lambda>r. \<lparr>cr_result = r, cr_state = st, cr_client = client, cr_upstream = Some (addrs, upstream)\<rparr>)
      in
      if cfg_tls config = Terminate then
        (case pe_tls env of
           Some tls \<Rightarrow>
             (case tls_terminate_client tls host client of
                Inl e \<Rightarrow> stop (Returns ())
              | Inr tls_client \<Rightarrow>
                  (case tls_connect_upstream tls host upstream of
                     Inl e \<Rightarrow> stop (Returns ())
                   | Inr tls_upstream \<Rightarrow> inspect_tunnel env st config ctx tls_client addrs tls_upstream))
         | None \<Rightarrow> copy_tunnel env st client addrs upstream)
      else if cfg_protocol config = Rest then
        (case fst (read 8 (rx client)) of
           Inl e \<Rightarrow> stop (Fails (io_msg e))
         | Inr peek \<Rightarrow>
             if peek = [] then stop (Returns ())
             else if \<not> looks_like_http peek then
               stop (Fails ''Protocol mismatch: expected HTTP but received non-HTTP bytes'')
             else inspect_tunnel env st config ctx client addrs upstream)
      else inspect_tunnel env st config ctx client addrs upstream)"

definition allowed_tunnel ::
    "'net proxy_env \<Rightarrow> proxy_state \<Rightarrow> socket_addr \<Rightarrow> socket_addr \<Rightarrow> connect_decision \<Rightarrow> string \<Rightarrow> string \<Rightarrow> u16 \<Rightarrow>
     string option \<Rightarrow> duplex \<Rightarrow> conn_result" where
  "allowed_tunnel env st peer local decision host host_lc port matched_policy client =
     (case check_destination env (query_allowed_ips env decision host_lc port) host port of
        Inl reason \<Rightarrow>
          reply forbidden (emit_denial env host_lc port (binary_str decision) decision reason ''ssrf'' st) client
      | Inr addrs \<Rightarrow>
          (case pe_connect env addrs of
             Inl e \<Rightarrow> \<lparr>cr_result = Fails e, cr_state = st, cr_client = client, cr_upstream = None\<rparr>
           | Inr upstream \<Rightarrow>
               (case respond established_reply client of
                  (Inl e, c) \<Rightarrow>
                    \<lparr>cr_result = Fails e, cr_state = st, cr_client = c, cr_upstream = Some (addrs, upstream)\<rparr>
                | (Inr _, c) \<Rightarrow>
                    let l7_config = query_l7_config env decision host_lc port;
                        connect_msg = (if l7_config \<noteq> None then ''CONNECT_L7'' else ''CONNECT'');
                        st = add_log (log_entry peer local decision host_lc port ''allow''
                               (unwrap_or matched_policy ''-'') '''' connect_msg) st
                    in
                    (case l7_config of
                       Some config \<Rightarrow> l7_tunnel env st config decision host_lc port c addrs upstream
                     | None \<Rightarrow> copy_tunnel env st c addrs upstream))))"

section \<open>A connection\<close>

definition PROXY_MAX_HEADER_BYTES :: nat where
  "PROXY_MAX_HEADER_BYTES = 8192"

definition INFERENCE_LOCAL_HOST :: string where
  "INFERENCE_LOCAL_HOST = ''inference.local''"

text \<open>Reading the head: what was read, or why the handler ends (\<open>Some\<close> is the answer for a head too long).\<close>

function read_connect_head ::
    "string \<Rightarrow> reader \<Rightarrow> ((string + string option) + string) \<times> reader" where
  "read_connect_head acc s =
     (if length acc = PROXY_MAX_HEADER_BYTES then
        (Inl (Inr (Some (''HTTP/1.1 431 Request Header Fields Too Large'' @ crlf2))), s)
      else
        (case read (PROXY_MAX_HEADER_BYTES - length acc) s of
           (Inl e, r) \<Rightarrow> (Inl (Inl (io_msg e)), r)
         | (Inr bs, r) \<Rightarrow>
             if bs = [] then (Inl (Inr None), r)
             else if str_contains (acc @ bs) crlf2 then (Inr (acc @ bs), r)
             else read_connect_head (acc @ bs) r))"
  by pat_completeness auto
termination
  by (relation "measure (\<lambda>(acc, s). length (pending s))") (auto dest!: read_shorter [OF sym])

declare read_connect_head.simps [simp del]

definition handle_connect ::
    "'net proxy_env \<Rightarrow> proxy_state \<Rightarrow> string \<Rightarrow> duplex \<Rightarrow> conn_result" where
  "handle_connect env st tgt client =
     (let stop = (\<lambda>r. \<lparr>cr_result = r, cr_state = st, cr_client = client, cr_upstream = None\<rparr>) in
      case parse_target tgt of
        Inl e \<Rightarrow> stop (Fails e)
      | Inr (host, port) \<Rightarrow>
          let host_lc = to_ascii_lowercase host in
          if host_lc = INFERENCE_LOCAL_HOST then
            (case respond established_reply client of
               (Inl e, c) \<Rightarrow> \<lparr>cr_result = Fails e, cr_state = st, cr_client = c, cr_upstream = None\<rparr>
             | (Inr _, c) \<Rightarrow>
                 (case handle_inference_interception (map_option tls_terminate_client (pe_tls env))
                         (pe_inference env) INFERENCE_LOCAL_HOST c of
                    (outcome, c', _) \<Rightarrow>
                      \<lparr>cr_result = (case outcome of Returns _ \<Rightarrow> Returns () | Fails e \<Rightarrow> Fails e
                                     | Panics \<Rightarrow> Panics | Diverges \<Rightarrow> Diverges),
                       cr_state = st, cr_client = c', cr_upstream = None\<rparr>))
          else
          (case (pe_peer env, pe_local env) of
             (Inl e, _) \<Rightarrow> stop (Fails e)
           | (Inr _, Inl e) \<Rightarrow> stop (Fails e)
           | (Inr peer, Inr local) \<Rightarrow>
               (case evaluate_opa_tcp env (ps_cache st) (snd peer) host_lc port of
                  None \<Rightarrow> stop Diverges
                | Some (cache, decision) \<Rightarrow>
                    let st = st\<lparr>ps_cache := cache\<rparr> in
                    (case cd_action decision of
                       DenyNet reason \<Rightarrow>
                         reply forbidden
                           (emit_denial env host_lc port (binary_str decision) decision reason ''connect''
                             (add_log (log_entry peer local decision host_lc port ''deny'' ''-'' reason ''CONNECT'') st))
                           client
                     | AllowNet matched_policy \<Rightarrow>
                         allowed_tunnel env st peer local decision host host_lc port matched_policy client))))"

definition handle_tcp_connection :: "'net proxy_env \<Rightarrow> proxy_state \<Rightarrow> duplex \<Rightarrow> conn_result" where
  "handle_tcp_connection env st client =
     (case read_connect_head [] (rx client) of
        (Inl (Inl e), r) \<Rightarrow>
          \<lparr>cr_result = Fails e, cr_state = st, cr_client = client\<lparr>rx := r\<rparr>, cr_upstream = None\<rparr>
      | (Inl (Inr None), r) \<Rightarrow>
          \<lparr>cr_result = Returns (), cr_state = st, cr_client = client\<lparr>rx := r\<rparr>, cr_upstream = None\<rparr>
      | (Inl (Inr (Some answer)), r) \<Rightarrow> reply answer st (client\<lparr>rx := r\<rparr>)
      | (Inr buf, r) \<Rightarrow>
          let request_line = hd (str_split_crlf (from_utf8_lossy buf));
              parts = split_whitespace request_line;
              m = (case parts of [] \<Rightarrow> '''' | p # _ \<Rightarrow> p);
              tgt = (case parts of _ # p # _ \<Rightarrow> p | _ \<Rightarrow> '''');
              client = client\<lparr>rx := r\<rparr>
          in if m \<noteq> ''CONNECT'' then handle_forward_proxy env st m tgt buf (length buf) client
             else handle_connect env st tgt client)"

end
