(* ===== verification/ProxyProps.thy ===== *)
theory ProxyProps
  imports Proxy
begin

text \<open>
  What holds of the connection handlers: an upstream connection exists only after an Allow
  decision and only to addresses that passed the destination check, and a refused connection
  has the effects it should and no other.
\<close>

section \<open>Where upstream connections come from\<close>

lemma reply_upstream [simp]: "cr_upstream (reply b st c) = None"
  by (simp add: reply_def split: prod.split sum.split)

lemma reply_state [simp]: "cr_state (reply b st c) = st"
  by (simp add: reply_def split: prod.split sum.split)

lemma copy_tunnel_addrs: "cr_upstream (copy_tunnel env st c addrs u) = Some (a, v) \<Longrightarrow> a = addrs"
  by (auto simp: copy_tunnel_def split: prod.splits sum.splits)

lemma inspect_tunnel_addrs: "cr_upstream (inspect_tunnel env st cfg ctx c addrs u) = Some (a, v) \<Longrightarrow> a = addrs"
  by (auto simp: inspect_tunnel_def split: prod.splits)

lemma l7_tunnel_addrs: "cr_upstream (l7_tunnel env st cfg d h p c addrs u) = Some (a, v) \<Longrightarrow> a = addrs"
  by (auto simp: l7_tunnel_def Let_def split: if_splits option.splits sum.splits
      dest: copy_tunnel_addrs inspect_tunnel_addrs)

text \<open>The handlers change the identity cache only by the decision.\<close>

lemma copy_tunnel_cache: "ps_cache (cr_state (copy_tunnel env st c addrs u)) = ps_cache st"
  by (simp add: copy_tunnel_def split: prod.splits sum.splits)

lemma inspect_tunnel_cache: "ps_cache (cr_state (inspect_tunnel env st cfg ctx c addrs u)) = ps_cache st"
  by (simp add: inspect_tunnel_def split: prod.splits)

lemma l7_tunnel_cache: "ps_cache (cr_state (l7_tunnel env st cfg d h p c addrs u)) = ps_cache st"
  by (simp add: l7_tunnel_def Let_def copy_tunnel_cache inspect_tunnel_cache split: option.splits sum.splits)

lemma emit_denial_cache [simp]: "ps_cache (emit_denial env h p b d r s st) = ps_cache st"
  by (simp add: emit_denial_def)

lemma add_log_cache [simp]: "ps_cache (add_log l st) = ps_cache st"
  by (simp add: add_log_def)

lemma allowed_tunnel_cache:
  "ps_cache (cr_state (allowed_tunnel env st peer local d host host_lc port mp c)) = ps_cache st"
  by (simp add: allowed_tunnel_def Let_def copy_tunnel_cache l7_tunnel_cache split: sum.splits prod.splits option.splits)

text \<open>
  A connection was allowed: by the decision for the peer, which left the cache \<open>cache'\<close>, and its
  destination was checked.
\<close>

definition authorised ::
    "'net proxy_env \<Rightarrow> binary_identity_cache \<Rightarrow> binary_identity_cache \<Rightarrow> socket_addr list \<Rightarrow> string \<Rightarrow> u16 \<Rightarrow>
     connect_decision \<Rightarrow> bool" where
  "authorised env cache cache' addrs host port decision \<longleftrightarrow>
     (\<exists>peer m. pe_peer env = Inr peer \<and>
        evaluate_opa_tcp env cache (snd peer) (to_ascii_lowercase host) port = Some (cache', decision) \<and>
        cd_action decision = AllowNet m \<and>
        check_destination env (query_allowed_ips env decision (to_ascii_lowercase host) port) host port = Inr addrs)"

lemma allowed_tunnel_addrs:
  "cr_upstream (allowed_tunnel env st peer local d host host_lc port mp c) = Some (a, v) \<Longrightarrow>
   check_destination env (query_allowed_ips env d host_lc port) host port = Inr a"
  by (auto simp: allowed_tunnel_def Let_def split: sum.splits prod.splits option.splits
      dest: copy_tunnel_addrs l7_tunnel_addrs)

lemma handle_connect_authorised:
  assumes "cr_upstream (handle_connect env st tgt c) = Some (a, v)"
  shows "\<exists>host port d. parse_target tgt = Inr (host, port) \<and>
    authorised env (ps_cache st) (ps_cache (cr_state (handle_connect env st tgt c))) a host port d"
proof -
  note def = handle_connect_def Let_def
  from assms obtain host port where t: "parse_target tgt = Inr (host, port)"
    by (cases "parse_target tgt") (auto simp: def)
  let ?h = "to_ascii_lowercase host"
  have h: "?h \<noteq> INFERENCE_LOCAL_HOST" using assms t by (auto simp: def split: prod.splits sum.splits)
  from assms t h obtain peer where peer: "pe_peer env = Inr peer"
    by (cases "pe_peer env") (auto simp: def)
  from assms t h peer obtain local where local: "pe_local env = Inr local"
    by (cases "pe_local env") (auto simp: def)
  from assms t h peer local obtain cache d where
    e: "evaluate_opa_tcp env (ps_cache st) (snd peer) ?h port = Some (cache, d)"
    by (cases "evaluate_opa_tcp env (ps_cache st) (snd peer) ?h port") (auto simp: def)
  from assms t h peer local e obtain m where m: "cd_action d = AllowNet m"
    by (cases "cd_action d") (auto simp: def)
  have run: "handle_connect env st tgt c = allowed_tunnel env (st\<lparr>ps_cache := cache\<rparr>) peer local d host ?h port m c"
    using t h peer local e m by (simp add: def)
  from allowed_tunnel_addrs [OF assms [unfolded run]] t peer e m show ?thesis
    unfolding authorised_def run allowed_tunnel_cache by auto
qed

lemma handle_forward_authorised:
  assumes "cr_upstream (handle_forward_proxy env st m uri buf used c) = Some (a, v)"
  shows "\<exists>scheme host port path d. parse_proxy_uri uri = Inr (scheme, host, port, path) \<and>
    authorised env (ps_cache st) (ps_cache (cr_state (handle_forward_proxy env st m uri buf used c))) a host port d \<and>
    query_l7_config env d (to_ascii_lowercase host) port = None"
proof -
  note def = handle_forward_proxy_def Let_def
  from assms obtain scheme host port path where t: "parse_proxy_uri uri = Inr (scheme, host, port, path)"
    by (cases "parse_proxy_uri uri") (auto simp: def)
  have s: "scheme \<noteq> ''https''" using assms t by (auto simp: def)
  from assms t s obtain peer where peer: "pe_peer env = Inr peer"
    by (cases "pe_peer env") (auto simp: def)
  from assms t s peer obtain local where local: "pe_local env = Inr local"
    by (cases "pe_local env") (auto simp: def)
  let ?h = "to_ascii_lowercase host"
  from assms t s peer local obtain cache d where
    e: "evaluate_opa_tcp env (ps_cache st) (snd peer) ?h port = Some (cache, d)"
    by (cases "evaluate_opa_tcp env (ps_cache st) (snd peer) ?h port") (auto simp: def)
  from assms t s peer local e obtain k where k: "cd_action d = AllowNet k"
    by (cases "cd_action d") (auto simp: def)
  from assms t s peer local e k have l7: "query_l7_config env d ?h port = None"
    by (cases "query_l7_config env d ?h port") (auto simp: def)
  have cache: "ps_cache (cr_state (handle_forward_proxy env st m uri buf used c)) = cache"
    using t s peer local e k l7 by (simp add: def split: sum.splits prod.splits)
  from assms t s peer local e k l7 have "check_destination env (query_allowed_ips env d ?h port) host port = Inr a"
    by (cases "check_destination env (query_allowed_ips env d ?h port) host port")
      (auto simp: def split: sum.splits prod.splits)
  with t peer e k l7 show ?thesis unfolding authorised_def cache by blast
qed

text \<open>The destination a request head asks for.\<close>

definition requested_destination :: "string \<Rightarrow> string + string \<times> u16" where
  "requested_destination buf =
     (let parts = split_whitespace (hd (str_split_crlf (from_utf8_lossy buf)));
          tgt = (case parts of _ # p # _ \<Rightarrow> p | _ \<Rightarrow> '''')
      in if parts \<noteq> [] \<and> hd parts = ''CONNECT'' then parse_target tgt
         else map_sum id (\<lambda>(scheme, host, port, path). (host, port)) (parse_proxy_uri tgt))"

lemma handle_tcp_authorised:
  assumes "cr_upstream (handle_tcp_connection env st c) = Some (a, v)"
  shows "\<exists>buf r host port d. read_connect_head [] (rx c) = (Inr buf, r) \<and>
    requested_destination buf = Inr (host, port) \<and>
    authorised env (ps_cache st) (ps_cache (cr_state (handle_tcp_connection env st c))) a host port d"
proof -
  obtain h r where rd: "read_connect_head [] (rx c) = (h, r)" by fastforce
  from assms rd obtain buf where buf: "h = Inr buf"
    by (auto simp: handle_tcp_connection_def split: sum.splits option.splits)
  define parts where "parts = split_whitespace (hd (str_split_crlf (from_utf8_lossy buf)))"
  define m where "m = (case parts of [] \<Rightarrow> '''' | p # _ \<Rightarrow> p)"
  define tgt where "tgt = (case parts of _ # p # _ \<Rightarrow> p | _ \<Rightarrow> '''')"
  have run: "handle_tcp_connection env st c =
      (if m \<noteq> ''CONNECT'' then handle_forward_proxy env st m tgt buf (length buf) (c\<lparr>rx := r\<rparr>)
       else handle_connect env st tgt (c\<lparr>rx := r\<rparr>))"
    by (simp add: handle_tcp_connection_def rd buf Let_def parts_def m_def tgt_def)
  have connect: "m = ''CONNECT'' \<longleftrightarrow> parts \<noteq> [] \<and> hd parts = ''CONNECT''"
    by (cases parts) (simp_all add: m_def)
  have dst: "requested_destination buf =
      (if m = ''CONNECT'' then parse_target tgt
       else map_sum id (\<lambda>(scheme, host, port, path). (host, port)) (parse_proxy_uri tgt))"
    unfolding requested_destination_def Let_def parts_def [symmetric] tgt_def [symmetric] connect ..
  show ?thesis
  proof (cases "m = ''CONNECT''")
    case True
    with assms run have "cr_upstream (handle_connect env st tgt (c\<lparr>rx := r\<rparr>)) = Some (a, v)" by simp
    from handle_connect_authorised [OF this] rd buf dst True run show ?thesis by auto
  next
    case False
    with assms run
    have "cr_upstream (handle_forward_proxy env st m tgt buf (length buf) (c\<lparr>rx := r\<rparr>)) = Some (a, v)" by simp
    from handle_forward_authorised [OF this] rd buf dst False run show ?thesis by auto
  qed
qed

lemma check_destination_Inr:
  "check_destination env raw host port = Inr addrs \<longleftrightarrow>
   (\<exists>ips. pe_lookup_host env host port = Inr ips \<and> ips \<noteq> [] \<and> addrs = map (\<lambda>ip. (ip, port)) ips \<and>
     (if raw = [] then list_all (\<lambda>ip. \<not> is_internal_ip ip) ips
      else \<exists>nets. parse_allowed_ips (pe_ipnet env) raw = Inr nets \<and>
        list_all (\<lambda>ip. \<not> is_always_blocked_ip ip \<and> list_ex (\<lambda>n. net_contains (pe_ipnet env) n ip) nets) ips))"
  by (auto simp: check_destination_def resolve_and_reject_internal_Inr resolve_and_check_allowed_ips_Inr
      list_all_iff list_ex_iff split: sum.split)

section \<open>What a decision rests on\<close>

lemma verify_binary_golden:
  "verify_binary env cache path = (cache', r) \<Longrightarrow> golden cache q = Some g \<Longrightarrow> golden cache' q = Some g"
  by (auto simp: verify_binary_def verify_or_cache_with_hasher_def split: sum.splits intro: commit_hash_golden)

lemma verify_binary_ok: "verify_binary env cache path = (cache', Inr h) \<Longrightarrow> golden cache' path = Some h"
  by (auto simp: verify_binary_def verify_or_cache_with_hasher_def split: sum.splits
      dest: lookup_cached_ok commit_hash_ok)

lemma verify_ancestors_golden:
  "verify_ancestors env cache as = (cache', r) \<Longrightarrow> golden cache q = Some g \<Longrightarrow> golden cache' q = Some g"
  by (induction env cache as arbitrary: r rule: verify_ancestors.induct)
    (auto split: prod.splits sum.splits dest: verify_binary_golden)

lemma verify_ancestors_ok:
  "verify_ancestors env cache as = (cache', None) \<Longrightarrow> a \<in> set as \<Longrightarrow> golden cache' a \<noteq> None"
proof (induction env cache as rule: verify_ancestors.induct)
  case (2 env cache b as)
  from "2.prems"(1) obtain c1 h where b: "verify_binary env cache b = (c1, Inr h)"
    and rest: "verify_ancestors env c1 as = (cache', None)"
    by (auto split: prod.splits sum.splits)
  show ?case
  proof (cases "a \<in> set as")
    case True
    with "2.IH" [OF b [symmetric] refl rest] show ?thesis by simp
  next
    case False
    with "2.prems"(2) have "a = b" by simp
    with verify_ancestors_golden [OF rest verify_binary_ok [OF b]] show ?thesis by simp
  qed
qed simp

text \<open>
  An Allow decision: the peer was resolved, its binary and its ancestors' binaries are trusted
  with a hash by the cache the decision leaves behind, and the policy engine allowed exactly
  this identity.
\<close>

lemma evaluate_opa_tcp_allow:
  assumes "evaluate_opa_tcp env cache pp host port = Some (cache', d)" "cd_action d = AllowNet m"
  shows "\<exists>path pid i. resolve_tcp_peer_identity (pe_proc env) (pe_entrypoint_pid env) pp = Some (Inr (path, pid)) \<and>
    pe_entrypoint_pid env \<noteq> 0 \<and>
    ni_host i = host \<and> ni_port i = port \<and> ni_binary_path i = path \<and>
    ni_ancestors i = collect_ancestor_binaries (pe_proc env) pid (pe_entrypoint_pid env) \<and>
    golden cache' path = Some (ni_binary_sha256 i) \<and>
    (\<forall>a \<in> set (ni_ancestors i). golden cache' a \<noteq> None) \<and>
    evaluate_network_action (pe_builtins env) (pe_engine env) i = AllowNet m \<and>
    cd_binary d = Some path \<and> cd_ancestors d = ni_ancestors i \<and> cd_cmdline_paths d = ni_cmdline_paths i"
proof -
  let ?pid = "pe_entrypoint_pid env"
  note def = evaluate_opa_tcp_def Let_def deny_decision_def
  have pid: "?pid \<noteq> 0" using assms by (auto simp: def)
  obtain path pid where r: "resolve_tcp_peer_identity (pe_proc env) ?pid pp = Some (Inr (path, pid))"
    using assms pid by (auto simp: def split: option.splits sum.splits)
  obtain c1 h where v: "verify_binary env cache path = (c1, Inr h)"
    using assms pid r by (auto simp: def split: prod.splits sum.splits)
  let ?anc = "collect_ancestor_binaries (pe_proc env) pid ?pid"
  obtain c2 where a: "verify_ancestors env c1 ?anc = (c2, None)"
    using assms pid r v by (cases "verify_ancestors env c1 ?anc"; cases "snd (verify_ancestors env c1 ?anc)") (auto simp: def)
  define i where "i = \<lparr>ni_host = host, ni_port = port, ni_binary_path = path, ni_binary_sha256 = h,
    ni_ancestors = ?anc, ni_cmdline_paths = collect_cmdline_paths (pe_proc env) pid ?pid (?anc @ [path])\<rparr>"
  have n: "network_action_of env i = Inr (AllowNet m)"
    using assms pid r v a by (cases "network_action_of env i") (auto simp: def i_def)
  have d: "cache' = c2" "cd_binary d = Some path" "cd_ancestors d = ?anc"
    "cd_cmdline_paths d = ni_cmdline_paths i"
    using assms pid r v a n by (auto simp: def i_def)
  have "golden c2 path = Some h" by (rule verify_ancestors_golden [OF a verify_binary_ok [OF v]])
  moreover have "evaluate_network_action (pe_builtins env) (pe_engine env) i = AllowNet m"
    using n by (simp add: network_action_of_def split: option.splits)
  moreover have "\<forall>b \<in> set ?anc. golden c2 b \<noteq> None" using verify_ancestors_ok [OF a] by blast
  ultimately show ?thesis
    using pid r d by (intro exI [of _ path] exI [of _ pid] exI [of _ i]) (simp add: i_def)
qed

section \<open>What an inspected tunnel sends\<close>

text \<open>The plaintext of the client that is inspected: its own bytes, or those TLS termination gives.\<close>

definition plaintext_of :: "'net proxy_env \<Rightarrow> string \<Rightarrow> reader \<Rightarrow> string \<Rightarrow> bool" where
  "plaintext_of env host s cin \<longleftrightarrow>
     cin = pending s \<or>
     (\<exists>tls c tc. pe_tls env = Some tls \<and> rx c = s \<and> tls_terminate_client tls host c = Inr tc \<and> cin = pending (rx tc))"

lemma inspect_tunnel_served:
  assumes "cr_upstream (inspect_tunnel env st config ctx c addrs up) = Some (a, u)"
    "cfg_protocol config = Rest" "cfg_enforcement config = Enforce" "written (tx up) = []"
  shows "served (l7_allowed (pe_builtins env) (eng_data (pe_engine env)) ctx) (lx_secret_resolver ctx)
    (pending (rx c)) [] (written (tx u))"
proof -
  obtain res c' u' log where run: "relay_rest (pe_json_text env) (pe_builtins env) (eng_data (pe_engine env))
      config ctx c up = (res, c', u', log)" by (metis surj_pair)
  with assms(1,2) have "u = u'" by (simp add: inspect_tunnel_def relay_with_inspection_def)
  with relay_rest_served [OF run] assms(3,4) show ?thesis by simp
qed

lemma l7_tunnel_served:
  assumes "cr_upstream (l7_tunnel env st config d host port c addrs up) = Some (a, u)"
    "cfg_protocol config = Rest" "cfg_enforcement config = Enforce"
    "cfg_tls config = Terminate \<Longrightarrow> pe_tls env \<noteq> None" "written (tx up) = []"
    "\<And>tls v. pe_tls env = Some tls \<Longrightarrow> tls_connect_upstream tls host up = Inr v \<Longrightarrow> written (tx v) = []"
  shows "\<exists>cin. plaintext_of env host (rx c) cin \<and>
    served (l7_allowed (pe_builtins env) (eng_data (pe_engine env)) (l7_context env d host port)) (pe_secrets env)
      cin [] (written (tx u))"
proof -
  let ?ctx = "l7_context env d host port"
  have res: "lx_secret_resolver ?ctx = pe_secrets env" by (simp add: l7_context_def)
  consider (idle) "u = up" | (plain) "cr_upstream (inspect_tunnel env st config ?ctx c addrs up) = Some (a, u)"
    | (tls) tls tc v where "pe_tls env = Some tls" "tls_terminate_client tls host c = Inr tc"
        "tls_connect_upstream tls host up = Inr v"
        "cr_upstream (inspect_tunnel env st config ?ctx tc addrs v) = Some (a, u)"
    using assms(1,2,4) by (auto simp: l7_tunnel_def Let_def split: if_splits option.splits sum.splits)
  then show ?thesis
  proof cases
    case idle
    with assms(5) show ?thesis by (auto simp: plaintext_of_def intro: served_end)
  next
    case plain
    from inspect_tunnel_served [OF plain assms(2,3,5)] show ?thesis
      by (auto simp: plaintext_of_def res)
  next
    case tls
    from inspect_tunnel_served [OF tls(4) assms(2,3) assms(6) [OF tls(1,3)]] tls(1,2) show ?thesis
      by (auto simp: plaintext_of_def res)
  qed
qed

lemma respond_rx: "respond b d = (x, d') \<Longrightarrow> rx d' = rx d"
  by (auto simp: respond_def split: prod.splits sum.splits)

text \<open>At an endpoint with an L7 configuration a connection is served by a tunnel or not at all.\<close>

lemma handle_tcp_tunnel:
  assumes "cr_upstream (handle_tcp_connection env st c) = Some (a, u)"
    "read_connect_head [] (rx c) = (Inr buf, r)" "requested_destination buf = Inr (host, port)"
    "pe_peer env = Inr peer"
    "evaluate_opa_tcp env (ps_cache st) (snd peer) (to_ascii_lowercase host) port = Some (cache, d)"
    "query_l7_config env d (to_ascii_lowercase host) port = Some config"
  shows "\<exists>st' c' up addrs. pe_connect env addrs = Inr up \<and> rx c' = r \<and>
    (u = up \<or>
     cr_upstream (l7_tunnel env st' config d (to_ascii_lowercase host) port c' addrs up) = Some (a, u))"
proof -
  let ?h = "to_ascii_lowercase host"
  define parts where "parts = split_whitespace (hd (str_split_crlf (from_utf8_lossy buf)))"
  define m where "m = (case parts of [] \<Rightarrow> '''' | p # _ \<Rightarrow> p)"
  define tgt where "tgt = (case parts of _ # p # _ \<Rightarrow> p | _ \<Rightarrow> '''')"
  have run: "handle_tcp_connection env st c =
      (if m \<noteq> ''CONNECT'' then handle_forward_proxy env st m tgt buf (length buf) (c\<lparr>rx := r\<rparr>)
       else handle_connect env st tgt (c\<lparr>rx := r\<rparr>))"
    by (simp add: handle_tcp_connection_def assms(2) Let_def parts_def m_def tgt_def)
  have connect: "m = ''CONNECT'' \<longleftrightarrow> parts \<noteq> [] \<and> hd parts = ''CONNECT''"
    by (cases parts) (simp_all add: m_def)
  have dst: "(if m = ''CONNECT'' then parse_target tgt
       else map_sum id (\<lambda>(scheme, host, port, path). (host, port)) (parse_proxy_uri tgt)) = Inr (host, port)"
    using assms(3) unfolding requested_destination_def Let_def parts_def [symmetric] tgt_def [symmetric] connect .
  have "m = ''CONNECT''"
  proof (rule ccontr)
    assume m: "m \<noteq> ''CONNECT''"
    with assms(1) run
    have "cr_upstream (handle_forward_proxy env st m tgt buf (length buf) (c\<lparr>rx := r\<rparr>)) = Some (a, u)" by simp
    from handle_forward_authorised [OF this] dst m assms(4-6) show False
      by (auto simp: authorised_def)
  qed
  with run dst assms(1) have up: "cr_upstream (handle_connect env st tgt (c\<lparr>rx := r\<rparr>)) = Some (a, u)"
    and t: "parse_target tgt = Inr (host, port)" by simp_all
  note def = handle_connect_def Let_def
  have h: "?h \<noteq> INFERENCE_LOCAL_HOST" using up t by (auto simp: def split: prod.splits sum.splits)
  from up t h assms(4) obtain local where local: "pe_local env = Inr local"
    by (cases "pe_local env") (auto simp: def)
  from up t h assms(4,5) local obtain k where k: "cd_action d = AllowNet k"
    by (cases "cd_action d") (auto simp: def)
  have at: "cr_upstream (allowed_tunnel env (st\<lparr>ps_cache := cache\<rparr>) peer local d host ?h port k (c\<lparr>rx := r\<rparr>)) =
      Some (a, u)"
    using up t h assms(4,5) local k by (simp add: def)
  from at obtain addrs where addrs:
    "check_destination env (query_allowed_ips env d ?h port) host port = Inr addrs"
    using allowed_tunnel_addrs by blast
  from at addrs obtain v where v: "pe_connect env addrs = Inr v"
    by (cases "pe_connect env addrs") (auto simp: allowed_tunnel_def)
  obtain y c' where c': "respond established_reply (c\<lparr>rx := r\<rparr>) = (y, c')" by (metis surj_pair)
  have rx: "rx c' = r" using respond_rx [OF c'] by simp
  have "u = v \<or> (\<exists>st'. cr_upstream (l7_tunnel env st' config d ?h port c' addrs v) = Some (a, u))"
    using at addrs v c' assms(6) by (cases y) (auto simp: allowed_tunnel_def Let_def)
  with v rx show ?thesis by blast
qed

section \<open>Properties\<close>


definition sample_env :: "unit proxy_env" where
  "sample_env =
     \<lparr>pe_engine = sample_eng, pe_builtins = ascii_builtins (\<lambda>_ _ _. False), pe_fault = (\<lambda>_ _. None),
      pe_proc = sample_proc\<lparr>pf_read_link := (\<lambda>p. if p = ''/proc/9/fd/3'' then Inr ''socket:[4242]''
        else if p = ''/proc/9/exe'' then Inr ''/bin/curl'' else Inl ''not found'')\<rparr>,
      pe_metadata = (\<lambda>_. Inr (md_at 1)), pe_hash_file = (\<lambda>_. Inr ''h''),
      pe_entrypoint_pid = 7, pe_peer = Inr (V4 0x7f000001, 36684), pe_local = Inr (V4 0x7f000001, 3128),
      pe_lookup_host = (\<lambda>_ _. Inr [V4 0x08080808]),
      pe_ipnet = \<lparr>net_parse = (\<lambda>_. None), net_host = (\<lambda>_. ()), net_contains = (\<lambda>_ _. False)\<rparr>,
      pe_connect = (\<lambda>_. Inr sample_upstream),
      pe_tls = Some \<lparr>tls_terminate_client = (\<lambda>_ c. Inr c), tls_connect_upstream = (\<lambda>_ u. Inr u)\<rparr>,
      pe_inference = None, pe_secrets = None, pe_denial_tx = True, pe_json_text = (\<lambda>_. ''{}''),
      pe_copy = (\<lambda>c u. (Inr (0, 0), c, u))\<rparr>"

definition sample_state :: proxy_state where
  "sample_state = \<lparr>ps_cache = new_cache, ps_denials = [], ps_log = [], ps_l7_log = []\<rparr>"


end
