(* ===== verification/Store.thy ===== *)
theory Store
  imports Prelude
begin

text \<open>
  The gateway's store, \<open>crates/openshell-server/src/persistence\<close>: the three tables of
  \<open>migrations/sqlite\<close> (\<open>objects\<close>, \<open>sandbox_policies\<close>, \<open>draft_policy_chunks\<close>) and one
  function per statement that \<open>sqlite.rs\<close> prepares; the \<open>Store\<close> of \<open>mod.rs\<close> forwards to them.
  A table is the list of its rows in the order of insertion, which is also the order in which
  rows that an \<open>ORDER BY\<close> does not separate come out; a write that a \<open>PRIMARY KEY\<close> or \<open>UNIQUE\<close>
  constraint forbids is the error with SQLite's text and leaves the tables alone. The clock
  is an argument. Versions and counters are unbounded (SQLite's are 64-bit), no other failure
  of the database is modelled.
\<close>

section \<open>Rows and tables\<close>

record object_record =
  ob_type :: string
  ob_id :: string
  ob_name :: string
  ob_payload :: bytes
  ob_created :: int
  ob_updated :: int

record policy_record =
  pr_id :: string
  pr_sandbox :: string
  pr_version :: int
  pr_payload :: bytes
  pr_hash :: string
  pr_status :: string
  pr_load_error :: "string option"
  pr_created :: int
  pr_loaded :: "int option"

text \<open>The confidence column is a number of units of \<open>2^-27\<close>, as in the denial mapper.\<close>

record draft_chunk =
  dc_id :: string
  dc_sandbox :: string
  dc_version :: int
  dc_status :: string
  dc_rule_name :: string
  dc_rule :: bytes
  dc_rationale :: string
  dc_notes :: string
  dc_confidence :: nat
  dc_created :: int
  dc_decided :: "int option"
  dc_host :: string
  dc_port :: int
  dc_binary :: string
  dc_hits :: int
  dc_first_seen :: int
  dc_last_seen :: int

record store =
  st_objects :: "object_record list"
  st_policies :: "policy_record list"
  st_chunks :: "draft_chunk list"

definition empty_store :: store where
  "empty_store = \<lparr>st_objects = [], st_policies = [], st_chunks = []\<rparr>"

text \<open>\<open>map_db_error\<close> on a violated constraint.\<close>

definition unique_error :: "nat \<Rightarrow> string \<Rightarrow> string" where
  "unique_error num columns =
     ''execution error: database error: error returned from database: (code: '' @ dec num @
     '') UNIQUE constraint failed: '' @ columns"

text \<open>\<open>LIMIT\<close> and \<open>OFFSET\<close>.\<close>

definition page :: "u32 \<Rightarrow> u32 \<Rightarrow> 'a list \<Rightarrow> 'a list" where
  "page limit offset rows = take (unat limit) (drop (unat offset) rows)"

section \<open>Objects\<close>

text \<open>
  \<open>INSERT .. ON CONFLICT (id) DO UPDATE .. WHERE\<close> the stored type is the new one: the row of
  another type with the same id is left as it is, without an error, and an update keeps the
  stored name.
\<close>

definition put_object :: "int \<Rightarrow> string \<Rightarrow> string \<Rightarrow> string \<Rightarrow> bytes \<Rightarrow> store \<Rightarrow> string + store" where
  "put_object now object_type id' name payload s =
     (if list_ex (\<lambda>r. ob_id r = id') (st_objects s) then
        Inr (s\<lparr>st_objects :=
          map (\<lambda>r. if ob_id r = id' \<and> ob_type r = object_type
                   then r\<lparr>ob_payload := payload, ob_updated := now\<rparr> else r) (st_objects s)\<rparr>)
      else if list_ex (\<lambda>r. ob_type r = object_type \<and> ob_name r = name) (st_objects s) then
        Inl (unique_error 2067 ''objects.object_type, objects.name'')
      else
        Inr (s\<lparr>st_objects := st_objects s @
          [\<lparr>ob_type = object_type, ob_id = id', ob_name = name, ob_payload = payload,
            ob_created = now, ob_updated = now\<rparr>]\<rparr>))"

definition get_object :: "string \<Rightarrow> string \<Rightarrow> store \<Rightarrow> object_record option" where
  "get_object object_type id' s =
     find (\<lambda>r. ob_type r = object_type \<and> ob_id r = id') (st_objects s)"

definition get_object_by_name :: "string \<Rightarrow> string \<Rightarrow> store \<Rightarrow> object_record option" where
  "get_object_by_name object_type name s =
     find (\<lambda>r. ob_type r = object_type \<and> ob_name r = name) (st_objects s)"

definition delete_where :: "('a \<Rightarrow> bool) \<Rightarrow> 'a list \<Rightarrow> nat \<times> 'a list" where
  "delete_where P rows = (length (filter P rows), filter (\<lambda>r. \<not> P r) rows)"

definition delete_object :: "string \<Rightarrow> string \<Rightarrow> store \<Rightarrow> bool \<times> store" where
  "delete_object object_type id' s =
     (case delete_where (\<lambda>r. ob_type r = object_type \<and> ob_id r = id') (st_objects s) of
        (n, rows) \<Rightarrow> (0 < n, s\<lparr>st_objects := rows\<rparr>))"

definition delete_object_by_name :: "string \<Rightarrow> string \<Rightarrow> store \<Rightarrow> bool \<times> store" where
  "delete_object_by_name object_type name s =
     (case delete_where (\<lambda>r. ob_type r = object_type \<and> ob_name r = name) (st_objects s) of
        (n, rows) \<Rightarrow> (0 < n, s\<lparr>st_objects := rows\<rparr>))"

definition list_objects :: "string \<Rightarrow> u32 \<Rightarrow> u32 \<Rightarrow> store \<Rightarrow> object_record list" where
  "list_objects object_type limit offset s =
     page limit offset
       (sort_key ob_created (sort_key ob_name (filter (\<lambda>r. ob_type r = object_type) (st_objects s))))"

section \<open>Policy revisions\<close>

definition put_policy_revision ::
    "int \<Rightarrow> string \<Rightarrow> string \<Rightarrow> int \<Rightarrow> bytes \<Rightarrow> string \<Rightarrow> store \<Rightarrow> string + store" where
  "put_policy_revision now id' sandbox_id version payload hash s =
     (if list_ex (\<lambda>r. pr_id r = id') (st_policies s) then
        Inl (unique_error 1555 ''sandbox_policies.id'')
      else if list_ex (\<lambda>r. pr_sandbox r = sandbox_id \<and> pr_version r = version) (st_policies s) then
        Inl (unique_error 2067 ''sandbox_policies.sandbox_id, sandbox_policies.version'')
      else
        Inr (s\<lparr>st_policies := st_policies s @
          [\<lparr>pr_id = id', pr_sandbox = sandbox_id, pr_version = version, pr_payload = payload,
            pr_hash = hash, pr_status = ''pending'', pr_load_error = None, pr_created = now,
            pr_loaded = None\<rparr>]\<rparr>))"

definition revisions_of :: "string \<Rightarrow> store \<Rightarrow> policy_record list" where
  "revisions_of sandbox_id s = filter (\<lambda>r. pr_sandbox r = sandbox_id) (st_policies s)"

definition newest_first :: "policy_record list \<Rightarrow> policy_record list" where
  "newest_first rows = sort_key (\<lambda>r. - pr_version r) rows"

definition first_row :: "'a list \<Rightarrow> 'a option" where
  "first_row rows = (case rows of [] \<Rightarrow> None | r # _ \<Rightarrow> Some r)"

definition get_latest_policy :: "string \<Rightarrow> store \<Rightarrow> policy_record option" where
  "get_latest_policy sandbox_id s = first_row (newest_first (revisions_of sandbox_id s))"

definition get_latest_loaded_policy :: "string \<Rightarrow> store \<Rightarrow> policy_record option" where
  "get_latest_loaded_policy sandbox_id s =
     first_row (newest_first (filter (\<lambda>r. pr_status r = ''loaded'') (revisions_of sandbox_id s)))"

definition get_policy_by_version :: "string \<Rightarrow> int \<Rightarrow> store \<Rightarrow> policy_record option" where
  "get_policy_by_version sandbox_id version s =
     find (\<lambda>r. pr_version r = version) (revisions_of sandbox_id s)"

definition list_policies :: "string \<Rightarrow> u32 \<Rightarrow> u32 \<Rightarrow> store \<Rightarrow> policy_record list" where
  "list_policies sandbox_id limit offset s =
     page limit offset (newest_first (revisions_of sandbox_id s))"

definition update_where :: "('a \<Rightarrow> bool) \<Rightarrow> ('a \<Rightarrow> 'a) \<Rightarrow> 'a list \<Rightarrow> nat \<times> 'a list" where
  "update_where P f rows = (length (filter P rows), map (\<lambda>r. if P r then f r else r) rows)"

definition update_policy_status ::
    "string \<Rightarrow> int \<Rightarrow> string \<Rightarrow> string option \<Rightarrow> int option \<Rightarrow> store \<Rightarrow> bool \<times> store" where
  "update_policy_status sandbox_id version status load_error loaded_at s =
     (case update_where (\<lambda>r. pr_sandbox r = sandbox_id \<and> pr_version r = version)
             (\<lambda>r. r\<lparr>pr_status := status, pr_load_error := load_error, pr_loaded := loaded_at\<rparr>)
             (st_policies s) of
        (n, rows) \<Rightarrow> (0 < n, s\<lparr>st_policies := rows\<rparr>))"

definition supersede_older_policies :: "string \<Rightarrow> int \<Rightarrow> store \<Rightarrow> nat \<times> store" where
  "supersede_older_policies sandbox_id before_version s =
     (case update_where
             (\<lambda>r. pr_sandbox r = sandbox_id \<and> pr_version r < before_version \<and>
                  (pr_status r = ''pending'' \<or> pr_status r = ''loaded''))
             (\<lambda>r. r\<lparr>pr_status := ''superseded''\<rparr>) (st_policies s) of
        (n, rows) \<Rightarrow> (n, s\<lparr>st_policies := rows\<rparr>))"

section \<open>Draft chunks\<close>

text \<open>The rows of the partial unique index \<open>idx_draft_chunks_endpoint\<close> and their key.\<close>

definition active_status :: "string \<Rightarrow> bool" where
  "active_status status \<longleftrightarrow> status = ''pending'' \<or> status = ''approved'' \<or> status = ''rejected''"

definition chunk_key :: "draft_chunk \<Rightarrow> string \<times> string \<times> int \<times> string" where
  "chunk_key c = (dc_sandbox c, dc_host c, dc_port c, dc_binary c)"

definition chunk_conflict :: "draft_chunk \<Rightarrow> draft_chunk \<Rightarrow> bool" where
  "chunk_conflict c r \<longleftrightarrow>
     active_status (dc_status c) \<and> active_status (dc_status r) \<and> chunk_key r = chunk_key c"

text \<open>\<open>INSERT .. ON CONFLICT\<close> on the partial index \<open>DO UPDATE\<close> the counter and the time.\<close>

definition put_draft_chunk :: "draft_chunk \<Rightarrow> store \<Rightarrow> string + store" where
  "put_draft_chunk c s =
     (if list_ex (chunk_conflict c) (st_chunks s) then
        Inr (s\<lparr>st_chunks :=
          map (\<lambda>r. if chunk_conflict c r
                   then r\<lparr>dc_hits := dc_hits r + dc_hits c, dc_last_seen := dc_last_seen c\<rparr> else r)
            (st_chunks s)\<rparr>)
      else if list_ex (\<lambda>r. dc_id r = dc_id c) (st_chunks s) then
        Inl (unique_error 1555 ''draft_policy_chunks.id'')
      else Inr (s\<lparr>st_chunks := st_chunks s @ [c]\<rparr>))"

definition get_draft_chunk :: "string \<Rightarrow> store \<Rightarrow> draft_chunk option" where
  "get_draft_chunk id' s = find (\<lambda>r. dc_id r = id') (st_chunks s)"

definition list_draft_chunks :: "string \<Rightarrow> string option \<Rightarrow> store \<Rightarrow> draft_chunk list" where
  "list_draft_chunks sandbox_id status_filter s =
     sort_key (\<lambda>r. - dc_created r)
       (filter (\<lambda>r. dc_sandbox r = sandbox_id \<and>
            (case status_filter of Some status \<Rightarrow> dc_status r = status | None \<Rightarrow> True)) (st_chunks s))"

definition update_draft_chunk_status ::
    "string \<Rightarrow> string \<Rightarrow> int option \<Rightarrow> store \<Rightarrow> string + bool \<times> store" where
  "update_draft_chunk_status id' status decided_at s =
     (let upd = (\<lambda>r. r\<lparr>dc_status := status, dc_decided := decided_at\<rparr>) in
      case find (\<lambda>r. dc_id r = id') (st_chunks s) of
        None \<Rightarrow> Inr (False, s)
      | Some c \<Rightarrow>
          if list_ex (\<lambda>r. dc_id r \<noteq> id' \<and> chunk_conflict (upd c) r) (st_chunks s) then
            Inl (unique_error 2067
              ''draft_policy_chunks.sandbox_id, draft_policy_chunks.host, draft_policy_chunks.port, draft_policy_chunks.binary'')
          else
            Inr (True, s\<lparr>st_chunks := map (\<lambda>r. if dc_id r = id' then upd r else r) (st_chunks s)\<rparr>))"

definition update_draft_chunk_rule :: "string \<Rightarrow> bytes \<Rightarrow> store \<Rightarrow> bool \<times> store" where
  "update_draft_chunk_rule id' rule s =
     (case update_where (\<lambda>r. dc_id r = id' \<and> dc_status r = ''pending'') (\<lambda>r. r\<lparr>dc_rule := rule\<rparr>)
             (st_chunks s) of
        (n, rows) \<Rightarrow> (0 < n, s\<lparr>st_chunks := rows\<rparr>))"

definition delete_draft_chunks :: "string \<Rightarrow> string \<Rightarrow> store \<Rightarrow> nat \<times> store" where
  "delete_draft_chunks sandbox_id status s =
     (case delete_where (\<lambda>r. dc_sandbox r = sandbox_id \<and> dc_status r = status) (st_chunks s) of
        (n, rows) \<Rightarrow> (n, s\<lparr>st_chunks := rows\<rparr>))"

definition get_draft_version :: "string \<Rightarrow> store \<Rightarrow> int" where
  "get_draft_version sandbox_id s =
     (case map dc_version (filter (\<lambda>r. dc_sandbox r = sandbox_id) (st_chunks s)) of
        [] \<Rightarrow> 0
      | v # vs \<Rightarrow> fold max vs v)"

section \<open>Constraints\<close>

text \<open>The constraints of the three tables.\<close>

definition store_ok :: "store \<Rightarrow> bool" where
  "store_ok s \<longleftrightarrow>
     distinct (map ob_id (st_objects s)) \<and>
     distinct (map (\<lambda>r. (ob_type r, ob_name r)) (st_objects s)) \<and>
     distinct (map pr_id (st_policies s)) \<and>
     distinct (map (\<lambda>r. (pr_sandbox r, pr_version r)) (st_policies s)) \<and>
     distinct (map dc_id (st_chunks s)) \<and>
     distinct (map chunk_key (filter (\<lambda>r. active_status (dc_status r)) (st_chunks s)))"

text \<open>One committed statement of any client of the store.\<close>

inductive store_step :: "store \<Rightarrow> store \<Rightarrow> bool" where
  put_object: "put_object now ty i name payload s = Inr t \<Longrightarrow> store_step s t"
| delete_object: "store_step s (snd (delete_object ty i s))"
| delete_object_by_name: "store_step s (snd (delete_object_by_name ty name s))"
| put_policy_revision: "put_policy_revision now i sb version payload hash s = Inr t \<Longrightarrow> store_step s t"
| update_policy_status: "store_step s (snd (update_policy_status sb version status err at s))"
| supersede_older_policies: "store_step s (snd (supersede_older_policies sb version s))"
| put_draft_chunk: "put_draft_chunk c s = Inr t \<Longrightarrow> store_step s t"
| update_draft_chunk_status: "update_draft_chunk_status i status at s = Inr (b, t) \<Longrightarrow> store_step s t"
| update_draft_chunk_rule: "store_step s (snd (update_draft_chunk_rule i rule s))"
| delete_draft_chunks: "store_step s (snd (delete_draft_chunks sb status s))"

abbreviation store_steps :: "store \<Rightarrow> store \<Rightarrow> bool" where
  "store_steps \<equiv> store_step\<^sup>*\<^sup>*"

lemmas store_defs = put_object_def delete_object_def delete_object_by_name_def put_policy_revision_def
  update_policy_status_def supersede_older_policies_def put_draft_chunk_def
  update_draft_chunk_status_def update_draft_chunk_rule_def delete_draft_chunks_def
  delete_where_def update_where_def

lemma find_mem: "find P rows = Some r \<Longrightarrow> r \<in> set rows \<and> P r"
  by (metis find_Some_iff nth_mem)

lemma map_update: "(\<And>r. P r \<Longrightarrow> f (g r) = f r) \<Longrightarrow> map f (map (\<lambda>r. if P r then g r else r) rows) = map f rows"
  by simp

lemma distinct_map_snoc: "distinct (map f (rows @ [r])) \<longleftrightarrow> distinct (map f rows) \<and> f r \<notin> f ` set rows"
  by auto

lemma distinct_map_filterI: "distinct (map f rows) \<Longrightarrow> distinct (map f (filter P rows))"
  by (simp add: distinct_map_filter)

lemma store_ok_chunks: "store_ok (s\<lparr>st_chunks := rows\<rparr>) \<longleftrightarrow>
    distinct (map ob_id (st_objects s)) \<and> distinct (map (\<lambda>r. (ob_type r, ob_name r)) (st_objects s)) \<and>
    distinct (map pr_id (st_policies s)) \<and>
    distinct (map (\<lambda>r. (pr_sandbox r, pr_version r)) (st_policies s)) \<and>
    distinct (map dc_id rows) \<and>
    distinct (map chunk_key (filter (\<lambda>r. active_status (dc_status r)) rows))"
  by (simp add: store_ok_def)

lemma put_object_ok:
  assumes "put_object now ty i name payload s = Inr t" "store_ok s"
  shows "store_ok t"
  using assms
  by (auto simp: put_object_def store_ok_def map_update list_ex_iff simp del: map_map split: if_splits)

lemma delete_object_ok: "store_ok s \<Longrightarrow> store_ok (snd (delete_object ty i s))"
  by (simp add: delete_object_def delete_where_def store_ok_def distinct_map_filterI)

lemma delete_object_by_name_ok: "store_ok s \<Longrightarrow> store_ok (snd (delete_object_by_name ty name s))"
  by (simp add: delete_object_by_name_def delete_where_def store_ok_def distinct_map_filterI)

lemma put_policy_revision_ok:
  assumes "put_policy_revision now i sb version payload hash s = Inr t" "store_ok s"
  shows "store_ok t"
  using assms by (auto simp: put_policy_revision_def store_ok_def list_ex_iff split: if_splits)

lemma update_policy_status_ok: "store_ok s \<Longrightarrow> store_ok (snd (update_policy_status sb version status err at s))"
  by (simp add: update_policy_status_def update_where_def store_ok_def map_update del: map_map)

lemma supersede_older_policies_ok: "store_ok s \<Longrightarrow> store_ok (snd (supersede_older_policies sb version s))"
  by (simp add: supersede_older_policies_def update_where_def store_ok_def map_update del: map_map)

lemma map_filter_update:
  "(\<And>r. P r \<Longrightarrow> f (g r) = f r \<and> Q (g r) = Q r) \<Longrightarrow>
   map f (filter Q (map (\<lambda>r. if P r then g r else r) rows)) = map f (filter Q rows)"
  by (induction rows) auto

lemma active_keys_iff:
  assumes "distinct (map dc_id rows)"
  shows "distinct (map chunk_key (filter (\<lambda>r. active_status (dc_status r)) rows)) \<longleftrightarrow>
    (\<forall>r \<in> set rows. \<forall>r' \<in> set rows. active_status (dc_status r) \<longrightarrow> active_status (dc_status r') \<longrightarrow>
       chunk_key r = chunk_key r' \<longrightarrow> dc_id r = dc_id r')"
  using assms by (auto simp: distinct_map inj_on_def)

lemma put_draft_chunk_ok:
  assumes "put_draft_chunk c s = Inr t" "store_ok s"
  shows "store_ok t"
proof (cases "list_ex (chunk_conflict c) (st_chunks s)")
  case True
  with assms show ?thesis
    by (auto simp: put_draft_chunk_def store_ok_def map_update map_filter_update chunk_key_def simp del: map_map)
next
  case False
  with assms show ?thesis
    by (auto simp: put_draft_chunk_def store_ok_def list_ex_iff chunk_conflict_def split: if_splits)
      force+
qed

lemma update_draft_chunk_status_ok:
  assumes "update_draft_chunk_status i status at s = Inr (b, t)" "store_ok s"
  shows "store_ok t"
proof (cases "find (\<lambda>r. dc_id r = i) (st_chunks s)")
  case None
  with assms show ?thesis by (simp add: update_draft_chunk_status_def)
next
  case (Some c)
  let ?upd = "\<lambda>r. r\<lparr>dc_status := status, dc_decided := at\<rparr>"
  let ?rows = "map (\<lambda>r. if dc_id r = i then ?upd r else r) (st_chunks s)"
  from Some have c: "c \<in> set (st_chunks s)" "dc_id c = i" by (auto dest: find_mem)
  have free: "\<not> list_ex (\<lambda>r. dc_id r \<noteq> i \<and> chunk_conflict (?upd c) r) (st_chunks s)"
    and t: "t = s\<lparr>st_chunks := ?rows\<rparr>"
    using Some assms(1) unfolding update_draft_chunk_status_def Let_def by (simp_all split: if_splits)
  have ids: "map dc_id ?rows = map dc_id (st_chunks s)" by (rule map_update) simp
  have dist: "distinct (map dc_id (st_chunks s))" using assms(2) by (simp add: store_ok_def)
  have only: "r = c" if "r \<in> set (st_chunks s)" "dc_id r = i" for r
    using that c dist by (metis distinct_map inj_onD)
  have old: "dc_id r = dc_id r'"
    if "r \<in> set (st_chunks s)" "r' \<in> set (st_chunks s)" "active_status (dc_status r)"
      "active_status (dc_status r')" "chunk_key r = chunk_key r'" for r r'
    using that assms(2) unfolding store_ok_def active_keys_iff [OF dist] by blast
  have new: False
    if "r \<in> set (st_chunks s)" "active_status (dc_status r)" "active_status status" "chunk_key r = chunk_key c"
      "dc_id r \<noteq> i" for r
    using that free unfolding list_ex_iff chunk_conflict_def chunk_key_def by simp blast
  have "dc_id r = dc_id r'"
    if r: "r \<in> set ?rows" and r': "r' \<in> set ?rows" and act: "active_status (dc_status r)" "active_status (dc_status r')"
      and key: "chunk_key r = chunk_key r'" for r r'
  proof -
    have split: "(x \<in> set (st_chunks s) \<and> dc_id x \<noteq> i) \<or> x = ?upd c" if "x \<in> set ?rows" for x
      using that only by auto
    from split [OF r] split [OF r'] show ?thesis
    proof (elim disjE)
      assume "r \<in> set (st_chunks s) \<and> dc_id r \<noteq> i" "r' \<in> set (st_chunks s) \<and> dc_id r' \<noteq> i"
      with old act key show ?thesis by blast
    next
      assume "r \<in> set (st_chunks s) \<and> dc_id r \<noteq> i" "r' = ?upd c"
      with new [of r] act key show ?thesis by (simp add: chunk_key_def)
    next
      assume "r = ?upd c" "r' \<in> set (st_chunks s) \<and> dc_id r' \<noteq> i"
      with new [of r'] act key show ?thesis by (simp add: chunk_key_def)
    qed simp
  qed
  moreover have dist': "distinct (map dc_id ?rows)" unfolding ids by (rule dist)
  ultimately have "distinct (map chunk_key (filter (\<lambda>r. active_status (dc_status r)) ?rows))"
    unfolding active_keys_iff [OF dist'] by blast
  with assms(2) dist' show ?thesis unfolding t store_ok_chunks unfolding store_ok_def by blast
qed

lemma update_draft_chunk_rule_ok: "store_ok s \<Longrightarrow> store_ok (snd (update_draft_chunk_rule i rule s))"
  by (simp add: update_draft_chunk_rule_def update_where_def store_ok_def map_update map_filter_update
      chunk_key_def del: map_map)

lemma delete_draft_chunks_ok: "store_ok s \<Longrightarrow> store_ok (snd (delete_draft_chunks sb status s))"
  by (auto simp: delete_draft_chunks_def delete_where_def store_ok_def distinct_map_filterI filter_filter
      distinct_map inj_on_def)

lemma store_step_ok: "store_step s t \<Longrightarrow> store_ok s \<Longrightarrow> store_ok t"
  by (induction rule: store_step.induct)
    (blast intro: put_object_ok delete_object_ok delete_object_by_name_ok put_policy_revision_ok
      update_policy_status_ok supersede_older_policies_ok put_draft_chunk_ok update_draft_chunk_status_ok
      update_draft_chunk_rule_ok delete_draft_chunks_ok)+

lemma store_steps_ok: "store_steps s t \<Longrightarrow> store_ok s \<Longrightarrow> store_ok t"
  by (induction rule: rtranclp_induct) (auto dest: store_step_ok)

section \<open>Revisions\<close>

lemma sort_key_snoc:
  "(\<forall>y \<in> set xs. f y \<le> f x) \<Longrightarrow> sort_key f (xs @ [x]) = sort_key f xs @ [x]"
proof -
  have ins: "f y \<le> f x \<Longrightarrow> insort_key f y (zs @ [x]) = insort_key f y zs @ [x]" for y zs
    by (induction zs) auto
  show "(\<forall>y \<in> set xs. f y \<le> f x) \<Longrightarrow> sort_key f (xs @ [x]) = sort_key f xs @ [x]"
    by (induction xs) (auto simp: ins)
qed

lemma sort_key_map_same:
  assumes "\<And>x. f (g x) = f x"
  shows "sort_key f (map g xs) = map g (sort_key f xs)"
proof -
  have ins: "insort_key f (g y) (map g zs) = map g (insort_key f y zs)" for y zs
    by (induction zs) (simp_all add: assms)
  show ?thesis by (induction xs) (simp_all add: ins)
qed

lemma first_row_Nil [simp]: "first_row rows = None \<longleftrightarrow> rows = []"
  by (simp add: first_row_def split: list.splits)

lemma first_row_simps [simp]: "first_row [] = None" "first_row (r # rows) = Some r"
  by (simp_all add: first_row_def)

lemma first_row_sort:
  assumes "first_row (sort_key f rows) = Some r"
  shows "r \<in> set rows" "\<forall>x \<in> set rows. f r \<le> f x"
proof -
  obtain rs where rs: "sort_key f rows = r # rs" using assms by (auto simp: first_row_def split: list.splits)
  then have "set (r # rs) = set rows" by (metis set_sort)
  moreover have "sorted (map f (r # rs))" using sorted_sort_key [of f rows] rs by simp
  ultimately show "r \<in> set rows" "\<forall>x \<in> set rows. f r \<le> f x" by auto
qed

lemma first_row_None: "first_row (sort_key f rows) = None \<longleftrightarrow> rows = []"
  by (metis first_row_Nil set_empty set_sort)

definition revision :: "string \<Rightarrow> store \<Rightarrow> int \<Rightarrow> (bytes \<times> string) option" where
  "revision sandbox_id s v =
     map_option (\<lambda>r. (pr_payload r, pr_hash r)) (get_policy_by_version sandbox_id v s)"

text \<open>The version of the latest revision, 0 without one, and the log of a sandbox's policies.\<close>

definition latest_version :: "string \<Rightarrow> store \<Rightarrow> int" where
  "latest_version sandbox_id s = (case get_latest_policy sandbox_id s of None \<Rightarrow> 0 | Some r \<Rightarrow> pr_version r)"

definition history :: "string \<Rightarrow> store \<Rightarrow> (bytes \<times> string) list" where
  "history sandbox_id s =
     map (\<lambda>r. (pr_payload r, pr_hash r)) (sort_key pr_version (revisions_of sandbox_id s))"

text \<open>The versions of a sandbox are \<open>1, 2, .., n\<close>.\<close>

definition versions_ok :: "string \<Rightarrow> store \<Rightarrow> bool" where
  "versions_ok sandbox_id s \<longleftrightarrow>
     pr_version ` set (revisions_of sandbox_id s) = {1 .. latest_version sandbox_id s}"

lemma in_revisions: "r \<in> set (revisions_of sb s) \<longleftrightarrow> r \<in> set (st_policies s) \<and> pr_sandbox r = sb"
  by (auto simp: revisions_of_def)

lemma revisions_unique:
  assumes "store_ok s" "r \<in> set (revisions_of sb s)" "r' \<in> set (revisions_of sb s)" "pr_version r = pr_version r'"
  shows "r = r'"
proof -
  have "inj_on (\<lambda>r. (pr_sandbox r, pr_version r)) (set (st_policies s))"
    using assms(1) by (simp add: store_ok_def distinct_map)
  from inj_onD [OF this] assms(2-) show ?thesis by (simp add: in_revisions)
qed

lemma get_policy_by_version_iff:
  assumes "store_ok s"
  shows "get_policy_by_version sb v s = Some r \<longleftrightarrow> r \<in> set (revisions_of sb s) \<and> pr_version r = v"
proof
  assume "get_policy_by_version sb v s = Some r"
  then show "r \<in> set (revisions_of sb s) \<and> pr_version r = v"
    unfolding get_policy_by_version_def by (rule find_mem)
next
  assume r: "r \<in> set (revisions_of sb s) \<and> pr_version r = v"
  then have "get_policy_by_version sb v s \<noteq> None"
    unfolding get_policy_by_version_def find_None_iff by blast
  then obtain r' where r': "get_policy_by_version sb v s = Some r'" by blast
  from find_mem [OF this [unfolded get_policy_by_version_def]] r
  have "r' = r" using revisions_unique [OF assms, of r' sb r] by metis
  with r' show "get_policy_by_version sb v s = Some r" by simp
qed

lemma revision_iff:
  "store_ok s \<Longrightarrow> revision sb s v = Some x \<longleftrightarrow>
     (\<exists>r \<in> set (revisions_of sb s). pr_version r = v \<and> x = (pr_payload r, pr_hash r))"
  by (auto simp: revision_def get_policy_by_version_iff)

lemma revision_None_iff: "revision sb s v = None \<longleftrightarrow> v \<notin> pr_version ` set (revisions_of sb s)"
  by (auto simp: revision_def get_policy_by_version_def find_None_iff)

lemma get_latest_policy_None: "get_latest_policy sb s = None \<longleftrightarrow> revisions_of sb s = []"
  unfolding get_latest_policy_def newest_first_def by (rule first_row_None)

lemma get_latest_policy_Some:
  assumes "get_latest_policy sb s = Some r"
  shows "r \<in> set (revisions_of sb s)" "\<forall>x \<in> set (revisions_of sb s). pr_version x \<le> pr_version r"
  using first_row_sort [OF assms [unfolded get_latest_policy_def newest_first_def]] by auto

text \<open>
  The interface the handlers rely on when they read a revision, compute on it and write the
  next one while other writers run: what is written under a version stays.
\<close>

locale write_once =
  fixes step :: "'s \<Rightarrow> 's \<Rightarrow> bool"
    and entry :: "'s \<Rightarrow> 'k \<Rightarrow> 'v option"
  assumes kept: "step s t \<Longrightarrow> entry s k = Some v \<Longrightarrow> entry t k = Some v"
begin

lemma kept_steps: "step\<^sup>*\<^sup>* s t \<Longrightarrow> entry s k = Some v \<Longrightarrow> entry t k = Some v"
  by (induction rule: rtranclp_induct) (auto dest: kept)

lemma absent_before: "step\<^sup>*\<^sup>* s t \<Longrightarrow> entry t k = None \<Longrightarrow> entry s k = None"
  by (cases "entry s k") (auto dest: kept_steps)

lemma agree: "step\<^sup>*\<^sup>* s t \<Longrightarrow> entry s k = Some v \<Longrightarrow> entry t k = Some w \<Longrightarrow> v = w"
  by (auto dest: kept_steps)

end

text \<open>The columns of a revision that no statement changes.\<close>

definition fixed_columns :: "policy_record \<Rightarrow> string \<times> int \<times> bytes \<times> string" where
  "fixed_columns r = (pr_sandbox r, pr_version r, pr_payload r, pr_hash r)"

lemma map_update_fixed:
  assumes "\<And>r. P r \<Longrightarrow> fixed_columns (g r) = fixed_columns r"
  obtains h where "map (\<lambda>r. if P r then g r else r) rows = map h rows" "\<And>r. fixed_columns (h r) = fixed_columns r"
  using assms by (intro that [of "\<lambda>r. if P r then g r else r"]) auto

lemma store_step_policies:
  assumes "store_step s t"
  obtains (change) h where "st_policies t = map h (st_policies s)" "\<And>r. fixed_columns (h r) = fixed_columns r"
  | (add) r where "st_policies t = st_policies s @ [r]"
  using assms
proof cases
  case (update_policy_status sb version status err at)
  have "st_policies t = map (\<lambda>r. if pr_sandbox r = sb \<and> pr_version r = version
      then r\<lparr>pr_status := status, pr_load_error := err, pr_loaded := at\<rparr> else r) (st_policies s)"
    using update_policy_status by (simp add: update_policy_status_def update_where_def)
  then show ?thesis by (rule change) (simp add: fixed_columns_def)
next
  case (supersede_older_policies sb version)
  have "st_policies t = map (\<lambda>r. if pr_sandbox r = sb \<and> pr_version r < version \<and>
      (pr_status r = ''pending'' \<or> pr_status r = ''loaded'') then r\<lparr>pr_status := ''superseded''\<rparr> else r) (st_policies s)"
    using supersede_older_policies by (simp add: supersede_older_policies_def update_where_def)
  then show ?thesis by (rule change) (simp add: fixed_columns_def)
next
  case (put_policy_revision now i sb version payload hash)
  then show ?thesis by (auto simp: put_policy_revision_def intro: add split: if_splits)
next
  case (put_object now ty i name payload)
  then have "st_policies t = map (\<lambda>r. r) (st_policies s)" by (auto simp: put_object_def split: if_splits)
  then show ?thesis by (rule change) simp
next
  case (delete_object ty i)
  then have "st_policies t = map (\<lambda>r. r) (st_policies s)" by (simp add: delete_object_def delete_where_def)
  then show ?thesis by (rule change) simp
next
  case (delete_object_by_name ty name)
  then have "st_policies t = map (\<lambda>r. r) (st_policies s)" by (simp add: delete_object_by_name_def delete_where_def)
  then show ?thesis by (rule change) simp
next
  case (put_draft_chunk c)
  then have "st_policies t = map (\<lambda>r. r) (st_policies s)" by (auto simp: put_draft_chunk_def split: if_splits)
  then show ?thesis by (rule change) simp
next
  case (update_draft_chunk_status i status at b)
  then have "st_policies t = map (\<lambda>r. r) (st_policies s)"
    by (auto simp: update_draft_chunk_status_def Let_def split: if_splits option.splits)
  then show ?thesis by (rule change) simp
next
  case (update_draft_chunk_rule i rule)
  then have "st_policies t = map (\<lambda>r. r) (st_policies s)" by (simp add: update_draft_chunk_rule_def update_where_def)
  then show ?thesis by (rule change) simp
next
  case (delete_draft_chunks sb status)
  then have "st_policies t = map (\<lambda>r. r) (st_policies s)" by (simp add: delete_draft_chunks_def delete_where_def)
  then show ?thesis by (rule change) simp
qed

text \<open>The first row with the given version, by its fixed columns.\<close>

lemma revision_find:
  "revision sb s v = map_option (\<lambda>r. (pr_payload r, pr_hash r)) (find (\<lambda>r. pr_sandbox r = sb \<and> pr_version r = v) (st_policies s))"
proof -
  have "find Q (filter P rows) = find (\<lambda>r. P r \<and> Q r) rows" for P Q and rows :: "policy_record list"
    by (induction rows) auto
  then show ?thesis by (simp add: revision_def get_policy_by_version_def revisions_of_def)
qed

lemma revision_change:
  assumes "st_policies t = map h (st_policies s)" "\<And>r. fixed_columns (h r) = fixed_columns r"
  shows "revision sb t = revision sb s"
proof
  fix v
  have h: "pr_sandbox (h r) = pr_sandbox r" "pr_version (h r) = pr_version r" "pr_payload (h r) = pr_payload r"
    "pr_hash (h r) = pr_hash r" for r
    using assms(2) [of r] by (simp_all add: fixed_columns_def)
  have "map_option (\<lambda>r. (pr_payload r, pr_hash r)) (find (\<lambda>r. pr_sandbox r = sb \<and> pr_version r = v) (map h rows)) =
      map_option (\<lambda>r. (pr_payload r, pr_hash r)) (find (\<lambda>r. pr_sandbox r = sb \<and> pr_version r = v) rows)" for rows
    by (induction rows) (simp_all add: h)
  then show "revision sb t v = revision sb s v" by (simp add: revision_find assms(1))
qed

lemma revision_add:
  assumes "st_policies t = st_policies s @ [r]"
  shows "revision sb t v = (case revision sb s v of Some x \<Rightarrow> Some x
    | None \<Rightarrow> if pr_sandbox r = sb \<and> pr_version r = v then Some (pr_payload r, pr_hash r) else None)"
proof -
  have "find P (rows @ [r]) = (case find P rows of Some x \<Rightarrow> Some x | None \<Rightarrow> if P r then Some r else None)" for P rows
    by (induction rows) (auto split: option.splits)
  then show ?thesis by (auto simp: revision_find assms split: option.splits)
qed

lemma revision_kept: "store_step s t \<Longrightarrow> revision sb s v = Some x \<Longrightarrow> revision sb t v = Some x"
  by (erule store_step_policies) (simp_all add: revision_change revision_add)

interpretation revisions: write_once store_step "revision sb" for sb
  by unfold_locales (rule revision_kept)

text \<open>The log of a sandbox: an update of other columns leaves it, a new highest version extends it.\<close>

lemma revisions_change:
  assumes "st_policies t = map h (st_policies s)" "\<And>r. fixed_columns (h r) = fixed_columns r"
  shows "revisions_of sb t = map h (revisions_of sb s)"
proof -
  have h: "pr_sandbox (h r) = pr_sandbox r" for r using assms(2) [of r] by (simp add: fixed_columns_def)
  have "filter (\<lambda>r. pr_sandbox r = sb) (map h rows) = map h (filter (\<lambda>r. pr_sandbox r = sb) rows)" for rows
    by (induction rows) (simp_all add: h)
  then show ?thesis by (simp add: revisions_of_def assms(1))
qed

lemma history_change:
  assumes "st_policies t = map h (st_policies s)" "\<And>r. fixed_columns (h r) = fixed_columns r"
  shows "history sb t = history sb s"
proof -
  have h: "pr_version (h r) = pr_version r" "pr_payload (h r) = pr_payload r" "pr_hash (h r) = pr_hash r" for r
    using assms(2) [of r] by (simp_all add: fixed_columns_def)
  show ?thesis by (simp add: history_def revisions_change [OF assms] sort_key_map_same h comp_def)
qed

lemma latest_version_change:
  assumes "st_policies t = map h (st_policies s)" "\<And>r. fixed_columns (h r) = fixed_columns r"
  shows "latest_version sb t = latest_version sb s"
proof -
  have h: "pr_version (h r) = pr_version r" for r using assms(2) [of r] by (simp add: fixed_columns_def)
  have "first_row (map h rows) = map_option h (first_row rows)" for rows
    by (simp add: first_row_def split: list.splits)
  then show ?thesis
    by (simp add: latest_version_def get_latest_policy_def newest_first_def revisions_change [OF assms]
        sort_key_map_same h split: option.splits)
qed

lemma latest_version_max:
  "r \<in> set (revisions_of sb s) \<Longrightarrow> pr_version r \<le> latest_version sb s"
  by (cases "get_latest_policy sb s")
    (simp_all add: latest_version_def get_latest_policy_None get_latest_policy_Some(2))

lemma latest_versionI:
  assumes "r \<in> set (revisions_of sb s)" "\<forall>x \<in> set (revisions_of sb s). pr_version x \<le> pr_version r"
  shows "latest_version sb s = pr_version r"
proof (cases "get_latest_policy sb s")
  case None
  with assms show ?thesis by (simp add: get_latest_policy_None)
next
  case (Some r')
  with get_latest_policy_Some [OF Some] assms show ?thesis by (force simp: latest_version_def intro: antisym)
qed

lemma put_policy_revision_rows:
  assumes "put_policy_revision now i sb v payload hash s = Inr t"
  obtains r where "st_policies t = st_policies s @ [r]" "pr_sandbox r = sb" "pr_version r = v" "pr_payload r = payload"
    "pr_hash r = hash" "pr_status r = ''pending''" "revision sb s v = None" "st_objects t = st_objects s"
    "st_chunks t = st_chunks s"
proof
  show "revision sb s v = None"
    using assms by (auto simp: put_policy_revision_def revision_None_iff in_revisions list_ex_iff split: if_splits)
qed (use assms in \<open>auto simp: put_policy_revision_def split: if_splits\<close>)

lemma revisions_add:
  "st_policies t = st_policies s @ [r] \<Longrightarrow>
   revisions_of sb t = (if pr_sandbox r = sb then revisions_of sb s @ [r] else revisions_of sb s)"
  by (simp add: revisions_of_def)

lemma history_put:
  assumes "put_policy_revision now i sb v payload hash s = Inr t" "\<forall>r \<in> set (revisions_of sb s). pr_version r < v"
  shows "history sb t = history sb s @ [(payload, hash)]" "latest_version sb t = v"
proof -
  from assms(1) obtain r where r: "st_policies t = st_policies s @ [r]" "pr_sandbox r = sb" "pr_version r = v"
    "pr_payload r = payload" "pr_hash r = hash"
    by (rule put_policy_revision_rows)
  then have revs: "revisions_of sb t = revisions_of sb s @ [r]" by (simp add: revisions_add)
  have "\<forall>x \<in> set (revisions_of sb s). pr_version x \<le> pr_version r" using assms(2) r(3) by auto
  then show "history sb t = history sb s @ [(payload, hash)]"
    by (simp add: history_def revs sort_key_snoc r)
  have "latest_version sb t = pr_version r"
    by (rule latest_versionI) (use assms(2) r(3) in \<open>auto simp: revs intro: less_imp_le\<close>)
  with r(3) show "latest_version sb t = v" by simp
qed

lemma history_put_other:
  assumes "put_policy_revision now i sb v payload hash s = Inr t" "sb' \<noteq> sb"
  shows "history sb' t = history sb' s" "latest_version sb' t = latest_version sb' s"
proof -
  from assms(1) obtain r where r: "st_policies t = st_policies s @ [r]" "pr_sandbox r = sb"
    by (rule put_policy_revision_rows)
  with assms(2) have "revisions_of sb' t = revisions_of sb' s" by (simp add: revisions_add)
  then show "history sb' t = history sb' s" "latest_version sb' t = latest_version sb' s"
    by (simp_all add: history_def latest_version_def get_latest_policy_def)
qed

lemma versions_ok_put:
  assumes "put_policy_revision now i sb (latest_version sb s + 1) payload hash s = Inr t" "versions_ok sb s"
    "0 \<le> latest_version sb s"
  shows "versions_ok sb t"
proof -
  from assms(1) obtain r where r: "st_policies t = st_policies s @ [r]" "pr_sandbox r = sb"
    "pr_version r = latest_version sb s + 1"
    by (rule put_policy_revision_rows)
  have "latest_version sb t = latest_version sb s + 1"
    by (rule history_put(2) [OF assms(1)]) (use latest_version_max in fastforce)
  with r assms(2,3) show ?thesis
    by (auto simp: versions_ok_def revisions_add)
qed

lemma versions_ok_revision:
  "versions_ok sb s \<Longrightarrow> revision sb s v = None \<longleftrightarrow> \<not> (1 \<le> v \<and> v \<le> latest_version sb s)"
  by (simp add: revision_None_iff versions_ok_def)

text \<open>The chunk statements leave the other tables alone.\<close>

lemma chunk_frames:
  "put_draft_chunk c s = Inr t \<Longrightarrow> st_objects t = st_objects s \<and> st_policies t = st_policies s"
  "update_draft_chunk_status i status at s = Inr (b, t) \<Longrightarrow> st_objects t = st_objects s \<and> st_policies t = st_policies s"
  by (auto simp: put_draft_chunk_def update_draft_chunk_status_def Let_def split: option.splits if_splits)

section \<open>Objects after a write\<close>

lemma put_object_rows:
  assumes "put_object now ty i name payload s = Inr t"
  shows "\<forall>r \<in> set (st_objects t). r \<in> set (st_objects s) \<or> (ob_type r = ty \<and> ob_id r = i \<and> ob_payload r = payload)"
    "st_policies t = st_policies s" "st_chunks t = st_chunks s"
  using assms by (auto simp: put_object_def split: if_splits)


lemma find_map_update:
  assumes "\<And>r. P r \<Longrightarrow> Q (g r) = Q r"
  shows "find Q (map (\<lambda>r. if P r then g r else r) rows) = map_option (\<lambda>r. if P r then g r else r) (find Q rows)"
  by (induction rows) (auto simp: assms)

lemma find_snoc: "find Q (rows @ [r]) = (case find Q rows of Some x \<Rightarrow> Some x | None \<Rightarrow> if Q r then Some r else None)"
  by (induction rows) auto

text \<open>Reading a typed row after an upsert: another row is as before, the row itself has the new
  payload, unless its id belongs to an object of another type.\<close>

lemma get_object_put_other:
  assumes "put_object now ty i name payload s = Inr t" "ty' \<noteq> ty \<or> i' \<noteq> i"
  shows "get_object ty' i' t = get_object ty' i' s"
proof (cases "list_ex (\<lambda>r. ob_id r = i) (st_objects s)")
  case True
  with assms(1) have t: "st_objects t = map (\<lambda>r. if ob_id r = i \<and> ob_type r = ty
      then r\<lparr>ob_payload := payload, ob_updated := now\<rparr> else r) (st_objects s)"
    by (auto simp: put_object_def)
  have "get_object ty' i' t = map_option (\<lambda>r. if ob_id r = i \<and> ob_type r = ty
      then r\<lparr>ob_payload := payload, ob_updated := now\<rparr> else r) (get_object ty' i' s)"
    unfolding get_object_def t by (rule find_map_update) simp
  moreover have "ob_type r = ty' \<and> ob_id r = i'" if "get_object ty' i' s = Some r" for r
    using find_mem [OF that [unfolded get_object_def]] by simp
  ultimately show ?thesis using assms(2) by (cases "get_object ty' i' s") auto
next
  case False
  with assms show ?thesis by (auto simp: put_object_def get_object_def find_snoc split: if_splits option.splits)
qed

lemma get_object_put:
  assumes "put_object now ty i name payload s = Inr t"
  shows "map_option ob_payload (get_object ty i t) = Some payload \<or> get_object ty i t = None"
proof (cases "list_ex (\<lambda>r. ob_id r = i) (st_objects s)")
  case True
  with assms have t: "st_objects t = map (\<lambda>r. if ob_id r = i \<and> ob_type r = ty
      then r\<lparr>ob_payload := payload, ob_updated := now\<rparr> else r) (st_objects s)"
    by (auto simp: put_object_def)
  have "get_object ty i t = map_option (\<lambda>r. if ob_id r = i \<and> ob_type r = ty
      then r\<lparr>ob_payload := payload, ob_updated := now\<rparr> else r) (get_object ty i s)"
    unfolding get_object_def t by (rule find_map_update) simp
  moreover have "ob_type r = ty \<and> ob_id r = i" if "get_object ty i s = Some r" for r
    using find_mem [OF that [unfolded get_object_def]] by simp
  ultimately show ?thesis by (cases "get_object ty i s") auto
next
  case False
  then have "get_object ty i s = None" by (auto simp: get_object_def find_None_iff list_ex_iff)
  with False assms show ?thesis
    by (auto simp: put_object_def get_object_def find_snoc split: if_splits)
qed

lemma find_filter: "(\<And>r. Q r \<Longrightarrow> R r) \<Longrightarrow> find Q (filter R rows) = find Q rows"
  by (induction rows) auto

lemma get_object_delete_other:
  assumes "ty' \<noteq> ty \<or> i' \<noteq> i"
  shows "get_object ty' i' (snd (delete_object ty i s)) = get_object ty' i' s"
proof -
  have "find (\<lambda>r. ob_type r = ty' \<and> ob_id r = i') (filter (\<lambda>r. \<not> (ob_type r = ty \<and> ob_id r = i)) (st_objects s)) =
      find (\<lambda>r. ob_type r = ty' \<and> ob_id r = i') (st_objects s)"
    by (rule find_filter) (use assms in blast)
  then show ?thesis by (simp add: delete_object_def delete_where_def get_object_def)
qed

lemma get_object_delete: "get_object ty i (snd (delete_object ty i s)) = None"
  by (auto simp: delete_object_def delete_where_def get_object_def find_None_iff)

end
