(* ===== verification/Gateway.thy ===== *)
theory Gateway
  imports Policy Store "HOL-Library.Multiset"
begin

text \<open>
  What the handlers of the gateway's gRPC service (\<open>crates/openshell-server/src/grpc.rs\<close>) share:
  the messages of \<open>proto/datamodel.proto\<close> they store, the status codes they answer with, the
  typed access to the store of \<open>persistence/mod.rs\<close>, the policy hash and the checks of the
  fields of a sandbox and of a provider.
  An operation is a function from the state, the store, the index and the trace of the buses, to a
  status or a result and the next state, so the effects made before an error stay. The
  encodings (protobuf, JSON, hexadecimal) and SHA-256 belong to other crates: they are fields of
  parameters, the fields of a record \<open>env\<close>, whose documented laws are stated as \<open>env_ok\<close>.
\<close>

section \<open>Messages\<close>

record sandbox_template =
  tm_image :: string
  tm_runtime_class_name :: string
  tm_agent_socket :: string
  tm_labels :: "(string, string) hash_map"
  tm_annotations :: "(string, string) hash_map"
  tm_environment :: "(string, string) hash_map"
  tm_resources :: "bytes option"
  tm_volume_claim_templates :: "bytes option"

record sandbox_spec =
  sc_log_level :: string
  sc_environment :: "(string, string) hash_map"
  sc_template :: "sandbox_template option"
  sc_policy :: "sandbox_policy option"
  sc_providers :: "string list"
  sc_gpu :: bool

record sandbox_status =
  ss_sandbox_name :: string
  ss_agent_pod :: string
  ss_agent_fd :: string
  ss_sandbox_fd :: string
  ss_conditions :: "(string \<times> string \<times> string \<times> string \<times> string) list"

record sandbox =
  sb_id :: string
  sb_name :: string
  sb_namespace :: string
  sb_spec :: "sandbox_spec option"
  sb_status :: "sandbox_status option"
  sb_phase :: int
  sb_created_at_ms :: int
  sb_current_policy_version :: u32

record provider =
  pv_id :: string
  pv_name :: string
  pv_type :: string
  pv_credentials :: "(string, string) hash_map"
  pv_config :: "(string, string) hash_map"

record ssh_session =
  sh_id :: string
  sh_sandbox_id :: string
  sh_token :: string
  sh_created_at_ms :: int
  sh_revoked :: bool
  sh_name :: string
  sh_expires_at_ms :: int

datatype sandbox_phase = PhUnspecified | PhProvisioning | PhReady | PhError | PhDeleting | PhUnknown

definition phase_of :: "int \<Rightarrow> sandbox_phase option" where
  "phase_of n =
     (if n = 0 then Some PhUnspecified else if n = 1 then Some PhProvisioning
      else if n = 2 then Some PhReady else if n = 3 then Some PhError
      else if n = 4 then Some PhDeleting else if n = 5 then Some PhUnknown else None)"

text \<open>The settings record that the gateway keeps for itself and for every sandbox.\<close>

datatype stored_setting_value = StString string | StBool bool | StInt i64 | StBytes string

record stored_settings =
  se_revision :: u64
  se_settings :: "(string, stored_setting_value) btree_map"

definition default_settings :: stored_settings where
  "default_settings = \<lparr>se_revision = 0, se_settings = []\<rparr>"

section \<open>Status codes\<close>

text \<open>The status a handler answers with; \<open>Panicked\<close> is a handler that unwinds without an answer.\<close>

datatype status =
  InvalidArgument string | NotFound string | AlreadyExists string | FailedPrecondition string
| Aborted string | Internal string | PermissionDenied string
| Panicked

section \<open>Encodings\<close>

text \<open>A decoder answers with its error text. \<open>ev_dev_settings\<close> is the build feature.\<close>

record env =
  ev_encode_policy :: "sandbox_policy \<Rightarrow> bytes"
  ev_decode_policy :: "bytes \<Rightarrow> string + sandbox_policy"
  ev_encode_rule :: "network_policy_rule \<Rightarrow> bytes"
  ev_decode_rule :: "bytes \<Rightarrow> string + network_policy_rule"
  ev_encode_filesystem :: "filesystem_policy \<Rightarrow> bytes"
  ev_encode_landlock :: "landlock_policy \<Rightarrow> bytes"
  ev_encode_process :: "process_policy \<Rightarrow> bytes"
  ev_encode_sandbox :: "sandbox \<Rightarrow> bytes"
  ev_decode_sandbox :: "bytes \<Rightarrow> string + sandbox"
  ev_encode_provider :: "provider \<Rightarrow> bytes"
  ev_decode_provider :: "bytes \<Rightarrow> string + provider"
  ev_encode_session :: "ssh_session \<Rightarrow> bytes"
  ev_decode_session :: "bytes \<Rightarrow> string + ssh_session"
  ev_settings_to_json :: "stored_settings \<Rightarrow> bytes"
  ev_settings_from_json :: "bytes \<Rightarrow> string + stored_settings"
  ev_hex_encode :: "bytes \<Rightarrow> string"
  ev_hex_decode :: "string \<Rightarrow> string + bytes"
  ev_sha256 :: "bytes \<Rightarrow> bytes"
  ev_to_lowercase :: "string \<Rightarrow> string"
  ev_dev_settings :: bool

section \<open>State and operations\<close>

text \<open>
  \<open>SandboxIndex\<close>: from the names of sandboxes and of agent pods to sandbox ids. The watch and log
  buses are in-memory broadcast channels: the state has the trace of what was sent and removed.
\<close>

record sandbox_index =
  ix_sandbox_name_to_id :: "(string, string) hash_map"
  ix_agent_pod_to_id :: "(string, string) hash_map"

datatype bus_event = Notified string | Removed string

record gateway =
  gw_store :: store
  gw_index :: sandbox_index
  gw_events :: "bus_event list"

type_synonym 'a operation = "gateway \<Rightarrow> (status + 'a) \<times> gateway"

definition ret :: "'a \<Rightarrow> 'a operation" where
  "ret a g = (Inr a, g)"

definition fail :: "status \<Rightarrow> 'a operation" where
  "fail e g = (Inl e, g)"

definition then_do :: "'a operation \<Rightarrow> ('a \<Rightarrow> 'b operation) \<Rightarrow> 'b operation" where
  "then_do m f g = (case m g of (Inl e, g') \<Rightarrow> (Inl e, g') | (Inr a, g') \<Rightarrow> f a g')"

definition check :: "bool \<Rightarrow> status \<Rightarrow> 'a operation \<Rightarrow> 'a operation" where
  "check b e m = (if b then m else fail e)"

text \<open>A pure result, a read of the store, a write with the text that introduces its error.\<close>

definition lift :: "status + 'a \<Rightarrow> 'a operation" where
  "lift r g = (r, g)"

definition query :: "(store \<Rightarrow> 'a) \<Rightarrow> 'a operation" where
  "query f g = (Inr (f (gw_store g)), g)"

definition commit :: "string \<Rightarrow> (store \<Rightarrow> string + store) \<Rightarrow> unit operation" where
  "commit what f g =
     (case f (gw_store g) of
        Inl e \<Rightarrow> (Inl (Internal (what @ '': '' @ e)), g)
      | Inr s \<Rightarrow> (Inr (), g\<lparr>gw_store := s\<rparr>))"

text \<open>A statement that returns a count, and one whose error the handler looks at or ignores.\<close>

definition update :: "(store \<Rightarrow> 'a \<times> store) \<Rightarrow> 'a operation" where
  "update f g = (case f (gw_store g) of (a, s) \<Rightarrow> (Inr a, g\<lparr>gw_store := s\<rparr>))"

definition attempt :: "(store \<Rightarrow> string + store) \<Rightarrow> (string + unit) operation" where
  "attempt f g =
     (case f (gw_store g) of Inl e \<Rightarrow> (Inr (Inl e), g) | Inr s \<Rightarrow> (Inr (Inr ()), g\<lparr>gw_store := s\<rparr>))"

definition notify :: "string \<Rightarrow> unit operation" where
  "notify sandbox_id g = (Inr (), g\<lparr>gw_events := gw_events g @ [Notified sandbox_id]\<rparr>)"

text \<open>The removal of a sandbox's bus entries, and a change of the index.\<close>

definition drop_buses :: "string \<Rightarrow> unit operation" where
  "drop_buses sandbox_id g = (Inr (), g\<lparr>gw_events := gw_events g @ [Removed sandbox_id]\<rparr>)"

definition reindex :: "(sandbox_index \<Rightarrow> sandbox_index) \<Rightarrow> unit operation" where
  "reindex f g = (Inr (), g\<lparr>gw_index := f (gw_index g)\<rparr>)"

named_theorems op_simps \<open>unfolding equations of the operations' combinators\<close>

lemma then_do_simps [op_simps]:
  "then_do (ret a) f = f a" "then_do (fail e) f = fail e"
  "then_do (lift (Inr a)) f = f a" "then_do (lift (Inl e)) f = fail e"
  by (simp_all add: fun_eq_iff then_do_def ret_def fail_def lift_def)

lemma then_do_query [op_simps]: "then_do (query q) f g = f (q (gw_store g)) g"
  by (simp add: then_do_def query_def)

lemma then_do_check [op_simps]: "then_do (check b e m) f = check b e (then_do m f)"
  by (simp add: fun_eq_iff then_do_def check_def fail_def)

lemma check_eq: "check b e m g = (if b then m g else (Inl e, g))"
  by (simp add: check_def fail_def)

lemma then_do_eq: "m g = (Inr a, h) \<Longrightarrow> then_do m f g = f a h"
  by (simp add: then_do_def)

text \<open>Taking an operation that succeeded apart.\<close>

lemma then_do_Inr: "then_do m f g = (Inr b, g') \<longleftrightarrow> (\<exists>a h. m g = (Inr a, h) \<and> f a h = (Inr b, g'))"
  by (auto simp: then_do_def split: prod.splits sum.splits)

lemma then_do_Inl: "then_do m f g = (Inl e, g') \<longleftrightarrow>
    m g = (Inl e, g') \<or> (\<exists>a h. m g = (Inr a, h) \<and> f a h = (Inl e, g'))"
  by (auto simp: then_do_def split: prod.splits sum.splits)

lemma check_Inr: "check b e m g = (Inr a, g') \<longleftrightarrow> b \<and> m g = (Inr a, g')"
  by (simp add: check_eq)

lemma basic_Inr:
  "ret a g = (Inr b, g') \<longleftrightarrow> b = a \<and> g' = g"
  "fail e g = (Inr b, g') \<longleftrightarrow> False"
  "lift r g = (Inr b, g') \<longleftrightarrow> r = Inr b \<and> g' = g"
  "query q g = (Inr b, g') \<longleftrightarrow> b = q (gw_store g) \<and> g' = g"
  "notify i g = (Inr u, g') \<longleftrightarrow> g' = g\<lparr>gw_events := gw_events g @ [Notified i]\<rparr>"
  "drop_buses i g = (Inr u, g') \<longleftrightarrow> g' = g\<lparr>gw_events := gw_events g @ [Removed i]\<rparr>"
  "reindex ix g = (Inr u, g') \<longleftrightarrow> g' = g\<lparr>gw_index := ix (gw_index g)\<rparr>"
  by (auto simp: ret_def fail_def lift_def query_def notify_def drop_buses_def reindex_def)

lemma commit_Inr: "commit what f g = (Inr u, g') \<longleftrightarrow> (\<exists>s. f (gw_store g) = Inr s \<and> g' = g\<lparr>gw_store := s\<rparr>)"
  by (auto simp: commit_def split: sum.splits)

lemma update_Inr: "update f g = (Inr a, g') \<longleftrightarrow> (\<exists>s. f (gw_store g) = (a, s) \<and> g' = g\<lparr>gw_store := s\<rparr>)"
  by (auto simp: update_def split: prod.splits)

lemma attempt_Inr: "attempt f g = (Inr r, g') \<longleftrightarrow>
    (\<exists>s. r = Inr () \<and> f (gw_store g) = Inr s \<and> g' = g\<lparr>gw_store := s\<rparr>) \<or>
    (\<exists>e. r = Inl e \<and> f (gw_store g) = Inl e \<and> g' = g)"
  by (auto simp: attempt_def split: sum.splits)

lemmas op_Inr = then_do_Inr check_Inr basic_Inr commit_Inr update_Inr attempt_Inr

section \<open>Typed access to the store\<close>

definition decode_message :: "(bytes \<Rightarrow> string + 'm) \<Rightarrow> object_record option \<Rightarrow> string + 'm option" where
  "decode_message decode row =
     (case row of
        None \<Rightarrow> Inr None
      | Some r \<Rightarrow>
          (case decode (ob_payload r) of
             Inl e \<Rightarrow> Inl (''execution error: protobuf decode error: '' @ e)
           | Inr m \<Rightarrow> Inr (Some m)))"

definition get_message :: "string \<Rightarrow> (bytes \<Rightarrow> string + 'm) \<Rightarrow> string \<Rightarrow> store \<Rightarrow> string + 'm option" where
  "get_message object_type decode id' s = decode_message decode (get_object object_type id' s)"

definition get_message_by_name :: "string \<Rightarrow> (bytes \<Rightarrow> string + 'm) \<Rightarrow> string \<Rightarrow> store \<Rightarrow> string + 'm option" where
  "get_message_by_name object_type decode name s = decode_message decode (get_object_by_name object_type name s)"

definition put_sandbox :: "env \<Rightarrow> int \<Rightarrow> sandbox \<Rightarrow> store \<Rightarrow> string + store" where
  "put_sandbox E now sb = put_object now ''sandbox'' (sb_id sb) (sb_name sb) (ev_encode_sandbox E sb)"

text \<open>The \<open>map_err\<close> and \<open>ok_or_else\<close> that follow every fetch.\<close>

definition fetched :: "string \<Rightarrow> status \<Rightarrow> string + 'm option \<Rightarrow> 'm operation" where
  "fetched what missing r =
     (case r of
        Inl e \<Rightarrow> fail (Internal (what @ '' failed: '' @ e))
      | Inr None \<Rightarrow> fail missing
      | Inr (Some m) \<Rightarrow> ret m)"

definition sandbox_by_name :: "env \<Rightarrow> string \<Rightarrow> sandbox operation" where
  "sandbox_by_name E name =
     then_do (query (get_message_by_name ''sandbox'' (ev_decode_sandbox E) name))
       (fetched ''fetch sandbox'' (NotFound ''sandbox not found''))"

definition sandbox_by_id :: "env \<Rightarrow> string \<Rightarrow> sandbox operation" where
  "sandbox_by_id E id' =
     then_do (query (get_message ''sandbox'' (ev_decode_sandbox E) id'))
       (fetched ''fetch sandbox'' (NotFound ''sandbox not found''))"

section \<open>The policy hash\<close>

definition le_bytes :: "nat \<Rightarrow> nat \<Rightarrow> bytes" where
  "le_bytes k n = map (\<lambda>i. char_of ((n div 256 ^ i) mod 256)) [0 ..< k]"

definition opt_bytes :: "('a \<Rightarrow> bytes) \<Rightarrow> 'a option \<Rightarrow> bytes" where
  "opt_bytes f x = (case x of None \<Rightarrow> [] | Some a \<Rightarrow> f a)"

definition policy_hash_input :: "env \<Rightarrow> sandbox_policy \<Rightarrow> bytes" where
  "policy_hash_input E p =
     le_bytes 4 (unat (sp_version p)) @
     opt_bytes (ev_encode_filesystem E) (sp_filesystem p) @
     opt_bytes (ev_encode_landlock E) (sp_landlock p) @
     opt_bytes (ev_encode_process E) (sp_process p) @
     concat (map (\<lambda>(k, v). k @ ev_encode_rule E v) (sort_key fst (sp_network_policies p)))"

definition deterministic_policy_hash :: "env \<Rightarrow> sandbox_policy \<Rightarrow> string" where
  "deterministic_policy_hash E p = ev_hex_encode E (ev_sha256 E (policy_hash_input E p))"

section \<open>Limits\<close>

definition MAX_PAGE_SIZE :: u32 where "MAX_PAGE_SIZE = 1000"
definition MAX_NAME_LEN :: nat where "MAX_NAME_LEN = 253"
definition MAX_PROVIDERS :: nat where "MAX_PROVIDERS = 32"
definition MAX_LOG_LEVEL_LEN :: nat where "MAX_LOG_LEVEL_LEN = 32"
definition MAX_ENVIRONMENT_ENTRIES :: nat where "MAX_ENVIRONMENT_ENTRIES = 128"
definition MAX_MAP_KEY_LEN :: nat where "MAX_MAP_KEY_LEN = 256"
definition MAX_MAP_VALUE_LEN :: nat where "MAX_MAP_VALUE_LEN = 8192"
definition MAX_TEMPLATE_STRING_LEN :: nat where "MAX_TEMPLATE_STRING_LEN = 1024"
definition MAX_TEMPLATE_MAP_ENTRIES :: nat where "MAX_TEMPLATE_MAP_ENTRIES = 128"
definition MAX_TEMPLATE_STRUCT_SIZE :: nat where "MAX_TEMPLATE_STRUCT_SIZE = 65536"
definition MAX_POLICY_SIZE :: nat where "MAX_POLICY_SIZE = 262144"
definition MAX_PROVIDER_TYPE_LEN :: nat where "MAX_PROVIDER_TYPE_LEN = 64"
definition MAX_PROVIDER_CREDENTIALS_ENTRIES :: nat where "MAX_PROVIDER_CREDENTIALS_ENTRIES = 32"
definition MAX_PROVIDER_CONFIG_ENTRIES :: nat where "MAX_PROVIDER_CONFIG_ENTRIES = 64"

lemmas limit_defs = MAX_PAGE_SIZE_def MAX_NAME_LEN_def MAX_PROVIDERS_def MAX_LOG_LEVEL_LEN_def
  MAX_ENVIRONMENT_ENTRIES_def MAX_MAP_KEY_LEN_def MAX_MAP_VALUE_LEN_def MAX_TEMPLATE_STRING_LEN_def
  MAX_TEMPLATE_MAP_ENTRIES_def MAX_TEMPLATE_STRUCT_SIZE_def MAX_POLICY_SIZE_def MAX_PROVIDER_TYPE_LEN_def
  MAX_PROVIDER_CREDENTIALS_ENTRIES_def MAX_PROVIDER_CONFIG_ENTRIES_def

definition clamp_limit :: "u32 \<Rightarrow> u32 \<Rightarrow> u32 \<Rightarrow> u32" where
  "clamp_limit raw dflt max' = (if raw = 0 then dflt else min raw max')"

text \<open>\<open>{what} exceeds maximum {unit} ({actual} > {limit})\<close>.\<close>

definition at_most :: "string \<Rightarrow> nat \<Rightarrow> nat \<Rightarrow> status + unit" where
  "at_most what actual limit =
     (if limit < actual
      then Inl (InvalidArgument (what @ '' ('' @ dec actual @ '' > '' @ dec limit @ '')''))
      else Inr ())"

fun check_entries :: "(string, string) hash_map \<Rightarrow> nat \<Rightarrow> nat \<Rightarrow> string \<Rightarrow> status + unit" where
  "check_entries [] max_key_len max_value_len field_name = Inr ()"
| "check_entries ((key, value) # m) max_key_len max_value_len field_name =
     and_then (at_most (field_name @ '' key exceeds maximum length'') (length key) max_key_len) (\<lambda>_.
     and_then (at_most (field_name @ '' value exceeds maximum length'') (length value) max_value_len) (\<lambda>_.
       check_entries m max_key_len max_value_len field_name))"

definition validate_string_map ::
    "(string, string) hash_map \<Rightarrow> nat \<Rightarrow> nat \<Rightarrow> nat \<Rightarrow> string \<Rightarrow> status + unit" where
  "validate_string_map m max_entries max_key_len max_value_len field_name =
     and_then (at_most (field_name @ '' exceeds maximum entries'') (length m) max_entries) (\<lambda>_.
       check_entries m max_key_len max_value_len field_name)"

definition validate_struct :: "string \<Rightarrow> bytes option \<Rightarrow> status + unit" where
  "validate_struct field_name s =
     (case s of
        None \<Rightarrow> Inr ()
      | Some b \<Rightarrow> at_most (field_name @ '' serialized size exceeds maximum'') (length b) MAX_TEMPLATE_STRUCT_SIZE)"

definition validate_sandbox_template :: "sandbox_template \<Rightarrow> status + unit" where
  "validate_sandbox_template t =
     and_then (at_most ''template.image exceeds maximum length'' (length (tm_image t)) MAX_TEMPLATE_STRING_LEN) (\<lambda>_.
     and_then (at_most ''template.runtime_class_name exceeds maximum length'' (length (tm_runtime_class_name t)) MAX_TEMPLATE_STRING_LEN) (\<lambda>_.
     and_then (at_most ''template.agent_socket exceeds maximum length'' (length (tm_agent_socket t)) MAX_TEMPLATE_STRING_LEN) (\<lambda>_.
     and_then (validate_string_map (tm_labels t) MAX_TEMPLATE_MAP_ENTRIES MAX_MAP_KEY_LEN MAX_MAP_VALUE_LEN ''template.labels'') (\<lambda>_.
     and_then (validate_string_map (tm_annotations t) MAX_TEMPLATE_MAP_ENTRIES MAX_MAP_KEY_LEN MAX_MAP_VALUE_LEN ''template.annotations'') (\<lambda>_.
     and_then (validate_string_map (tm_environment t) MAX_TEMPLATE_MAP_ENTRIES MAX_MAP_KEY_LEN MAX_MAP_VALUE_LEN ''template.environment'') (\<lambda>_.
     and_then (validate_struct ''template.resources'' (tm_resources t)) (\<lambda>_.
       validate_struct ''template.volume_claim_templates'' (tm_volume_claim_templates t))))))))"

definition validate_sandbox_spec :: "env \<Rightarrow> string \<Rightarrow> sandbox_spec \<Rightarrow> status + unit" where
  "validate_sandbox_spec E name spec =
     and_then (at_most ''name exceeds maximum length'' (length name) MAX_NAME_LEN) (\<lambda>_.
     and_then (at_most ''providers list exceeds maximum'' (length (sc_providers spec)) MAX_PROVIDERS) (\<lambda>_.
     and_then (at_most ''log_level exceeds maximum length'' (length (sc_log_level spec)) MAX_LOG_LEVEL_LEN) (\<lambda>_.
     and_then (validate_string_map (sc_environment spec) MAX_ENVIRONMENT_ENTRIES MAX_MAP_KEY_LEN MAX_MAP_VALUE_LEN ''spec.environment'') (\<lambda>_.
     and_then (case sc_template spec of None \<Rightarrow> Inr () | Some t \<Rightarrow> validate_sandbox_template t) (\<lambda>_.
       case sc_policy spec of
         None \<Rightarrow> Inr ()
       | Some p \<Rightarrow> at_most ''policy serialized size exceeds maximum'' (length (ev_encode_policy E p)) MAX_POLICY_SIZE)))))"

definition validate_provider_fields :: "provider \<Rightarrow> status + unit" where
  "validate_provider_fields p =
     and_then (at_most ''provider.name exceeds maximum length'' (length (pv_name p)) MAX_NAME_LEN) (\<lambda>_.
     and_then (at_most ''provider.type exceeds maximum length'' (length (pv_type p)) MAX_PROVIDER_TYPE_LEN) (\<lambda>_.
     and_then (validate_string_map (pv_credentials p) MAX_PROVIDER_CREDENTIALS_ENTRIES MAX_MAP_KEY_LEN MAX_MAP_VALUE_LEN ''provider.credentials'') (\<lambda>_.
       validate_string_map (pv_config p) MAX_PROVIDER_CONFIG_ENTRIES MAX_MAP_KEY_LEN MAX_MAP_VALUE_LEN ''provider.config'')))"

section \<open>Policy checks\<close>

definition validate_policy_safety :: "sandbox_policy \<Rightarrow> status + unit" where
  "validate_policy_safety p =
     (case validate_sandbox_policy p of
        None \<Rightarrow> Inl Panicked
      | Some (Inr _) \<Rightarrow> Inr ()
      | Some (Inl violations) \<Rightarrow>
          Inl (InvalidArgument (''policy contains unsafe content: '' @ str_join ''; '' (map violation_message violations))))"

fun paths_kept :: "string \<Rightarrow> string list \<Rightarrow> string list \<Rightarrow> status + unit" where
  "paths_kept field [] upd = Inr ()"
| "paths_kept field (path # base) upd =
     (if path \<notin> set upd then
        Inl (InvalidArgument (''filesystem '' @ field @ '' path '' @ quo @ path @ quo @ '' cannot be removed on a live sandbox''))
      else paths_kept field base upd)"

definition validate_filesystem_additive :: "filesystem_policy option \<Rightarrow> filesystem_policy option \<Rightarrow> status + unit" where
  "validate_filesystem_additive baseline new =
     (case (baseline, new) of
        (Some base, Some upd) \<Rightarrow>
          if fs_include_workdir base \<noteq> fs_include_workdir upd then
            Inl (InvalidArgument ''filesystem include_workdir cannot be changed on a live sandbox'')
          else and_then (paths_kept ''read_only'' (fs_read_only base) (fs_read_only upd)) (\<lambda>_.
            paths_kept ''read_write'' (fs_read_write base) (fs_read_write upd))
      | (None, Some _) \<Rightarrow> Inr ()
      | (Some _, None) \<Rightarrow> Inl (InvalidArgument ''filesystem policy cannot be removed on a live sandbox'')
      | (None, None) \<Rightarrow> Inr ())"

definition validate_static_fields_unchanged :: "sandbox_policy \<Rightarrow> sandbox_policy \<Rightarrow> status + unit" where
  "validate_static_fields_unchanged baseline new =
     and_then (validate_filesystem_additive (sp_filesystem baseline) (sp_filesystem new)) (\<lambda>_.
       if sp_landlock baseline \<noteq> sp_landlock new then
         Inl (InvalidArgument ''landlock policy cannot be changed on a live sandbox (applied at startup)'')
       else if sp_process baseline \<noteq> sp_process new then
         Inl (InvalidArgument ''process policy cannot be changed on a live sandbox (applied at startup)'')
       else Inr ())"

section \<open>Laws of the parameters\<close>

text \<open>
  Two policies that differ in the iteration order of their rule map only have the same normal
  form. Decoding what was encoded gives the message back, its maps in any order; the maps of a
  decoded message have distinct keys; JSON and hexadecimal text decode to what they encode;
  Unicode's lower case extends ASCII's.
\<close>

definition norm_policy :: "sandbox_policy \<Rightarrow> sandbox_policy" where
  "norm_policy p = p\<lparr>sp_network_policies := sort_key fst (sp_network_policies p)\<rparr>"

definition norm_sandbox :: "sandbox \<Rightarrow> sandbox" where
  "norm_sandbox sb = sb\<lparr>sb_spec := map_option (\<lambda>sp. sp\<lparr>sc_environment := sort_key fst (sc_environment sp),
     sc_template := map_option (\<lambda>t. t\<lparr>tm_labels := sort_key fst (tm_labels t),
       tm_annotations := sort_key fst (tm_annotations t), tm_environment := sort_key fst (tm_environment t)\<rparr>)
       (sc_template sp),
     sc_policy := map_option norm_policy (sc_policy sp)\<rparr>) (sb_spec sb)\<rparr>"

definition norm_provider :: "provider \<Rightarrow> provider" where
  "norm_provider p = p\<lparr>pv_credentials := sort_key fst (pv_credentials p), pv_config := sort_key fst (pv_config p)\<rparr>"

definition env_ok :: "env \<Rightarrow> bool" where
  "env_ok E \<longleftrightarrow>
     (\<forall>p. hm_ok (sp_network_policies p) \<longrightarrow>
        (\<exists>q. ev_decode_policy E (ev_encode_policy E p) = Inr q \<and> norm_policy q = norm_policy p)) \<and>
     (\<forall>b q. ev_decode_policy E b = Inr q \<longrightarrow> hm_ok (sp_network_policies q)) \<and>
     (\<forall>r. ev_decode_rule E (ev_encode_rule E r) = Inr r) \<and>
     (\<forall>sb. \<exists>sb'. ev_decode_sandbox E (ev_encode_sandbox E sb) = Inr sb' \<and> norm_sandbox sb' = norm_sandbox sb) \<and>
     (\<forall>p. \<exists>q. ev_decode_provider E (ev_encode_provider E p) = Inr q \<and> norm_provider q = norm_provider p) \<and>
     (\<forall>sh. ev_decode_session E (ev_encode_session E sh) = Inr sh) \<and>
     (\<forall>st. bt_ok (se_settings st) \<longrightarrow> ev_settings_from_json E (ev_settings_to_json E st) = Inr st) \<and>
     (\<forall>b st. ev_settings_from_json E b = Inr st \<longrightarrow> bt_ok (se_settings st)) \<and>
     (\<forall>b. ev_hex_decode E (ev_hex_encode E b) = Inr b) \<and>
     (\<forall>s. is_ascii_str s \<longrightarrow> ev_to_lowercase E s = to_ascii_lowercase s)"

lemma env_okD:
  assumes "env_ok E"
  shows "hm_ok (sp_network_policies p) \<Longrightarrow>
      \<exists>q. ev_decode_policy E (ev_encode_policy E p) = Inr q \<and> norm_policy q = norm_policy p"
    and "ev_decode_policy E b = Inr q \<Longrightarrow> hm_ok (sp_network_policies q)"
    and "ev_decode_rule E (ev_encode_rule E r) = Inr r"
    and "\<exists>sb'. ev_decode_sandbox E (ev_encode_sandbox E sb) = Inr sb' \<and> norm_sandbox sb' = norm_sandbox sb"
    and "\<exists>q. ev_decode_provider E (ev_encode_provider E pv) = Inr q \<and> norm_provider q = norm_provider pv"
    and "bt_ok (se_settings st) \<Longrightarrow> ev_settings_from_json E (ev_settings_to_json E st) = Inr st"
    and "ev_settings_from_json E b = Inr st \<Longrightarrow> bt_ok (se_settings st)"
    and "ev_hex_decode E (ev_hex_encode E b) = Inr b"
    and "ev_decode_session E (ev_encode_session E sh) = Inr sh"
  using assms unfolding env_ok_def by blast+

lemma norm_policyD:
  assumes "norm_policy q = norm_policy p"
  shows "sp_version q = sp_version p" "sp_filesystem q = sp_filesystem p" "sp_landlock q = sp_landlock p"
    "sp_process q = sp_process p"
    "sort_key fst (sp_network_policies q) = sort_key fst (sp_network_policies p)"
    "set (sp_network_policies q) = set (sp_network_policies p)"
    "mset (sp_network_policies q) = mset (sp_network_policies p)"
proof -
  have *: "sp_version (norm_policy r) = sp_version r" "sp_filesystem (norm_policy r) = sp_filesystem r"
    "sp_landlock (norm_policy r) = sp_landlock r" "sp_process (norm_policy r) = sp_process r"
    "sp_network_policies (norm_policy r) = sort_key fst (sp_network_policies r)" for r
    by (simp_all add: norm_policy_def)
  show "sp_version q = sp_version p" "sp_filesystem q = sp_filesystem p" "sp_landlock q = sp_landlock p"
    "sp_process q = sp_process p"
    using * [of p] * [of q] assms by simp_all
  show nps: "sort_key fst (sp_network_policies q) = sort_key fst (sp_network_policies p)"
    using * [of p] * [of q] assms by simp
  show "set (sp_network_policies q) = set (sp_network_policies p)" by (metis nps set_sort)
  show "mset (sp_network_policies q) = mset (sp_network_policies p)" by (metis nps mset_sort)
qed

lemma policy_hash_norm:
  assumes "norm_policy q = norm_policy p"
  shows "deterministic_policy_hash E q = deterministic_policy_hash E p"
  by (simp add: deterministic_policy_hash_def policy_hash_input_def norm_policyD [OF assms])

lemma hm_ok_map_of: "hm_ok m \<Longrightarrow> map_of m k = Some v \<longleftrightarrow> (k, v) \<in> set m"
  by (simp add: hm_ok_def)

lemma norm_policy_map_of:
  assumes "norm_policy q = norm_policy p" "hm_ok (sp_network_policies p)"
  shows "hm_ok (sp_network_policies q)" "map_of (sp_network_policies q) = map_of (sp_network_policies p)"
proof -
  have m: "mset (sp_network_policies q) = mset (sp_network_policies p)" using assms(1) by (rule norm_policyD)
  then have "mset (map fst (sp_network_policies q)) = mset (map fst (sp_network_policies p))" by simp
  with assms(2) show ok: "hm_ok (sp_network_policies q)" unfolding hm_ok_def by (metis mset_eq_imp_distinct_iff)
  have "set (sp_network_policies q) = set (sp_network_policies p)" using assms(1) by (rule norm_policyD)
  with ok assms(2) show "map_of (sp_network_policies q) = map_of (sp_network_policies p)"
    unfolding hm_ok_def by (simp add: map_of_inject_set)
qed

section \<open>What the checks accept\<close>

lemma at_most_Inr [simp]: "at_most what n limit = Inr u \<longleftrightarrow> n \<le> limit"
  by (auto simp: at_most_def)

lemma check_entries_Inr:
  "check_entries m kl vl f = Inr u \<longleftrightarrow> (\<forall>(k, v) \<in> set m. length k \<le> kl \<and> length v \<le> vl)"
  by (induction m kl vl f rule: check_entries.induct) (auto simp: and_then_eq_Inr)

lemma validate_string_map_Inr:
  "validate_string_map m n kl vl f = Inr u \<longleftrightarrow>
     length m \<le> n \<and> (\<forall>(k, v) \<in> set m. length k \<le> kl \<and> length v \<le> vl)"
  by (simp add: validate_string_map_def and_then_eq_Inr check_entries_Inr)

lemma validate_policy_safety_Inr: "validate_policy_safety p = Inr u \<longleftrightarrow> policy_safe p"
proof -
  have "validate_policy_safety p = Inr u \<longleftrightarrow> validate_sandbox_policy p = Some (Inr ())"
    unfolding validate_policy_safety_def by (simp split: option.splits sum.splits)
  then show ?thesis by (simp only: validate_Ok_iff)
qed

lemma paths_kept_Inr: "paths_kept f base upd = Inr u \<longleftrightarrow> set base \<subseteq> set upd"
  by (induction f base upd rule: paths_kept.induct) auto

text \<open>A new policy of a live sandbox: paths may be added, nothing else of the static part changes.\<close>

definition static_extends :: "sandbox_policy \<Rightarrow> sandbox_policy \<Rightarrow> bool" where
  "static_extends baseline new \<longleftrightarrow>
     (\<forall>base. sp_filesystem baseline = Some base \<longrightarrow>
        (\<exists>upd. sp_filesystem new = Some upd \<and> fs_include_workdir upd = fs_include_workdir base \<and>
           set (fs_read_only base) \<subseteq> set (fs_read_only upd) \<and> set (fs_read_write base) \<subseteq> set (fs_read_write upd))) \<and>
     sp_landlock new = sp_landlock baseline \<and> sp_process new = sp_process baseline"

lemma validate_static_fields_unchanged_Inr:
  "validate_static_fields_unchanged baseline new = Inr u \<longleftrightarrow> static_extends baseline new"
  by (auto simp: validate_static_fields_unchanged_def static_extends_def validate_filesystem_additive_def
      and_then_eq_Inr paths_kept_Inr split: option.splits if_splits)

lemma static_extends_refl: "static_extends p p"
  by (simp add: static_extends_def)

lemma static_extends_trans: "static_extends p q \<Longrightarrow> static_extends q r \<Longrightarrow> static_extends p r"
  unfolding static_extends_def by (fastforce dest: subset_trans)

section \<open>Reasoning about operations\<close>

text \<open>
  A triple over the store: from a state with the invariant and the precondition, the operation
  keeps the invariant whatever its outcome, and a result satisfies the postcondition.
\<close>

definition triple ::
    "(store \<Rightarrow> bool) \<Rightarrow> (store \<Rightarrow> bool) \<Rightarrow> 'a operation \<Rightarrow> ('a \<Rightarrow> store \<Rightarrow> bool) \<Rightarrow> bool" where
  "triple I P m Q \<longleftrightarrow>
     (\<forall>g. I (gw_store g) \<longrightarrow> P (gw_store g) \<longrightarrow>
        I (gw_store (snd (m g))) \<and> (\<forall>a. fst (m g) = Inr a \<longrightarrow> Q a (gw_store (snd (m g)))))"

abbreviation keeps :: "(store \<Rightarrow> bool) \<Rightarrow> 'a operation \<Rightarrow> bool" where
  "keeps I m \<equiv> triple I (\<lambda>_. True) m (\<lambda>_ _. True)"

lemma tripleD:
  assumes "triple I P m Q" "I (gw_store g)" "P (gw_store g)"
  shows "I (gw_store (snd (m g)))" "m g = (Inr a, g') \<Longrightarrow> Q a (gw_store g')"
  using assms by (auto simp: triple_def)

lemma triple_conseq:
  assumes "triple I P' m Q'" "\<And>s. I s \<Longrightarrow> P s \<Longrightarrow> P' s" "\<And>a s. I s \<Longrightarrow> Q' a s \<Longrightarrow> Q a s"
  shows "triple I P m Q"
  using assms unfolding triple_def by (metis (no_types, lifting))

lemma triple_keeps: "triple I P m Q \<Longrightarrow> triple I P m (\<lambda>_ _. True)"
  by (erule triple_conseq) simp_all

lemma triple_pre: "keeps I m \<Longrightarrow> triple I P m (\<lambda>_ _. True)"
  by (erule triple_conseq) simp_all

named_theorems triple_rules \<open>the proof rules of the operations' combinators\<close>

lemma triple_then_do:
  assumes "triple I P m mid" "\<And>a. triple I (mid a) (f a) Q"
  shows "triple I P (then_do m f) Q"
  unfolding triple_def
proof (intro allI impI)
  fix g :: gateway assume g: "I (gw_store g)" "P (gw_store g)"
  obtain r h where m: "m g = (r, h)" by (cases "m g")
  have h: "I (gw_store h)" "r = Inr a \<Longrightarrow> mid a (gw_store h)" for a
    using assms(1) g m unfolding triple_def by force+
  show "I (gw_store (snd (then_do m f g))) \<and>
      (\<forall>a. fst (then_do m f g) = Inr a \<longrightarrow> Q a (gw_store (snd (then_do m f g))))"
  proof (cases r)
    case (Inl e)
    with m h show ?thesis by (simp add: then_do_def)
  next
    case (Inr a)
    then have "then_do m f g = f a h" using m by (simp add: then_do_def)
    with assms(2) [of a] h Inr show ?thesis by (simp add: triple_def)
  qed
qed

text \<open>Nothing remembered of the first result.\<close>

lemma keeps_then_do [triple_rules]:
  assumes "triple I P m (\<lambda>_ _. True)" "\<And>a. triple I (\<lambda>_. True) (f a) Q"
  shows "triple I P (then_do m f) Q"
  using assms by (rule triple_then_do)

lemma triple_ret: "(\<And>s. I s \<Longrightarrow> P s \<Longrightarrow> Q a s) \<Longrightarrow> triple I P (ret a) Q"
  by (simp add: triple_def ret_def)

lemma triple_fail [triple_rules]: "triple I P (fail e) Q"
  by (simp add: triple_def fail_def)

lemma triple_lift: "(\<And>a s. r = Inr a \<Longrightarrow> I s \<Longrightarrow> P s \<Longrightarrow> Q a s) \<Longrightarrow> triple I P (lift r) Q"
  by (simp add: triple_def lift_def)

lemma triple_query: "(\<And>s. I s \<Longrightarrow> P s \<Longrightarrow> Q (q s) s) \<Longrightarrow> triple I P (query q) Q"
  by (simp add: triple_def query_def)

lemma triple_commit:
  "(\<And>s t. I s \<Longrightarrow> P s \<Longrightarrow> f s = Inr t \<Longrightarrow> I t \<and> Q () t) \<Longrightarrow> triple I P (commit what f) Q"
  by (auto simp: triple_def commit_def split: sum.splits)

lemma triple_update:
  "(\<And>s. I s \<Longrightarrow> P s \<Longrightarrow> I (snd (f s)) \<and> Q (fst (f s)) (snd (f s))) \<Longrightarrow> triple I P (update f) Q"
  by (auto simp: triple_def update_def split: prod.splits) (metis fst_conv snd_conv)+

lemma triple_attempt:
  assumes "\<And>s t. I s \<Longrightarrow> P s \<Longrightarrow> f s = Inr t \<Longrightarrow> I t \<and> Q (Inr ()) t"
    "\<And>s e. I s \<Longrightarrow> P s \<Longrightarrow> f s = Inl e \<Longrightarrow> Q (Inl e) s"
  shows "triple I P (attempt f) Q"
  using assms by (auto simp: triple_def attempt_def split: sum.splits)

lemma triple_notify: "(\<And>s. I s \<Longrightarrow> P s \<Longrightarrow> Q () s) \<Longrightarrow> triple I P (notify i) Q"
  by (simp add: triple_def notify_def)

lemma triple_drop_buses: "(\<And>s. I s \<Longrightarrow> P s \<Longrightarrow> Q () s) \<Longrightarrow> triple I P (drop_buses i) Q"
  by (simp add: triple_def drop_buses_def)

lemma triple_reindex: "(\<And>s. I s \<Longrightarrow> P s \<Longrightarrow> Q () s) \<Longrightarrow> triple I P (reindex f) Q"
  by (simp add: triple_def reindex_def)

lemma triple_check [triple_rules]: "(b \<Longrightarrow> triple I P m Q) \<Longrightarrow> triple I P (check b e m) Q"
  by (auto simp: triple_def check_eq)

lemma triple_fetched: "(\<And>a s. r = Inr (Some a) \<Longrightarrow> I s \<Longrightarrow> P s \<Longrightarrow> Q a s) \<Longrightarrow> triple I P (fetched what e r) Q"
  by (auto simp: fetched_def split: sum.splits option.splits intro: triple_fail triple_ret)

lemma triple_assume: "(\<phi> \<Longrightarrow> triple I P m Q) \<Longrightarrow> triple I (\<lambda>s. \<phi> \<and> P s) m Q"
  by (simp add: triple_def)

lemma triple_if [triple_rules]:
  "(b \<Longrightarrow> triple I P m Q) \<Longrightarrow> (\<not> b \<Longrightarrow> triple I P n Q) \<Longrightarrow> triple I P (if b then m else n) Q"
  by simp

lemma triple_case_option [triple_rules]:
  "(x = None \<Longrightarrow> triple I P m Q) \<Longrightarrow> (\<And>a. x = Some a \<Longrightarrow> triple I P (f a) Q) \<Longrightarrow>
   triple I P (case x of None \<Rightarrow> m | Some a \<Rightarrow> f a) Q"
  by (cases x) simp_all

lemma triple_case_sum [triple_rules]:
  "(\<And>e. x = Inl e \<Longrightarrow> triple I P (h e) Q) \<Longrightarrow> (\<And>a. x = Inr a \<Longrightarrow> triple I P (f a) Q) \<Longrightarrow>
   triple I P (case x of Inl e \<Rightarrow> h e | Inr a \<Rightarrow> f a) Q"
  by (cases x) simp_all

text \<open>With no postcondition the leaves that only read hold outright.\<close>

lemma keeps_leaf [triple_rules]:
  "triple I P (ret a) (\<lambda>_ _. True)" "triple I P (lift r) (\<lambda>_ _. True)"
  "triple I P (query q) (\<lambda>_ _. True)" "triple I P (notify i) (\<lambda>_ _. True)"
  "triple I P (drop_buses i) (\<lambda>_ _. True)" "triple I P (reindex f) (\<lambda>_ _. True)"
  by (rule triple_ret triple_lift triple_query triple_notify triple_drop_buses triple_reindex; simp)+

end
