(* ===== verification/Settings.thy ===== *)
theory Settings
  imports Gateway
begin

text \<open>
  The runtime settings: the registry of \<open>crates/openshell-core/src/settings.rs\<close> and the
  functions of \<open>crates/openshell-server/src/grpc.rs\<close> that check a setting against it, store
  the gateway's and the sandboxes' settings records, decode the global policy and merge what a
  sandbox sees. The registered keys and their kinds are a type discipline for the records:
  every update keeps it and a well-typed record never makes a read fail.
\<close>

section \<open>Registry\<close>

datatype setting_value_kind = KString | KInt | KBool

definition kind_as_str :: "setting_value_kind \<Rightarrow> string" where
  "kind_as_str k = (case k of KString \<Rightarrow> ''string'' | KInt \<Rightarrow> ''int'' | KBool \<Rightarrow> ''bool'')"

record registered_setting =
  rs_key :: string
  rs_kind :: setting_value_kind

text \<open>The argument is the build feature \<open>dev-settings\<close>.\<close>

definition REGISTERED_SETTINGS :: "bool \<Rightarrow> registered_setting list" where
  "REGISTERED_SETTINGS dev =
     (if dev then [\<lparr>rs_key = ''dummy_int'', rs_kind = KInt\<rparr>, \<lparr>rs_key = ''dummy_bool'', rs_kind = KBool\<rparr>] else [])"

definition setting_for_key :: "bool \<Rightarrow> string \<Rightarrow> registered_setting option" where
  "setting_for_key dev key = find (\<lambda>entry. rs_key entry = key) (REGISTERED_SETTINGS dev)"

definition registered_keys_csv :: "bool \<Rightarrow> string" where
  "registered_keys_csv dev = str_join '', '' (map rs_key (REGISTERED_SETTINGS dev))"

definition parse_bool_like :: "string \<Rightarrow> bool option" where
  "parse_bool_like raw =
     (let s = to_ascii_lowercase (str_trim raw) in
      if s \<in> {''1'', ''true'', ''yes'', ''y'', ''on''} then Some True
      else if s \<in> {''0'', ''false'', ''no'', ''n'', ''off''} then Some False
      else None)"

section \<open>Values\<close>

datatype setting_inner = StringValue string | BoolValue bool | IntValue i64 | BytesValue bytes

record setting_value =
  sv_value :: "setting_inner option"

record effective_setting =
  es_value :: "setting_value option"
  es_scope :: int

definition SCOPE_UNSPECIFIED :: int where "SCOPE_UNSPECIFIED = 0"
definition SCOPE_SANDBOX :: int where "SCOPE_SANDBOX = 1"
definition SCOPE_GLOBAL :: int where "SCOPE_GLOBAL = 2"

definition POLICY_SETTING_KEY :: string where "POLICY_SETTING_KEY = ''policy''"
definition GLOBAL_SETTINGS_OBJECT_TYPE :: string where "GLOBAL_SETTINGS_OBJECT_TYPE = ''gateway_settings''"
definition GLOBAL_SETTINGS_ID :: string where "GLOBAL_SETTINGS_ID = ''gateway_settings:global''"
definition GLOBAL_SETTINGS_NAME :: string where "GLOBAL_SETTINGS_NAME = ''global''"
definition SANDBOX_SETTINGS_OBJECT_TYPE :: string where "SANDBOX_SETTINGS_OBJECT_TYPE = ''sandbox_settings''"
definition GLOBAL_POLICY_SANDBOX_ID :: string where "GLOBAL_POLICY_SANDBOX_ID = ''__global__''"

definition validate_registered_setting_key :: "bool \<Rightarrow> string \<Rightarrow> status + setting_value_kind" where
  "validate_registered_setting_key dev key =
     (case setting_for_key dev key of
        Some entry \<Rightarrow> Inr (rs_kind entry)
      | None \<Rightarrow> Inl (InvalidArgument (''unknown setting key '' @ quo @ key @ quo @ ''. Allowed keys: '' @ registered_keys_csv dev)))"

definition proto_setting_to_stored :: "bool \<Rightarrow> string \<Rightarrow> setting_value \<Rightarrow> status + stored_setting_value" where
  "proto_setting_to_stored dev key val =
     and_then (validate_registered_setting_key dev key) (\<lambda>expected.
     and_then (ok_or (sv_value val) (InvalidArgument ''setting_value.value is required'')) (\<lambda>inner.
       case (expected, inner) of
         (KString, StringValue v) \<Rightarrow> Inr (StString v)
       | (KBool, BoolValue v) \<Rightarrow> Inr (StBool v)
       | (KInt, IntValue v) \<Rightarrow> Inr (StInt v)
       | (_, BytesValue _) \<Rightarrow>
           Inl (InvalidArgument (''setting '' @ quo @ key @ quo @ '' expects '' @ kind_as_str expected @
             '' value; bytes are not supported for this key''))
       | _ \<Rightarrow> Inl (InvalidArgument (''setting '' @ quo @ key @ quo @ '' expects '' @ kind_as_str expected @ '' value''))))"

definition stored_setting_to_proto :: "env \<Rightarrow> stored_setting_value \<Rightarrow> status + setting_value" where
  "stored_setting_to_proto E val =
     (case val of
        StString v \<Rightarrow> Inr \<lparr>sv_value = Some (StringValue v)\<rparr>
      | StBool v \<Rightarrow> Inr \<lparr>sv_value = Some (BoolValue v)\<rparr>
      | StInt v \<Rightarrow> Inr \<lparr>sv_value = Some (IntValue v)\<rparr>
      | StBytes v \<Rightarrow>
          (case ev_hex_decode E v of
             Inl e \<Rightarrow> Inl (Internal (''stored bytes decode failed: '' @ e))
           | Inr b \<Rightarrow> Inr \<lparr>sv_value = Some (BytesValue b)\<rparr>))"

definition upsert_setting_value ::
    "string \<Rightarrow> stored_setting_value \<Rightarrow> (string, stored_setting_value) btree_map \<Rightarrow>
     bool \<times> (string, stored_setting_value) btree_map" where
  "upsert_setting_value key val m =
     (case map_of m key of
        Some existing \<Rightarrow> if existing = val then (False, m) else (True, bt_insert key val m)
      | None \<Rightarrow> (True, bt_insert key val m))"

section \<open>Records\<close>

definition load_settings_record :: "env \<Rightarrow> string \<Rightarrow> string \<Rightarrow> store \<Rightarrow> status + stored_settings" where
  "load_settings_record E object_type id' s =
     (case get_object object_type id' s of
        None \<Rightarrow> Inr default_settings
      | Some r \<Rightarrow>
          (case ev_settings_from_json E (ob_payload r) of
             Inl e \<Rightarrow> Inl (Internal (''decode settings payload failed: '' @ e))
           | Inr st \<Rightarrow> Inr st))"

definition load_global_settings :: "env \<Rightarrow> store \<Rightarrow> status + stored_settings" where
  "load_global_settings E s = load_settings_record E GLOBAL_SETTINGS_OBJECT_TYPE GLOBAL_SETTINGS_ID s"

definition save_settings_record ::
    "env \<Rightarrow> int \<Rightarrow> string \<Rightarrow> string \<Rightarrow> string \<Rightarrow> stored_settings \<Rightarrow> unit operation" where
  "save_settings_record E now object_type id' name st =
     commit ''persist settings failed'' (put_object now object_type id' name (ev_settings_to_json E st))"

definition save_global_settings :: "env \<Rightarrow> int \<Rightarrow> stored_settings \<Rightarrow> unit operation" where
  "save_global_settings E now st =
     save_settings_record E now GLOBAL_SETTINGS_OBJECT_TYPE GLOBAL_SETTINGS_ID GLOBAL_SETTINGS_NAME st"

definition sandbox_settings_id :: "string \<Rightarrow> string" where
  "sandbox_settings_id sandbox_id = ''settings:'' @ sandbox_id"

definition load_sandbox_settings :: "env \<Rightarrow> string \<Rightarrow> store \<Rightarrow> status + stored_settings" where
  "load_sandbox_settings E sandbox_id s =
     load_settings_record E SANDBOX_SETTINGS_OBJECT_TYPE (sandbox_settings_id sandbox_id) s"

definition save_sandbox_settings :: "env \<Rightarrow> int \<Rightarrow> string \<Rightarrow> string \<Rightarrow> stored_settings \<Rightarrow> unit operation" where
  "save_sandbox_settings E now sandbox_id sandbox_name st =
     save_settings_record E now SANDBOX_SETTINGS_OBJECT_TYPE (sandbox_settings_id sandbox_id) sandbox_name st"

text \<open>A read of a settings record inside an operation.\<close>

definition loading :: "(store \<Rightarrow> status + 'a) \<Rightarrow> 'a operation" where
  "loading f = then_do (query f) lift"

lemma loading_eq: "loading f g = (f (gw_store g), g)"
  by (simp add: loading_def then_do_def query_def lift_def)

section \<open>What a sandbox sees\<close>

definition decode_policy_from_global_settings :: "env \<Rightarrow> stored_settings \<Rightarrow> status + sandbox_policy option" where
  "decode_policy_from_global_settings E global =
     (case map_of (se_settings global) POLICY_SETTING_KEY of
        None \<Rightarrow> Inr None
      | Some (StBytes encoded) \<Rightarrow>
          (case ev_hex_decode E encoded of
             Inl e \<Rightarrow> Inl (Internal (''global policy decode failed: '' @ e))
           | Inr raw \<Rightarrow>
               (case ev_decode_policy E raw of
                  Inl e \<Rightarrow> Inl (Internal (''global policy protobuf decode failed: '' @ e))
                | Inr p \<Rightarrow> Inr (Some p)))
      | Some _ \<Rightarrow> Inl (Internal ''global policy setting has invalid value type; expected bytes''))"

fun merge_scope ::
    "env \<Rightarrow> int \<Rightarrow> (string \<times> stored_setting_value) list \<Rightarrow> (string, effective_setting) hash_map \<Rightarrow>
     status + (string, effective_setting) hash_map" where
  "merge_scope E scope [] merged = Inr merged"
| "merge_scope E scope ((key, val) # m) merged =
     (if key = POLICY_SETTING_KEY \<or> setting_for_key (ev_dev_settings E) key = None then merge_scope E scope m merged
      else and_then (stored_setting_to_proto E val) (\<lambda>v.
        merge_scope E scope m (hm_insert key \<lparr>es_value = Some v, es_scope = scope\<rparr> merged)))"

definition unset_settings :: "bool \<Rightarrow> (string, effective_setting) hash_map" where
  "unset_settings dev =
     fold (\<lambda>r. hm_insert (rs_key r) \<lparr>es_value = None, es_scope = SCOPE_UNSPECIFIED\<rparr>) (REGISTERED_SETTINGS dev) []"

definition merge_effective_settings ::
    "env \<Rightarrow> stored_settings \<Rightarrow> stored_settings \<Rightarrow> status + (string, effective_setting) hash_map" where
  "merge_effective_settings E global sandbox =
     and_then (merge_scope E SCOPE_SANDBOX (se_settings sandbox) (unset_settings (ev_dev_settings E))) (\<lambda>merged.
       merge_scope E SCOPE_GLOBAL (se_settings global) merged)"

fun materialize_entries ::
    "env \<Rightarrow> (string \<times> stored_setting_value) list \<Rightarrow> (string, setting_value) hash_map \<Rightarrow>
     status + (string, setting_value) hash_map" where
  "materialize_entries E [] acc = Inr acc"
| "materialize_entries E ((key, val) # m) acc =
     (if key = POLICY_SETTING_KEY \<or> setting_for_key (ev_dev_settings E) key = None then materialize_entries E m acc
      else and_then (stored_setting_to_proto E val) (\<lambda>v. materialize_entries E m (hm_insert key v acc)))"

definition materialize_global_settings :: "env \<Rightarrow> stored_settings \<Rightarrow> status + (string, setting_value) hash_map" where
  "materialize_global_settings E global =
     materialize_entries E (se_settings global)
       (fold (\<lambda>r. hm_insert (rs_key r) \<lparr>sv_value = None\<rparr>) (REGISTERED_SETTINGS (ev_dev_settings E)) [])"

section \<open>The revision of a configuration\<close>

datatype policy_source = SourceUnspecified | SourceSandbox | SourceGlobal

definition source_number :: "policy_source \<Rightarrow> nat" where
  "source_number s = (case s of SourceUnspecified \<Rightarrow> 0 | SourceSandbox \<Rightarrow> 1 | SourceGlobal \<Rightarrow> 2)"

definition setting_hash_input :: "setting_inner \<Rightarrow> bytes" where
  "setting_hash_input v =
     (case v of
        StringValue s \<Rightarrow> CHR 0x00 # s
      | BoolValue b \<Rightarrow> [CHR 0x01, if b then CHR 0x01 else CHR 0x00]
      | IntValue i \<Rightarrow> CHR 0x02 # le_bytes 8 (unat i)
      | BytesValue b \<Rightarrow> CHR 0x03 # b)"

definition config_hash_input ::
    "env \<Rightarrow> sandbox_policy option \<Rightarrow> (string, effective_setting) hash_map \<Rightarrow> policy_source \<Rightarrow> bytes" where
  "config_hash_input E policy settings source =
     le_bytes 4 (source_number source) @
     opt_bytes (deterministic_policy_hash E) policy @
     concat (map (\<lambda>(key, es). key @ le_bytes 4 (nat (es_scope es)) @
         opt_bytes setting_hash_input (Option.bind (es_value es) sv_value)) (sort_key fst settings))"

definition le_value :: "bytes \<Rightarrow> nat" where
  "le_value bs = foldr (\<lambda>c n. code c + 256 * n) bs 0"

definition compute_config_revision ::
    "env \<Rightarrow> sandbox_policy option \<Rightarrow> (string, effective_setting) hash_map \<Rightarrow> policy_source \<Rightarrow> u64" where
  "compute_config_revision E policy settings source =
     of_nat (le_value (take 8 (ev_sha256 E (config_hash_input E policy settings source))))"

section \<open>Kinds\<close>

text \<open>The kind of a stored value and of a value on the wire; bytes have none.\<close>

fun stored_kind :: "stored_setting_value \<Rightarrow> setting_value_kind option" where
  "stored_kind (StString _) = Some KString"
| "stored_kind (StBool _) = Some KBool"
| "stored_kind (StInt _) = Some KInt"
| "stored_kind (StBytes _) = None"

fun inner_kind :: "setting_inner \<Rightarrow> setting_value_kind option" where
  "inner_kind (StringValue _) = Some KString"
| "inner_kind (BoolValue _) = Some KBool"
| "inner_kind (IntValue _) = Some KInt"
| "inner_kind (BytesValue _) = None"

text \<open>Registered keys have values of their kind.\<close>

definition settings_typed :: "bool \<Rightarrow> (string, stored_setting_value) btree_map \<Rightarrow> bool" where
  "settings_typed dev m \<longleftrightarrow> bt_ok m \<and>
     (\<forall>k v e. map_of m k = Some v \<longrightarrow> setting_for_key dev k = Some e \<longrightarrow> stored_kind v = Some (rs_kind e))"

text \<open>The global record may hold an encoded, safe policy under the reserved key.\<close>

definition global_typed :: "env \<Rightarrow> stored_settings \<Rightarrow> bool" where
  "global_typed E st \<longleftrightarrow> settings_typed (ev_dev_settings E) (se_settings st) \<and>
     (\<forall>v. map_of (se_settings st) POLICY_SETTING_KEY = Some v \<longrightarrow>
        (\<exists>p. hm_ok (sp_network_policies p) \<and> policy_safe p \<and> v = StBytes (ev_hex_encode E (ev_encode_policy E p))))"

lemma setting_for_key_policy: "setting_for_key dev POLICY_SETTING_KEY = None"
  by (simp add: setting_for_key_def REGISTERED_SETTINGS_def POLICY_SETTING_KEY_def)

lemma setting_for_key_key: "setting_for_key dev k = Some e \<Longrightarrow> rs_key e = k \<and> e \<in> set (REGISTERED_SETTINGS dev)"
  unfolding setting_for_key_def by (drule find_mem) simp

lemma proto_setting_to_stored_kind:
  assumes "proto_setting_to_stored dev key val = Inr v"
  shows "\<exists>e. setting_for_key dev key = Some e \<and> stored_kind v = Some (rs_kind e)"
proof -
  from assms obtain e inner where e: "setting_for_key dev key = Some e" and inner: "sv_value val = Some inner"
    and r: "(case (rs_kind e, inner) of
         (KString, StringValue v) \<Rightarrow> Inr (StString v)
       | (KBool, BoolValue v) \<Rightarrow> Inr (StBool v)
       | (KInt, IntValue v) \<Rightarrow> Inr (StInt v)
       | (_, BytesValue _) \<Rightarrow>
           Inl (InvalidArgument (''setting '' @ quo @ key @ quo @ '' expects '' @ kind_as_str (rs_kind e) @
             '' value; bytes are not supported for this key''))
       | _ \<Rightarrow> Inl (InvalidArgument (''setting '' @ quo @ key @ quo @ '' expects '' @ kind_as_str (rs_kind e) @ '' value''))) =
      Inr v"
    unfolding proto_setting_to_stored_def validate_registered_setting_key_def and_then_eq_Inr ok_or_eq_Inr
    by (auto split: option.splits)
  from r have "stored_kind v = Some (rs_kind e)"
    by (cases "rs_kind e"; cases inner) auto
  with e show ?thesis by blast
qed

lemma settings_typed_Nil: "settings_typed dev []"
  by (simp add: settings_typed_def bt_ok_def)

lemma settings_typed_insert:
  assumes "settings_typed dev m" "\<forall>e. setting_for_key dev k = Some e \<longrightarrow> stored_kind v = Some (rs_kind e)"
  shows "settings_typed dev (bt_insert k v m)"
  using assms by (auto simp: settings_typed_def bt_ok_insert map_of_bt_insert)

lemma snd_upsert: "snd (upsert_setting_value k v m) = m \<and> map_of m k = Some v \<or> snd (upsert_setting_value k v m) = bt_insert k v m"
  by (auto simp: upsert_setting_value_def split: option.splits)

lemma settings_typed_upsert:
  assumes "settings_typed dev m" "\<forall>e. setting_for_key dev k = Some e \<longrightarrow> stored_kind v = Some (rs_kind e)"
  shows "settings_typed dev (snd (upsert_setting_value k v m))"
  using snd_upsert [of k v m] settings_typed_insert [OF assms] assms(1) by metis

lemma map_of_upsert: "map_of (snd (upsert_setting_value k v m)) = (map_of m)(k \<mapsto> v)"
  using snd_upsert [of k v m] by (auto simp: map_of_bt_insert)

lemma bt_ok_remove: "bt_ok m \<Longrightarrow> bt_ok (filter P m)"
  by (auto simp: bt_ok_def sorted_wrt_map intro: sorted_wrt_filter)

lemma settings_typed_remove:
  assumes "settings_typed dev m"
  shows "settings_typed dev (hm_remove k m)"
proof -
  have "bt_ok (hm_remove k m)" using assms by (simp add: settings_typed_def hm_remove_def bt_ok_remove)
  with assms show ?thesis by (auto simp: settings_typed_def map_of_hm_remove split: if_splits)
qed

section \<open>The merge\<close>

fun inner_of :: "stored_setting_value \<Rightarrow> setting_inner" where
  "inner_of (StString v) = StringValue v"
| "inner_of (StBool v) = BoolValue v"
| "inner_of (StInt v) = IntValue v"
| "inner_of (StBytes v) = BytesValue v"

lemma inner_of_kind: "inner_kind (inner_of v) = stored_kind v"
  by (cases v) simp_all

lemma stored_to_proto_typed: "stored_kind v = Some k \<Longrightarrow> stored_setting_to_proto E v = Inr \<lparr>sv_value = Some (inner_of v)\<rparr>"
  by (cases v) (simp_all add: stored_setting_to_proto_def)

text \<open>What a sandbox should see under a key: the global value, else its own, else none.\<close>

definition effective_spec ::
    "bool \<Rightarrow> stored_settings \<Rightarrow> stored_settings \<Rightarrow> string \<Rightarrow> effective_setting option" where
  "effective_spec dev global sandbox k =
     (if setting_for_key dev k = None then None
      else Some (case map_of (se_settings global) k of
          Some v \<Rightarrow> \<lparr>es_value = Some \<lparr>sv_value = Some (inner_of v)\<rparr>, es_scope = SCOPE_GLOBAL\<rparr>
        | None \<Rightarrow>
            (case map_of (se_settings sandbox) k of
               Some v \<Rightarrow> \<lparr>es_value = Some \<lparr>sv_value = Some (inner_of v)\<rparr>, es_scope = SCOPE_SANDBOX\<rparr>
             | None \<Rightarrow> \<lparr>es_value = None, es_scope = SCOPE_UNSPECIFIED\<rparr>)))"

lemma merge_scope_spec:
  assumes "hm_ok merged" "distinct (map fst m)"
    "\<forall>(k, v) \<in> set m. \<forall>e. setting_for_key (ev_dev_settings E) k = Some e \<longrightarrow> stored_kind v = Some (rs_kind e)"
  shows "\<exists>r. merge_scope E scope m merged = Inr r \<and> hm_ok r \<and>
    (\<forall>k. map_of r k = (if setting_for_key (ev_dev_settings E) k = None then map_of merged k
       else case map_of m k of None \<Rightarrow> map_of merged k
         | Some v \<Rightarrow> Some \<lparr>es_value = Some \<lparr>sv_value = Some (inner_of v)\<rparr>, es_scope = scope\<rparr>))"
  using assms
proof (induction m arbitrary: merged)
  case Nil
  then show ?case by simp
next
  case (Cons e m)
  obtain k v where e: "e = (k, v)" by (cases e)
  have fresh: "map_of m k = None" using Cons.prems(2) by (simp add: e map_of_eq_None_iff)
  show ?case
  proof (cases "setting_for_key (ev_dev_settings E) k")
    case None
    with Cons.IH [of merged] Cons.prems show ?thesis by (auto simp: e)
  next
    case (Some entry)
    then have k: "k \<noteq> POLICY_SETTING_KEY" using setting_for_key_policy by force
    from Some Cons.prems(3) have "stored_kind v = Some (rs_kind entry)" by (simp add: e)
    note v = stored_to_proto_typed [OF this, of E]
    let ?m = "hm_insert k \<lparr>es_value = Some \<lparr>sv_value = Some (inner_of v)\<rparr>, es_scope = scope\<rparr> merged"
    have "hm_ok ?m" using Cons.prems(1) by (rule hm_ok_insert)
    with Cons.IH [of ?m] Cons.prems obtain r where r: "merge_scope E scope m ?m = Inr r" "hm_ok r"
      "\<forall>k. map_of r k = (if setting_for_key (ev_dev_settings E) k = None then map_of ?m k
       else case map_of m k of None \<Rightarrow> map_of ?m k
         | Some v \<Rightarrow> Some \<lparr>es_value = Some \<lparr>sv_value = Some (inner_of v)\<rparr>, es_scope = scope\<rparr>)"
      by auto
    show ?thesis
    proof (intro exI conjI)
      show "merge_scope E scope (e # m) merged = Inr r" using r(1) v k Some by (simp add: e)
      show "hm_ok r" by fact
    qed (use r(3) fresh Some in \<open>auto simp: e map_of_hm_insert split: option.splits\<close>)
  qed
qed

lemma unset_settings_spec:
  "hm_ok (unset_settings dev) \<and> map_of (unset_settings dev) k =
     (if setting_for_key dev k = None then None else Some \<lparr>es_value = None, es_scope = SCOPE_UNSPECIFIED\<rparr>)"
  by (cases dev) (auto simp: unset_settings_def REGISTERED_SETTINGS_def setting_for_key_def hm_ok_def)

lemma typed_entries:
  assumes "settings_typed dev m"
  shows "distinct (map fst m)"
    "\<forall>(k, v) \<in> set m. \<forall>e. setting_for_key dev k = Some e \<longrightarrow> stored_kind v = Some (rs_kind e)"
proof -
  show d: "distinct (map fst m)" using assms by (simp add: settings_typed_def bt_ok_distinct)
  then show "\<forall>(k, v) \<in> set m. \<forall>e. setting_for_key dev k = Some e \<longrightarrow> stored_kind v = Some (rs_kind e)"
    using assms by (auto simp: settings_typed_def)
qed

lemma merge_effective_spec:
  assumes "settings_typed (ev_dev_settings E) (se_settings global)"
    "settings_typed (ev_dev_settings E) (se_settings sandbox)"
  shows "\<exists>m. merge_effective_settings E global sandbox = Inr m \<and> hm_ok m \<and>
    map_of m = effective_spec (ev_dev_settings E) global sandbox"
proof -
  let ?dev = "ev_dev_settings E"
  obtain m1 where m1: "merge_scope E SCOPE_SANDBOX (se_settings sandbox) (unset_settings ?dev) = Inr m1" "hm_ok m1"
    "\<forall>k. map_of m1 k = (if setting_for_key ?dev k = None then map_of (unset_settings ?dev) k
       else case map_of (se_settings sandbox) k of None \<Rightarrow> map_of (unset_settings ?dev) k
         | Some v \<Rightarrow> Some \<lparr>es_value = Some \<lparr>sv_value = Some (inner_of v)\<rparr>, es_scope = SCOPE_SANDBOX\<rparr>)"
    using merge_scope_spec [OF unset_settings_spec [THEN conjunct1] typed_entries [OF assms(2)]] by blast
  obtain m2 where m2: "merge_scope E SCOPE_GLOBAL (se_settings global) m1 = Inr m2" "hm_ok m2"
    "\<forall>k. map_of m2 k = (if setting_for_key ?dev k = None then map_of m1 k
       else case map_of (se_settings global) k of None \<Rightarrow> map_of m1 k
         | Some v \<Rightarrow> Some \<lparr>es_value = Some \<lparr>sv_value = Some (inner_of v)\<rparr>, es_scope = SCOPE_GLOBAL\<rparr>)"
    using merge_scope_spec [OF m1(2) typed_entries [OF assms(1)]] by blast
  have "map_of m2 k = effective_spec ?dev global sandbox k" for k
    using m1(3) m2(3) unset_settings_spec [of ?dev] by (auto simp: effective_spec_def split: option.splits)
  then show ?thesis using m1(1) m2 by (auto simp: merge_effective_settings_def fun_eq_iff)
qed

end
