(* ===== verification/Config.thy ===== *)
theory Config
  imports Settings
begin

text \<open>
  The configuration handlers of \<open>crates/openshell-server/src/grpc.rs\<close>: \<open>update_config\<close> with
  its four kinds of update (global policy, global setting, sandbox setting, sandbox policy),
  the reads \<open>get_sandbox_config\<close> and \<open>get_gateway_config\<close>, and the status of revisions.
  A handler runs without interference here (the global updates hold \<open>settings_mutex\<close>); the clock
  and the fresh identifier are arguments.
\<close>

record update_config_request =
  uc_name :: string
  uc_policy :: "sandbox_policy option"
  uc_setting_key :: string
  uc_setting_value :: "setting_value option"
  uc_delete_setting :: bool
  uc_global :: bool

record update_config_response =
  ur_version :: u32
  ur_policy_hash :: string
  ur_settings_revision :: u64
  ur_deleted :: bool

definition u32_or_0 :: "int \<Rightarrow> u32" where
  "u32_or_0 v = (if 0 \<le> v \<and> v < 2 ^ 32 then of_int v else 0)"

section \<open>Updates\<close>

text \<open>The changed flag of an upsert or a removal, and the save that follows when it is set.\<close>

definition bump :: "bool \<times> (string, stored_setting_value) btree_map \<Rightarrow> stored_settings \<Rightarrow> stored_settings" where
  "bump upd st =
     (if fst upd then \<lparr>se_revision = se_revision st + 1, se_settings = snd upd\<rparr> else st)"

definition save_global_if :: "env \<Rightarrow> int \<Rightarrow> bool \<times> (string, stored_setting_value) btree_map \<Rightarrow> stored_settings \<Rightarrow>
    stored_settings operation" where
  "save_global_if E now upd st =
     (if fst upd then then_do (save_global_settings E now (bump upd st)) (\<lambda>_. ret (bump upd st)) else ret st)"

definition save_sandbox_if :: "env \<Rightarrow> int \<Rightarrow> sandbox \<Rightarrow> bool \<times> (string, stored_setting_value) btree_map \<Rightarrow>
    stored_settings \<Rightarrow> stored_settings operation" where
  "save_sandbox_if E now sb upd st =
     (if fst upd then then_do (save_sandbox_settings E now (sb_id sb) (sb_name sb) (bump upd st)) (\<lambda>_. ret (bump upd st))
      else ret st)"

text \<open>The policy in the settings blob, from which \<open>get_sandbox_config\<close> delivers it.\<close>

definition deliver_global_policy :: "env \<Rightarrow> int \<Rightarrow> bytes \<Rightarrow> stored_settings operation" where
  "deliver_global_policy E now payload =
     then_do (loading (load_global_settings E)) (\<lambda>st.
       save_global_if E now
         (upsert_setting_value POLICY_SETTING_KEY (StBytes (ev_hex_encode E payload)) (se_settings st)) st)"

definition next_version :: "policy_record option \<Rightarrow> int" where
  "next_version latest = (case latest of None \<Rightarrow> 1 | Some r \<Rightarrow> pr_version r + 1)"

definition policy_response :: "int \<Rightarrow> string \<Rightarrow> u64 \<Rightarrow> update_config_response" where
  "policy_response version hash settings_rev =
     \<lparr>ur_version = u32_or_0 version, ur_policy_hash = hash, ur_settings_revision = settings_rev, ur_deleted = False\<rparr>"

text \<open>A new global revision: loaded at once, the older ones superseded, then delivered.\<close>

definition persist_global_policy ::
    "env \<Rightarrow> string \<Rightarrow> int \<Rightarrow> bytes \<Rightarrow> string \<Rightarrow> int \<Rightarrow> update_config_response operation" where
  "persist_global_policy E uuid now payload hash version =
     then_do (commit ''persist global policy revision failed''
         (put_policy_revision now uuid GLOBAL_POLICY_SANDBOX_ID version payload hash)) (\<lambda>_.
     then_do (update (update_policy_status GLOBAL_POLICY_SANDBOX_ID version ''loaded'' None (Some now))) (\<lambda>_.
     then_do (update (supersede_older_policies GLOBAL_POLICY_SANDBOX_ID version)) (\<lambda>_.
     then_do (deliver_global_policy E now payload) (\<lambda>st.
       ret (policy_response version hash (se_revision st))))))"

definition update_global_policy :: "env \<Rightarrow> string \<Rightarrow> int \<Rightarrow> sandbox_policy \<Rightarrow> update_config_response operation" where
  "update_global_policy E uuid now policy =
     (let new_policy = ensure_sandbox_process_identity policy;
          payload = ev_encode_policy E new_policy;
          hash = deterministic_policy_hash E new_policy in
      then_do (lift (validate_policy_safety new_policy)) (\<lambda>_.
      then_do (query (get_latest_policy GLOBAL_POLICY_SANDBOX_ID)) (\<lambda>latest.
        case latest of
          Some current \<Rightarrow>
            if pr_hash current = hash \<and> pr_status current = ''loaded'' then
              then_do (deliver_global_policy E now payload) (\<lambda>st.
                ret (policy_response (pr_version current) hash (se_revision st)))
            else persist_global_policy E uuid now payload hash (next_version latest)
        | None \<Rightarrow> persist_global_policy E uuid now payload hash (next_version latest))))"

definition setting_response :: "u64 \<Rightarrow> bool \<Rightarrow> update_config_response" where
  "setting_response settings_rev deleted =
     \<lparr>ur_version = 0, ur_policy_hash = [], ur_settings_revision = settings_rev, ur_deleted = deleted\<rparr>"

definition required_setting :: "bool \<Rightarrow> string \<Rightarrow> setting_value option \<Rightarrow> status + stored_setting_value" where
  "required_setting dev key val =
     and_then (ok_or val (InvalidArgument ''setting_value is required'')) (proto_setting_to_stored dev key)"

text \<open>Deleting the global policy supersedes its revisions.\<close>

definition supersede_global_policies :: "unit operation" where
  "supersede_global_policies =
     then_do (query (get_latest_policy GLOBAL_POLICY_SANDBOX_ID)) (\<lambda>latest.
       case latest of
         Some r \<Rightarrow> then_do (update (supersede_older_policies GLOBAL_POLICY_SANDBOX_ID (pr_version r + 1))) (\<lambda>_. ret ())
       | None \<Rightarrow> ret ())"

definition update_global_setting :: "env \<Rightarrow> int \<Rightarrow> string \<Rightarrow> update_config_request \<Rightarrow> update_config_response operation" where
  "update_global_setting E now key req =
     check (key \<noteq> POLICY_SETTING_KEY \<or> uc_delete_setting req)
       (InvalidArgument (''reserved key '' @ quo @ ''policy'' @ quo @ '' must be set via the policy field''))
     (then_do (lift (if key \<noteq> POLICY_SETTING_KEY
          then and_then (validate_registered_setting_key (ev_dev_settings E) key) (\<lambda>_. Inr ()) else Inr ())) (\<lambda>_.
      then_do (loading (load_global_settings E)) (\<lambda>st.
        if uc_delete_setting req then
          let removed = map_of (se_settings st) key \<noteq> None in
          then_do (if removed \<and> key = POLICY_SETTING_KEY then supersede_global_policies else ret ()) (\<lambda>_.
          then_do (save_global_if E now (removed, hm_remove key (se_settings st)) st) (\<lambda>st'.
            ret (setting_response (se_revision st') removed)))
        else
          then_do (lift (required_setting (ev_dev_settings E) key (uc_setting_value req))) (\<lambda>stored.
          then_do (save_global_if E now (upsert_setting_value key stored (se_settings st)) st) (\<lambda>st'.
            ret (setting_response (se_revision st') False))))))"

definition update_sandbox_setting ::
    "env \<Rightarrow> int \<Rightarrow> string \<Rightarrow> sandbox \<Rightarrow> update_config_request \<Rightarrow> update_config_response operation" where
  "update_sandbox_setting E now key sb req =
     check (key \<noteq> POLICY_SETTING_KEY)
       (InvalidArgument (''reserved key '' @ quo @ ''policy'' @ quo @ '' must be set via policy commands''))
     (then_do (loading (load_global_settings E)) (\<lambda>global.
        let globally_managed = map_of (se_settings global) key \<noteq> None in
        if uc_delete_setting req then
          check (\<not> globally_managed)
            (FailedPrecondition (''setting '' @ quo @ key @ quo @ '' is managed globally; delete the global setting first''))
          (then_do (loading (load_sandbox_settings E (sb_id sb))) (\<lambda>st.
             let removed = map_of (se_settings st) key \<noteq> None in
             then_do (save_sandbox_if E now sb (removed, hm_remove key (se_settings st)) st) (\<lambda>st'.
               ret (setting_response (se_revision st') removed))))
        else
          check (\<not> globally_managed)
            (FailedPrecondition (''setting '' @ quo @ key @ quo @ '' is managed globally; delete the global setting before sandbox update''))
          (then_do (lift (required_setting (ev_dev_settings E) key (uc_setting_value req))) (\<lambda>stored.
           then_do (loading (load_sandbox_settings E (sb_id sb))) (\<lambda>st.
           then_do (save_sandbox_if E now sb (upsert_setting_value key stored (se_settings st)) st) (\<lambda>st'.
             ret (setting_response (se_revision st') False)))))))"

text \<open>Without a baseline the new policy becomes the baseline, unchecked.\<close>

definition check_against_baseline :: "env \<Rightarrow> int \<Rightarrow> sandbox \<Rightarrow> sandbox_spec \<Rightarrow> sandbox_policy \<Rightarrow> unit operation" where
  "check_against_baseline E now sb spec new_policy =
     (case sc_policy spec of
        Some baseline \<Rightarrow>
          then_do (lift (validate_static_fields_unchanged baseline new_policy)) (\<lambda>_.
            lift (validate_policy_safety new_policy))
      | None \<Rightarrow>
          commit ''backfill spec.policy failed''
            (put_sandbox E now (sb\<lparr>sb_spec := Some (spec\<lparr>sc_policy := Some new_policy\<rparr>)\<rparr>)))"

definition persist_sandbox_policy ::
    "string \<Rightarrow> int \<Rightarrow> string \<Rightarrow> bytes \<Rightarrow> string \<Rightarrow> int \<Rightarrow> update_config_response operation" where
  "persist_sandbox_policy uuid now sandbox_id payload hash version =
     then_do (commit ''persist policy revision failed'' (put_policy_revision now uuid sandbox_id version payload hash)) (\<lambda>_.
     then_do (update (supersede_older_policies sandbox_id version)) (\<lambda>_.
     then_do (notify sandbox_id) (\<lambda>_.
       ret (policy_response version hash 0))))"

definition update_sandbox_policy ::
    "env \<Rightarrow> string \<Rightarrow> int \<Rightarrow> sandbox \<Rightarrow> sandbox_policy \<Rightarrow> update_config_response operation" where
  "update_sandbox_policy E uuid now sb policy =
     then_do (loading (load_global_settings E)) (\<lambda>global.
     check (map_of (se_settings global) POLICY_SETTING_KEY = None)
       (FailedPrecondition ''policy is managed globally; delete global policy before sandbox policy update'')
     (then_do (lift (ok_or (sb_spec sb) (Internal ''sandbox has no spec''))) (\<lambda>spec.
      let new_policy = ensure_sandbox_process_identity policy in
      then_do (check_against_baseline E now sb spec new_policy) (\<lambda>_.
      then_do (query (get_latest_policy (sb_id sb))) (\<lambda>latest.
      let payload = ev_encode_policy E new_policy; hash = deterministic_policy_hash E new_policy in
      case latest of
        Some current \<Rightarrow>
          if pr_hash current = hash then ret (policy_response (pr_version current) hash 0)
          else persist_sandbox_policy uuid now (sb_id sb) payload hash (next_version latest)
      | None \<Rightarrow> persist_sandbox_policy uuid now (sb_id sb) payload hash (next_version latest))))))"

definition update_config :: "env \<Rightarrow> string \<Rightarrow> int \<Rightarrow> update_config_request \<Rightarrow> update_config_response operation" where
  "update_config E uuid now req =
     (let key = str_trim (uc_setting_key req); has_setting = (key \<noteq> []) in
      check (\<not> (uc_policy req \<noteq> None \<and> has_setting))
        (InvalidArgument ''policy and setting_key cannot be set in the same request'')
      (check (uc_policy req \<noteq> None \<or> has_setting)
        (InvalidArgument ''either policy or setting_key must be provided'')
      (if uc_global req then
         (case uc_policy req of
            Some policy \<Rightarrow>
              check (\<not> uc_delete_setting req)
                (InvalidArgument ''delete_setting cannot be combined with policy payload'')
                (update_global_policy E uuid now policy)
          | None \<Rightarrow> update_global_setting E now key req)
       else
         check (uc_name req \<noteq> []) (InvalidArgument ''name is required for sandbox-scoped updates'')
         (then_do (sandbox_by_name E (uc_name req)) (\<lambda>sb.
            case uc_policy req of
              None \<Rightarrow> update_sandbox_setting E now key sb req
            | Some policy \<Rightarrow> update_sandbox_policy E uuid now sb policy)))))"

section \<open>Reads\<close>

record sandbox_config_response =
  gc_policy :: "sandbox_policy option"
  gc_version :: u32
  gc_policy_hash :: string
  gc_settings :: "(string, effective_setting) hash_map"
  gc_config_revision :: u64
  gc_policy_source :: policy_source
  gc_global_policy_version :: u32

text \<open>The best-effort backfill of version 1 from the spec.\<close>

definition backfill_policy :: "env \<Rightarrow> string \<Rightarrow> int \<Rightarrow> string \<Rightarrow> sandbox_policy \<Rightarrow> unit operation" where
  "backfill_policy E uuid now sandbox_id p =
     then_do (attempt (put_policy_revision now uuid sandbox_id 1 (ev_encode_policy E p) (deterministic_policy_hash E p)))
       (\<lambda>stored. if is_ok stored then then_do (update (update_policy_status sandbox_id 1 ''loaded'' None None)) (\<lambda>_. ret ())
          else ret ())"

definition sandbox_policy_of :: "env \<Rightarrow> string \<Rightarrow> int \<Rightarrow> string \<Rightarrow> sandbox \<Rightarrow>
    (sandbox_policy option \<times> u32 \<times> string) operation" where
  "sandbox_policy_of E uuid now sandbox_id sb =
     then_do (query (get_latest_policy sandbox_id)) (\<lambda>latest.
       case latest of
         Some r \<Rightarrow>
           (case ev_decode_policy E (pr_payload r) of
              Inl e \<Rightarrow> fail (Internal (''decode policy failed: '' @ e))
            | Inr p \<Rightarrow> ret (Some p, u32_or_0 (pr_version r), pr_hash r))
       | None \<Rightarrow>
           then_do (lift (ok_or (sb_spec sb) (Internal ''sandbox has no spec''))) (\<lambda>spec.
             case sc_policy spec of
               None \<Rightarrow> ret (None, 0, [])
             | Some p \<Rightarrow>
                 then_do (backfill_policy E uuid now sandbox_id p) (\<lambda>_.
                   ret (Some p, 1, deterministic_policy_hash E p))))"

definition global_policy_version :: "store \<Rightarrow> u32" where
  "global_policy_version s =
     (case get_latest_policy GLOBAL_POLICY_SANDBOX_ID s of Some r \<Rightarrow> u32_or_0 (pr_version r) | None \<Rightarrow> 0)"

definition get_sandbox_config :: "env \<Rightarrow> string \<Rightarrow> int \<Rightarrow> string \<Rightarrow> sandbox_config_response operation" where
  "get_sandbox_config E uuid now sandbox_id =
     then_do (sandbox_by_id E sandbox_id) (\<lambda>sb.
     then_do (sandbox_policy_of E uuid now sandbox_id sb) (\<lambda>(own, version, own_hash).
     then_do (loading (load_global_settings E)) (\<lambda>global.
     then_do (loading (load_sandbox_settings E sandbox_id)) (\<lambda>sandbox.
     then_do (lift (decode_policy_from_global_settings E global)) (\<lambda>global_policy.
     then_do (query global_policy_version) (\<lambda>global_version.
     let (policy, version, hash, source, global_version) =
       (case global_policy of
          Some p \<Rightarrow> (Some p, if version = 0 then 1 else version, deterministic_policy_hash E p, SourceGlobal, global_version)
        | None \<Rightarrow> (own, version, own_hash, SourceSandbox, 0)) in
     then_do (lift (merge_effective_settings E global sandbox)) (\<lambda>settings.
       ret \<lparr>gc_policy = policy, gc_version = version, gc_policy_hash = hash, gc_settings = settings,
            gc_config_revision = compute_config_revision E policy settings source,
            gc_policy_source = source, gc_global_policy_version = global_version\<rparr>)))))))"

definition get_gateway_config :: "env \<Rightarrow> ((string, setting_value) hash_map \<times> u64) operation" where
  "get_gateway_config E =
     then_do (loading (load_global_settings E)) (\<lambda>global.
     then_do (lift (materialize_global_settings E global)) (\<lambda>settings.
       ret (settings, se_revision global)))"

section \<open>Revisions\<close>

datatype policy_status = PsUnspecified | PsPending | PsLoaded | PsFailed | PsSuperseded

record policy_revision =
  rv_version :: u32
  rv_policy_hash :: string
  rv_status :: policy_status
  rv_load_error :: string
  rv_created_at_ms :: int
  rv_loaded_at_ms :: int
  rv_policy :: "sandbox_policy option"

definition policy_record_to_revision :: "env \<Rightarrow> policy_record \<Rightarrow> bool \<Rightarrow> policy_revision" where
  "policy_record_to_revision E r include_policy =
     \<lparr>rv_version = u32_or_0 (pr_version r),
      rv_policy_hash = pr_hash r,
      rv_status = (if pr_status r = ''pending'' then PsPending
                   else if pr_status r = ''loaded'' then PsLoaded
                   else if pr_status r = ''failed'' then PsFailed
                   else if pr_status r = ''superseded'' then PsSuperseded else PsUnspecified),
      rv_load_error = unwrap_or (pr_load_error r) [],
      rv_created_at_ms = pr_created r,
      rv_loaded_at_ms = unwrap_or (pr_loaded r) 0,
      rv_policy = (if include_policy then
          (case ev_decode_policy E (pr_payload r) of Inl _ \<Rightarrow> None | Inr p \<Rightarrow> Some p) else None)\<rparr>"

definition get_sandbox_policy_status ::
    "env \<Rightarrow> bool \<Rightarrow> string \<Rightarrow> u32 \<Rightarrow> (policy_revision \<times> u32) operation" where
  "get_sandbox_policy_status E global name version =
     then_do
       (if global then ret (GLOBAL_POLICY_SANDBOX_ID, 0)
        else check (name \<noteq> []) (InvalidArgument ''name is required'')
          (then_do (sandbox_by_name E name) (\<lambda>sb. ret (sb_id sb, sb_current_policy_version sb)))) (\<lambda>(policy_id, active).
     then_do (query (if version = 0 then get_latest_policy policy_id
          else get_policy_by_version policy_id (int (unat version)))) (\<lambda>row.
     then_do (lift (ok_or row (NotFound (if global then ''no global policy revision found''
          else ''no policy revision found for this sandbox'')))) (\<lambda>r.
       ret (policy_record_to_revision E r True, active))))"

definition list_sandbox_policies ::
    "env \<Rightarrow> bool \<Rightarrow> string \<Rightarrow> u32 \<Rightarrow> u32 \<Rightarrow> policy_revision list operation" where
  "list_sandbox_policies E global name limit offset =
     then_do
       (if global then ret GLOBAL_POLICY_SANDBOX_ID
        else check (name \<noteq> []) (InvalidArgument ''name is required'')
          (then_do (sandbox_by_name E name) (\<lambda>sb. ret (sb_id sb)))) (\<lambda>policy_id.
     then_do (query (list_policies policy_id (clamp_limit limit 50 MAX_PAGE_SIZE) offset)) (\<lambda>records.
       ret (map (\<lambda>r. policy_record_to_revision E r False) records)))"

text \<open>The status is the number on the wire: 2 is loaded, 3 is failed.\<close>

definition report_policy_status ::
    "env \<Rightarrow> int \<Rightarrow> string \<Rightarrow> u32 \<Rightarrow> int \<Rightarrow> string \<Rightarrow> unit operation" where
  "report_policy_status E now sandbox_id version status load_error =
     check (sandbox_id \<noteq> []) (InvalidArgument ''sandbox_id is required'')
     (check (version \<noteq> 0) (InvalidArgument ''version is required'')
     (check (status = 2 \<or> status = 3) (InvalidArgument ''status must be LOADED or FAILED'')
     (let loaded = (status = 2); v = int (unat version) in
      then_do (update (update_policy_status sandbox_id v (if loaded then ''loaded'' else ''failed'')
          (if \<not> loaded \<and> load_error \<noteq> [] then Some load_error else None) (if loaded then Some now else None))) (\<lambda>updated.
      check updated (NotFound ''policy revision not found'')
      (if loaded then
         then_do (update (supersede_older_policies sandbox_id v)) (\<lambda>_.
         then_do (query (get_message ''sandbox'' (ev_decode_sandbox E) sandbox_id)) (\<lambda>found.
         then_do (case found of
             Inr (Some sb) \<Rightarrow>
               then_do (attempt (put_sandbox E now (sb\<lparr>sb_current_policy_version := version\<rparr>))) (\<lambda>_. ret ())
           | _ \<Rightarrow> ret ()) (\<lambda>_.
           notify sandbox_id)))
       else ret ())))))"

end
