(* ===== verification/Sandboxes.thy ===== *)
theory Sandboxes
  imports Config Json
begin

text \<open>
  The life of a sandbox in the gateway: the sandbox, provider and SSH session handlers of
  \<open>crates/openshell-server/src/grpc.rs\<close>, the index of \<open>sandbox_index.rs\<close>, the handlers of the
  Kubernetes watcher and the reconciler of \<open>sandbox/mod.rs\<close>, and the session reaper of
  \<open>ssh_tunnel.rs\<close>. Kubernetes is a parameter, a record of the answers of its client.
\<close>

section \<open>The index\<close>

definition update_from_sandbox :: "sandbox \<Rightarrow> sandbox_index \<Rightarrow> sandbox_index" where
  "update_from_sandbox sb ix =
     (let ix = (if sb_name sb \<noteq> []
          then ix\<lparr>ix_sandbox_name_to_id := hm_insert (sb_name sb) (sb_id sb) (ix_sandbox_name_to_id ix)\<rparr> else ix)
      in case sb_status sb of
           Some st \<Rightarrow> if ss_agent_pod st \<noteq> []
             then ix\<lparr>ix_agent_pod_to_id := hm_insert (ss_agent_pod st) (sb_id sb) (ix_agent_pod_to_id ix)\<rparr> else ix
         | None \<Rightarrow> ix)"

definition remove_sandbox :: "string \<Rightarrow> sandbox_index \<Rightarrow> sandbox_index" where
  "remove_sandbox sandbox_id ix =
     \<lparr>ix_sandbox_name_to_id = filter (\<lambda>(_, v). v \<noteq> sandbox_id) (ix_sandbox_name_to_id ix),
      ix_agent_pod_to_id = filter (\<lambda>(_, v). v \<noteq> sandbox_id) (ix_agent_pod_to_id ix)\<rparr>"

definition sandbox_id_for_sandbox_name :: "string \<Rightarrow> sandbox_index \<Rightarrow> string option" where
  "sandbox_id_for_sandbox_name name ix = map_of (ix_sandbox_name_to_id ix) name"

definition sandbox_id_for_agent_pod :: "string \<Rightarrow> sandbox_index \<Rightarrow> string option" where
  "sandbox_id_for_agent_pod pod ix = map_of (ix_agent_pod_to_id ix) pod"

section \<open>The Kubernetes client\<close>

datatype kube_created = KubeCreated | KubeConflict | KubeError string

datatype kube_found = KubePresent | KubeMissing | KubeUnclear

record cluster =
  kb_default_image :: string
  kb_namespace :: string
  kb_gpu_support :: "status option"
  kb_create :: "sandbox \<Rightarrow> kube_created"
  kb_delete :: "string \<Rightarrow> string + bool"
  kb_get :: "string \<Rightarrow> kube_found"
  kb_agent_pod_ip :: "string \<Rightarrow> string + string option"

section \<open>Sandboxes\<close>

definition default_template :: sandbox_template where
  "default_template = \<lparr>tm_image = [], tm_runtime_class_name = [], tm_agent_socket = [], tm_labels = [],
     tm_annotations = [], tm_environment = [], tm_resources = None, tm_volume_claim_templates = None\<rparr>"

definition with_image :: "cluster \<Rightarrow> sandbox_spec \<Rightarrow> sandbox_spec" where
  "with_image K spec =
     (let tm = (case sc_template spec of None \<Rightarrow> default_template | Some tm \<Rightarrow> tm)
      in spec\<lparr>sc_template := Some (if tm_image tm = [] then tm\<lparr>tm_image := kb_default_image K\<rparr> else tm)\<rparr>)"

definition prepare_policy :: "sandbox_spec \<Rightarrow> status + sandbox_spec" where
  "prepare_policy spec =
     (case sc_policy spec of
        None \<Rightarrow> Inr spec
      | Some p \<Rightarrow>
          (case validate_policy_safety (ensure_sandbox_process_identity p) of
             Inl e \<Rightarrow> Inl e
           | Inr _ \<Rightarrow> Inr (spec\<lparr>sc_policy := Some (ensure_sandbox_process_identity p)\<rparr>)))"

fun require_providers :: "env \<Rightarrow> string list \<Rightarrow> unit operation" where
  "require_providers E [] = ret ()"
| "require_providers E (name # names) =
     then_do (query (get_message_by_name ''provider'' (ev_decode_provider E) name)) (\<lambda>found.
     then_do (fetched ''fetch provider''
         (FailedPrecondition (''provider '' @ [CHR 0x27] @ name @ [CHR 0x27] @ '' not found'')) found) (\<lambda>_.
       require_providers E names))"

text \<open>After a failed creation the row and the index entries go, and the error is the answer.\<close>

definition undo_create :: "string \<Rightarrow> status \<Rightarrow> 'a operation" where
  "undo_create sandbox_id e =
     then_do (update (delete_object ''sandbox'' sandbox_id)) (\<lambda>_.
     then_do (reindex (remove_sandbox sandbox_id)) (\<lambda>_. fail e))"

definition create_sandbox ::
    "env \<Rightarrow> cluster \<Rightarrow> int \<Rightarrow> string \<Rightarrow> string \<Rightarrow> string \<Rightarrow> sandbox_spec option \<Rightarrow> sandbox operation" where
  "create_sandbox E K now uuid petname name spec_opt =
     then_do (lift (ok_or spec_opt (InvalidArgument ''spec is required''))) (\<lambda>spec.
     then_do (lift (validate_sandbox_spec E name spec)) (\<lambda>_.
     then_do (require_providers E (sc_providers spec)) (\<lambda>_.
     then_do (case (sc_gpu spec, kb_gpu_support K) of (True, Some e) \<Rightarrow> fail e | _ \<Rightarrow> ret ()) (\<lambda>_.
     then_do (lift (prepare_policy (with_image K spec))) (\<lambda>spec.
     let sb = \<lparr>sb_id = uuid, sb_name = (if name = [] then petname else name), sb_namespace = kb_namespace K,
               sb_spec = Some spec, sb_status = None, sb_phase = 1, sb_created_at_ms = 0,
               sb_current_policy_version = 0\<rparr> in
     then_do (reindex (update_from_sandbox sb)) (\<lambda>_.
     then_do (commit ''persist sandbox failed'' (put_sandbox E now sb)) (\<lambda>_.
     case kb_create K sb of
       KubeCreated \<Rightarrow> then_do (notify uuid) (\<lambda>_. ret sb)
     | KubeConflict \<Rightarrow> undo_create uuid (AlreadyExists ''sandbox already exists'')
     | KubeError e \<Rightarrow> undo_create uuid (Internal (''create sandbox in kubernetes failed: '' @ e)))))))))"

definition get_sandbox :: "env \<Rightarrow> string \<Rightarrow> sandbox operation" where
  "get_sandbox E name = check (name \<noteq> []) (InvalidArgument ''name is required'') (sandbox_by_name E name)"

fun decode_rows :: "(bytes \<Rightarrow> string + 'm) \<Rightarrow> (object_record \<Rightarrow> 'm \<Rightarrow> 'n) \<Rightarrow> string \<Rightarrow> object_record list \<Rightarrow> status + 'n list" where
  "decode_rows decode finish what [] = Inr []"
| "decode_rows decode finish what (r # rows) =
     (case decode (ob_payload r) of
        Inl e \<Rightarrow> Inl (Internal (what @ '' failed: '' @ e))
      | Inr m \<Rightarrow>
          (case decode_rows decode finish what rows of Inl e \<Rightarrow> Inl e | Inr ms \<Rightarrow> Inr (finish r m # ms)))"

definition list_sandboxes :: "env \<Rightarrow> u32 \<Rightarrow> u32 \<Rightarrow> sandbox list operation" where
  "list_sandboxes E limit offset =
     then_do (query (list_objects ''sandbox'' (clamp_limit limit 100 MAX_PAGE_SIZE) offset)) (\<lambda>rows.
       lift (decode_rows (ev_decode_sandbox E) (\<lambda>r sb. sb\<lparr>sb_created_at_ms := ob_created r\<rparr>) ''decode sandbox'' rows))"

text \<open>The sessions among the first thousand rows that satisfy a condition are deleted.\<close>

fun delete_sessions :: "env \<Rightarrow> (ssh_session \<Rightarrow> bool) \<Rightarrow> object_record list \<Rightarrow> store \<Rightarrow> store" where
  "delete_sessions E P [] s = s"
| "delete_sessions E P (r # rows) s =
     delete_sessions E P rows
       (case ev_decode_session E (ob_payload r) of
          Inl _ \<Rightarrow> s
        | Inr sh \<Rightarrow> if P sh then snd (delete_object ''ssh_session'' (sh_id sh) s) else s)"

definition sweep_sessions :: "env \<Rightarrow> (ssh_session \<Rightarrow> bool) \<Rightarrow> store \<Rightarrow> unit \<times> store" where
  "sweep_sessions E P s = ((), delete_sessions E P (list_objects ''ssh_session'' 1000 0 s) s)"

definition delete_sandbox :: "env \<Rightarrow> cluster \<Rightarrow> int \<Rightarrow> string \<Rightarrow> bool operation" where
  "delete_sandbox E K now name =
     check (name \<noteq> []) (InvalidArgument ''name is required'')
     (then_do (sandbox_by_name E name) (\<lambda>sb.
      let sb = sb\<lparr>sb_phase := 4\<rparr>; i = sb_id sb in
      then_do (commit ''persist sandbox failed'' (put_sandbox E now sb)) (\<lambda>_.
      then_do (reindex (update_from_sandbox sb)) (\<lambda>_.
      then_do (notify i) (\<lambda>_.
      then_do (update (sweep_sessions E (\<lambda>sh. sh_sandbox_id sh = i))) (\<lambda>_.
      then_do (update (delete_object SANDBOX_SETTINGS_OBJECT_TYPE (sandbox_settings_id i))) (\<lambda>_.
      case kb_delete K (sb_name sb) of
        Inl e \<Rightarrow> fail (Internal (''delete sandbox in kubernetes failed: '' @ e))
      | Inr deleted \<Rightarrow>
          then_do (if deleted then ret () else
                     then_do (update (delete_object ''sandbox'' i)) (\<lambda>_. ret ())) (\<lambda>_.
          then_do (drop_buses i) (\<lambda>_. ret deleted)))))))))"

section \<open>Providers\<close>

definition redact_provider_credentials :: "provider \<Rightarrow> provider" where
  "redact_provider_credentials p = p\<lparr>pv_credentials := []\<rparr>"

definition put_provider :: "env \<Rightarrow> int \<Rightarrow> provider \<Rightarrow> store \<Rightarrow> string + store" where
  "put_provider E now p = put_object now ''provider'' (pv_id p) (pv_name p) (ev_encode_provider E p)"

definition create_provider_record :: "env \<Rightarrow> int \<Rightarrow> string \<Rightarrow> string \<Rightarrow> provider \<Rightarrow> provider operation" where
  "create_provider_record E now uuid generated p =
     (let p = (if pv_name p = [] then p\<lparr>pv_name := generated\<rparr> else p) in
      check (str_trim (pv_type p) \<noteq> []) (InvalidArgument ''provider.type is required'')
      (check (pv_credentials p \<noteq> []) (InvalidArgument ''provider.credentials must not be empty'')
      (then_do (lift (validate_provider_fields p)) (\<lambda>_.
       then_do (query (get_message_by_name ''provider'' (ev_decode_provider E) (pv_name p))) (\<lambda>found.
       case found of
         Inl e \<Rightarrow> fail (Internal (''fetch provider failed: '' @ e))
       | Inr (Some _) \<Rightarrow> fail (AlreadyExists ''provider already exists'')
       | Inr None \<Rightarrow>
           then_do (commit ''persist provider failed'' (put_provider E now (p\<lparr>pv_id := uuid\<rparr>))) (\<lambda>_.
             ret (redact_provider_credentials (p\<lparr>pv_id := uuid\<rparr>))))))))"

definition get_provider_record :: "env \<Rightarrow> string \<Rightarrow> provider operation" where
  "get_provider_record E name =
     check (name \<noteq> []) (InvalidArgument ''name is required'')
     (then_do (query (get_message_by_name ''provider'' (ev_decode_provider E) name)) (\<lambda>found.
      then_do (fetched ''fetch provider'' (NotFound ''provider not found'') found) (\<lambda>p.
        ret (redact_provider_credentials p))))"

definition list_provider_records :: "env \<Rightarrow> u32 \<Rightarrow> u32 \<Rightarrow> provider list operation" where
  "list_provider_records E limit offset =
     then_do (query (list_objects ''provider'' limit offset)) (\<lambda>rows.
       lift (decode_rows (ev_decode_provider E) (\<lambda>_. redact_provider_credentials) ''decode provider'' rows))"

definition list_providers :: "env \<Rightarrow> u32 \<Rightarrow> u32 \<Rightarrow> provider list operation" where
  "list_providers E limit offset = list_provider_records E (clamp_limit limit 100 MAX_PAGE_SIZE) offset"

text \<open>An incoming map upserts its entries and removes those whose new value is empty.\<close>

fun merge_map :: "(string, string) hash_map \<Rightarrow> (string, string) hash_map \<Rightarrow> (string, string) hash_map" where
  "merge_map existing [] = existing"
| "merge_map existing ((k, v) # incoming) =
     merge_map (if v = [] then hm_remove k existing else hm_insert k v existing) incoming"

definition update_provider_record :: "env \<Rightarrow> int \<Rightarrow> provider \<Rightarrow> provider operation" where
  "update_provider_record E now p =
     check (pv_name p \<noteq> []) (InvalidArgument ''provider.name is required'')
     (then_do (query (get_message_by_name ''provider'' (ev_decode_provider E) (pv_name p))) (\<lambda>found.
      then_do (fetched ''fetch provider'' (NotFound ''provider not found'') found) (\<lambda>existing.
      let incoming_type = str_trim (pv_type p) in
      check (incoming_type = [] \<or> eq_ignore_ascii_case incoming_type (str_trim (pv_type existing)))
        (InvalidArgument ''provider type cannot be changed; delete and recreate the provider'')
      (let updated = existing\<lparr>pv_credentials := merge_map (pv_credentials existing) (pv_credentials p),
                              pv_config := merge_map (pv_config existing) (pv_config p)\<rparr> in
       then_do (lift (validate_provider_fields updated)) (\<lambda>_.
       then_do (commit ''persist provider failed'' (put_provider E now updated)) (\<lambda>_.
         ret (redact_provider_credentials updated)))))))"

definition delete_provider_record :: "string \<Rightarrow> bool operation" where
  "delete_provider_record name =
     check (name \<noteq> []) (InvalidArgument ''name is required'') (update (delete_object_by_name ''provider'' name))"

definition is_valid_env_key :: "string \<Rightarrow> bool" where
  "is_valid_env_key key =
     (case key of
        [] \<Rightarrow> False
      | c # cs \<Rightarrow> (c = CHR ''_'' \<or> is_ascii_uppercase c \<or> is_ascii_lowercase c) \<and>
          list_all (\<lambda>c. c = CHR ''_'' \<or> is_ascii_alphanumeric c) cs)"

text \<open>\<open>env.entry(key).or_insert(value)\<close> for the valid keys: the first provider's value stays.\<close>

fun add_credentials :: "(string, string) hash_map \<Rightarrow> (string, string) hash_map \<Rightarrow> (string, string) hash_map" where
  "add_credentials vars [] = vars"
| "add_credentials vars ((k, v) # cs) =
     add_credentials (if is_valid_env_key k \<and> map_of vars k = None then hm_insert k v vars else vars) cs"

fun collect_credentials :: "env \<Rightarrow> string list \<Rightarrow> (string, string) hash_map \<Rightarrow> (string, string) hash_map operation" where
  "collect_credentials E [] vars = ret vars"
| "collect_credentials E (name # names) vars =
     then_do (query (get_message_by_name ''provider'' (ev_decode_provider E) name)) (\<lambda>found.
     case found of
       Inl e \<Rightarrow> fail (Internal (''failed to fetch provider '' @ [CHR 0x27] @ name @ [CHR 0x27] @ '': '' @ e))
     | Inr None \<Rightarrow> fail (FailedPrecondition (''provider '' @ [CHR 0x27] @ name @ [CHR 0x27] @ '' not found''))
     | Inr (Some p) \<Rightarrow> collect_credentials E names (add_credentials vars (pv_credentials p)))"

definition resolve_provider_environment :: "env \<Rightarrow> string list \<Rightarrow> (string, string) hash_map operation" where
  "resolve_provider_environment E names = collect_credentials E names []"

definition get_sandbox_provider_environment :: "env \<Rightarrow> string \<Rightarrow> (string, string) hash_map operation" where
  "get_sandbox_provider_environment E sandbox_id =
     then_do (sandbox_by_id E sandbox_id) (\<lambda>sb.
     then_do (lift (ok_or (sb_spec sb) (Internal ''sandbox has no spec''))) (\<lambda>spec.
       resolve_provider_environment E (sc_providers spec)))"

section \<open>SSH sessions\<close>

record gateway_config =
  cf_ssh_session_ttl_secs :: u64
  cf_ssh_gateway_host :: string
  cf_ssh_gateway_port :: u16
  cf_bind_ip :: string
  cf_bind_port :: u16
  cf_tls :: bool
  cf_ssh_connect_path :: string
  cf_sandbox_ssh_port :: u16

record ssh_session_response =
  sr_sandbox_id :: string
  sr_token :: string
  sr_gateway_host :: string
  sr_gateway_port :: u32
  sr_gateway_scheme :: string
  sr_connect_path :: string
  sr_host_key_fingerprint :: string
  sr_expires_at_ms :: int

definition resolve_gateway :: "gateway_config \<Rightarrow> string \<times> u16" where
  "resolve_gateway cf =
     (if cf_ssh_gateway_host cf = [] then cf_bind_ip cf else cf_ssh_gateway_host cf,
      if cf_ssh_gateway_port cf = 0 then cf_bind_port cf else cf_ssh_gateway_port cf)"

text \<open>The expiry is computed in \<open>i64\<close>, with wrap-around.\<close>

definition session_expiry :: "int \<Rightarrow> u64 \<Rightarrow> int" where
  "session_expiry now_ms ttl_secs =
     (if 0 < ttl_secs then sint (word_of_int now_ms + ttl_secs * 1000 :: i64) else 0)"

definition put_session :: "env \<Rightarrow> int \<Rightarrow> ssh_session \<Rightarrow> store \<Rightarrow> string + store" where
  "put_session E now sh = put_object now ''ssh_session'' (sh_id sh) (sh_name sh) (ev_encode_session E sh)"

definition create_ssh_session ::
    "env \<Rightarrow> gateway_config \<Rightarrow> int \<Rightarrow> string \<Rightarrow> string \<Rightarrow> string \<Rightarrow> ssh_session_response operation" where
  "create_ssh_session E cf now uuid generated sandbox_id =
     check (sandbox_id \<noteq> []) (InvalidArgument ''sandbox_id is required'')
     (then_do (sandbox_by_id E sandbox_id) (\<lambda>sb.
      check (phase_of (sb_phase sb) = Some PhReady) (FailedPrecondition ''sandbox is not ready'')
      (let expires = session_expiry now (cf_ssh_session_ttl_secs cf);
           sh = \<lparr>sh_id = uuid, sh_sandbox_id = sandbox_id, sh_token = uuid, sh_created_at_ms = now,
                 sh_revoked = False, sh_name = generated, sh_expires_at_ms = expires\<rparr> in
       then_do (commit ''persist ssh session failed'' (put_session E now sh)) (\<lambda>_.
         ret \<lparr>sr_sandbox_id = sandbox_id, sr_token = uuid, sr_gateway_host = fst (resolve_gateway cf),
              sr_gateway_port = ucast (snd (resolve_gateway cf)),
              sr_gateway_scheme = (if cf_tls cf then ''https'' else ''http''),
              sr_connect_path = cf_ssh_connect_path cf, sr_host_key_fingerprint = [],
              sr_expires_at_ms = expires\<rparr>))))"

definition revoke_ssh_session :: "env \<Rightarrow> int \<Rightarrow> string \<Rightarrow> bool operation" where
  "revoke_ssh_session E now token =
     check (token \<noteq> []) (InvalidArgument ''token is required'')
     (then_do (query (get_message ''ssh_session'' (ev_decode_session E) token)) (\<lambda>found.
      case found of
        Inl e \<Rightarrow> fail (Internal (''fetch ssh session failed: '' @ e))
      | Inr None \<Rightarrow> ret False
      | Inr (Some sh) \<Rightarrow>
          then_do (commit ''persist ssh session failed'' (put_session E now (sh\<lparr>sh_revoked := True\<rparr>))) (\<lambda>_. ret True)))"

definition session_dead :: "int \<Rightarrow> ssh_session \<Rightarrow> bool" where
  "session_dead now sh \<longleftrightarrow> 0 < sh_expires_at_ms sh \<and> sh_expires_at_ms sh < now \<or> sh_revoked sh"

definition reap_expired_sessions :: "env \<Rightarrow> int \<Rightarrow> unit operation" where
  "reap_expired_sessions E now = update (sweep_sessions E (session_dead now))"

section \<open>Running a command\<close>

record exec_request =
  ex_sandbox_id :: string
  ex_command :: "string list"
  ex_workdir :: string
  ex_environment :: "(string, string) hash_map"

definition shell_safe :: "char \<Rightarrow> bool" where
  "shell_safe c \<longleftrightarrow> is_ascii_alphanumeric c \<or> c = CHR ''.'' \<or> c = CHR ''/'' \<or> c = CHR ''-'' \<or> c = CHR ''_''"

definition shell_escape :: "string \<Rightarrow> string" where
  "shell_escape s =
     (if s = [] then [CHR 0x27, CHR 0x27]
      else if list_all shell_safe s then s
      else [CHR 0x27] @ concat (map (\<lambda>c. if c = CHR 0x27
              then [CHR 0x27, CHR 0x22, CHR 0x27, CHR 0x22, CHR 0x27] else [c]) s) @ [CHR 0x27])"

definition join_words :: "string list \<Rightarrow> string" where
  "join_words ws = concat (case ws of [] \<Rightarrow> [] | w # ws \<Rightarrow> w # map (\<lambda>w. '' '' @ w) ws)"

definition build_remote_exec_command :: "exec_request \<Rightarrow> string" where
  "build_remote_exec_command req =
     (let vars = map (\<lambda>(k, v). k @ ''='' @ shell_escape v) (sort_key fst (ex_environment req));
          command = join_words (vars @ map shell_escape (ex_command req))
      in if ex_workdir req = [] then command
         else ''cd '' @ shell_escape (ex_workdir req) @ '' && '' @ command)"

definition service_host :: "cluster \<Rightarrow> string \<Rightarrow> string" where
  "service_host K name = name @ ''.'' @ kb_namespace K @ ''.svc.cluster.local''"

definition resolve_sandbox_exec_target :: "cluster \<Rightarrow> gateway_config \<Rightarrow> sandbox \<Rightarrow> status + string \<times> u16" where
  "resolve_sandbox_exec_target K cf sb =
     (let by_name = (if sb_name sb = [] then Inl (FailedPrecondition ''sandbox has no name'')
                     else Inr (service_host K (sb_name sb), cf_sandbox_ssh_port cf))
      in case sb_status sb of
           None \<Rightarrow> by_name
         | Some st \<Rightarrow>
             if ss_agent_pod st = [] then by_name
             else (case kb_agent_pod_ip K (ss_agent_pod st) of
                     Inr (Some ip) \<Rightarrow> Inr (ip, cf_sandbox_ssh_port cf)
                   | Inr None \<Rightarrow> Inl (FailedPrecondition ''sandbox agent pod IP is not available'')
                   | Inl e \<Rightarrow> Inl (Internal (''failed to resolve agent pod IP: '' @ e))))"

text \<open>What \<open>exec_sandbox\<close> decides before it spawns the stream: where to connect and what to run.\<close>

definition exec_sandbox :: "env \<Rightarrow> cluster \<Rightarrow> gateway_config \<Rightarrow> exec_request \<Rightarrow> ((string \<times> u16) \<times> string) operation" where
  "exec_sandbox E K cf req =
     check (ex_sandbox_id req \<noteq> []) (InvalidArgument ''sandbox_id is required'')
     (check (ex_command req \<noteq> []) (InvalidArgument ''command is required'')
     (check (list_all (\<lambda>(k, _). is_valid_env_key k) (ex_environment req))
        (InvalidArgument ''environment keys must match ^[A-Za-z_][A-Za-z0-9_]*$'')
     (then_do (sandbox_by_id E (ex_sandbox_id req)) (\<lambda>sb.
      check (phase_of (sb_phase sb) = Some PhReady) (FailedPrecondition ''sandbox is not ready'')
      (then_do (lift (resolve_sandbox_exec_target K cf sb)) (\<lambda>where_to.
        ret (where_to, build_remote_exec_command req)))))))"

section \<open>Kubernetes objects\<close>

record kube_object =
  ko_name :: "string option"
  ko_namespace :: "string option"
  ko_labels :: "(string, string) btree_map option"
  ko_deletion :: bool
  ko_data :: json

type_synonym condition = "string \<times> string \<times> string \<times> string \<times> string"

definition SANDBOX_ID_LABEL :: string where "SANDBOX_ID_LABEL = ''openshell.ai/sandbox-id''"
definition ORPHAN_GRACE_PERIOD_ms :: int where "ORPHAN_GRACE_PERIOD_ms = 300000"

definition GPU_MESSAGE :: string where
  "GPU_MESSAGE = ''GPU sandbox could not be scheduled on the active gateway. Another GPU sandbox may already be using the available GPU, or the gateway may not currently be able to satisfy GPU placement. Please refer to documentation and use `openshell doctor` commands to inspect GPU support and gateway configuration.''"

definition sandbox_id_from_object :: "kube_object \<Rightarrow> string + string" where
  "sandbox_id_from_object obj =
     (case Option.bind (ko_labels obj) (\<lambda>ls. map_of ls SANDBOX_ID_LABEL) of
        Some i \<Rightarrow> Inr i
      | None \<Rightarrow>
          (case str_strip_prefix (unwrap_or (ko_name obj) []) ''sandbox-'' of
             Some i \<Rightarrow> Inr i
           | None \<Rightarrow> Inl ''sandbox id not found on object''))"

definition field_or_empty :: "json \<Rightarrow> string \<Rightarrow> string" where
  "field_or_empty obj key = unwrap_or (get_str_field obj key) []"

definition condition_from_value :: "json \<Rightarrow> condition option" where
  "condition_from_value v =
     (case (get_str_field v ''type'', get_str_field v ''status'') of
        (Some ty, Some st) \<Rightarrow>
          Some (ty, st, field_or_empty v ''reason'', field_or_empty v ''message'', field_or_empty v ''lastTransitionTime'')
      | _ \<Rightarrow> None)"

definition status_from_object :: "kube_object \<Rightarrow> sandbox_status option" where
  "status_from_object obj =
     (case json_get (ko_data obj) ''status'' of
        None \<Rightarrow> None
      | Some st \<Rightarrow>
          if as_object st = None then None
          else Some \<lparr>ss_sandbox_name = field_or_empty st ''sandboxName'', ss_agent_pod = field_or_empty st ''agentPod'',
            ss_agent_fd = field_or_empty st ''agentFd'', ss_sandbox_fd = field_or_empty st ''sandboxFd'',
            ss_conditions = List.map_filter condition_from_value (unwrap_or (get_array_field st ''conditions'') [])\<rparr>)"

fun rewrite_condition :: "condition \<Rightarrow> condition" where
  "rewrite_condition (ty, st, reason, message, at) =
     (if ty = ''Ready'' \<and> eq_ignore_ascii_case st ''false'' \<and> eq_ignore_ascii_case reason ''Unschedulable''
      then (ty, st, reason, GPU_MESSAGE, at) else (ty, st, reason, message, at))"

definition rewrite_user_facing_conditions :: "sandbox_spec option \<Rightarrow> sandbox_status option \<Rightarrow> sandbox_status option" where
  "rewrite_user_facing_conditions spec status =
     (if (case spec of None \<Rightarrow> False | Some sc \<Rightarrow> sc_gpu sc)
      then map_option (\<lambda>st. st\<lparr>ss_conditions := map rewrite_condition (ss_conditions st)\<rparr>) status
      else status)"

definition is_terminal_failure_condition :: "condition \<Rightarrow> bool" where
  "is_terminal_failure_condition c =
     (case c of (_, _, reason, _, _) \<Rightarrow>
        to_ascii_lowercase reason \<notin> {''reconcilererror'', ''dependenciesnotready''})"

fun phase_of_conditions :: "condition list \<Rightarrow> sandbox_phase" where
  "phase_of_conditions [] = PhProvisioning"
| "phase_of_conditions (c # cs) =
     (case c of (ty, st, _) \<Rightarrow>
        if ty = ''Ready''
        then (if eq_ignore_ascii_case st ''true'' then PhReady
              else if eq_ignore_ascii_case st ''false''
              then (if is_terminal_failure_condition c then PhError else PhProvisioning)
              else PhProvisioning)
        else phase_of_conditions cs)"

definition derive_phase :: "sandbox_status option \<Rightarrow> bool \<Rightarrow> sandbox_phase" where
  "derive_phase status deleting =
     (if deleting then PhDeleting
      else case status of None \<Rightarrow> PhUnknown | Some st \<Rightarrow> phase_of_conditions (ss_conditions st))"

fun phase_number :: "sandbox_phase \<Rightarrow> int" where
  "phase_number PhUnspecified = 0"
| "phase_number PhProvisioning = 1"
| "phase_number PhReady = 2"
| "phase_number PhError = 3"
| "phase_number PhDeleting = 4"
| "phase_number PhUnknown = 5"

section \<open>The watcher and the reconciler\<close>

text \<open>
  A placeholder when the store has no record. The record is read, changed and written back
  without a lock: \<open>others\<close> is what other tasks do to the store between the read and the write.
\<close>

definition placeholder_sandbox :: "cluster \<Rightarrow> kube_object \<Rightarrow> string \<Rightarrow> sandbox" where
  "placeholder_sandbox K obj i =
     \<lparr>sb_id = i, sb_name = unwrap_or (ko_name obj) [], sb_namespace = unwrap_or (ko_namespace obj) (kb_namespace K),
      sb_spec = None, sb_status = None, sb_phase = phase_number PhUnknown, sb_created_at_ms = 0,
      sb_current_policy_version = 0\<rparr>"

definition applied_sandbox :: "cluster \<Rightarrow> kube_object \<Rightarrow> string \<Rightarrow> sandbox option \<Rightarrow> sandbox" where
  "applied_sandbox K obj i existing =
     (let status = rewrite_user_facing_conditions (Option.bind existing sb_spec) (status_from_object obj);
          sb = (case existing of Some sb \<Rightarrow> sb | None \<Rightarrow> placeholder_sandbox K obj i)
      in sb\<lparr>sb_status := status, sb_phase := phase_number (derive_phase status (ko_deletion obj))\<rparr>)"

definition handle_applied :: "env \<Rightarrow> cluster \<Rightarrow> int \<Rightarrow> (store \<Rightarrow> store) \<Rightarrow> kube_object \<Rightarrow> gateway \<Rightarrow> (string + unit) \<times> gateway" where
  "handle_applied E K now others obj g =
     (case sandbox_id_from_object obj of
        Inl e \<Rightarrow> (Inl e, g)
      | Inr i \<Rightarrow>
          (case get_message ''sandbox'' (ev_decode_sandbox E) i (gw_store g) of
             Inl e \<Rightarrow> (Inl e, g)
           | Inr existing \<Rightarrow>
               let sb = applied_sandbox K obj i existing;
                   g = g\<lparr>gw_store := others (gw_store g), gw_index := update_from_sandbox sb (gw_index g)\<rparr>
               in case put_sandbox E now sb (gw_store g) of
                    Inl e \<Rightarrow> (Inl e, g)
                  | Inr s \<Rightarrow> (Inr (), g\<lparr>gw_store := s, gw_events := gw_events g @ [Notified i]\<rparr>)))"

definition handle_deleted :: "kube_object \<Rightarrow> gateway \<Rightarrow> (string + unit) \<times> gateway" where
  "handle_deleted obj g =
     (case sandbox_id_from_object obj of
        Inl e \<Rightarrow> (Inl e, g)
      | Inr i \<Rightarrow>
          (Inr (), g\<lparr>gw_store := snd (delete_object ''sandbox'' i (gw_store g)),
                     gw_index := remove_sandbox i (gw_index g),
                     gw_events := gw_events g @ [Notified i, Removed i]\<rparr>))"

definition orphaned :: "cluster \<Rightarrow> int \<Rightarrow> object_record \<Rightarrow> sandbox \<Rightarrow> bool" where
  "orphaned K now r sb \<longleftrightarrow> sb_phase sb = 1 \<and> ORPHAN_GRACE_PERIOD_ms \<le> now - ob_created r \<and> kb_get K (sb_name sb) = KubeMissing"

fun remove_orphans :: "env \<Rightarrow> cluster \<Rightarrow> int \<Rightarrow> object_record list \<Rightarrow> gateway \<Rightarrow> gateway" where
  "remove_orphans E K now [] g = g"
| "remove_orphans E K now (r # rows) g =
     remove_orphans E K now rows
       (case ev_decode_sandbox E (ob_payload r) of
          Inl _ \<Rightarrow> g
        | Inr sb \<Rightarrow>
            if orphaned K now r sb
            then g\<lparr>gw_store := snd (delete_object ''sandbox'' (sb_id sb) (gw_store g)),
                   gw_index := remove_sandbox (sb_id sb) (gw_index g),
                   gw_events := gw_events g @ [Notified (sb_id sb), Removed (sb_id sb)]\<rparr>
            else g)"

definition reconcile_orphaned_sandboxes :: "env \<Rightarrow> cluster \<Rightarrow> int \<Rightarrow> gateway \<Rightarrow> gateway" where
  "reconcile_orphaned_sandboxes E K now g =
     remove_orphans E K now (list_objects ''sandbox'' 500 0 (gw_store g)) g"

section \<open>Log filters\<close>

definition source_matches :: "string \<Rightarrow> string list \<Rightarrow> bool" where
  "source_matches log_source filters \<longleftrightarrow>
     list_ex (\<lambda>f. f = (if log_source = [] then ''gateway'' else log_source)) filters"

definition level_number :: "(string \<Rightarrow> string) \<Rightarrow> string \<Rightarrow> nat" where
  "level_number to_uppercase s =
     (let u = to_uppercase s in
      if u = ''ERROR'' then 0 else if u = ''WARN'' then 1 else if u = ''INFO'' then 2
      else if u = ''DEBUG'' then 3 else if u = ''TRACE'' then 4 else 5)"

definition level_matches :: "(string \<Rightarrow> string) \<Rightarrow> string \<Rightarrow> string \<Rightarrow> bool" where
  "level_matches to_uppercase log_level min_level \<longleftrightarrow>
     min_level = [] \<or> level_number to_uppercase log_level \<le> level_number to_uppercase min_level"

text \<open>The sandbox a Kubernetes event is about.\<close>

definition event_sandbox :: "string \<Rightarrow> string \<Rightarrow> sandbox_index \<Rightarrow> string option" where
  "event_sandbox kind name ix =
     (if kind = ''Sandbox'' then sandbox_id_for_sandbox_name name ix
      else if kind = ''Pod'' then
        (case sandbox_id_for_sandbox_name name ix of
           Some i \<Rightarrow> Some i
         | None \<Rightarrow> sandbox_id_for_agent_pod name ix)
      else None)"

end
