(* ===== verification/Tunnel.thy ===== *)
theory Tunnel
  imports Sandboxes
begin

text \<open>
  The SSH path into a sandbox: the tunnel endpoint and its connection limits
  (\<open>openshell-server/src/ssh_tunnel.rs\<close>), the gateway's exec transport (\<open>grpc.rs\<close>) and the
  sandbox's end of the handshake, the \<open>NSSH1\<close> preface with its nonce cache
  (\<open>openshell-sandbox/src/ssh.rs\<close>). HMAC-SHA256 with its hexadecimal text is a parameter; the SSH
  protocol after the handshake is russh's.
\<close>

section \<open>The preface\<close>

definition int_dec :: "int \<Rightarrow> string" where
  "int_dec n = (if n < 0 then CHR ''-'' # dec (nat (- n)) else dec (nat n))"

text \<open>\<open>str::parse::<i64>\<close>.\<close>

definition parse_i64 :: "string \<Rightarrow> int option" where
  "parse_i64 s =
     (case s of
        c # u \<Rightarrow>
          if c = CHR ''-'' then
            (if u = [] then None
             else case digits_val 10 0 u of
                    None \<Rightarrow> None
                  | Some n \<Rightarrow> if n \<le> 2 ^ 63 then Some (- int n) else None)
          else map_option int (from_str_radix 63 10 s)
      | [] \<Rightarrow> None)"

definition PREFACE_MAGIC :: string where "PREFACE_MAGIC = ''NSSH1''"

definition preface_payload :: "string \<Rightarrow> int \<Rightarrow> string \<Rightarrow> bytes" where
  "preface_payload token timestamp nonce = token @ ''|'' @ int_dec timestamp @ ''|'' @ nonce"

definition build_preface :: "(string \<Rightarrow> bytes \<Rightarrow> string) \<Rightarrow> string \<Rightarrow> string \<Rightarrow> nat \<Rightarrow> string \<Rightarrow> string + string" where
  "build_preface hmac token secret now nonce =
     (if now < 2 ^ 63 then
        Inr (PREFACE_MAGIC @ '' '' @ token @ '' '' @ dec now @ '' '' @ nonce @ '' '' @
          hmac secret (preface_payload token (int now) nonce) @ [CHR 0x0A])
      else Inl ''time error'')"

text \<open>A line of at most 1025 bytes, read byte by byte; \<open>k\<close> bytes have been read.\<close>

fun line_bytes :: "nat \<Rightarrow> bytes \<Rightarrow> bytes \<times> bytes" where
  "line_bytes k [] = ([], [])"
| "line_bytes k (b # bs) =
     (if b = CHR 0x0A then ([], bs)
      else if 1024 < k + 1 then ([b], bs)
      else case line_bytes (k + 1) bs of (l, r) \<Rightarrow> (b # l, r))"

definition read_line :: "bytes \<Rightarrow> string \<times> bytes" where
  "read_line bs = (case line_bytes 0 bs of (l, r) \<Rightarrow> (from_utf8_lossy l, r))"

section \<open>The sandbox's end\<close>

text \<open>
  The nonces with the instant of their insertion, in nanoseconds. \<open>now\<close> is the wall clock in
  seconds. The difference of two \<open>i64\<close> wraps around, as in a build without overflow checks.
\<close>

type_synonym nonce_cache = "(string, int) hash_map"

definition verify_preface :: "(string \<Rightarrow> bytes \<Rightarrow> string) \<Rightarrow> string \<Rightarrow> string \<Rightarrow> u64 \<Rightarrow> nat \<Rightarrow> int \<Rightarrow> nonce_cache \<Rightarrow>
    (string + bool) \<times> nonce_cache" where
  "verify_preface hmac line secret handshake_skew_secs now instant cache =
     (case split_whitespace line of
        [magic, token, ts, nonce, signature] \<Rightarrow>
          if magic \<noteq> PREFACE_MAGIC then (Inr False, cache)
          else if \<not> now < 2 ^ 63 then (Inl ''out of range integral type conversion attempted'', cache)
          else
            let timestamp = unwrap_or (parse_i64 ts) 0;
                skew = nat \<bar>sint (word_of_int (int now - timestamp) :: 64 word)\<bar>
            in if unat handshake_skew_secs < skew then (Inr False, cache)
               else if signature \<noteq> hmac secret (preface_payload token timestamp nonce) then (Inr False, cache)
               else if map_of cache nonce \<noteq> None then (Inr False, cache)
               else (Inr True, hm_insert nonce instant cache)
      | _ \<Rightarrow> (Inr False, cache))"

text \<open>A connection: the reply, and the bytes that the SSH server then reads, if it starts.\<close>

definition handle_connection :: "(string \<Rightarrow> bytes \<Rightarrow> string) \<Rightarrow> string \<Rightarrow> u64 \<Rightarrow> nat \<Rightarrow> int \<Rightarrow> bytes \<Rightarrow> nonce_cache \<Rightarrow>
    (bytes \<times> bytes option) \<times> nonce_cache" where
  "handle_connection hmac secret handshake_skew_secs now instant input cache =
     (case read_line input of (line, rest) \<Rightarrow>
        case verify_preface hmac line secret handshake_skew_secs now instant cache of
          (Inl _, cache) \<Rightarrow> (([], None), cache)
        | (Inr False, cache) \<Rightarrow> ((''ERR'' @ [CHR 0x0A], None), cache)
        | (Inr True, cache) \<Rightarrow> ((''OK'' @ [CHR 0x0A], Some rest), cache))"

definition reap_nonces :: "u64 \<Rightarrow> int \<Rightarrow> nonce_cache \<Rightarrow> nonce_cache" where
  "reap_nonces handshake_skew_secs instant cache =
     filter (\<lambda>(_, inserted). instant - inserted < int (unat handshake_skew_secs) * 1000000000) cache"

section \<open>The gateway's end\<close>

text \<open>
  The delays before the attempts to connect, in milliseconds. An attempt fails with a text, or
  is a peer: a function from the bytes it is sent to the bytes it answers.
\<close>

type_synonym peer = "bytes \<Rightarrow> bytes"

definition TUNNEL_DELAYS_ms :: "nat list" where
  "TUNNEL_DELAYS_ms = [0, 100, 250, 500, 1000, 2000, 5000, 10000, 15000]"

fun connect_attempts :: "(nat \<Rightarrow> string + peer) \<Rightarrow> nat list \<Rightarrow> string \<Rightarrow> string + peer" where
  "connect_attempts connect [] err = Inl (''failed to connect to sandbox after retries: '' @ err)"
| "connect_attempts connect (k # ks) err =
     (case connect k of Inl e \<Rightarrow> connect_attempts connect ks e | Inr p \<Rightarrow> Inr p)"

definition handle_tunnel :: "(string \<Rightarrow> bytes \<Rightarrow> string) \<Rightarrow> (nat \<Rightarrow> string + peer) \<Rightarrow> string \<Rightarrow> string \<Rightarrow> nat \<Rightarrow> string \<Rightarrow>
    string + bytes" where
  "handle_tunnel hmac connect token secret now nonce =
     and_then (connect_attempts connect [0 ..< length TUNNEL_DELAYS_ms] []) (\<lambda>upstream.
     and_then (build_preface hmac token secret now nonce) (\<lambda>preface.
       case read_line (upstream preface) of (response, rest) \<Rightarrow>
         if str_trim response = ''OK'' then Inr rest else Inl ''sandbox handshake rejected''))"

text \<open>The single-use proxy of \<open>exec_sandbox\<close> has a random token and one attempt to connect.\<close>

definition start_single_use_ssh_proxy :: "(string \<Rightarrow> bytes \<Rightarrow> string) \<Rightarrow> (string + peer) \<Rightarrow> string \<Rightarrow> string \<Rightarrow> nat \<Rightarrow> string \<Rightarrow>
    bytes option" where
  "start_single_use_ssh_proxy hmac connected uuid secret now nonce =
     (case connected of
        Inl _ \<Rightarrow> None
      | Inr upstream \<Rightarrow>
          (case build_preface hmac uuid secret now nonce of
             Inl _ \<Rightarrow> None
           | Inr preface \<Rightarrow>
               (case read_line (upstream preface) of (response, rest) \<Rightarrow>
                  if str_trim response = ''OK'' then Some rest else None)))"

definition SSH_CONNECT_MAX_ATTEMPTS :: nat where "SSH_CONNECT_MAX_ATTEMPTS = 6"
definition SSH_CONNECT_INITIAL_BACKOFF_ms :: nat where "SSH_CONNECT_INITIAL_BACKOFF_ms = 250"
definition SSH_CONNECT_MAX_BACKOFF_ms :: nat where "SSH_CONNECT_MAX_BACKOFF_ms = 2000"

definition ssh_backoff_ms :: "nat \<Rightarrow> nat" where
  "ssh_backoff_ms n = min (SSH_CONNECT_INITIAL_BACKOFF_ms * 2 ^ (n - 1)) SSH_CONNECT_MAX_BACKOFF_ms"

definition is_retryable_ssh_error :: "status \<Rightarrow> bool" where
  "is_retryable_ssh_error st =
     (case st of
        Internal msg \<Rightarrow>
          str_contains msg ''Connection reset by peer'' \<or> str_contains msg ''Connection refused'' \<or>
          str_contains msg ''failed to establish ssh transport'' \<or>
          str_contains msg ''failed to connect to ssh proxy'' \<or> str_contains msg ''failed to start ssh proxy''
      | _ \<Rightarrow> False)"

datatype exec_outcome = ProxyFailed string | Exited int | ExecFailed status | ExecTimedOut

text \<open>The exit code that is sent at the end, and the delays slept before attempts.\<close>

fun exec_attempts :: "(nat \<Rightarrow> exec_outcome) \<Rightarrow> nat list \<Rightarrow> status option \<Rightarrow> nat list \<Rightarrow> (status + int) \<times> nat list" where
  "exec_attempts run [] last_err slept =
     (Inl (unwrap_or last_err (Internal ''ssh connection failed after exhausting retries'')), slept)"
| "exec_attempts run (k # ks) last_err slept =
     (let slept = (if 0 < k then slept @ [ssh_backoff_ms k] else slept) in
      case run k of
        ProxyFailed e \<Rightarrow> exec_attempts run ks (Some (Internal (''failed to start ssh proxy: '' @ e))) slept
      | Exited exit_code \<Rightarrow> (Inr exit_code, slept)
      | ExecTimedOut \<Rightarrow> (Inr 124, slept)
      | ExecFailed st \<Rightarrow>
          if is_retryable_ssh_error st \<and> k + 1 < SSH_CONNECT_MAX_ATTEMPTS
          then exec_attempts run ks (Some st) slept else (Inl st, slept))"

definition stream_exec_over_ssh :: "(nat \<Rightarrow> exec_outcome) \<Rightarrow> (status + int) \<times> nat list" where
  "stream_exec_over_ssh run = exec_attempts run [0 ..< SSH_CONNECT_MAX_ATTEMPTS] None []"

section \<open>The tunnel endpoint\<close>

definition MAX_CONNECTIONS_PER_TOKEN :: u32 where "MAX_CONNECTIONS_PER_TOKEN = 3"
definition MAX_CONNECTIONS_PER_SANDBOX :: u32 where "MAX_CONNECTIONS_PER_SANDBOX = 20"

record tunnel_counts =
  tn_by_token :: "(string, u32) hash_map"
  tn_by_sandbox :: "(string, u32) hash_map"

definition decrement_connection_count :: "string \<Rightarrow> (string, u32) hash_map \<Rightarrow> (string, u32) hash_map" where
  "decrement_connection_count key counts =
     (case map_of counts key of
        None \<Rightarrow> counts
      | Some c \<Rightarrow> let c = (if c = 0 then 0 else c - 1) in
          if c = 0 then hm_remove key counts else hm_insert key c counts)"

text \<open>Each of the two limits is checked under its lock; the second failure gives the first count back.\<close>

definition acquire_token :: "string \<Rightarrow> tunnel_counts \<Rightarrow> bool \<times> tunnel_counts" where
  "acquire_token token T =
     (let c = unwrap_or (map_of (tn_by_token T) token) 0 in
      if MAX_CONNECTIONS_PER_TOKEN \<le> c then (False, T)
      else (True, T\<lparr>tn_by_token := hm_insert token (c + 1) (tn_by_token T)\<rparr>))"

definition acquire_sandbox :: "string \<Rightarrow> string \<Rightarrow> tunnel_counts \<Rightarrow> bool \<times> tunnel_counts" where
  "acquire_sandbox token sandbox_id T =
     (let c = unwrap_or (map_of (tn_by_sandbox T) sandbox_id) 0 in
      if MAX_CONNECTIONS_PER_SANDBOX \<le> c
      then (False, T\<lparr>tn_by_token := decrement_connection_count token (tn_by_token T)\<rparr>)
      else (True, T\<lparr>tn_by_sandbox := hm_insert sandbox_id (c + 1) (tn_by_sandbox T)\<rparr>))"

datatype connect_target = TargetIp string u16 | TargetHost string u16

text \<open>Refusals are the number of the HTTP status. A header value is visible ASCII or it is malformed.\<close>

definition header_text :: "bytes \<Rightarrow> bool" where
  "header_text v \<longleftrightarrow> list_all (\<lambda>c. c = CHR 0x09 \<or> 32 \<le> code c \<and> code c < 127) v"

definition required_header :: "(string \<Rightarrow> bytes option) \<Rightarrow> string \<Rightarrow> nat + string" where
  "required_header headers name =
     (case headers name of
        None \<Rightarrow> Inl 401
      | Some v \<Rightarrow>
          if \<not> header_text v then Inl 400
          else if str_trim v = [] then Inl 400 else Inr (str_trim v))"

definition session_admits :: "int \<Rightarrow> string \<Rightarrow> ssh_session \<Rightarrow> bool" where
  "session_admits now sandbox_id sh \<longleftrightarrow>
     \<not> sh_revoked sh \<and> sh_sandbox_id sh = sandbox_id \<and> \<not> (0 < sh_expires_at_ms sh \<and> sh_expires_at_ms sh < now)"

definition ssh_target :: "cluster \<Rightarrow> gateway_config \<Rightarrow> sandbox \<Rightarrow> nat + connect_target" where
  "ssh_target K cf sb =
     (let by_name = (if sb_name sb \<noteq> [] then Inr (TargetHost (service_host K (sb_name sb)) (cf_sandbox_ssh_port cf)) else Inl 412)
      in case sb_status sb of
           None \<Rightarrow> by_name
         | Some st \<Rightarrow>
             if ss_agent_pod st = [] then by_name
             else (case kb_agent_pod_ip K (ss_agent_pod st) of
                     Inr (Some ip) \<Rightarrow> Inr (TargetIp ip (cf_sandbox_ssh_port cf))
                   | _ \<Rightarrow> Inl 502))"

text \<open>Everything that is checked before the limits.\<close>

definition authorize_tunnel ::
    "env \<Rightarrow> cluster \<Rightarrow> gateway_config \<Rightarrow> int \<Rightarrow> bool \<Rightarrow> (string \<Rightarrow> bytes option) \<Rightarrow> store \<Rightarrow>
     nat + string \<times> string \<times> connect_target" where
  "authorize_tunnel E K cf now is_connect headers s =
     (if \<not> is_connect then Inl 405 else
      and_then (required_header headers ''x-sandbox-id'') (\<lambda>sandbox_id.
      and_then (required_header headers ''x-sandbox-token'') (\<lambda>token.
        case get_message ''ssh_session'' (ev_decode_session E) token s of
          Inl _ \<Rightarrow> Inl 500
        | Inr None \<Rightarrow> Inl 401
        | Inr (Some sh) \<Rightarrow>
            if \<not> session_admits now sandbox_id sh then Inl 401
            else (case get_message ''sandbox'' (ev_decode_sandbox E) sandbox_id s of
                Inl _ \<Rightarrow> Inl 500
              | Inr None \<Rightarrow> Inl 404
              | Inr (Some sb) \<Rightarrow>
                  if phase_of (sb_phase sb) \<noteq> Some PhReady then Inl 412
                  else and_then (ssh_target K cf sb) (\<lambda>target. Inr (token, sandbox_id, target))))))"

text \<open>The answer's status, the tunnel that is spawned, and the counts.\<close>

definition ssh_connect ::
    "env \<Rightarrow> cluster \<Rightarrow> gateway_config \<Rightarrow> int \<Rightarrow> bool \<Rightarrow> (string \<Rightarrow> bytes option) \<Rightarrow> store \<Rightarrow> tunnel_counts \<Rightarrow>
     nat \<times> (string \<times> string \<times> connect_target) option \<times> tunnel_counts" where
  "ssh_connect E K cf now is_connect headers s T =
     (case authorize_tunnel E K cf now is_connect headers s of
        Inl num \<Rightarrow> (num, None, T)
      | Inr (token, sandbox_id, target) \<Rightarrow>
          (case acquire_token token T of
             (False, T) \<Rightarrow> (429, None, T)
           | (True, T) \<Rightarrow>
               (case acquire_sandbox token sandbox_id T of
                  (False, T) \<Rightarrow> (429, None, T)
                | (True, T) \<Rightarrow> (200, Some (token, sandbox_id, target), T))))"

text \<open>The end of a tunnel.\<close>

definition close_tunnel :: "string \<Rightarrow> string \<Rightarrow> tunnel_counts \<Rightarrow> tunnel_counts" where
  "close_tunnel token sandbox_id T =
     \<lparr>tn_by_token = decrement_connection_count token (tn_by_token T),
      tn_by_sandbox = decrement_connection_count sandbox_id (tn_by_sandbox T)\<rparr>"

end
