(* ===== verification/Drafts.thy ===== *)
theory Drafts
  imports Config Mapper
begin

text \<open>
  The draft policy recommendations of \<open>crates/openshell-server/src/grpc.rs\<close>: the sandbox
  submits chunks (\<open>submit_policy_analysis\<close>), a user approves, rejects, edits, undoes or clears
  them, and an approval merges the proposed rule into a new revision of the sandbox's policy.
  The merge reads the latest revision, computes and writes the next one under optimistic
  concurrency control: other writers may run in between, here the function \<open>others\<close> of the number of
  the attempt, and a conflict on the version makes it start over, five times at most.
\<close>

section \<open>The rule of a chunk in a policy\<close>

definition add_binary :: "network_binary \<Rightarrow> network_binary list \<Rightarrow> network_binary list" where
  "add_binary b bs = (if list_ex (\<lambda>eb. nb_path eb = nb_path b) bs then bs else bs @ [b])"

definition add_endpoint :: "network_endpoint \<Rightarrow> network_endpoint list \<Rightarrow> network_endpoint list" where
  "add_endpoint ep es =
     (if list_ex (\<lambda>e. ep_host e = ep_host ep \<and> ep_port e = ep_port ep) es then es else es @ [ep])"

definition merge_rule :: "network_policy_rule \<Rightarrow> network_policy_rule \<Rightarrow> network_policy_rule" where
  "merge_rule rule existing =
     existing\<lparr>npr_binaries := fold add_binary (npr_binaries rule) (npr_binaries existing),
              npr_endpoints := fold add_endpoint (npr_endpoints rule) (npr_endpoints existing)\<rparr>"

definition merge_into_policy :: "string \<Rightarrow> network_policy_rule \<Rightarrow> sandbox_policy \<Rightarrow> sandbox_policy" where
  "merge_into_policy rule_name rule p =
     p\<lparr>sp_network_policies :=
        (case map_of (sp_network_policies p) rule_name of
           Some existing \<Rightarrow> hm_insert rule_name (merge_rule rule existing) (sp_network_policies p)
         | None \<Rightarrow> hm_insert rule_name rule (sp_network_policies p))\<rparr>"

definition remove_from_policy :: "string \<Rightarrow> string \<Rightarrow> sandbox_policy \<Rightarrow> sandbox_policy" where
  "remove_from_policy rule_name binary p =
     (case map_of (sp_network_policies p) rule_name of
        None \<Rightarrow> p
      | Some existing \<Rightarrow>
          let kept = filter (\<lambda>b. nb_path b \<noteq> binary) (npr_binaries existing) in
          p\<lparr>sp_network_policies :=
             (if kept = [] then hm_remove rule_name (sp_network_policies p)
              else hm_insert rule_name (existing\<lparr>npr_binaries := kept\<rparr>) (sp_network_policies p))\<rparr>)"

definition default_policy :: sandbox_policy where
  "default_policy =
     \<lparr>sp_version = 0, sp_filesystem = None, sp_landlock = None, sp_process = None, sp_network_policies = []\<rparr>"

section \<open>Read, change, write the next version\<close>

text \<open>What surrounds an attempt: the fresh identifiers, the clock and the other writers.\<close>

record surroundings =
  su_uuid :: "nat \<Rightarrow> string"
  su_now :: "nat \<Rightarrow> int"
  su_others :: "nat \<Rightarrow> store \<Rightarrow> store"

definition interfere :: "(store \<Rightarrow> store) \<Rightarrow> unit operation" where
  "interfere f = update (\<lambda>s. ((), f s))"

definition MERGE_RETRY_LIMIT :: nat where "MERGE_RETRY_LIMIT = 5"

definition conflict_text :: "string \<Rightarrow> bool" where
  "conflict_text msg \<longleftrightarrow> str_contains msg ''UNIQUE'' \<or> str_contains msg ''unique'' \<or> str_contains msg ''duplicate''"

text \<open>The write that both loops share, and its outcome: done, or another attempt.\<close>

definition write_next ::
    "env \<Rightarrow> surroundings \<Rightarrow> string \<Rightarrow> nat \<Rightarrow> int \<Rightarrow> sandbox_policy \<Rightarrow> (int \<times> string) option operation" where
  "write_next E U sandbox_id k base_version policy =
     (let version = base_version + 1; hash = deterministic_policy_hash E policy in
      then_do (interfere (su_others U k)) (\<lambda>_.
      then_do (attempt (put_policy_revision (su_now U k) (su_uuid U k) sandbox_id version (ev_encode_policy E policy) hash)) (\<lambda>r.
        case r of
          Inr _ \<Rightarrow> then_do (update (supersede_older_policies sandbox_id version)) (\<lambda>_. ret (Some (version, hash)))
        | Inl e \<Rightarrow>
            if conflict_text e then ret None
            else fail (Internal (''persist policy revision failed: '' @ e)))))"

definition decode_stored :: "env \<Rightarrow> policy_record \<Rightarrow> status + sandbox_policy" where
  "decode_stored E r =
     (case ev_decode_policy E (pr_payload r) of
        Inl e \<Rightarrow> Inl (Internal (''decode current policy failed: '' @ e))
      | Inr p \<Rightarrow> Inr p)"

fun merge_attempts ::
    "env \<Rightarrow> surroundings \<Rightarrow> string \<Rightarrow> string \<Rightarrow> network_policy_rule \<Rightarrow> nat list \<Rightarrow> (int \<times> string) operation" where
  "merge_attempts E U sandbox_id rule_name rule [] =
     fail (Aborted (''merge_chunk_into_policy: gave up after '' @ dec MERGE_RETRY_LIMIT @
       '' version conflict retries for rule '' @ quo @ rule_name @ quo))"
| "merge_attempts E U sandbox_id rule_name rule (k # ks) =
     then_do (query (get_latest_policy sandbox_id)) (\<lambda>latest.
     then_do (lift (case latest of Some r \<Rightarrow> decode_stored E r | None \<Rightarrow> Inr default_policy)) (\<lambda>policy.
     then_do (write_next E U sandbox_id k (case latest of Some r \<Rightarrow> pr_version r | None \<Rightarrow> 0)
        (merge_into_policy rule_name rule policy)) (\<lambda>r.
       case r of Some out \<Rightarrow> ret out | None \<Rightarrow> merge_attempts E U sandbox_id rule_name rule ks)))"

definition merge_chunk_into_policy ::
    "env \<Rightarrow> surroundings \<Rightarrow> string \<Rightarrow> draft_chunk \<Rightarrow> (int \<times> string) operation" where
  "merge_chunk_into_policy E U sandbox_id chunk =
     (case ev_decode_rule E (dc_rule chunk) of
        Inl e \<Rightarrow> fail (Internal (''decode proposed_rule failed: '' @ e))
      | Inr rule \<Rightarrow> merge_attempts E U sandbox_id (dc_rule_name chunk) rule [1 ..< Suc MERGE_RETRY_LIMIT])"

fun remove_attempts ::
    "env \<Rightarrow> surroundings \<Rightarrow> string \<Rightarrow> string \<Rightarrow> string \<Rightarrow> nat list \<Rightarrow> (int \<times> string) operation" where
  "remove_attempts E U sandbox_id rule_name binary [] =
     fail (Aborted (''remove_chunk_from_policy: gave up after '' @ dec MERGE_RETRY_LIMIT @
       '' version conflict retries for rule '' @ quo @ rule_name @ quo))"
| "remove_attempts E U sandbox_id rule_name binary (k # ks) =
     then_do (query (get_latest_policy sandbox_id)) (\<lambda>found.
     then_do (lift (ok_or found (Internal ''no active policy to undo from''))) (\<lambda>latest.
     then_do (lift (decode_stored E latest)) (\<lambda>policy.
     then_do (write_next E U sandbox_id k (pr_version latest) (remove_from_policy rule_name binary policy)) (\<lambda>r.
       case r of Some out \<Rightarrow> ret out | None \<Rightarrow> remove_attempts E U sandbox_id rule_name binary ks))))"

definition remove_chunk_from_policy ::
    "env \<Rightarrow> surroundings \<Rightarrow> string \<Rightarrow> draft_chunk \<Rightarrow> (int \<times> string) operation" where
  "remove_chunk_from_policy E U sandbox_id chunk =
     remove_attempts E U sandbox_id (dc_rule_name chunk) (dc_binary chunk) [1 ..< Suc MERGE_RETRY_LIMIT]"

definition require_no_global_policy :: "env \<Rightarrow> unit operation" where
  "require_no_global_policy E =
     then_do (loading (load_global_settings E)) (\<lambda>global.
       check (map_of (se_settings global) POLICY_SETTING_KEY = None)
         (FailedPrecondition ''cannot approve rules while a global policy is active; delete the global policy to manage per-sandbox rules'')
         (ret ()))"

section \<open>Submitting\<close>

record submit_response =
  sr_accepted :: u32
  sr_rejected :: u32
  sr_reasons :: "string list"

definition chunk_record :: "env \<Rightarrow> string \<Rightarrow> int \<Rightarrow> string \<Rightarrow> int \<Rightarrow> network_policy_rule \<Rightarrow> policy_chunk \<Rightarrow> draft_chunk" where
  "chunk_record E chunk_id now sandbox_id draft_version rule chunk =
     \<lparr>dc_id = chunk_id, dc_sandbox = sandbox_id, dc_version = draft_version, dc_status = ''pending'',
      dc_rule_name = ch_rule_name chunk, dc_rule = ev_encode_rule E rule,
      dc_rationale = ch_rationale chunk, dc_notes = ch_security_notes chunk,
      dc_confidence = ch_confidence chunk, dc_created = now, dc_decided = None,
      dc_host = (case npr_endpoints rule of [] \<Rightarrow> [] | ep # _ \<Rightarrow> ev_to_lowercase E (ep_host ep)),
      dc_port = (case npr_endpoints rule of [] \<Rightarrow> 0 | ep # _ \<Rightarrow> sint (ep_port ep)),
      dc_binary = (case npr_binaries rule of [] \<Rightarrow> [] | b # _ \<Rightarrow> nb_path b),
      dc_hits = (if 0 < sint (ch_hit_count chunk) then sint (ch_hit_count chunk) else 1),
      dc_first_seen = (if 0 < ch_first_seen_ms chunk then ch_first_seen_ms chunk else now),
      dc_last_seen = (if 0 < ch_last_seen_ms chunk then ch_last_seen_ms chunk else now)\<rparr>"

fun submit_chunks ::
    "env \<Rightarrow> surroundings \<Rightarrow> string \<Rightarrow> int \<Rightarrow> nat \<Rightarrow> policy_chunk list \<Rightarrow> submit_response \<Rightarrow> submit_response operation" where
  "submit_chunks E U sandbox_id draft_version k [] resp = ret resp"
| "submit_chunks E U sandbox_id draft_version k (chunk # chunks) resp =
     (if ch_rule_name chunk = [] then
        submit_chunks E U sandbox_id draft_version (Suc k) chunks
          (resp\<lparr>sr_rejected := sr_rejected resp + 1, sr_reasons := sr_reasons resp @ [''chunk missing rule_name'']\<rparr>)
      else case ch_proposed_rule chunk of
        None \<Rightarrow>
          submit_chunks E U sandbox_id draft_version (Suc k) chunks
            (resp\<lparr>sr_rejected := sr_rejected resp + 1, sr_reasons := sr_reasons resp @
               [''chunk '' @ quo @ ch_rule_name chunk @ quo @ '' missing proposed_rule'']\<rparr>)
      | Some rule \<Rightarrow>
          then_do (commit ''persist draft chunk failed''
              (put_draft_chunk (chunk_record E (su_uuid U k) (su_now U k) sandbox_id draft_version rule chunk))) (\<lambda>_.
            submit_chunks E U sandbox_id draft_version (Suc k) chunks (resp\<lparr>sr_accepted := sr_accepted resp + 1\<rparr>)))"

definition submit_policy_analysis ::
    "env \<Rightarrow> surroundings \<Rightarrow> string \<Rightarrow> policy_chunk list \<Rightarrow> submit_response operation" where
  "submit_policy_analysis E U name chunks =
     check (name \<noteq> []) (InvalidArgument ''name is required'')
     (then_do (sandbox_by_name E name) (\<lambda>sb.
      then_do (query (get_draft_version (sb_id sb))) (\<lambda>current.
      then_do (submit_chunks E U (sb_id sb) (current + 1) 0 chunks \<lparr>sr_accepted = 0, sr_rejected = 0, sr_reasons = []\<rparr>) (\<lambda>resp.
      then_do (notify (sb_id sb)) (\<lambda>_. ret resp)))))"

section \<open>Deciding\<close>

definition set_status :: "string \<Rightarrow> string \<Rightarrow> int option \<Rightarrow> unit operation" where
  "set_status chunk_id status decided_at =
     commit ''update chunk status failed'' (\<lambda>s. map_sum id snd (update_draft_chunk_status chunk_id status decided_at s))"

definition chunk_by_id :: "string \<Rightarrow> draft_chunk operation" where
  "chunk_by_id chunk_id =
     then_do (query (get_draft_chunk chunk_id)) (\<lambda>found. lift (ok_or found (NotFound ''chunk not found'')))"

definition wrong_status :: "draft_chunk \<Rightarrow> string \<Rightarrow> status" where
  "wrong_status chunk expected =
     FailedPrecondition (''chunk status is '' @ quo @ dc_status chunk @ quo @ '', expected '' @ expected)"

definition named :: "string \<Rightarrow> string \<Rightarrow> 'a operation \<Rightarrow> 'a operation" where
  "named name chunk_id m =
     check (name \<noteq> []) (InvalidArgument ''name is required'')
     (check (chunk_id \<noteq> []) (InvalidArgument ''chunk_id is required'') m)"

definition approve_draft_chunk :: "env \<Rightarrow> surroundings \<Rightarrow> string \<Rightarrow> string \<Rightarrow> (u32 \<times> string) operation" where
  "approve_draft_chunk E U name chunk_id =
     named name chunk_id
     (then_do (require_no_global_policy E) (\<lambda>_.
      then_do (sandbox_by_name E name) (\<lambda>sb.
      then_do (chunk_by_id chunk_id) (\<lambda>chunk.
      check (dc_status chunk = ''pending'' \<or> dc_status chunk = ''rejected'')
        (wrong_status chunk (quo @ ''pending'' @ quo @ '' or '' @ quo @ ''rejected'' @ quo))
      (then_do (merge_chunk_into_policy E U (sb_id sb) chunk) (\<lambda>(version, hash).
       then_do (set_status chunk_id ''approved'' (Some (su_now U 0))) (\<lambda>_.
       then_do (notify (sb_id sb)) (\<lambda>_.
         ret (u32_or_0 version, hash)))))))))"

definition reject_draft_chunk :: "env \<Rightarrow> surroundings \<Rightarrow> string \<Rightarrow> string \<Rightarrow> unit operation" where
  "reject_draft_chunk E U name chunk_id =
     named name chunk_id
     (then_do (sandbox_by_name E name) (\<lambda>sb.
      then_do (chunk_by_id chunk_id) (\<lambda>chunk.
      check (dc_status chunk = ''pending'' \<or> dc_status chunk = ''approved'')
        (wrong_status chunk (quo @ ''pending'' @ quo @ '' or '' @ quo @ ''approved'' @ quo))
      (then_do (if dc_status chunk = ''approved'' then
            then_do (require_no_global_policy E) (\<lambda>_.
            then_do (remove_chunk_from_policy E U (sb_id sb) chunk) (\<lambda>_. ret ()))
          else ret ()) (\<lambda>_.
       then_do (set_status chunk_id ''rejected'' (Some (su_now U 0))) (\<lambda>_.
         notify (sb_id sb)))))))"

definition undo_draft_chunk :: "env \<Rightarrow> surroundings \<Rightarrow> string \<Rightarrow> string \<Rightarrow> (u32 \<times> string) operation" where
  "undo_draft_chunk E U name chunk_id =
     named name chunk_id
     (then_do (sandbox_by_name E name) (\<lambda>sb.
      then_do (chunk_by_id chunk_id) (\<lambda>chunk.
      check (dc_status chunk = ''approved'') (wrong_status chunk (quo @ ''approved'' @ quo))
      (then_do (remove_chunk_from_policy E U (sb_id sb) chunk) (\<lambda>(version, hash).
       then_do (set_status chunk_id ''pending'' None) (\<lambda>_.
       then_do (notify (sb_id sb)) (\<lambda>_.
         ret (u32_or_0 version, hash))))))))"

definition edit_draft_chunk :: "env \<Rightarrow> string \<Rightarrow> string \<Rightarrow> network_policy_rule option \<Rightarrow> unit operation" where
  "edit_draft_chunk E name chunk_id proposed_rule =
     named name chunk_id
     (then_do (lift (ok_or proposed_rule (InvalidArgument ''proposed_rule is required''))) (\<lambda>rule.
      then_do (sandbox_by_name E name) (\<lambda>_.
      then_do (chunk_by_id chunk_id) (\<lambda>chunk.
      check (dc_status chunk = ''pending'') (wrong_status chunk (quo @ ''pending'' @ quo))
      (then_do (update (update_draft_chunk_rule chunk_id (ev_encode_rule E rule))) (\<lambda>_. ret ())))))) "

record approve_all_response =
  aa_version :: u32
  aa_hash :: string
  aa_approved :: u32
  aa_skipped :: u32

fun approve_chunks ::
    "env \<Rightarrow> (nat \<Rightarrow> surroundings) \<Rightarrow> string \<Rightarrow> bool \<Rightarrow> nat \<Rightarrow> draft_chunk list \<Rightarrow> int \<times> string \<times> u32 \<times> u32 \<Rightarrow>
     (int \<times> string \<times> u32 \<times> u32) operation" where
  "approve_chunks E U sandbox_id flagged k [] acc = ret acc"
| "approve_chunks E U sandbox_id flagged k (chunk # chunks) (last_version, last_hash, approved, skipped) =
     (if \<not> flagged \<and> dc_notes chunk \<noteq> [] then
        approve_chunks E U sandbox_id flagged (Suc k) chunks (last_version, last_hash, approved, skipped + 1)
      else
        then_do (merge_chunk_into_policy E (U k) sandbox_id chunk) (\<lambda>(version, hash).
        then_do (set_status (dc_id chunk) ''approved'' (Some (su_now (U k) 0))) (\<lambda>_.
          approve_chunks E U sandbox_id flagged (Suc k) chunks (version, hash, approved + 1, skipped))))"

definition approve_all_draft_chunks ::
    "env \<Rightarrow> (nat \<Rightarrow> surroundings) \<Rightarrow> string \<Rightarrow> bool \<Rightarrow> approve_all_response operation" where
  "approve_all_draft_chunks E U name include_security_flagged =
     check (name \<noteq> []) (InvalidArgument ''name is required'')
     (then_do (require_no_global_policy E) (\<lambda>_.
      then_do (sandbox_by_name E name) (\<lambda>sb.
      then_do (query (list_draft_chunks (sb_id sb) (Some ''pending''))) (\<lambda>pending_chunks.
      check (pending_chunks \<noteq> []) (FailedPrecondition ''no pending chunks to approve'')
      (then_do (approve_chunks E U (sb_id sb) include_security_flagged 0 pending_chunks (0, [], 0, 0)) (\<lambda>(version, hash, approved, skipped).
       then_do (notify (sb_id sb)) (\<lambda>_.
         ret \<lparr>aa_version = u32_or_0 version, aa_hash = hash, aa_approved = approved, aa_skipped = skipped\<rparr>)))))))"

definition clear_draft_chunks :: "env \<Rightarrow> string \<Rightarrow> u32 operation" where
  "clear_draft_chunks E name =
     check (name \<noteq> []) (InvalidArgument ''name is required'')
     (then_do (sandbox_by_name E name) (\<lambda>sb.
      then_do (update (delete_draft_chunks (sb_id sb) ''pending'')) (\<lambda>deleted.
      then_do (notify (sb_id sb)) (\<lambda>_.
        ret (u32_or_0 (int deleted))))))"

section \<open>Reading\<close>

definition draft_chunk_record_to_proto :: "env \<Rightarrow> draft_chunk \<Rightarrow> status + policy_chunk" where
  "draft_chunk_record_to_proto E r =
     and_then (if dc_rule r = [] then Inr None
         else case ev_decode_rule E (dc_rule r) of
                Inl e \<Rightarrow> Inl (Internal (''decode proposed_rule failed: '' @ e)) | Inr rule \<Rightarrow> Inr (Some rule)) (\<lambda>rule.
       Inr \<lparr>ch_id = dc_id r, ch_status = dc_status r, ch_rule_name = dc_rule_name r, ch_proposed_rule = rule,
            ch_rationale = dc_rationale r, ch_security_notes = dc_notes r, ch_confidence = dc_confidence r,
            ch_denial_summary_ids = [], ch_created_at_ms = dc_created r,
            ch_decided_at_ms = unwrap_or (dc_decided r) 0, ch_stage = [], ch_supersedes_chunk_id = [],
            ch_hit_count = of_int (dc_hits r), ch_first_seen_ms = dc_first_seen r,
            ch_last_seen_ms = dc_last_seen r, ch_binary = dc_binary r\<rparr>)"

fun chunks_to_proto :: "env \<Rightarrow> draft_chunk list \<Rightarrow> status + policy_chunk list" where
  "chunks_to_proto E [] = Inr []"
| "chunks_to_proto E (r # rs) =
     and_then (draft_chunk_record_to_proto E r) (\<lambda>c. and_then (chunks_to_proto E rs) (\<lambda>cs. Inr (c # cs)))"

record draft_policy_response =
  dp_chunks :: "policy_chunk list"
  dp_draft_version :: u64
  dp_last_analyzed :: int

definition get_draft_policy :: "env \<Rightarrow> string \<Rightarrow> string \<Rightarrow> draft_policy_response operation" where
  "get_draft_policy E name status_filter =
     check (name \<noteq> []) (InvalidArgument ''name is required'')
     (then_do (sandbox_by_name E name) (\<lambda>sb.
      then_do (query (list_draft_chunks (sb_id sb) (if status_filter = [] then None else Some status_filter))) (\<lambda>records.
      then_do (query (get_draft_version (sb_id sb))) (\<lambda>draft_version.
      then_do (lift (chunks_to_proto E records)) (\<lambda>chunks.
        ret \<lparr>dp_chunks = chunks,
             dp_draft_version = (if 0 \<le> draft_version then of_int draft_version else 0),
             dp_last_analyzed = (case map ch_created_at_ms chunks of [] \<Rightarrow> 0 | t # ts \<Rightarrow> fold max ts t)\<rparr>)))))"

record history_entry =
  he_timestamp :: int
  he_event :: string
  he_description :: string
  he_chunk_id :: string

text \<open>The confidence as a percentage without decimals, ties to even.\<close>

definition percent :: "nat \<Rightarrow> nat" where
  "percent confidence =
     (let n = confidence * 100; q = n div 2 ^ 27; r = n mod 2 ^ 27
      in if r < 2 ^ 26 \<or> (r = 2 ^ 26 \<and> even q) then q else q + 1)"

definition chunk_history :: "draft_chunk \<Rightarrow> history_entry list" where
  "chunk_history c =
     \<lparr>he_timestamp = dc_created c, he_event = ''proposed'',
      he_description = ''Rule '' @ quo @ dc_rule_name c @ quo @ '' proposed (confidence: '' @ dec (percent (dc_confidence c)) @ ''%)'',
      he_chunk_id = dc_id c\<rparr> #
     (case dc_decided c of
        None \<Rightarrow> []
      | Some at \<Rightarrow> [\<lparr>he_timestamp = at, he_event = dc_status c,
          he_description = ''Rule '' @ quo @ dc_rule_name c @ quo @ '' '' @ dc_status c, he_chunk_id = dc_id c\<rparr>])"

definition get_draft_history :: "env \<Rightarrow> string \<Rightarrow> history_entry list operation" where
  "get_draft_history E name =
     check (name \<noteq> []) (InvalidArgument ''name is required'')
     (then_do (sandbox_by_name E name) (\<lambda>sb.
      then_do (query (list_draft_chunks (sb_id sb) None)) (\<lambda>chunks.
        ret (sort_key he_timestamp (concat (map chunk_history chunks))))))"

end
