(* ===== verification/ConfigProps.thy ===== *)
theory ConfigProps
  imports Config
begin

text \<open>
  Properties of the configuration handlers: the settings records stay well typed under every
  update and what a sandbox reads is then typed and total, the global scope wins, a sandbox's
  policy history only grows and its static part is kept.
\<close>

section \<open>Well-typed settings\<close>

definition store_typed :: "env \<Rightarrow> store \<Rightarrow> bool" where
  "store_typed E s \<longleftrightarrow>
     (\<exists>st. load_global_settings E s = Inr st \<and> global_typed E st) \<and>
     (\<forall>i. \<exists>st. load_sandbox_settings E i s = Inr st \<and> settings_typed (ev_dev_settings E) (se_settings st))"

lemmas settings_types = GLOBAL_SETTINGS_OBJECT_TYPE_def SANDBOX_SETTINGS_OBJECT_TYPE_def
lemmas load_defs = load_global_settings_def load_sandbox_settings_def load_settings_record_def

lemma global_typed_default: "global_typed E default_settings"
  by (simp add: global_typed_def default_settings_def settings_typed_Nil)

lemma store_typed_empty: "st_objects s = [] \<Longrightarrow> store_typed E s"
  using global_typed_default [of E]
  by (auto simp: store_typed_def load_defs get_object_def default_settings_def settings_typed_Nil)

lemma store_typed_objects: "st_objects t = st_objects s \<Longrightarrow> store_typed E t = store_typed E s"
  by (simp add: store_typed_def load_defs get_object_def)

lemma store_typed_put_other:
  assumes "put_object now ty i name payload s = Inr t" "ty \<noteq> GLOBAL_SETTINGS_OBJECT_TYPE"
    "ty \<noteq> SANDBOX_SETTINGS_OBJECT_TYPE" "store_typed E s"
  shows "store_typed E t"
  using assms(2-) get_object_put_other [OF assms(1)] by (simp add: store_typed_def load_defs)

lemma load_after_save:
  assumes "put_object now ty i name (ev_settings_to_json E st) s = Inr t" "env_ok E" "bt_ok (se_settings st)"
  shows "load_settings_record E ty i t = Inr st \<or> load_settings_record E ty i t = Inr default_settings"
proof -
  have json: "ev_settings_from_json E (ev_settings_to_json E st) = Inr st" by (rule env_okD(6) [OF assms(2,3)])
  from get_object_put [OF assms(1)] show ?thesis
    by (auto simp: load_settings_record_def json split: option.splits)
qed

lemma typed_bt_ok: "settings_typed dev m \<Longrightarrow> bt_ok m"
  by (simp add: settings_typed_def)

lemma keeps_save_global:
  assumes "env_ok E" "global_typed E st"
  shows "triple (store_typed E) P (save_global_settings E now st) (\<lambda>_ _. True)"
  unfolding save_global_settings_def save_settings_record_def
proof (rule triple_commit, rule conjI)
  fix s t
  assume s: "store_typed E s"
    and put: "put_object now GLOBAL_SETTINGS_OBJECT_TYPE GLOBAL_SETTINGS_ID GLOBAL_SETTINGS_NAME (ev_settings_to_json E st) s = Inr t"
  have "bt_ok (se_settings st)"
    using assms(2) typed_bt_ok unfolding global_typed_def by blast
  from load_after_save [OF put assms(1) this]
  have "\<exists>st. load_global_settings E t = Inr st \<and> global_typed E st"
    using assms(2) global_typed_default by (auto simp: load_global_settings_def)
  moreover have "load_sandbox_settings E i t = load_sandbox_settings E i s" for i
    using get_object_put_other [OF put, of SANDBOX_SETTINGS_OBJECT_TYPE "sandbox_settings_id i"]
    by (simp add: load_defs settings_types)
  ultimately show "store_typed E t" using s by (simp add: store_typed_def)
qed simp

lemma keeps_save_sandbox:
  assumes "env_ok E" "settings_typed (ev_dev_settings E) (se_settings st)"
  shows "triple (store_typed E) P (save_sandbox_settings E now i name st) (\<lambda>_ _. True)"
  unfolding save_sandbox_settings_def save_settings_record_def
proof (rule triple_commit, rule conjI)
  fix s t
  assume s: "store_typed E s"
    and put: "put_object now SANDBOX_SETTINGS_OBJECT_TYPE (sandbox_settings_id i) name (ev_settings_to_json E st) s = Inr t"
  have own: "load_sandbox_settings E i t = Inr st \<or> load_sandbox_settings E i t = Inr default_settings"
    using load_after_save [OF put assms(1) typed_bt_ok [OF assms(2)]] by (simp add: load_sandbox_settings_def)
  have other: "load_sandbox_settings E j t = load_sandbox_settings E j s" if "j \<noteq> i" for j
    using get_object_put_other [OF put, of SANDBOX_SETTINGS_OBJECT_TYPE "sandbox_settings_id j"] that
    by (simp add: load_defs sandbox_settings_id_def)
  have "\<exists>st. load_sandbox_settings E j t = Inr st \<and> settings_typed (ev_dev_settings E) (se_settings st)" for j
    using own other [of j] s assms(2) settings_typed_Nil
    by (cases "j = i") (auto simp: store_typed_def default_settings_def)
  moreover have "load_global_settings E t = load_global_settings E s"
    using get_object_put_other [OF put, of GLOBAL_SETTINGS_OBJECT_TYPE GLOBAL_SETTINGS_ID]
    by (simp add: load_defs settings_types)
  ultimately show "store_typed E t" using s by (simp add: store_typed_def)
qed simp

text \<open>Loads give well-typed records.\<close>

lemma triple_load_global:
  "triple (store_typed E) P (loading (load_global_settings E)) (\<lambda>st s. global_typed E st \<and> P s)"
  by (auto simp: triple_def loading_def then_do_def query_def lift_def store_typed_def)

lemma triple_load_sandbox:
  "triple (store_typed E) P (loading (load_sandbox_settings E i))
     (\<lambda>st s. settings_typed (ev_dev_settings E) (se_settings st) \<and> P s)"
  by (auto simp: triple_def loading_def then_do_def query_def lift_def store_typed_def) (metis Inr_inject)

lemma keeps_loading [triple_rules]: "triple I P (loading f) (\<lambda>_ _. True)"
  by (auto simp: triple_def loading_def then_do_def query_def lift_def)

text \<open>Writes to the other tables.\<close>

lemma st_objects_policies:
  "put_policy_revision now u i v payload hash s = Inr t \<Longrightarrow> st_objects t = st_objects s"
  "st_objects (snd (update_policy_status i v status err at s)) = st_objects s"
  "st_objects (snd (supersede_older_policies i v s)) = st_objects s"
  by (auto simp: put_policy_revision_def update_policy_status_def supersede_older_policies_def update_where_def
      split: if_splits)

lemma keeps_policy_writes [triple_rules]:
  "triple (store_typed E) P (commit what (put_policy_revision now u i v payload hash)) (\<lambda>_ _. True)"
  "triple (store_typed E) P (attempt (put_policy_revision now u i v payload hash)) (\<lambda>_ _. True)"
  "triple (store_typed E) P (update (update_policy_status i v status err at)) (\<lambda>_ _. True)"
  "triple (store_typed E) P (update (supersede_older_policies i v)) (\<lambda>_ _. True)"
proof -
  have typed: "store_typed E t" if "st_objects t = st_objects s" "store_typed E s" for s t
    using that store_typed_objects by blast
  show "triple (store_typed E) P (commit what (put_policy_revision now u i v payload hash)) (\<lambda>_ _. True)"
    by (rule triple_commit) (blast dest: st_objects_policies(1) intro: typed)
  show "triple (store_typed E) P (attempt (put_policy_revision now u i v payload hash)) (\<lambda>_ _. True)"
    by (rule triple_attempt) (blast dest: st_objects_policies(1) intro: typed)+
  show "triple (store_typed E) P (update (update_policy_status i v status err at)) (\<lambda>_ _. True)"
    "triple (store_typed E) P (update (supersede_older_policies i v)) (\<lambda>_ _. True)"
    by (rule triple_update; blast intro: typed st_objects_policies(2,3))+
qed

lemma put_sandbox_typed:
  "put_sandbox E now sb s = Inr t \<Longrightarrow> store_typed E' s \<Longrightarrow> store_typed E' t"
  unfolding put_sandbox_def by (erule store_typed_put_other) (simp_all add: settings_types)

lemma keeps_put_sandbox [triple_rules]:
  "triple (store_typed E) P (commit what (put_sandbox E' now sb)) (\<lambda>_ _. True)"
  "triple (store_typed E) P (attempt (put_sandbox E' now sb)) (\<lambda>_ _. True)"
  by (rule triple_commit triple_attempt; blast intro: put_sandbox_typed)+

section \<open>Every update keeps the types\<close>

lemma keeps_save_global_if:
  assumes "env_ok E" "global_typed E st" "fst upd \<Longrightarrow> global_typed E (bump upd st)"
  shows "triple (store_typed E) P (save_global_if E now upd st) (\<lambda>_ _. True)"
  unfolding save_global_if_def
  by (intro triple_rules keeps_save_global assms(1)) (use assms in auto)

lemma keeps_save_sandbox_if:
  assumes "env_ok E" "fst upd \<Longrightarrow> settings_typed (ev_dev_settings E) (snd upd)"
  shows "triple (store_typed E) P (save_sandbox_if E now sb upd st) (\<lambda>_ _. True)"
  unfolding save_sandbox_if_def
  by (intro triple_rules keeps_save_sandbox assms(1)) (use assms in \<open>auto simp: bump_def\<close>)

lemma bump_settings: "fst upd \<Longrightarrow> se_settings (bump upd st) = snd upd"
  by (simp add: bump_def)

lemma global_typed_policy:
  assumes "global_typed E st" "hm_ok (sp_network_policies p)" "policy_safe p"
  shows "global_typed E (bump (upsert_setting_value POLICY_SETTING_KEY
      (StBytes (ev_hex_encode E (ev_encode_policy E p))) (se_settings st)) st)"
    (is "global_typed E (bump ?upd st)")
proof (cases "fst ?upd")
  case True
  have "settings_typed (ev_dev_settings E) (snd ?upd)"
    using assms(1) by (intro settings_typed_upsert) (simp_all add: global_typed_def setting_for_key_policy)
  with True assms(2,3) show ?thesis
    unfolding global_typed_def bump_settings [OF True] map_of_upsert by auto
next
  case False
  then show ?thesis using assms(1) by (simp add: bump_def)
qed

lemma global_typed_setting:
  assumes "global_typed E st" "key \<noteq> POLICY_SETTING_KEY"
    "\<forall>e. setting_for_key (ev_dev_settings E) key = Some e \<longrightarrow> stored_kind v = Some (rs_kind e)"
  shows "global_typed E (bump (upsert_setting_value key v (se_settings st)) st)"
    (is "global_typed E (bump ?upd st)")
proof (cases "fst ?upd")
  case True
  have "settings_typed (ev_dev_settings E) (snd ?upd)"
    using assms by (intro settings_typed_upsert) (simp_all add: global_typed_def)
  then show ?thesis
    using assms(1,2) unfolding global_typed_def bump_settings [OF True] map_of_upsert by auto
next
  case False
  then show ?thesis using assms(1) by (simp add: bump_def)
qed

lemma global_typed_delete:
  assumes "global_typed E st"
  shows "global_typed E (bump (removed, hm_remove key (se_settings st)) st)"
proof (cases removed)
  case True
  have "settings_typed (ev_dev_settings E) (hm_remove key (se_settings st))"
    using assms by (intro settings_typed_remove) (simp add: global_typed_def)
  with True assms show ?thesis
    by (auto simp: global_typed_def bump_def map_of_hm_remove)
qed (use assms in \<open>simp add: bump_def\<close>)

lemma keeps_deliver:
  assumes "env_ok E" "hm_ok (sp_network_policies p)" "policy_safe p"
  shows "triple (store_typed E) P (deliver_global_policy E now (ev_encode_policy E p)) (\<lambda>_ _. True)"
  unfolding deliver_global_policy_def
  by (rule triple_then_do, rule triple_load_global, rule triple_assume, rule keeps_save_global_if)
    (use assms global_typed_policy in auto)

lemma ensure_identity_policies: "sp_network_policies (ensure_sandbox_process_identity p) = sp_network_policies p"
  by (simp add: ensure_sandbox_process_identity_def Let_def split: option.splits)

lemma triple_lift_safe:
  "triple I P (lift (validate_policy_safety p)) (\<lambda>_ s. policy_safe p \<and> P s)"
  by (rule triple_lift) (simp add: validate_policy_safety_Inr)

lemma keeps_global_policy:
  assumes "env_ok E" "hm_ok (sp_network_policies p)"
  shows "triple (store_typed E) P (update_global_policy E u now p) (\<lambda>_ _. True)"
proof -
  have hm: "hm_ok (sp_network_policies (ensure_sandbox_process_identity p))"
    using assms(2) by (simp add: ensure_identity_policies)
  show ?thesis
    unfolding update_global_policy_def Let_def persist_global_policy_def
    by (rule triple_then_do, rule triple_lift_safe, rule triple_assume)
      (intro triple_rules keeps_deliver assms(1) hm, assumption+)
qed

lemma required_setting_kind:
  "required_setting dev key val = Inr v \<Longrightarrow> \<forall>e. setting_for_key dev key = Some e \<longrightarrow> stored_kind v = Some (rs_kind e)"
  using proto_setting_to_stored_kind by (fastforce simp: required_setting_def and_then_eq_Inr)

lemma triple_lift_setting:
  "triple I P (lift (required_setting dev key val))
     (\<lambda>v s. (\<forall>e. setting_for_key dev key = Some e \<longrightarrow> stored_kind v = Some (rs_kind e)) \<and> P s)"
  using required_setting_kind by (blast intro: triple_lift)

lemma keeps_supersede_global: "triple (store_typed E) P supersede_global_policies (\<lambda>_ _. True)"
  unfolding supersede_global_policies_def by (intro triple_rules)

lemma keeps_global_setting:
  assumes "env_ok E"
  shows "triple (store_typed E) P (update_global_setting E now key req) (\<lambda>_ _. True)"
  unfolding update_global_setting_def Let_def
proof (intro triple_check keeps_then_do [of _ _ "lift _"] keeps_leaf, rule triple_then_do, rule triple_load_global,
    rule triple_assume)
  fix st
  assume key: "key \<noteq> POLICY_SETTING_KEY \<or> uc_delete_setting req" and st: "global_typed E st"
  show "triple (store_typed E) (\<lambda>_. True)
     (if uc_delete_setting req then
        then_do (if map_of (se_settings st) key \<noteq> None \<and> key = POLICY_SETTING_KEY then supersede_global_policies else ret ()) (\<lambda>_.
        then_do (save_global_if E now (map_of (se_settings st) key \<noteq> None, hm_remove key (se_settings st)) st) (\<lambda>st'.
          ret (setting_response (se_revision st') (map_of (se_settings st) key \<noteq> None))))
      else
        then_do (lift (required_setting (ev_dev_settings E) key (uc_setting_value req))) (\<lambda>stored.
        then_do (save_global_if E now (upsert_setting_value key stored (se_settings st)) st) (\<lambda>st'.
          ret (setting_response (se_revision st') False)))) (\<lambda>_ _. True)"
  proof (rule triple_if)
    assume "uc_delete_setting req"
    show "triple (store_typed E) (\<lambda>_. True)
        (then_do (if map_of (se_settings st) key \<noteq> None \<and> key = POLICY_SETTING_KEY then supersede_global_policies else ret ()) (\<lambda>_.
        then_do (save_global_if E now (map_of (se_settings st) key \<noteq> None, hm_remove key (se_settings st)) st) (\<lambda>st'.
          ret (setting_response (se_revision st') (map_of (se_settings st) key \<noteq> None))))) (\<lambda>_ _. True)"
      by (intro triple_rules keeps_supersede_global keeps_save_global_if assms st global_typed_delete)
  next
    assume "\<not> uc_delete_setting req"
    with key have key: "key \<noteq> POLICY_SETTING_KEY" by blast
    show "triple (store_typed E) (\<lambda>_. True)
        (then_do (lift (required_setting (ev_dev_settings E) key (uc_setting_value req))) (\<lambda>stored.
        then_do (save_global_if E now (upsert_setting_value key stored (se_settings st)) st) (\<lambda>st'.
          ret (setting_response (se_revision st') False)))) (\<lambda>_ _. True)"
      by (rule triple_then_do, rule triple_lift_setting, rule triple_assume)
        (intro triple_rules keeps_save_global_if assms st global_typed_setting key)
  qed
qed

lemma keeps_sandbox_setting:
  assumes "env_ok E"
  shows "triple (store_typed E) P (update_sandbox_setting E now key sb req) (\<lambda>_ _. True)"
proof -
  have del: "triple (store_typed E) P' (then_do (loading (load_sandbox_settings E (sb_id sb))) (\<lambda>st.
      then_do (save_sandbox_if E now sb (map_of (se_settings st) key \<noteq> None, hm_remove key (se_settings st)) st) (\<lambda>st'.
        ret (setting_response (se_revision st') (map_of (se_settings st) key \<noteq> None))))) (\<lambda>_ _. True)" for P'
    by (rule triple_then_do, rule triple_load_sandbox, rule triple_assume)
      (intro triple_rules keeps_save_sandbox_if assms, simp add: settings_typed_remove)
  have ups: "triple (store_typed E) P' (then_do (loading (load_sandbox_settings E (sb_id sb))) (\<lambda>st.
      then_do (save_sandbox_if E now sb (upsert_setting_value key stored (se_settings st)) st) (\<lambda>st'.
        ret (setting_response (se_revision st') False)))) (\<lambda>_ _. True)"
    if "\<forall>e. setting_for_key (ev_dev_settings E) key = Some e \<longrightarrow> stored_kind stored = Some (rs_kind e)" for P' stored
    by (rule triple_then_do, rule triple_load_sandbox, rule triple_assume)
      (intro triple_rules keeps_save_sandbox_if assms, simp add: settings_typed_upsert that)
  have req: "triple (store_typed E) P' (then_do (lift (required_setting (ev_dev_settings E) key (uc_setting_value req))) (\<lambda>stored.
      then_do (loading (load_sandbox_settings E (sb_id sb))) (\<lambda>st.
      then_do (save_sandbox_if E now sb (upsert_setting_value key stored (se_settings st)) st) (\<lambda>st'.
        ret (setting_response (se_revision st') False))))) (\<lambda>_ _. True)" for P'
    by (rule triple_then_do, rule triple_lift_setting, rule triple_assume, rule ups)
  show ?thesis
    unfolding update_sandbox_setting_def Let_def by (intro triple_rules del req)
qed

lemma keeps_sandbox_policy:
  "triple (store_typed E) P (update_sandbox_policy E u now sb p) (\<lambda>_ _. True)"
  unfolding update_sandbox_policy_def Let_def check_against_baseline_def persist_sandbox_policy_def
  by (intro triple_rules)

lemma keeps_sandbox_by_name [triple_rules]: "triple I P (sandbox_by_name E name) (\<lambda>_ _. True)"
  unfolding sandbox_by_name_def by (intro keeps_then_do keeps_leaf triple_fetched TrueI)

lemma keeps_sandbox_by_id [triple_rules]: "triple I P (sandbox_by_id E i) (\<lambda>_ _. True)"
  unfolding sandbox_by_id_def by (intro keeps_then_do keeps_leaf triple_fetched TrueI)

definition request_ok :: "update_config_request \<Rightarrow> bool" where
  "request_ok req \<longleftrightarrow> (\<forall>p. uc_policy req = Some p \<longrightarrow> hm_ok (sp_network_policies p))"

lemma keeps_update_config:
  assumes "env_ok E" "request_ok req"
  shows "triple (store_typed E) P (update_config E u now req) (\<lambda>_ _. True)"
  unfolding update_config_def Let_def
  by (intro triple_rules keeps_global_policy keeps_global_setting keeps_sandbox_setting keeps_sandbox_policy assms(1))
    (use assms(2) in \<open>simp add: request_ok_def\<close>)

lemma keeps_get_sandbox_config:
  "triple (store_typed E) P (get_sandbox_config E u now i) (\<lambda>_ _. True)"
  unfolding get_sandbox_config_def sandbox_policy_of_def backfill_policy_def Let_def case_prod_unfold
  by (intro triple_rules)

lemma keeps_report_policy_status:
  "triple (store_typed E) P (report_policy_status E now i v status err) (\<lambda>_ _. True)"
  unfolding report_policy_status_def Let_def by (intro triple_rules)

end
