(* ===== verification/DraftProps.thy ===== *)
theory DraftProps
  imports Drafts ConfigProps
begin

text \<open>
  Properties of the gateway as a whole: its invariants under any sequence of calls, with other
  writers between the reads and the writes of a merge; the merges lose no update; what an
  approval grants.
\<close>

section \<open>Merging a rule\<close>

lemma merge_into_policy_static:
  "sp_filesystem (merge_into_policy n r p) = sp_filesystem p" "sp_landlock (merge_into_policy n r p) = sp_landlock p"
  "sp_process (merge_into_policy n r p) = sp_process p" "sp_version (merge_into_policy n r p) = sp_version p"
  by (simp_all add: merge_into_policy_def)

lemma remove_from_policy_static:
  "sp_filesystem (remove_from_policy n b p) = sp_filesystem p" "sp_landlock (remove_from_policy n b p) = sp_landlock p"
  "sp_process (remove_from_policy n b p) = sp_process p" "sp_version (remove_from_policy n b p) = sp_version p"
  by (simp_all add: remove_from_policy_def Let_def split: option.splits)

lemma merge_into_policy_ok: "hm_ok (sp_network_policies p) \<Longrightarrow> hm_ok (sp_network_policies (merge_into_policy n r p))"
  by (auto simp: merge_into_policy_def hm_ok_insert split: option.splits)

lemma remove_from_policy_ok: "hm_ok (sp_network_policies p) \<Longrightarrow> hm_ok (sp_network_policies (remove_from_policy n b p))"
  by (auto simp: remove_from_policy_def Let_def hm_ok_insert hm_ok_remove split: option.splits)

lemma map_of_merge_into_policy:
  "map_of (sp_network_policies (merge_into_policy n r p)) = (map_of (sp_network_policies p))(n \<mapsto>
     (case map_of (sp_network_policies p) n of Some existing \<Rightarrow> merge_rule r existing | None \<Rightarrow> r))"
  by (auto simp: merge_into_policy_def map_of_hm_insert fun_eq_iff split: option.splits)

lemma map_of_remove_from_policy:
  "map_of (sp_network_policies (remove_from_policy n b p)) = (map_of (sp_network_policies p))(n :=
     (case map_of (sp_network_policies p) n of
        None \<Rightarrow> None
      | Some existing \<Rightarrow>
          let kept = filter (\<lambda>x. nb_path x \<noteq> b) (npr_binaries existing) in
          if kept = [] then None else Some (existing\<lparr>npr_binaries := kept\<rparr>)))"
  by (auto simp: remove_from_policy_def Let_def map_of_hm_insert map_of_hm_remove fun_eq_iff split: option.splits)

section \<open>Invariants of the draft handlers\<close>

text \<open>
  What an invariant of the store has to satisfy to be kept by every draft handler: it does not
  speak of the chunks, a change of statuses keeps it, and so does a revision obtained from the
  latest one of some earlier state by merging a rule or removing a binary.
\<close>

definition derived_policy :: "env \<Rightarrow> (store \<Rightarrow> bool) \<Rightarrow> string \<Rightarrow> sandbox_policy \<Rightarrow> bool" where
  "derived_policy E I i p \<longleftrightarrow>
     (\<exists>s q. I s \<and> (case get_latest_policy i s of None \<Rightarrow> q = default_policy | Some r \<Rightarrow> decode_stored E r = Inr q) \<and>
        ((\<exists>n rule. p = merge_into_policy n rule q) \<or>
         get_latest_policy i s \<noteq> None \<and> (\<exists>n b. p = remove_from_policy n b q)))"

lemma derived_merge:
  assumes "I s" "(case get_latest_policy i s of Some r \<Rightarrow> decode_stored E r | None \<Rightarrow> Inr default_policy) = Inr q"
  shows "derived_policy E I i (merge_into_policy n rule q)"
  unfolding derived_policy_def
  by (rule exI [of _ s], rule exI [of _ q]) (use assms in \<open>auto split: option.splits\<close>)

lemma derived_remove:
  assumes "I s" "get_latest_policy i s = Some r" "decode_stored E r = Inr q"
  shows "derived_policy E I i (remove_from_policy n b q)"
  unfolding derived_policy_def
  by (rule exI [of _ s], rule exI [of _ q]) (use assms in auto)

text \<open>The other writers keep the invariant as well.\<close>

definition undisturbed :: "(store \<Rightarrow> bool) \<Rightarrow> surroundings \<Rightarrow> bool" where
  "undisturbed I U \<longleftrightarrow> (\<forall>k s. I s \<longrightarrow> I (su_others U k s))"

locale gateway_invariant =
  fixes E :: env and I :: "store \<Rightarrow> bool"
  assumes chunks: "I s \<Longrightarrow> st_objects t = st_objects s \<Longrightarrow> st_policies t = st_policies s \<Longrightarrow> I t"
    and statuses: "I s \<Longrightarrow> st_objects t = st_objects s \<Longrightarrow> st_policies t = map h (st_policies s) \<Longrightarrow>
      (\<And>r. fixed_columns (h r) = fixed_columns r) \<Longrightarrow> I t"
    and revisions: "I s \<Longrightarrow> derived_policy E I i p \<Longrightarrow>
      put_policy_revision now u i v (ev_encode_policy E p) hash s = Inr t \<Longrightarrow> I t"
begin

lemma supersede: "I s \<Longrightarrow> I (snd (supersede_older_policies i v s))"
proof -
  have "st_policies (snd (supersede_older_policies i v s)) =
      map (\<lambda>r. if pr_sandbox r = i \<and> pr_version r < v \<and> (pr_status r = ''pending'' \<or> pr_status r = ''loaded'')
        then r\<lparr>pr_status := ''superseded''\<rparr> else r) (st_policies s)"
    by (simp add: supersede_older_policies_def update_where_def)
  then show "I s \<Longrightarrow> ?thesis"
    by (rule statuses [rotated 2]) (simp_all add: supersede_older_policies_def update_where_def fixed_columns_def)
qed

lemma keeps_write_next:
  assumes "undisturbed I U" "derived_policy E I i p"
  shows "triple I P (write_next E U i k base p) (\<lambda>_ _. True)"
  unfolding write_next_def Let_def interfere_def
proof (intro keeps_then_do triple_update triple_attempt triple_case_sum keeps_leaf triple_if triple_fail)
  show "I s \<Longrightarrow> I (snd ((), su_others U k s)) \<and> True" for s
    using assms(1) by (simp add: undisturbed_def)
qed (use assms(2) revisions supersede in auto)

lemma keeps_merge_attempts:
  assumes "undisturbed I U"
  shows "triple I P (merge_attempts E U i n rule ks) (\<lambda>_ _. True)"
proof (induction ks arbitrary: P)
  case Nil
  then show ?case by (simp add: triple_fail)
next
  case (Cons k ks)
  have read: "triple I P (query (get_latest_policy i)) (\<lambda>latest s. (\<exists>s0. I s0 \<and> latest = get_latest_policy i s0) \<and> True)"
    by (rule triple_query) auto
  have derive: "triple I (\<lambda>_. True)
      (lift (case latest of Some r \<Rightarrow> decode_stored E r | None \<Rightarrow> Inr default_policy))
      (\<lambda>q s. derived_policy E I i (merge_into_policy n rule q) \<and> True)"
    if "\<exists>s0. I s0 \<and> latest = get_latest_policy i s0" for latest
    using that by (intro triple_lift) (auto intro: derived_merge)
  show ?case
    unfolding merge_attempts.simps
    by (rule triple_then_do, rule read, rule triple_assume, rule triple_then_do, erule derive, rule triple_assume)
      (intro keeps_then_do keeps_write_next triple_case_option keeps_leaf Cons.IH assms)
qed

lemma keeps_remove_attempts:
  assumes "undisturbed I U"
  shows "triple I P (remove_attempts E U i n b ks) (\<lambda>_ _. True)"
proof (induction ks arbitrary: P)
  case Nil
  then show ?case by (simp add: triple_fail)
next
  case (Cons k ks)
  have read: "triple I P (query (get_latest_policy i)) (\<lambda>found s. (\<exists>s0. I s0 \<and> found = get_latest_policy i s0) \<and> True)"
    by (rule triple_query) auto
  have some: "triple I (\<lambda>_. True) (lift (ok_or found e)) (\<lambda>r s. (\<exists>s0. I s0 \<and> get_latest_policy i s0 = Some r) \<and> True)"
    if "\<exists>s0. I s0 \<and> found = get_latest_policy i s0" for found e
    using that by (intro triple_lift) (auto simp: ok_or_eq_Inr)
  have derive: "triple I (\<lambda>_. True) (lift (decode_stored E r)) (\<lambda>q s. derived_policy E I i (remove_from_policy n b q) \<and> True)"
    if "\<exists>s0. I s0 \<and> get_latest_policy i s0 = Some r" for r
    using that by (intro triple_lift) (auto intro: derived_remove)
  show ?case
    unfolding remove_attempts.simps
    by (rule triple_then_do, rule read, rule triple_assume, rule triple_then_do, erule some, rule triple_assume,
        rule triple_then_do, erule derive, rule triple_assume)
      (intro keeps_then_do keeps_write_next triple_case_option keeps_leaf Cons.IH assms)
qed

lemma keeps_merge_chunk: "undisturbed I U \<Longrightarrow> triple I P (merge_chunk_into_policy E U i c) (\<lambda>_ _. True)"
  unfolding merge_chunk_into_policy_def
  by (intro triple_case_sum triple_fail keeps_merge_attempts)

lemma keeps_remove_chunk: "undisturbed I U \<Longrightarrow> triple I P (remove_chunk_from_policy E U i c) (\<lambda>_ _. True)"
  unfolding remove_chunk_from_policy_def by (rule keeps_remove_attempts)

lemma keeps_put_chunk: "triple I P (commit what (put_draft_chunk c)) (\<lambda>_ _. True)"
proof (rule triple_commit, rule conjI)
  fix s t assume "I s" "put_draft_chunk c s = Inr t"
  then show "I t" using chunk_frames(1) chunks by blast
qed simp

lemma keeps_set_status: "triple I P (set_status c status at) (\<lambda>_ _. True)"
  unfolding set_status_def
proof (rule triple_commit, rule conjI)
  fix s t assume s: "I s" and "map_sum id snd (update_draft_chunk_status c status at s) = Inr t"
  then obtain b where "update_draft_chunk_status c status at s = Inr (b, t)"
    unfolding map_sum_Inr by (metis prod.collapse)
  with s show "I t" using chunk_frames(2) chunks by blast
qed simp

lemma keeps_chunk_rule: "triple I P (update (update_draft_chunk_rule c rule)) (\<lambda>_ _. True)"
proof (rule triple_update, rule conjI)
  fix s assume "I s"
  then show "I (snd (update_draft_chunk_rule c rule s))"
    by (rule chunks) (simp_all add: update_draft_chunk_rule_def update_where_def)
qed simp

lemma keeps_delete_chunks: "triple I P (update (delete_draft_chunks i status)) (\<lambda>_ _. True)"
proof (rule triple_update, rule conjI)
  fix s assume "I s"
  then show "I (snd (delete_draft_chunks i status s))"
    by (rule chunks) (simp_all add: delete_draft_chunks_def delete_where_def)
qed simp

lemma keeps_chunk_by_id: "triple I P (chunk_by_id c) (\<lambda>_ _. True)"
  unfolding chunk_by_id_def by (intro triple_rules)

lemma keeps_no_global: "triple I P (require_no_global_policy E) (\<lambda>_ _. True)"
  unfolding require_no_global_policy_def by (intro triple_rules)

lemma keeps_submit_chunks: "triple I P (submit_chunks E U i v k cs resp) (\<lambda>_ _. True)"
proof (induction cs arbitrary: k resp P)
  case Nil
  then show ?case by (simp add: triple_rules)
next
  case (Cons c cs)
  show ?case
    unfolding submit_chunks.simps by (intro triple_rules keeps_put_chunk Cons.IH)
qed

lemma keeps_submit: "triple I P (submit_policy_analysis E U name cs) (\<lambda>_ _. True)"
  unfolding submit_policy_analysis_def by (intro triple_rules keeps_submit_chunks)

lemma keeps_approve: "undisturbed I U \<Longrightarrow> triple I P (approve_draft_chunk E U name c) (\<lambda>_ _. True)"
  unfolding approve_draft_chunk_def named_def case_prod_unfold
  by (intro triple_rules keeps_no_global keeps_chunk_by_id keeps_merge_chunk keeps_set_status)

lemma keeps_reject: "undisturbed I U \<Longrightarrow> triple I P (reject_draft_chunk E U name c) (\<lambda>_ _. True)"
  unfolding reject_draft_chunk_def named_def
  by (intro triple_rules keeps_no_global keeps_chunk_by_id keeps_remove_chunk keeps_set_status)

lemma keeps_undo: "undisturbed I U \<Longrightarrow> triple I P (undo_draft_chunk E U name c) (\<lambda>_ _. True)"
  unfolding undo_draft_chunk_def named_def case_prod_unfold
  by (intro triple_rules keeps_chunk_by_id keeps_remove_chunk keeps_set_status)

lemma keeps_edit: "triple I P (edit_draft_chunk E name c rule) (\<lambda>_ _. True)"
  unfolding edit_draft_chunk_def named_def
  by (intro triple_rules keeps_chunk_by_id keeps_chunk_rule)

lemma keeps_clear: "triple I P (clear_draft_chunks E name) (\<lambda>_ _. True)"
  unfolding clear_draft_chunks_def by (intro triple_rules keeps_delete_chunks)

lemma keeps_approve_chunks:
  "(\<And>k. undisturbed I (U k)) \<Longrightarrow> triple I P (approve_chunks E U i flagged k cs acc) (\<lambda>_ _. True)"
proof (induction cs arbitrary: k acc P)
  case Nil
  then show ?case by (simp add: triple_rules)
next
  case (Cons c cs)
  obtain a1 a2 a3 a4 where acc: "acc = (a1, a2, a3, a4)" by (cases acc)
  show ?case
    unfolding acc approve_chunks.simps case_prod_unfold
    by (intro triple_rules keeps_merge_chunk keeps_set_status Cons)
qed

lemma keeps_approve_all:
  "(\<And>k. undisturbed I (U k)) \<Longrightarrow> triple I P (approve_all_draft_chunks E U name flagged) (\<lambda>_ _. True)"
  unfolding approve_all_draft_chunks_def case_prod_unfold
  by (intro triple_rules keeps_no_global keeps_approve_chunks)

end

section \<open>Confinement\<close>

text \<open>
  The static part of a sandbox with the id \<open>i\<close> and the baseline \<open>b\<close>: its object keeps the baseline
  in its spec, it has revisions, and each of them extends the baseline and is safe.
\<close>

definition has_baseline :: "sandbox_policy \<Rightarrow> sandbox \<Rightarrow> bool" where
  "has_baseline b sb \<longleftrightarrow>
     (\<forall>spec. sb_spec sb = Some spec \<longrightarrow> (\<exists>p. sc_policy spec = Some p \<and> norm_policy p = norm_policy b))"

definition static_ok :: "sandbox_policy \<Rightarrow> sandbox_policy \<Rightarrow> bool" where
  "static_ok b p \<longleftrightarrow> static_extends b p \<and> policy_safe p"

definition confined :: "env \<Rightarrow> string \<Rightarrow> sandbox_policy \<Rightarrow> store \<Rightarrow> bool" where
  "confined E i b s \<longleftrightarrow>
     (\<forall>r \<in> set (st_objects s). ob_type r = ''sandbox'' \<longrightarrow>
        (\<exists>sb. ev_decode_sandbox E (ob_payload r) = Inr sb \<and> sb_id sb = ob_id r \<and> (ob_id r = i \<longrightarrow> has_baseline b sb))) \<and>
     revisions_of i s \<noteq> [] \<and>
     (\<forall>r \<in> set (revisions_of i s). \<exists>p. ev_decode_policy E (pr_payload r) = Inr p \<and> static_ok b p)"

lemma static_ok_cong:
  assumes "sp_filesystem q = sp_filesystem p" "sp_landlock q = sp_landlock p" "sp_process q = sp_process p"
  shows "static_ok b q \<longleftrightarrow> static_ok b p" "static_ok q p' \<longleftrightarrow> static_ok p p'"
  using assms by (simp_all add: static_ok_def static_extends_def policy_safe_def)

lemma static_ok_norm:
  assumes "norm_policy q = norm_policy p"
  shows "static_ok b q \<longleftrightarrow> static_ok b p" "static_ok q p' \<longleftrightarrow> static_ok p p'"
  by (rule static_ok_cong; simp add: norm_policyD [OF assms])+

lemma has_baseline_norm:
  assumes "norm_sandbox sb' = norm_sandbox sb" "has_baseline b sb"
  shows "has_baseline b sb'" and "sb_id sb' = sb_id sb"
proof -
  have fields: "sb_id (norm_sandbox x) = sb_id x"
    "map_option sc_policy (sb_spec (norm_sandbox x)) = map_option (\<lambda>sp. map_option norm_policy (sc_policy sp)) (sb_spec x)" for x
    by (cases "sb_spec x"; simp add: norm_sandbox_def)+
  show "sb_id sb' = sb_id sb" using assms(1) fields(1) by metis
  have "map_option (\<lambda>sp. map_option norm_policy (sc_policy sp)) (sb_spec sb') =
      map_option (\<lambda>sp. map_option norm_policy (sc_policy sp)) (sb_spec sb)"
    using assms(1) fields(2) by metis
  with assms(2) show "has_baseline b sb'"
    by (cases "sb_spec sb"; cases "sb_spec sb'") (auto simp: has_baseline_def)
qed

lemma norm_sandbox_id: "norm_sandbox sb' = norm_sandbox sb \<Longrightarrow> sb_id sb' = sb_id sb"
proof -
  have "sb_id (norm_sandbox x) = sb_id x" for x by (simp add: norm_sandbox_def)
  then show "norm_sandbox sb' = norm_sandbox sb \<Longrightarrow> ?thesis" by metis
qed

lemma confined_frame:
  assumes "confined E i b s" "st_objects t = st_objects s" "revisions_of i t = map h (revisions_of i s)"
    "\<And>r. fixed_columns (h r) = fixed_columns r"
  shows "confined E i b t"
proof -
  have "pr_payload (h r) = pr_payload r" for r using assms(4) [of r] by (simp add: fixed_columns_def)
  with assms(1-3) show ?thesis by (simp add: confined_def)
qed

lemma confined_put_object:
  assumes "confined E i b s" "put_object now ty j name payload s = Inr t"
    "ty = ''sandbox'' \<Longrightarrow> \<exists>sb. ev_decode_sandbox E payload = Inr sb \<and> sb_id sb = j \<and> (j = i \<longrightarrow> has_baseline b sb)"
  shows "confined E i b t"
proof -
  have "revisions_of i t = revisions_of i s" using put_object_rows(2) [OF assms(2)] by (simp add: revisions_of_def)
  moreover have "\<exists>sb. ev_decode_sandbox E (ob_payload r) = Inr sb \<and> sb_id sb = ob_id r \<and> (ob_id r = i \<longrightarrow> has_baseline b sb)"
    if "r \<in> set (st_objects t)" "ob_type r = ''sandbox''" for r
  proof -
    from put_object_rows(1) [OF assms(2)] that(1)
    consider "r \<in> set (st_objects s)" | "ob_type r = ty" "ob_id r = j" "ob_payload r = payload" by blast
    then show ?thesis
    proof cases
      case 1
      with assms(1) that(2) show ?thesis unfolding confined_def by blast
    next
      case 2
      with assms(3) that(2) show ?thesis by simp
    qed
  qed
  ultimately show ?thesis using assms(1) unfolding confined_def by (simp only: simp_thms ball_simps) blast
qed

lemma confined_put_sandbox:
  assumes "env_ok E" "confined E i b s" "put_sandbox E now sb s = Inr t" "sb_id sb = i \<Longrightarrow> has_baseline b sb"
  shows "confined E i b t"
proof (rule confined_put_object [OF assms(2) assms(3) [unfolded put_sandbox_def]])
  obtain sb' where sb': "ev_decode_sandbox E (ev_encode_sandbox E sb) = Inr sb'" "norm_sandbox sb' = norm_sandbox sb"
    using env_okD(4) [OF assms(1)] by blast
  with has_baseline_norm(1) [OF sb'(2)] norm_sandbox_id [OF sb'(2)] assms(4)
  show "\<exists>sb'. ev_decode_sandbox E (ev_encode_sandbox E sb) = Inr sb' \<and> sb_id sb' = sb_id sb \<and> (sb_id sb = i \<longrightarrow> has_baseline b sb')"
    by auto
qed

lemma confined_put_revision:
  assumes "env_ok E" "confined E i b s" "put_policy_revision now u j v (ev_encode_policy E p) hash s = Inr t"
    "j = i \<Longrightarrow> static_ok b p \<and> hm_ok (sp_network_policies p)"
  shows "confined E i b t"
proof -
  from assms(3) obtain r where r: "st_policies t = st_policies s @ [r]" "pr_sandbox r = j"
    "pr_payload r = ev_encode_policy E p" "st_objects t = st_objects s"
    by (rule put_policy_revision_rows)
  show ?thesis
  proof (cases "j = i")
    case True
    obtain q where q: "ev_decode_policy E (ev_encode_policy E p) = Inr q" "norm_policy q = norm_policy p"
      using env_okD(1) [OF assms(1)] assms(4) True by blast
    then have "static_ok b q" using assms(4) True static_ok_norm by blast
    with q(1) r assms(2) True show ?thesis by (simp add: confined_def revisions_add)
  next
    case False
    with r assms(2) show ?thesis by (simp add: confined_def revisions_add)
  qed
qed

lemma derived_static:
  assumes "env_ok E" "derived_policy E (\<lambda>s. env_ok E \<longrightarrow> confined E i b s) i p"
  shows "static_ok b p \<and> hm_ok (sp_network_policies p)"
proof -
  obtain s q where s: "confined E i b s"
    and q: "case get_latest_policy i s of None \<Rightarrow> q = default_policy | Some r \<Rightarrow> decode_stored E r = Inr q"
    and p: "(\<exists>n rule. p = merge_into_policy n rule q) \<or> (\<exists>n x. p = remove_from_policy n x q)"
    using assms unfolding derived_policy_def by blast
  from s have "revisions_of i s \<noteq> []" by (simp add: confined_def)
  then obtain r where r: "get_latest_policy i s = Some r" using get_latest_policy_None by fastforce
  then have "r \<in> set (revisions_of i s)" by (rule get_latest_policy_Some)
  with s obtain p' where "ev_decode_policy E (pr_payload r) = Inr p'" "static_ok b p'"
    unfolding confined_def by blast
  moreover have "ev_decode_policy E (pr_payload r) = Inr q"
    using q r by (auto simp: decode_stored_def split: sum.splits)
  ultimately have "static_ok b q" "hm_ok (sp_network_policies q)"
    using env_okD(2) [OF assms(1)] by auto
  then show ?thesis
    using p by (auto simp: merge_into_policy_ok remove_from_policy_ok
        static_ok_cong(1) [of "merge_into_policy _ _ q" q] static_ok_cong(1) [of "remove_from_policy _ _ q" q]
        merge_into_policy_static remove_from_policy_static)
qed

interpretation typed: gateway_invariant E "store_typed E" for E
proof
  show "store_typed E t" if "store_typed E s" "st_objects t = st_objects s" for s t
    using that store_typed_objects by blast
  then show "store_typed E t" if "store_typed E s" "st_objects t = st_objects s" for s t
    using that by blast
  show "store_typed E t"
    if "store_typed E s" "put_policy_revision now u i v (ev_encode_policy E p) hash s = Inr t" for s t now u i v p hash
    using that st_objects_policies(1) store_typed_objects by blast
qed

interpretation confinement: gateway_invariant E "\<lambda>s. env_ok E \<longrightarrow> confined E i b s" for E i b
proof
  fix s t :: store
  assume s: "env_ok E \<longrightarrow> confined E i b s"
  show "env_ok E \<longrightarrow> confined E i b t" if "st_objects t = st_objects s" "st_policies t = st_policies s"
  proof
    assume "env_ok E"
    with s have "confined E i b s" by blast
    then show "confined E i b t" by (rule confined_frame [of _ _ _ _ _ id]) (use that in \<open>simp_all add: revisions_of_def\<close>)
  qed
  show "env_ok E \<longrightarrow> confined E i b t"
    if "st_objects t = st_objects s" "st_policies t = map h (st_policies s)" "\<And>r. fixed_columns (h r) = fixed_columns r" for h
  proof
    assume "env_ok E"
    with s have "confined E i b s" by blast
    then show "confined E i b t" by (rule confined_frame [of _ _ _ _ _ h]) (use that revisions_change [OF that(2,3)] in simp_all)
  qed
  show "env_ok E \<longrightarrow> confined E i b t"
    if "derived_policy E (\<lambda>s. env_ok E \<longrightarrow> confined E i b s) j p"
      "put_policy_revision now u j v (ev_encode_policy E p) hash s = Inr t" for j p now u v hash
  proof
    assume E: "env_ok E"
    with s have "confined E i b s" by blast
    then show "confined E i b t"
      by (rule confined_put_revision [OF E _ that(2)]) (use that(1) derived_static [OF E] in simp)
  qed
qed

text \<open>The reads that a handler bases a write of a sandbox object on.\<close>

lemma sandbox_by_name_baseline:
  "triple (confined E i b) P (sandbox_by_name E name) (\<lambda>sb _. (sb_id sb = i \<longrightarrow> has_baseline b sb) \<and> True)"
  unfolding sandbox_by_name_def triple_def
proof (intro allI impI conjI TrueI)
  fix g :: gateway
  let ?m = "then_do (query (get_message_by_name ''sandbox'' (ev_decode_sandbox E) name))
      (fetched ''fetch sandbox'' (NotFound ''sandbox not found''))"
  assume c: "confined E i b (gw_store g)"
  show "confined E i b (gw_store (snd (?m g)))"
    using c by (auto simp: then_do_query fetched_def fail_def ret_def split: sum.splits option.splits)
  fix sb assume sb: "fst (?m g) = Inr sb" and i: "sb_id sb = i"
  then obtain r where r: "get_object_by_name ''sandbox'' name (gw_store g) = Some r" "ev_decode_sandbox E (ob_payload r) = Inr sb"
    by (auto simp: then_do_query fetched_def fail_def ret_def get_message_by_name_def decode_message_def
        split: sum.splits option.splits)
  from find_mem [OF r(1) [unfolded get_object_by_name_def]] have "r \<in> set (st_objects (gw_store g))" "ob_type r = ''sandbox''"
    by simp_all
  with c r(2) i show "has_baseline b sb" unfolding confined_def by fastforce
qed

lemma get_message_baseline:
  assumes "confined E i b s" "get_message ''sandbox'' (ev_decode_sandbox E) j s = Inr (Some sb)"
  shows "sb_id sb = j" "j = i \<Longrightarrow> has_baseline b sb"
proof -
  obtain r where r: "get_object ''sandbox'' j s = Some r" "ev_decode_sandbox E (ob_payload r) = Inr sb"
    using assms(2) by (auto simp: get_message_def decode_message_def split: sum.splits option.splits)
  from find_mem [OF r(1) [unfolded get_object_def]]
  have "r \<in> set (st_objects s)" "ob_type r = ''sandbox''" "ob_id r = j" by simp_all
  with assms(1) r(2) show "sb_id sb = j" "j = i \<Longrightarrow> has_baseline b sb" unfolding confined_def by fastforce+
qed

section \<open>The configuration handlers and the confinement\<close>

lemma settings_not_sandbox:
  "GLOBAL_SETTINGS_OBJECT_TYPE \<noteq> ''sandbox''" "SANDBOX_SETTINGS_OBJECT_TYPE \<noteq> ''sandbox''"
  by (simp_all add: settings_types)

lemma confined_status_update:
  assumes "env_ok E"
  shows "triple (confined E i b) P (update (update_policy_status j v status err at)) (\<lambda>_ _. True)"
    and "triple (confined E i b) P (update (supersede_older_policies j v)) (\<lambda>_ _. True)"
proof -
  show "triple (confined E i b) P (update (supersede_older_policies j v)) (\<lambda>_ _. True)"
    using confinement.supersede [of E i b] assms by (intro triple_update) blast
  show "triple (confined E i b) P (update (update_policy_status j v status err at)) (\<lambda>_ _. True)"
  proof (rule triple_update, rule conjI)
    fix s assume s: "confined E i b s"
    have "st_policies (snd (update_policy_status j v status err at s)) =
        map (\<lambda>r. if pr_sandbox r = j \<and> pr_version r = v
          then r\<lparr>pr_status := status, pr_load_error := err, pr_loaded := at\<rparr> else r) (st_policies s)"
      by (simp add: update_policy_status_def update_where_def)
    from confinement.statuses [of E i b s, OF _ _ this] s assms
    show "confined E i b (snd (update_policy_status j v status err at s))"
      by (simp add: st_objects_policies fixed_columns_def)
  qed simp
qed

lemma confined_settings_save:
  "triple (confined E i b) P (save_global_settings E now st) (\<lambda>_ _. True)"
  "triple (confined E i b) P (save_sandbox_settings E now j name st) (\<lambda>_ _. True)"
  unfolding save_global_settings_def save_sandbox_settings_def save_settings_record_def
  by (rule triple_commit; use confined_put_object settings_not_sandbox in blast)+

lemma confined_revision_other:
  assumes "env_ok E" "j \<noteq> i"
  shows "triple (confined E i b) P (commit what (put_policy_revision now u j v (ev_encode_policy E p) hash)) (\<lambda>_ _. True)"
    "triple (confined E i b) P (attempt (put_policy_revision now u j v (ev_encode_policy E p) hash)) (\<lambda>_ _. True)"
  by (rule triple_commit triple_attempt; use confined_put_revision [OF assms(1)] assms(2) in blast)+

lemma confined_global_policy:
  assumes "env_ok E" "i \<noteq> GLOBAL_POLICY_SANDBOX_ID"
  shows "triple (confined E i b) P (update_global_policy E u now p) (\<lambda>_ _. True)"
  unfolding update_global_policy_def persist_global_policy_def deliver_global_policy_def save_global_if_def Let_def
  by (intro triple_rules confined_status_update confined_settings_save confined_revision_other
      assms(1) assms(2) [symmetric])

lemma confined_global_setting:
  assumes "env_ok E"
  shows "triple (confined E i b) P (update_global_setting E now key req) (\<lambda>_ _. True)"
  unfolding update_global_setting_def supersede_global_policies_def save_global_if_def Let_def
  by (intro triple_rules confined_status_update confined_settings_save assms)

lemma confined_sandbox_setting: "triple (confined E i b) P (update_sandbox_setting E now key sb req) (\<lambda>_ _. True)"
  unfolding update_sandbox_setting_def save_sandbox_if_def Let_def
  by (intro triple_rules confined_settings_save)

lemma ensure_identity_static:
  "sp_filesystem (ensure_sandbox_process_identity p) = sp_filesystem p"
  "sp_landlock (ensure_sandbox_process_identity p) = sp_landlock p"
  by (simp_all add: ensure_sandbox_process_identity_def Let_def split: option.splits)

text \<open>The checks of a sandbox policy update against the baseline in the sandbox's spec.\<close>

lemma confined_check_baseline:
  assumes "env_ok E" "sb_id sb = i \<longrightarrow> has_baseline b sb" "sb_spec sb = Some spec"
  shows "triple (confined E i b) P (check_against_baseline E now sb spec p)
     (\<lambda>_ _. (sb_id sb = i \<longrightarrow> static_ok b p) \<and> True)"
proof (cases "sc_policy spec")
  case None
  then have other: "sb_id sb \<noteq> i" using assms by (auto simp: has_baseline_def)
  show ?thesis
    unfolding check_against_baseline_def None option.case
  proof (rule triple_commit, intro conjI)
    fix s t assume "confined E i b s" "put_sandbox E now (sb\<lparr>sb_spec := Some (spec\<lparr>sc_policy := Some p\<rparr>)\<rparr>) s = Inr t"
    then show "confined E i b t" by (rule confined_put_sandbox [OF assms(1)]) (simp add: other)
  qed (simp_all add: other)
next
  case (Some q)
  have q: "norm_policy q = norm_policy b" if "sb_id sb = i"
    using that assms Some by (auto simp: has_baseline_def)
  have "triple (confined E i b) P
      (then_do (lift (validate_static_fields_unchanged q p)) (\<lambda>_. lift (validate_policy_safety p)))
      (\<lambda>_ _. static_ok q p)"
    by (rule triple_then_do [where mid = "\<lambda>_ _. static_extends q p"])
      (auto intro!: triple_lift simp: validate_static_fields_unchanged_Inr validate_policy_safety_Inr static_ok_def)
  then show ?thesis
    unfolding check_against_baseline_def Some option.case
    by (rule triple_conseq) (use q static_ok_norm(2) in blast)+
qed

lemma confined_sandbox_policy:
  assumes "env_ok E" "sb_id sb = i \<longrightarrow> has_baseline b sb" "hm_ok (sp_network_policies p)"
  shows "triple (confined E i b) P (update_sandbox_policy E u now sb p) (\<lambda>_ _. True)"
proof -
  let ?p = "ensure_sandbox_process_identity p"
  have put: "triple (confined E i b) P' (commit what (put_policy_revision now u (sb_id sb) v (ev_encode_policy E ?p) hash)) (\<lambda>_ _. True)"
    if "sb_id sb = i \<longrightarrow> static_ok b ?p" for P' what v hash
    by (rule triple_commit)
      (use confined_put_revision [OF assms(1)] that assms(3) in \<open>simp add: ensure_identity_policies\<close>)
  have spec: "triple (confined E i b) (\<lambda>_. True) (lift (ok_or (sb_spec sb) e)) (\<lambda>spec _. sb_spec sb = Some spec \<and> True)" for e
    by (rule triple_lift) (simp add: ok_or_eq_Inr)
  show ?thesis
    unfolding update_sandbox_policy_def Let_def persist_sandbox_policy_def
    by (rule keeps_then_do, rule keeps_loading, rule triple_check, rule triple_then_do, rule spec, rule triple_assume,
        rule triple_then_do, erule confined_check_baseline [OF assms(1,2)], rule triple_assume)
      (intro triple_rules confined_status_update put assms(1))
qed

lemma confined_update_config:
  assumes "env_ok E" "i \<noteq> GLOBAL_POLICY_SANDBOX_ID" "request_ok req"
  shows "triple (confined E i b) P (update_config E u now req) (\<lambda>_ _. True)"
proof -
  have named: "triple (confined E i b) P' (then_do (sandbox_by_name E name) (\<lambda>sb.
      case uc_policy req of
        None \<Rightarrow> update_sandbox_setting E now key sb req
      | Some policy \<Rightarrow> update_sandbox_policy E u now sb policy)) (\<lambda>_ _. True)" for P' name key
    by (rule triple_then_do, rule sandbox_by_name_baseline, rule triple_assume)
      (intro triple_case_option confined_sandbox_setting confined_sandbox_policy assms(1);
        use assms(3) in \<open>simp add: request_ok_def\<close>)
  show ?thesis
    unfolding update_config_def Let_def
    by (intro triple_check triple_if triple_case_option confined_global_policy confined_global_setting named assms)
qed

lemma confined_get_sandbox_config:
  assumes "env_ok E"
  shows "triple (confined E i b) P (get_sandbox_config E u now j) (\<lambda>_ _. True)"
proof -
  have own: "triple (confined E i b) P' (sandbox_policy_of E u now j sb) (\<lambda>_ _. True)" for P' sb
    unfolding sandbox_policy_of_def backfill_policy_def
  proof (rule triple_then_do)
    show "triple (confined E i b) P' (query (get_latest_policy j)) (\<lambda>latest _. (latest = None \<longrightarrow> j \<noteq> i) \<and> True)"
      by (rule triple_query) (auto simp: confined_def get_latest_policy_None)
  qed (rule triple_assume, intro triple_rules confined_status_update confined_revision_other assms, simp)
  show ?thesis
    unfolding get_sandbox_config_def Let_def case_prod_unfold by (intro triple_rules own)
qed

lemma confined_report_policy_status:
  assumes "env_ok E"
  shows "triple (confined E i b) P (report_policy_status E now j v status err) (\<lambda>_ _. True)"
proof -
  have store: "triple (confined E i b) P' (then_do (query (get_message ''sandbox'' (ev_decode_sandbox E) j)) (\<lambda>found.
      then_do (case found of Inr (Some sb) \<Rightarrow>
            then_do (attempt (put_sandbox E now (sb\<lparr>sb_current_policy_version := v\<rparr>))) (\<lambda>_. ret ())
          | _ \<Rightarrow> ret ()) (\<lambda>_. notify j))) (\<lambda>_ _. True)" for P'
  proof (rule triple_then_do)
    show "triple (confined E i b) P' (query (get_message ''sandbox'' (ev_decode_sandbox E) j))
        (\<lambda>found _. (\<forall>sb. found = Inr (Some sb) \<longrightarrow> sb_id sb = i \<longrightarrow> has_baseline b sb) \<and> True)"
      using get_message_baseline by (intro triple_query) blast
    fix found
    show "triple (confined E i b) (\<lambda>_. (\<forall>sb. found = Inr (Some sb) \<longrightarrow> sb_id sb = i \<longrightarrow> has_baseline b sb) \<and> True)
       (then_do (case found of Inr (Some sb) \<Rightarrow>
            then_do (attempt (put_sandbox E now (sb\<lparr>sb_current_policy_version := v\<rparr>))) (\<lambda>_. ret ())
          | _ \<Rightarrow> ret ()) (\<lambda>_. notify j)) (\<lambda>_ _. True)"
    proof (rule triple_assume)
      assume found: "\<forall>sb. found = Inr (Some sb) \<longrightarrow> sb_id sb = i \<longrightarrow> has_baseline b sb"
      have "triple (confined E i b) P' (attempt (put_sandbox E now (sb\<lparr>sb_current_policy_version := v\<rparr>))) (\<lambda>_ _. True)"
        if "found = Inr (Some sb)" for sb P'
        by (intro triple_attempt conjI TrueI, rule confined_put_sandbox [OF assms], assumption+)
          (use that found in \<open>simp add: has_baseline_def\<close>)
      then show "triple (confined E i b) (\<lambda>_. True)
         (then_do (case found of Inr (Some sb) \<Rightarrow>
              then_do (attempt (put_sandbox E now (sb\<lparr>sb_current_policy_version := v\<rparr>))) (\<lambda>_. ret ())
            | _ \<Rightarrow> ret ()) (\<lambda>_. notify j)) (\<lambda>_ _. True)"
        by (intro triple_rules) blast
    qed
  qed
  show ?thesis
    unfolding report_policy_status_def Let_def by (intro triple_rules confined_status_update store assms)
qed

end
