(* ===== verification/SandboxProps.thy ===== *)
theory SandboxProps
  imports DraftProps Sandboxes
begin

text \<open>
  The handlers of \<open>Sandboxes\<close> keep the two invariants of the gateway: the settings stay typed and a
  sandbox stays confined. What the handlers need of an invariant is the locale
  \<open>object_invariant\<close>, an extension of the contract of the draft handlers; \<open>ok\<close> is what a stored
  sandbox satisfies.
\<close>

locale object_invariant = gateway_invariant E I for E and I +
  fixes ok :: "sandbox \<Rightarrow> bool"
  assumes plain_put: "I s \<Longrightarrow> ty = ''provider'' \<or> ty = ''ssh_session'' \<Longrightarrow> put_object now ty j name payload s = Inr t \<Longrightarrow> I t"
    and sandbox_put: "I s \<Longrightarrow> ok sb \<Longrightarrow> put_sandbox E now sb s = Inr t \<Longrightarrow> I t"
    and object_delete: "I s \<Longrightarrow> ty = ''sandbox'' \<or> ty = ''ssh_session'' \<or> ty = SANDBOX_SETTINGS_OBJECT_TYPE \<Longrightarrow>
      I (snd (delete_object ty j s))"
    and provider_delete: "I s \<Longrightarrow> I (snd (delete_object_by_name ''provider'' name s))"
    and read_ok: "I s \<Longrightarrow> get_message ''sandbox'' (ev_decode_sandbox E) j s = Inr (Some sb) \<Longrightarrow> ok sb"
    and read_name_ok: "I s \<Longrightarrow> get_message_by_name ''sandbox'' (ev_decode_sandbox E) name s = Inr (Some sb) \<Longrightarrow> ok sb"
    and ok_same: "ok sb \<Longrightarrow> sb_id sb' = sb_id sb \<Longrightarrow> sb_spec sb' = sb_spec sb \<Longrightarrow> ok sb'"
    and ok_placeholder: "sb_spec sb = None \<Longrightarrow> ok sb"
begin

lemma keeps_put_plain:
  "triple I P (commit what (put_provider E now p)) (\<lambda>_ _. True)"
  "triple I P (commit what (put_session E now sh)) (\<lambda>_ _. True)"
  unfolding put_provider_def put_session_def by (rule triple_commit; use plain_put in blast)+

lemma keeps_store_sandbox: "ok sb \<Longrightarrow> triple I P (commit what (put_sandbox E now sb)) (\<lambda>_ _. True)"
  by (rule triple_commit) (use sandbox_put in blast)

lemma keeps_delete_object:
  "ty = ''sandbox'' \<or> ty = ''ssh_session'' \<or> ty = SANDBOX_SETTINGS_OBJECT_TYPE \<Longrightarrow>
   triple I P (update (delete_object ty j)) (\<lambda>_ _. True)"
  by (rule triple_update) (use object_delete in blast)

lemma delete_sessions_I: "I s \<Longrightarrow> I (delete_sessions E pred rows s)"
  by (induction rows arbitrary: s) (simp_all add: object_delete split: sum.split)

lemma keeps_sweep: "triple I P (update (sweep_sessions E pred)) (\<lambda>_ _. True)"
  by (rule triple_update) (simp add: sweep_sessions_def delete_sessions_I)

lemma keeps_undo_create: "triple I P (undo_create i e) Q"
  unfolding undo_create_def
  by (intro keeps_then_do keeps_delete_object keeps_leaf triple_fail) simp

lemma keeps_fetched: "triple I P (fetched what e r) (\<lambda>_ _. True)"
  by (rule triple_fetched) simp

lemma keeps_require_providers: "triple I P (require_providers E names) (\<lambda>_ _. True)"
proof (induction names arbitrary: P)
  case (Cons n names)
  show ?case unfolding require_providers.simps by (intro keeps_then_do keeps_leaf keeps_fetched Cons.IH)
qed (simp add: keeps_leaf)

lemma sandbox_by_name_ok: "triple I P (sandbox_by_name E name) (\<lambda>sb _. ok sb \<and> True)"
  by (auto simp: triple_def sandbox_by_name_def then_do_query fetched_def fail_def ret_def
      intro: read_name_ok split: sum.splits option.splits)

lemma keeps_create_sandbox:
  assumes "\<And>sb. sb_id sb = uuid \<Longrightarrow> ok sb"
  shows "triple I P (create_sandbox E K now uuid petname name spec) (\<lambda>_ _. True)"
proof -
  have gpu: "triple I P' (case x of (True, Some e) \<Rightarrow> fail e | _ \<Rightarrow> ret ()) (\<lambda>_ _. True)" for P' x
    by (cases x) (auto split: option.split bool.split intro: triple_fail keeps_leaf)
  have kube: "triple I P' (case r of KubeCreated \<Rightarrow> then_do (notify uuid) (\<lambda>_. ret sb)
      | KubeConflict \<Rightarrow> undo_create uuid e | KubeError x \<Rightarrow> undo_create uuid (f x)) (\<lambda>_ _. True)" for P' r sb e f
    by (cases r) (simp_all add: keeps_undo_create keeps_then_do keeps_leaf)
  show ?thesis
    unfolding create_sandbox_def Let_def
    by (intro keeps_then_do keeps_leaf keeps_require_providers gpu kube keeps_store_sandbox assms) simp
qed

lemma keeps_delete_sandbox: "triple I P (delete_sandbox E K now name) (\<lambda>_ _. True)"
  unfolding delete_sandbox_def Let_def
  by (rule triple_check, rule triple_then_do, rule sandbox_by_name_ok, rule triple_assume)
    (intro keeps_then_do keeps_store_sandbox keeps_leaf keeps_sweep keeps_delete_object triple_case_sum triple_fail triple_if
      | simp add: ok_same)+

lemma keeps_providers:
  "triple I P (create_provider_record E now uuid generated p) (\<lambda>_ _. True)"
  "triple I P (update_provider_record E now p) (\<lambda>_ _. True)"
  unfolding create_provider_record_def update_provider_record_def Let_def
  by (intro triple_check keeps_then_do keeps_leaf keeps_put_plain keeps_fetched triple_case_sum triple_case_option triple_fail)+

lemma keeps_delete_provider: "triple I P (delete_provider_record name) (\<lambda>_ _. True)"
  unfolding delete_provider_record_def
  by (rule triple_check, rule triple_update) (simp add: provider_delete)

lemma keeps_sessions:
  "triple I P (create_ssh_session E cf now uuid generated i) (\<lambda>_ _. True)"
  "triple I P (revoke_ssh_session E now token) (\<lambda>_ _. True)"
  "triple I P (reap_expired_sessions E now) (\<lambda>_ _. True)"
  unfolding create_ssh_session_def revoke_ssh_session_def reap_expired_sessions_def sandbox_by_id_def Let_def
    by (intro triple_check keeps_then_do keeps_leaf keeps_put_plain keeps_fetched triple_case_sum triple_case_option
        triple_fail keeps_sweep)+

text \<open>The watcher, with other tasks between its read and its write.\<close>

lemma applied_ok:
  assumes "I s" "get_message ''sandbox'' (ev_decode_sandbox E) i s = Inr existing"
  shows "ok (applied_sandbox K obj i existing)"
proof (cases existing)
  case None
  then show ?thesis by (intro ok_placeholder) (simp add: applied_sandbox_def placeholder_sandbox_def Let_def)
next
  case (Some sb)
  with assms read_ok have "ok sb" by blast
  then show ?thesis by (rule ok_same) (simp_all add: Some applied_sandbox_def Let_def)
qed

lemma handle_applied_I:
  assumes "\<And>s. I s \<Longrightarrow> I (others s)" "I (gw_store g)"
  shows "I (gw_store (snd (handle_applied E K now others obj g)))"
  unfolding handle_applied_def Let_def
  using assms(2) applied_ok [OF assms(2)] assms(1) [OF assms(2)] sandbox_put [OF assms(1) [OF assms(2)]]
  by (auto split: sum.split) blast+

lemma handle_deleted_I: "I (gw_store g) \<Longrightarrow> I (gw_store (snd (handle_deleted obj g)))"
  by (auto simp: handle_deleted_def object_delete split: sum.split)

lemma remove_orphans_I: "I (gw_store g) \<Longrightarrow> I (gw_store (remove_orphans E K now rows g))"
  by (induction rows arbitrary: g) (auto simp: object_delete split: sum.split)

end

section \<open>The two invariants\<close>

lemma store_typed_delete_other:
  assumes "store_typed E s" "ty \<noteq> GLOBAL_SETTINGS_OBJECT_TYPE"
  shows "store_typed E (snd (delete_object ty j s))"
proof -
  have keep: "get_object ty' i' (snd (delete_object ty j s)) = get_object ty' i' s \<or>
      get_object ty' i' (snd (delete_object ty j s)) = None" for ty' i'
    using get_object_delete_other [of ty' ty i' j s] get_object_delete [of ty j s] by metis
  have "load_global_settings E (snd (delete_object ty j s)) = load_global_settings E s"
    using get_object_delete_other [of GLOBAL_SETTINGS_OBJECT_TYPE ty GLOBAL_SETTINGS_ID j s] assms(2)
    by (simp add: load_defs)
  moreover have "load_sandbox_settings E i (snd (delete_object ty j s)) = load_sandbox_settings E i s \<or>
      load_sandbox_settings E i (snd (delete_object ty j s)) = Inr default_settings" for i
    using keep [of SANDBOX_SETTINGS_OBJECT_TYPE "sandbox_settings_id i"] by (auto simp: load_defs)
  ultimately show ?thesis
    using assms(1) settings_typed_Nil unfolding store_typed_def default_settings_def
    by (metis stored_settings.select_convs(2))
qed

lemma get_object_delete_by_name:
  "ty' \<noteq> ty \<Longrightarrow> get_object ty' i (snd (delete_object_by_name ty name s)) = get_object ty' i s"
proof -
  assume ty: "ty' \<noteq> ty"
  have "find (\<lambda>r. ob_type r = ty' \<and> ob_id r = i) (filter (\<lambda>r. \<not> (ob_type r = ty \<and> ob_name r = name)) (st_objects s)) =
      find (\<lambda>r. ob_type r = ty' \<and> ob_id r = i) (st_objects s)"
    by (rule find_filter) (use ty in blast)
  then show ?thesis by (simp add: delete_object_by_name_def delete_where_def get_object_def)
qed

interpretation typed: object_invariant E "store_typed E" "\<lambda>_. True" for E
proof
  show "store_typed E t"
    if "store_typed E s" "ty = ''provider'' \<or> ty = ''ssh_session''" "put_object now ty j name payload s = Inr t"
    for s t ty now j name payload
    using store_typed_put_other [OF that(3) _ _ that(1)] that(2) by (auto simp: settings_types)
  show "store_typed E t" if "store_typed E s" "put_sandbox E now sb s = Inr t" for s t now sb
    using store_typed_put_other [OF that(2) [unfolded put_sandbox_def] _ _ that(1)] by (simp add: settings_types)
  show "store_typed E (snd (delete_object ty j s))"
    if "store_typed E s" "ty = ''sandbox'' \<or> ty = ''ssh_session'' \<or> ty = SANDBOX_SETTINGS_OBJECT_TYPE" for s ty j
    using store_typed_delete_other [OF that(1)] that(2) by (auto simp: settings_types)
  show "store_typed E (snd (delete_object_by_name ''provider'' name s))" if "store_typed E s" for s name
    using that by (simp add: store_typed_def load_defs get_object_delete_by_name settings_types)
qed simp_all

lemma confined_fewer_objects:
  assumes "confined E i b s" "set (st_objects t) \<subseteq> set (st_objects s)" "st_policies t = st_policies s"
  shows "confined E i b t"
  using assms unfolding confined_def revisions_of_def by auto

lemma delete_object_subset:
  "set (st_objects (snd (delete_object ty j s))) \<subseteq> set (st_objects s)"
  "st_policies (snd (delete_object ty j s)) = st_policies s"
  "set (st_objects (snd (delete_object_by_name ty name s))) \<subseteq> set (st_objects s)"
  "st_policies (snd (delete_object_by_name ty name s)) = st_policies s"
  by (auto simp: delete_object_def delete_object_by_name_def delete_where_def)

lemma get_message_by_name_baseline:
  assumes "confined E i b s" "get_message_by_name ''sandbox'' (ev_decode_sandbox E) name s = Inr (Some sb)"
  shows "sb_id sb = i \<Longrightarrow> has_baseline b sb"
proof -
  obtain r where r: "get_object_by_name ''sandbox'' name s = Some r" "ev_decode_sandbox E (ob_payload r) = Inr sb"
    using assms(2) by (auto simp: get_message_by_name_def decode_message_def split: sum.splits option.splits)
  from find_mem [OF r(1) [unfolded get_object_by_name_def]]
  have "r \<in> set (st_objects s)" "ob_type r = ''sandbox''" by simp_all
  with assms(1) r(2) show "sb_id sb = i \<Longrightarrow> has_baseline b sb" unfolding confined_def by fastforce
qed

interpretation confinement: object_invariant E "\<lambda>s. env_ok E \<longrightarrow> confined E i b s"
  "\<lambda>sb. env_ok E \<longrightarrow> sb_id sb = i \<longrightarrow> has_baseline b sb" for E i b
proof
  show "env_ok E \<longrightarrow> confined E i b t"
    if "env_ok E \<longrightarrow> confined E i b s" "ty = ''provider'' \<or> ty = ''ssh_session''" "put_object now ty j name payload s = Inr t"
    for s t ty now j name payload
  proof -
    have "ty \<noteq> ''sandbox''" using that(2) by auto
    then show ?thesis using that(1) confined_put_object [OF _ that(3)] by blast
  qed
  show "env_ok E \<longrightarrow> confined E i b t"
    if "env_ok E \<longrightarrow> confined E i b s" "env_ok E \<longrightarrow> sb_id sb = i \<longrightarrow> has_baseline b sb" "put_sandbox E now sb s = Inr t"
    for s t now sb
    using that confined_put_sandbox by blast
  show "env_ok E \<longrightarrow> confined E i b (snd (delete_object ty j s))" if "env_ok E \<longrightarrow> confined E i b s" for s ty j
    using that confined_fewer_objects delete_object_subset(1,2) by blast
  show "env_ok E \<longrightarrow> confined E i b (snd (delete_object_by_name ''provider'' name s))"
    if "env_ok E \<longrightarrow> confined E i b s" for s name
    using that confined_fewer_objects delete_object_subset(3,4) by blast
  show "env_ok E \<longrightarrow> sb_id sb = i \<longrightarrow> has_baseline b sb"
    if "env_ok E \<longrightarrow> confined E i b s" "get_message ''sandbox'' (ev_decode_sandbox E) j s = Inr (Some sb)" for s j sb
    using that get_message_baseline by blast
  show "env_ok E \<longrightarrow> sb_id sb = i \<longrightarrow> has_baseline b sb"
    if "env_ok E \<longrightarrow> confined E i b s" "get_message_by_name ''sandbox'' (ev_decode_sandbox E) name s = Inr (Some sb)"
    for s name sb
    using that get_message_by_name_baseline by blast
  show "env_ok E \<longrightarrow> sb_id sb' = i \<longrightarrow> has_baseline b sb'"
    if "env_ok E \<longrightarrow> sb_id sb = i \<longrightarrow> has_baseline b sb" "sb_id sb' = sb_id sb" "sb_spec sb' = sb_spec sb" for sb sb'
    using that by (simp add: has_baseline_def)
  show "env_ok E \<longrightarrow> sb_id sb = i \<longrightarrow> has_baseline b sb" if "sb_spec sb = None" for sb
    using that by (simp add: has_baseline_def)
qed

end
