(* ===== verification/Wire.thy ===== *)
theory Wire
  imports Gateway
begin

text \<open>
  An instance of the encodings that \<open>env\<close> leaves open. The gateway only relies on the laws of
  \<open>env_ok\<close>; a codec here is a pair of an encoder and a decoder that leaves the rest of the
  input, codecs are built from smaller ones (sums, products, sequences, images under a
  bijection), and \<open>example_env\<close> satisfies the laws. The witnesses of the gateway's properties
  are evaluated on it. Nothing here models code of the repository.
\<close>

section \<open>Codecs\<close>

type_synonym 'a codec = "('a \<Rightarrow> bytes) \<times> (bytes \<Rightarrow> ('a \<times> bytes) option)"

definition codec_ok :: "'a codec \<Rightarrow> bool" where
  "codec_ok c \<longleftrightarrow> (\<forall>a rest. snd c (fst c a @ rest) = Some (a, rest))"

named_theorems codec_rules

definition byte_codec :: "char codec" where
  "byte_codec = (\<lambda>b. [b], \<lambda>bs. case bs of [] \<Rightarrow> None | b # rest \<Rightarrow> Some (b, rest))"

lemma byte_codec_ok [codec_rules]: "codec_ok byte_codec"
  by (simp add: codec_ok_def byte_codec_def)

definition image_codec :: "('a \<Rightarrow> 'b) \<Rightarrow> ('b \<Rightarrow> 'a) \<Rightarrow> 'b codec \<Rightarrow> 'a codec" where
  "image_codec f g c = (\<lambda>a. fst c (f a), \<lambda>bs. map_option (apfst g) (snd c bs))"

lemma image_codec_ok: "codec_ok c \<Longrightarrow> (\<And>a. g (f a) = a) \<Longrightarrow> codec_ok (image_codec f g c)"
  by (simp add: codec_ok_def image_codec_def)

definition pair_codec :: "'a codec \<Rightarrow> 'b codec \<Rightarrow> ('a \<times> 'b) codec" where
  "pair_codec c d =
     (\<lambda>(a, b). fst c a @ fst d b,
      \<lambda>bs. Option.bind (snd c bs) (\<lambda>(a, rest). map_option (apfst (Pair a)) (snd d rest)))"

lemma pair_codec_ok [codec_rules]: "codec_ok c \<Longrightarrow> codec_ok d \<Longrightarrow> codec_ok (pair_codec c d)"
  by (simp add: codec_ok_def pair_codec_def)

definition sum_codec :: "'a codec \<Rightarrow> 'b codec \<Rightarrow> ('a + 'b) codec" where
  "sum_codec c d =
     (\<lambda>x. case x of Inl a \<Rightarrow> CHR ''L'' # fst c a | Inr b \<Rightarrow> CHR ''R'' # fst d b,
      \<lambda>bs. case bs of [] \<Rightarrow> None
         | t # rest \<Rightarrow> if t = CHR ''L'' then map_option (apfst Inl) (snd c rest) else map_option (apfst Inr) (snd d rest))"

lemma sum_codec_ok [codec_rules]: "codec_ok c \<Longrightarrow> codec_ok d \<Longrightarrow> codec_ok (sum_codec c d)"
  by (simp add: codec_ok_def sum_codec_def split: sum.split)

definition unit_codec :: "unit codec" where
  "unit_codec = (\<lambda>_. [], \<lambda>bs. Some ((), bs))"

lemma unit_codec_ok [codec_rules]: "codec_ok unit_codec"
  by (simp add: codec_ok_def unit_codec_def)

text \<open>A sequence marks every element and ends with a mark of its own; the fuel is the input.\<close>

fun decode_items :: "'a codec \<Rightarrow> bytes \<Rightarrow> bytes \<Rightarrow> ('a list \<times> bytes) option" where
  "decode_items c [] bs = None"
| "decode_items c (_ # n) [] = None"
| "decode_items c (_ # n) (t # rest) =
     (if t = CHR ''.'' then Some ([], rest)
      else Option.bind (snd c rest) (\<lambda>(a, rest). map_option (apfst ((#) a)) (decode_items c n rest)))"

fun encode_items :: "'a codec \<Rightarrow> 'a list \<Rightarrow> bytes" where
  "encode_items c [] = ''.''"
| "encode_items c (a # as) = CHR '','' # fst c a @ encode_items c as"

definition list_codec :: "'a codec \<Rightarrow> 'a list codec" where
  "list_codec c = (encode_items c, \<lambda>bs. decode_items c bs bs)"

lemma decode_encode_items:
  assumes "codec_ok c"
  shows "length xs < length n \<Longrightarrow> decode_items c n (encode_items c xs @ rest) = Some (xs, rest)"
proof (induction xs arbitrary: n)
  case Nil
  then obtain c m where "n = c # m" by (cases n) auto
  then show ?case by simp
next
  case (Cons x xs)
  then obtain c m where "n = c # m" "length xs < length m" by (cases n) auto
  with Cons.IH assms show ?case by (simp add: codec_ok_def)
qed

lemma length_encode_items: "length xs < length (encode_items c xs)"
  by (induction xs) auto

lemma list_codec_ok [codec_rules]:
  assumes "codec_ok c"
  shows "codec_ok (list_codec c)"
  unfolding codec_ok_def list_codec_def fst_conv snd_conv
  by (intro allI decode_encode_items [OF assms]) (simp add: length_encode_items trans_less_add1)

section \<open>Codecs of the basic types\<close>

definition option_codec :: "'a codec \<Rightarrow> 'a option codec" where
  "option_codec c = image_codec (\<lambda>x. case x of None \<Rightarrow> Inl () | Some a \<Rightarrow> Inr a)
     (\<lambda>y. case y of Inl _ \<Rightarrow> None | Inr a \<Rightarrow> Some a) (sum_codec unit_codec c)"

lemma option_codec_ok [codec_rules]: "codec_ok c \<Longrightarrow> codec_ok (option_codec c)"
  unfolding option_codec_def by (intro image_codec_ok codec_rules) (simp_all split: option.split)

definition bool_codec :: "bool codec" where
  "bool_codec = image_codec (\<lambda>b. if b then CHR ''1'' else CHR ''0'') (\<lambda>c. c = CHR ''1'') byte_codec"

lemma bool_codec_ok [codec_rules]: "codec_ok bool_codec"
  unfolding bool_codec_def by (intro image_codec_ok codec_rules) simp

definition string_codec :: "string codec" where
  "string_codec = list_codec byte_codec"

lemma string_codec_ok [codec_rules]: "codec_ok string_codec"
  unfolding string_codec_def by (intro codec_rules)

definition nat_codec :: "nat codec" where
  "nat_codec = image_codec (to_radix 10) (\<lambda>ds. case digits_val 10 0 ds of Some n \<Rightarrow> n | None \<Rightarrow> 0) string_codec"

lemma nat_codec_ok [codec_rules]: "codec_ok nat_codec"
  unfolding nat_codec_def by (intro image_codec_ok codec_rules) (simp add: digits_val_to_radix del: digits_val.simps)

definition int_codec :: "int codec" where
  "int_codec = image_codec (\<lambda>i. (i < 0, nat \<bar>i\<bar>)) (\<lambda>(neg, n). if neg then - int n else int n)
     (pair_codec bool_codec nat_codec)"

lemma int_codec_ok [codec_rules]: "codec_ok int_codec"
  unfolding int_codec_def by (intro image_codec_ok codec_rules) simp

definition word_codec :: "'a :: len word codec" where
  "word_codec = image_codec unat of_nat nat_codec"

lemma word_codec_ok [codec_rules]: "codec_ok word_codec"
  unfolding word_codec_def by (intro image_codec_ok codec_rules) simp

definition strings_codec :: "(string \<times> string) list codec" where
  "strings_codec = list_codec (pair_codec string_codec string_codec)"

lemma strings_codec_ok [codec_rules]: "codec_ok strings_codec"
  unfolding strings_codec_def by (intro codec_rules)

section \<open>Codecs of the messages\<close>

definition allow_codec :: "l7_allow codec" where
  "allow_codec = image_codec (\<lambda>r. (la_method r, la_path r, la_command r))
     (\<lambda>(a, b, c). \<lparr>la_method = a, la_path = b, la_command = c\<rparr>)
     (pair_codec string_codec (pair_codec string_codec string_codec))"

lemma allow_codec_ok [codec_rules]: "codec_ok allow_codec"
  unfolding allow_codec_def by (intro image_codec_ok codec_rules) simp

definition rule_codec :: "l7_rule codec" where
  "rule_codec = image_codec (\<lambda>r. lr_allow r)
     (\<lambda>a. \<lparr>lr_allow = a\<rparr>)
     (option_codec allow_codec)"

lemma rule_codec_ok [codec_rules]: "codec_ok rule_codec"
  unfolding rule_codec_def by (intro image_codec_ok codec_rules) simp

definition binary_codec :: "network_binary codec" where
  "binary_codec = image_codec (\<lambda>r. (nb_path r, nb_harness r))
     (\<lambda>(a, b). \<lparr>nb_path = a, nb_harness = b\<rparr>)
     (pair_codec string_codec bool_codec)"

lemma binary_codec_ok [codec_rules]: "codec_ok binary_codec"
  unfolding binary_codec_def by (intro image_codec_ok codec_rules) simp

definition endpoint_codec :: "network_endpoint codec" where
  "endpoint_codec = image_codec (\<lambda>r. (ep_host r, ep_port r, ep_protocol r, ep_tls r, ep_enforcement r, ep_access r, ep_rules r, ep_allowed_ips r, ep_ports r))
     (\<lambda>(a, b, c, d, e, f, g, h, i). \<lparr>ep_host = a, ep_port = b, ep_protocol = c, ep_tls = d, ep_enforcement = e, ep_access = f, ep_rules = g, ep_allowed_ips = h, ep_ports = i\<rparr>)
     (pair_codec string_codec (pair_codec word_codec (pair_codec string_codec (pair_codec string_codec (pair_codec string_codec (pair_codec string_codec (pair_codec (list_codec rule_codec) (pair_codec (list_codec string_codec) (list_codec word_codec)))))))))"

lemma endpoint_codec_ok [codec_rules]: "codec_ok endpoint_codec"
  unfolding endpoint_codec_def by (intro image_codec_ok codec_rules) simp

definition network_rule_codec :: "network_policy_rule codec" where
  "network_rule_codec = image_codec (\<lambda>r. (npr_name r, npr_endpoints r, npr_binaries r))
     (\<lambda>(a, b, c). \<lparr>npr_name = a, npr_endpoints = b, npr_binaries = c\<rparr>)
     (pair_codec string_codec (pair_codec (list_codec endpoint_codec) (list_codec binary_codec)))"

lemma network_rule_codec_ok [codec_rules]: "codec_ok network_rule_codec"
  unfolding network_rule_codec_def by (intro image_codec_ok codec_rules) simp

definition filesystem_codec :: "filesystem_policy codec" where
  "filesystem_codec = image_codec (\<lambda>r. (fs_include_workdir r, fs_read_only r, fs_read_write r))
     (\<lambda>(a, b, c). \<lparr>fs_include_workdir = a, fs_read_only = b, fs_read_write = c\<rparr>)
     (pair_codec bool_codec (pair_codec (list_codec string_codec) (list_codec string_codec)))"

lemma filesystem_codec_ok [codec_rules]: "codec_ok filesystem_codec"
  unfolding filesystem_codec_def by (intro image_codec_ok codec_rules) simp

definition landlock_codec :: "landlock_policy codec" where
  "landlock_codec = image_codec (\<lambda>r. ll_compatibility r)
     (\<lambda>a. \<lparr>ll_compatibility = a\<rparr>)
     string_codec"

lemma landlock_codec_ok [codec_rules]: "codec_ok landlock_codec"
  unfolding landlock_codec_def by (intro image_codec_ok codec_rules) simp

definition process_codec :: "process_policy codec" where
  "process_codec = image_codec (\<lambda>r. (pp_run_as_user r, pp_run_as_group r))
     (\<lambda>(a, b). \<lparr>pp_run_as_user = a, pp_run_as_group = b\<rparr>)
     (pair_codec string_codec string_codec)"

lemma process_codec_ok [codec_rules]: "codec_ok process_codec"
  unfolding process_codec_def by (intro image_codec_ok codec_rules) simp

definition policy_codec :: "sandbox_policy codec" where
  "policy_codec = image_codec (\<lambda>r. (sp_version r, sp_filesystem r, sp_landlock r, sp_process r, sp_network_policies r))
     (\<lambda>(a, b, c, d, e). \<lparr>sp_version = a, sp_filesystem = b, sp_landlock = c, sp_process = d, sp_network_policies = e\<rparr>)
     (pair_codec word_codec (pair_codec (option_codec filesystem_codec) (pair_codec (option_codec landlock_codec) (pair_codec (option_codec process_codec) (list_codec (pair_codec string_codec network_rule_codec))))))"

lemma policy_codec_ok [codec_rules]: "codec_ok policy_codec"
  unfolding policy_codec_def by (intro image_codec_ok codec_rules) simp

definition template_codec :: "sandbox_template codec" where
  "template_codec = image_codec (\<lambda>r. (tm_image r, tm_runtime_class_name r, tm_agent_socket r, tm_labels r, tm_annotations r, tm_environment r, tm_resources r, tm_volume_claim_templates r))
     (\<lambda>(a, b, c, d, e, f, g, h). \<lparr>tm_image = a, tm_runtime_class_name = b, tm_agent_socket = c, tm_labels = d, tm_annotations = e, tm_environment = f, tm_resources = g, tm_volume_claim_templates = h\<rparr>)
     (pair_codec string_codec (pair_codec string_codec (pair_codec string_codec (pair_codec strings_codec (pair_codec strings_codec (pair_codec strings_codec (pair_codec (option_codec string_codec) (option_codec string_codec))))))))"

lemma template_codec_ok [codec_rules]: "codec_ok template_codec"
  unfolding template_codec_def by (intro image_codec_ok codec_rules) simp

definition spec_codec :: "sandbox_spec codec" where
  "spec_codec = image_codec (\<lambda>r. (sc_log_level r, sc_environment r, sc_template r, sc_policy r, sc_providers r, sc_gpu r))
     (\<lambda>(a, b, c, d, e, f). \<lparr>sc_log_level = a, sc_environment = b, sc_template = c, sc_policy = d, sc_providers = e, sc_gpu = f\<rparr>)
     (pair_codec string_codec (pair_codec strings_codec (pair_codec (option_codec template_codec) (pair_codec (option_codec policy_codec) (pair_codec (list_codec string_codec) bool_codec)))))"

lemma spec_codec_ok [codec_rules]: "codec_ok spec_codec"
  unfolding spec_codec_def by (intro image_codec_ok codec_rules) simp

definition status_codec :: "sandbox_status codec" where
  "status_codec = image_codec (\<lambda>r. (ss_sandbox_name r, ss_agent_pod r, ss_agent_fd r, ss_sandbox_fd r, ss_conditions r))
     (\<lambda>(a, b, c, d, e). \<lparr>ss_sandbox_name = a, ss_agent_pod = b, ss_agent_fd = c, ss_sandbox_fd = d, ss_conditions = e\<rparr>)
     (pair_codec string_codec (pair_codec string_codec (pair_codec string_codec (pair_codec string_codec (list_codec (pair_codec string_codec (pair_codec string_codec (pair_codec string_codec (pair_codec string_codec string_codec)))))))))"

lemma status_codec_ok [codec_rules]: "codec_ok status_codec"
  unfolding status_codec_def by (intro image_codec_ok codec_rules) simp

definition sandbox_codec :: "sandbox codec" where
  "sandbox_codec = image_codec (\<lambda>r. (sb_id r, sb_name r, sb_namespace r, sb_spec r, sb_status r, sb_phase r, sb_created_at_ms r, sb_current_policy_version r))
     (\<lambda>(a, b, c, d, e, f, g, h). \<lparr>sb_id = a, sb_name = b, sb_namespace = c, sb_spec = d, sb_status = e, sb_phase = f, sb_created_at_ms = g, sb_current_policy_version = h\<rparr>)
     (pair_codec string_codec (pair_codec string_codec (pair_codec string_codec (pair_codec (option_codec spec_codec) (pair_codec (option_codec status_codec) (pair_codec int_codec (pair_codec int_codec word_codec)))))))"

lemma sandbox_codec_ok [codec_rules]: "codec_ok sandbox_codec"
  unfolding sandbox_codec_def by (intro image_codec_ok codec_rules) simp

definition provider_codec :: "provider codec" where
  "provider_codec = image_codec (\<lambda>r. (pv_id r, pv_name r, pv_type r, pv_credentials r, pv_config r))
     (\<lambda>(a, b, c, d, e). \<lparr>pv_id = a, pv_name = b, pv_type = c, pv_credentials = d, pv_config = e\<rparr>)
     (pair_codec string_codec (pair_codec string_codec (pair_codec string_codec (pair_codec strings_codec strings_codec))))"

lemma provider_codec_ok [codec_rules]: "codec_ok provider_codec"
  unfolding provider_codec_def by (intro image_codec_ok codec_rules) simp

definition session_codec :: "ssh_session codec" where
  "session_codec = image_codec (\<lambda>r. (sh_id r, sh_sandbox_id r, sh_token r, sh_created_at_ms r, sh_revoked r, sh_name r, sh_expires_at_ms r))
     (\<lambda>(a, b, c, d, e, f, g). \<lparr>sh_id = a, sh_sandbox_id = b, sh_token = c, sh_created_at_ms = d, sh_revoked = e, sh_name = f, sh_expires_at_ms = g\<rparr>)
     (pair_codec string_codec (pair_codec string_codec (pair_codec string_codec (pair_codec int_codec
       (pair_codec bool_codec (pair_codec string_codec int_codec))))))"

lemma session_codec_ok [codec_rules]: "codec_ok session_codec"
  unfolding session_codec_def by (intro image_codec_ok codec_rules) simp

definition stored_value_codec :: "stored_setting_value codec" where
  "stored_value_codec = image_codec
     (\<lambda>v. case v of StString t \<Rightarrow> Inl (Inl t) | StBytes t \<Rightarrow> Inl (Inr t) | StBool b \<Rightarrow> Inr (Inl b) | StInt n \<Rightarrow> Inr (Inr n))
     (\<lambda>x. case x of Inl (Inl t) \<Rightarrow> StString t | Inl (Inr t) \<Rightarrow> StBytes t | Inr (Inl b) \<Rightarrow> StBool b | Inr (Inr n) \<Rightarrow> StInt n)
     (sum_codec (sum_codec string_codec string_codec) (sum_codec bool_codec word_codec))"

lemma stored_value_codec_ok [codec_rules]: "codec_ok stored_value_codec"
  unfolding stored_value_codec_def by (intro image_codec_ok codec_rules) (simp split: stored_setting_value.split)

definition settings_codec :: "stored_settings codec" where
  "settings_codec = image_codec (\<lambda>r. (se_revision r, se_settings r))
     (\<lambda>(a, b). \<lparr>se_revision = a, se_settings = b\<rparr>)
     (pair_codec word_codec (list_codec (pair_codec string_codec stored_value_codec)))"

lemma settings_codec_ok [codec_rules]: "codec_ok settings_codec"
  unfolding settings_codec_def by (intro image_codec_ok codec_rules) simp

section \<open>The instance\<close>

text \<open>A whole input is one value that satisfies the invariant of its maps.\<close>

definition decode_whole :: "('a \<Rightarrow> bool) \<Rightarrow> 'a codec \<Rightarrow> bytes \<Rightarrow> string + 'a" where
  "decode_whole ok c bs =
     (case snd c bs of Some (a, []) \<Rightarrow> if ok a then Inr a else Inl ''malformed'' | _ \<Rightarrow> Inl ''malformed'')"

lemma decode_whole_encode:
  assumes "codec_ok c" "ok a"
  shows "decode_whole ok c (fst c a) = Inr a"
proof -
  have "snd c (fst c a @ []) = Some (a, [])" using assms(1) by (simp only: codec_ok_def)
  with assms(2) show ?thesis by (simp add: decode_whole_def)
qed

lemma decode_whole_ok: "decode_whole ok c bs = Inr a \<Longrightarrow> ok a"
  by (auto simp: decode_whole_def split: option.splits prod.splits list.splits if_splits)

definition example_env :: env where
  "example_env =
     \<lparr>ev_encode_policy = fst policy_codec,
      ev_decode_policy = decode_whole (\<lambda>p. hm_ok (sp_network_policies p)) policy_codec,
      ev_encode_rule = fst network_rule_codec,
      ev_decode_rule = decode_whole (\<lambda>_. True) network_rule_codec,
      ev_encode_filesystem = fst filesystem_codec,
      ev_encode_landlock = fst landlock_codec,
      ev_encode_process = fst process_codec,
      ev_encode_sandbox = fst sandbox_codec,
      ev_decode_sandbox = decode_whole (\<lambda>_. True) sandbox_codec,
      ev_encode_provider = fst provider_codec,
      ev_decode_provider = decode_whole (\<lambda>_. True) provider_codec,
      ev_encode_session = fst session_codec,
      ev_decode_session = decode_whole (\<lambda>_. True) session_codec,
      ev_settings_to_json = fst settings_codec,
      ev_settings_from_json = decode_whole (\<lambda>st. bt_ok (se_settings st)) settings_codec,
      ev_hex_encode = fst string_codec,
      ev_hex_decode = decode_whole (\<lambda>_. True) string_codec,
      ev_sha256 = take 32,
      ev_to_lowercase = to_ascii_lowercase,
      ev_dev_settings = True\<rparr>"

lemma example_env_ok: "env_ok example_env"
  unfolding env_ok_def example_env_def env.simps
  by (auto simp: decode_whole_encode codec_rules dest: decode_whole_ok)

end
