(* ===== verification/Service.thy ===== *)
theory Service
  imports SandboxProps Wire
begin

text \<open>
  The gateway as a whole: a run of its service is a sequence of calls, each of them a handler of
  \<open>grpc.rs\<close>, an event of the watcher or a sweep of a background task. The section proves what any
  run keeps, what a sandbox then reads, and how a creation establishes it.
\<close>

section \<open>Any sequence of calls\<close>

datatype service_call =
  CallUpdateConfig string int update_config_request
| CallGetSandboxConfig string int string
| CallReportPolicyStatus int string u32 int string
| CallSubmit surroundings string "policy_chunk list"
| CallApprove surroundings string string
| CallReject surroundings string string
| CallUndo surroundings string string
| CallEdit string string "network_policy_rule option"
| CallApproveAll "nat \<Rightarrow> surroundings" string bool
| CallClear string
| CallCreateSandbox cluster int string string string "sandbox_spec option"
| CallDeleteSandbox cluster int string
| CallCreateProvider int string string provider
| CallUpdateProvider int provider
| CallDeleteProvider string
| CallCreateSshSession gateway_config int string string string
| CallRevokeSshSession int string
| WatchApplied cluster int "store \<Rightarrow> store" kube_object
| WatchDeleted kube_object
| SweepOrphans cluster int
| SweepSessions int

fun serve :: "env \<Rightarrow> service_call \<Rightarrow> gateway \<Rightarrow> gateway" where
  "serve E (CallUpdateConfig u now req) g = snd (update_config E u now req g)"
| "serve E (CallGetSandboxConfig u now i) g = snd (get_sandbox_config E u now i g)"
| "serve E (CallReportPolicyStatus now i v status err) g = snd (report_policy_status E now i v status err g)"
| "serve E (CallSubmit U name cs) g = snd (submit_policy_analysis E U name cs g)"
| "serve E (CallApprove U name c) g = snd (approve_draft_chunk E U name c g)"
| "serve E (CallReject U name c) g = snd (reject_draft_chunk E U name c g)"
| "serve E (CallUndo U name c) g = snd (undo_draft_chunk E U name c g)"
| "serve E (CallEdit name c rule) g = snd (edit_draft_chunk E name c rule g)"
| "serve E (CallApproveAll U name flagged) g = snd (approve_all_draft_chunks E U name flagged g)"
| "serve E (CallClear name) g = snd (clear_draft_chunks E name g)"
| "serve E (CallCreateSandbox K now uuid pet name spec) g = snd (create_sandbox E K now uuid pet name spec g)"
| "serve E (CallDeleteSandbox K now name) g = snd (delete_sandbox E K now name g)"
| "serve E (CallCreateProvider now uuid generated p) g = snd (create_provider_record E now uuid generated p g)"
| "serve E (CallUpdateProvider now p) g = snd (update_provider_record E now p g)"
| "serve E (CallDeleteProvider name) g = snd (delete_provider_record name g)"
| "serve E (CallCreateSshSession cf now uuid generated i) g = snd (create_ssh_session E cf now uuid generated i g)"
| "serve E (CallRevokeSshSession now token) g = snd (revoke_ssh_session E now token g)"
| "serve E (WatchApplied K now others obj) g = snd (handle_applied E K now others obj g)"
| "serve E (WatchDeleted obj) g = snd (handle_deleted obj g)"
| "serve E (SweepOrphans K now) g = reconcile_orphaned_sandboxes E K now g"
| "serve E (SweepSessions now) g = snd (reap_expired_sessions E now g)"

text \<open>
  A policy in a request has a map of rules, the writers that interfere keep the invariant, and
  a new sandbox has an identifier of its own.
\<close>

fun call_ok :: "(store \<Rightarrow> bool) \<Rightarrow> string \<Rightarrow> service_call \<Rightarrow> bool" where
  "call_ok I i (CallUpdateConfig u now req) = request_ok req"
| "call_ok I i (CallApprove U name c) = undisturbed I U"
| "call_ok I i (CallReject U name c) = undisturbed I U"
| "call_ok I i (CallUndo U name c) = undisturbed I U"
| "call_ok I i (CallApproveAll U name flagged) = (\<forall>k. undisturbed I (U k))"
| "call_ok I i (CallCreateSandbox K now uuid pet name spec) = (uuid \<noteq> i)"
| "call_ok I i (WatchApplied K now others obj) = (\<forall>s. I s \<longrightarrow> I (others s))"
| "call_ok I i _ = True"

lemma confined_invariant:
  assumes "env_ok E"
  shows "object_invariant E (confined E i b) (\<lambda>sb. sb_id sb = i \<longrightarrow> has_baseline b sb)"
  using confinement.object_invariant_axioms [of E i b] assms by simp

lemma keeps_serve: "keeps I m \<Longrightarrow> I (gw_store g) \<Longrightarrow> I (gw_store (snd (m g)))"
  by (simp add: triple_def)

lemmas draft_handlers = gateway_invariant.keeps_submit gateway_invariant.keeps_approve
  gateway_invariant.keeps_reject gateway_invariant.keeps_undo gateway_invariant.keeps_edit
  gateway_invariant.keeps_approve_all gateway_invariant.keeps_clear

lemmas object_handlers = object_invariant.keeps_create_sandbox object_invariant.keeps_delete_sandbox
  object_invariant.keeps_providers object_invariant.keeps_delete_provider object_invariant.keeps_sessions

lemmas watch_handlers = object_invariant.handle_applied_I object_invariant.handle_deleted_I
  object_invariant.remove_orphans_I

text \<open>An invariant that the configuration handlers keep is kept by every call.\<close>

lemma serve_keeps:
  assumes "object_invariant E I ok" "call_ok I i c" "I (gw_store g)"
    "\<And>sb. sb_id sb \<noteq> i \<Longrightarrow> ok sb"
    "\<And>u now req. request_ok req \<Longrightarrow> keeps I (update_config E u now req)"
    "\<And>u now j. keeps I (get_sandbox_config E u now j)"
    "\<And>now j v status err. keeps I (report_policy_status E now j v status err)"
  shows "I (gw_store (serve E c g))"
proof -
  have inv: "gateway_invariant E I" using assms(1) by (simp add: object_invariant_def)
  show ?thesis
  proof (cases c)
    case (WatchApplied K now others obj)
    with assms(2,3) show ?thesis by (simp add: object_invariant.handle_applied_I [OF assms(1)])
  next
    case (CallCreateSandbox K now uuid pet name spec)
    with assms(2,4) have "ok sb" if "sb_id sb = uuid" for sb using that by simp
    then show ?thesis
      using CallCreateSandbox assms(3) by (simp add: keeps_serve object_invariant.keeps_create_sandbox [OF assms(1)])
  qed (use assms(2,3) in \<open>simp_all add: keeps_serve assms(5-7) draft_handlers [OF inv] object_handlers [OF assms(1)]
      watch_handlers(2,3) [OF assms(1)] reconcile_orphaned_sandboxes_def\<close>)
qed

lemma serve_typed:
  assumes "env_ok E" "call_ok (store_typed E) i c" "store_typed E (gw_store g)"
  shows "store_typed E (gw_store (serve E c g))"
  using typed.object_invariant_axioms [of E] assms(2,3)
  by (rule serve_keeps) (use keeps_update_config [OF assms(1)] keeps_get_sandbox_config keeps_report_policy_status in simp_all)

lemma serve_confined:
  assumes "env_ok E" "i \<noteq> GLOBAL_POLICY_SANDBOX_ID" "call_ok (confined E i b) i c" "confined E i b (gw_store g)"
  shows "confined E i b (gw_store (serve E c g))"
  using confined_invariant [OF assms(1)] assms(3,4)
  by (rule serve_keeps) (use confined_update_config [OF assms(1,2)] confined_get_sandbox_config [OF assms(1)]
      confined_report_policy_status [OF assms(1)] in simp_all)

definition serve_all :: "env \<Rightarrow> service_call list \<Rightarrow> gateway \<Rightarrow> gateway" where
  "serve_all E cs g = fold (serve E) cs g"

definition calls_ok :: "env \<Rightarrow> string \<Rightarrow> sandbox_policy \<Rightarrow> service_call list \<Rightarrow> bool" where
  "calls_ok E i b cs \<longleftrightarrow>
     (\<forall>c \<in> set cs. call_ok (store_typed E) i c \<and> call_ok (confined E i b) i c)"

lemma serve_all_keeps:
  assumes "env_ok E" "i \<noteq> GLOBAL_POLICY_SANDBOX_ID" "calls_ok E i b cs"
    "store_typed E (gw_store g)" "confined E i b (gw_store g)"
  shows "store_typed E (gw_store (serve_all E cs g)) \<and> confined E i b (gw_store (serve_all E cs g))"
  using assms(3-)
proof (induction cs arbitrary: g)
  case Nil
  then show ?case by (simp add: serve_all_def)
next
  case (Cons c cs)
  with Cons.IH [of "serve E c g"] serve_typed [OF assms(1), of i c g] serve_confined [OF assms(1,2), of b c g]
  show ?case by (simp add: serve_all_def calls_ok_def)
qed

section \<open>What a sandbox reads\<close>

lemma global_policy_decodes:
  assumes "env_ok E" "global_typed E st"
  shows "\<exists>r. decode_policy_from_global_settings E st = Inr r \<and> (\<forall>p. r = Some p \<longrightarrow> policy_safe p) \<and>
    (r = None \<longleftrightarrow> map_of (se_settings st) POLICY_SETTING_KEY = None)"
proof (cases "map_of (se_settings st) POLICY_SETTING_KEY")
  case None
  then show ?thesis by (simp add: decode_policy_from_global_settings_def)
next
  case (Some v)
  with assms(2) obtain p where p: "hm_ok (sp_network_policies p)" "policy_safe p"
    "v = StBytes (ev_hex_encode E (ev_encode_policy E p))"
    unfolding global_typed_def by blast
  obtain q where q: "ev_decode_policy E (ev_encode_policy E p) = Inr q" "norm_policy q = norm_policy p"
    using env_okD(1) [OF assms(1) p(1)] by blast
  have "policy_safe q" using p(2) by (simp add: policy_safe_def norm_policyD [OF q(2)])
  with Some p(3) q(1) env_okD(8) [OF assms(1)] show ?thesis
    by (simp add: decode_policy_from_global_settings_def)
qed

lemma get_sandbox_config_eq:
  assumes "sandbox_by_id E i g = (Inr sb, g)"
    "sandbox_policy_of E u now i sb g = (Inr (own_policy, version, hash), h)"
    "load_global_settings E (gw_store h) = Inr global" "load_sandbox_settings E i (gw_store h) = Inr own"
    "decode_policy_from_global_settings E global = Inr gp" "merge_effective_settings E global own = Inr m"
  shows "get_sandbox_config E u now i g =
    (Inr (case gp of
        None \<Rightarrow> \<lparr>gc_policy = own_policy, gc_version = version, gc_policy_hash = hash, gc_settings = m,
          gc_config_revision = compute_config_revision E own_policy m SourceSandbox,
          gc_policy_source = SourceSandbox, gc_global_policy_version = 0\<rparr>
      | Some q \<Rightarrow> \<lparr>gc_policy = Some q, gc_version = (if version = 0 then 1 else version),
          gc_policy_hash = deterministic_policy_hash E q, gc_settings = m,
          gc_config_revision = compute_config_revision E (Some q) m SourceGlobal,
          gc_policy_source = SourceGlobal, gc_global_policy_version = global_policy_version (gw_store h)\<rparr>), h)"
proof -
  have loads: "loading (load_global_settings E) h = (Inr global, h)" "loading (load_sandbox_settings E i) h = (Inr own, h)"
    "lift (decode_policy_from_global_settings E global) h = (Inr gp, h)"
    "lift (merge_effective_settings E global own) h = (Inr m, h)"
    by (simp_all add: loading_eq assms(3-6) lift_def)
  show ?thesis
    unfolding get_sandbox_config_def
    by (cases gp) (simp_all only: then_do_def query_def ret_def assms(1,2) loads prod.case option.case sum.case Let_def)
qed

text \<open>On a store with typed settings the reads of the settings succeed.\<close>

lemma settings_readable:
  assumes "env_ok E" "store_typed E s"
  obtains global own m gp where "load_global_settings E s = Inr global" "load_sandbox_settings E i s = Inr own"
    "merge_effective_settings E global own = Inr m" "map_of m = effective_spec (ev_dev_settings E) global own"
    "decode_policy_from_global_settings E global = Inr gp" "\<forall>p. gp = Some p \<longrightarrow> policy_safe p"
    "gp = None \<longleftrightarrow> map_of (se_settings global) POLICY_SETTING_KEY = None"
proof -
  obtain global where global: "load_global_settings E s = Inr global" "global_typed E global"
    using assms(2) unfolding store_typed_def by blast
  obtain own where own: "load_sandbox_settings E i s = Inr own"
    "settings_typed (ev_dev_settings E) (se_settings own)"
    using assms(2) unfolding store_typed_def by blast
  have globals: "settings_typed (ev_dev_settings E) (se_settings global)"
    using global(2) unfolding global_typed_def by (rule conjunct1)
  from merge_effective_spec [OF globals own(2)] global_policy_decodes [OF assms(1) global(2)]
  show ?thesis by (elim exE conjE) (rule that [OF global(1) own(1)])
qed

lemma sandbox_config_reads:
  assumes "env_ok E" "store_typed E (gw_store g)" "confined E i b (gw_store g)"
    "get_message ''sandbox'' (ev_decode_sandbox E) i (gw_store g) = Inr (Some sb)"
  shows "\<exists>c global own p. get_sandbox_config E u now i g = (Inr c, g) \<and>
    load_global_settings E (gw_store g) = Inr global \<and> load_sandbox_settings E i (gw_store g) = Inr own \<and>
    map_of (gc_settings c) = effective_spec (ev_dev_settings E) global own \<and>
    gc_policy c = Some p \<and> policy_safe p \<and>
    (if map_of (se_settings global) POLICY_SETTING_KEY = None
     then gc_policy_source c = SourceSandbox \<and> static_ok b p else gc_policy_source c = SourceGlobal)"
proof -
  have "revisions_of i (gw_store g) \<noteq> []" using assms(3) by (simp add: confined_def)
  then obtain r where r: "get_latest_policy i (gw_store g) = Some r"
    by (cases "get_latest_policy i (gw_store g)") (simp_all add: get_latest_policy_None)
  obtain p where p: "ev_decode_policy E (pr_payload r) = Inr p" "static_ok b p"
    using bspec [OF conjunct2 [OF conjunct2 [OF assms(3) [unfolded confined_def]]] get_latest_policy_Some(1) [OF r]]
    by blast
  obtain global own m gp where settings: "load_global_settings E (gw_store g) = Inr global"
    "load_sandbox_settings E i (gw_store g) = Inr own"
    "merge_effective_settings E global own = Inr m" "map_of m = effective_spec (ev_dev_settings E) global own"
    "decode_policy_from_global_settings E global = Inr gp" "\<forall>p. gp = Some p \<longrightarrow> policy_safe p"
    "gp = None \<longleftrightarrow> map_of (se_settings global) POLICY_SETTING_KEY = None"
    by (rule settings_readable [OF assms(1,2)])
  have sb: "sandbox_by_id E i g = (Inr sb, g)"
    unfolding sandbox_by_id_def then_do_query assms(4) by (simp add: fetched_def ret_def)
  have pol: "sandbox_policy_of E u now i sb g = (Inr (Some p, u32_or_0 (pr_version r), pr_hash r), g)"
    unfolding sandbox_policy_of_def then_do_query r by (simp add: p(1) ret_def)
  have safe: "policy_safe p" using p(2) by (simp add: static_ok_def)
  note reads = get_sandbox_config_eq [OF sb pol settings(1,2,5,3)]
  show ?thesis
  proof (cases gp)
    case None
    have key: "map_of (se_settings global) POLICY_SETTING_KEY = None" using None settings(7) by blast
    show ?thesis
      unfolding reads None option.case
      by (rule exI, rule exI [of _ global], rule exI [of _ own], rule exI [of _ p], intro conjI, rule refl)
        (simp_all add: settings(1,2,4) safe p(2) key)
  next
    case (Some q)
    have key: "(map_of (se_settings global) POLICY_SETTING_KEY = None) = False" "policy_safe q"
      using Some settings(6,7) by blast+
    show ?thesis
      unfolding reads Some option.case
      by (rule exI, rule exI [of _ global], rule exI [of _ own], rule exI [of _ q], intro conjI, rule refl)
        (simp_all add: settings(1,2,4) key)
  qed
qed

section \<open>Creation\<close>

definition sandboxes_ok :: "env \<Rightarrow> store \<Rightarrow> bool" where
  "sandboxes_ok E s \<longleftrightarrow>
     (\<forall>r \<in> set (st_objects s). ob_type r = ''sandbox'' \<longrightarrow>
        (\<exists>sb. ev_decode_sandbox E (ob_payload r) = Inr sb \<and> sb_id sb = ob_id r))"

text \<open>An identifier no row of the store uses.\<close>

definition unused_id :: "string \<Rightarrow> store \<Rightarrow> bool" where
  "unused_id i s \<longleftrightarrow> (\<forall>r \<in> set (st_objects s). ob_id r \<noteq> i) \<and> revisions_of i s = []"

lemma require_providers_state: "snd (require_providers E names g) = g"
  by (induction names)
    (auto simp: then_do_def query_def fetched_def fail_def ret_def split: sum.splits option.splits prod.splits)

lemma prepare_policy_Inr:
  assumes "prepare_policy spec = Inr spec'" "sc_policy spec = Some p"
  shows "sc_policy spec' = Some (ensure_sandbox_process_identity p)" "policy_safe (ensure_sandbox_process_identity p)"
  using assms by (auto simp: prepare_policy_def validate_policy_safety_Inr split: sum.splits)

lemma create_sandbox_Inr:
  assumes "create_sandbox E K now i petname name (Some spec) g = (Inr sb, g')" "sc_policy spec = Some p"
  shows "sb_id sb = i" "\<exists>spec'. sb_spec sb = Some spec' \<and> sc_policy spec' = Some (ensure_sandbox_process_identity p)"
    "policy_safe (ensure_sandbox_process_identity p)" "put_sandbox E now sb (gw_store g) = Inr (gw_store g')"
proof -
  have pol: "sc_policy (with_image K spec) = Some p" using assms(2) by (simp add: with_image_def Let_def)
  have gpu: "(case b of True \<Rightarrow> (case x of None \<Rightarrow> ret () | Some e \<Rightarrow> fail e) | False \<Rightarrow> ret ()) h = (Inr u, h') \<Longrightarrow> h' = h"
    for b x u and h h' :: gateway
    by (auto simp: fail_def ret_def split: bool.splits option.splits)
  have req: "require_providers E names h = (Inr u, h') \<Longrightarrow> h' = h" for names h h' u
    using require_providers_state [of E names h] by simp
  have undo: "undo_create j e h \<noteq> (Inr x, h')" for j e h h' and x :: sandbox
    by (simp add: undo_create_def then_do_def update_def reindex_def fail_def split: prod.splits)
  have kube: "x = y \<and> gw_store h' = gw_store h"
    if "(case r of KubeCreated \<Rightarrow> then_do (notify j) (\<lambda>_. ret x) | KubeConflict \<Rightarrow> undo_create j e
      | KubeError t \<Rightarrow> undo_create j (f t)) h = (Inr y, h')" for r j e f h h' and x y :: sandbox
    using that by (cases r) (auto simp: undo op_Inr)
  obtain spec' where spec': "prepare_policy (with_image K spec) = Inr spec'"
    and sb: "sb = \<lparr>sb_id = i, sb_name = (if name = [] then petname else name), sb_namespace = kb_namespace K,
      sb_spec = Some spec', sb_status = None, sb_phase = 1, sb_created_at_ms = 0, sb_current_policy_version = 0\<rparr>"
    and put: "put_sandbox E now sb (gw_store g) = Inr (gw_store g')"
    using assms(1) unfolding create_sandbox_def Let_def
    by (auto simp: op_Inr ok_or_def dest!: gpu req kube)
  show "sb_id sb = i" "\<exists>spec'. sb_spec sb = Some spec' \<and> sc_policy spec' = Some (ensure_sandbox_process_identity p)"
    "policy_safe (ensure_sandbox_process_identity p)"
    using prepare_policy_Inr [OF spec' pol] by (simp_all add: sb)
  show "put_sandbox E now sb (gw_store g) = Inr (gw_store g')" by (rule put)
qed

lemma config_readable:
  assumes "env_ok E" "sandbox_by_id E i g = (Inr sb, g)"
    "sandbox_policy_of E u now i sb g = (Inr (own_policy, version, hash), h)" "store_typed E (gw_store h)"
  obtains c where "get_sandbox_config E u now i g = (Inr c, h)"
proof -
  obtain global where global: "load_global_settings E (gw_store h) = Inr global" "global_typed E global"
    using assms(4) unfolding store_typed_def by blast
  obtain own where own: "load_sandbox_settings E i (gw_store h) = Inr own"
    "settings_typed (ev_dev_settings E) (se_settings own)"
    using assms(4) unfolding store_typed_def by blast
  have globals: "settings_typed (ev_dev_settings E) (se_settings global)"
    using global(2) unfolding global_typed_def by (rule conjunct1)
  obtain m where m: "merge_effective_settings E global own = Inr m"
    using merge_effective_spec [OF globals own(2)] by (elim exE conjE)
  obtain gp where gp: "decode_policy_from_global_settings E global = Inr gp"
    using global_policy_decodes [OF assms(1) global(2)] by (elim exE conjE)
  show ?thesis by (rule that) (rule get_sandbox_config_eq [OF assms(2,3) global(1) own(1) gp m])
qed

text \<open>The first read of the configuration writes version 1 from the spec.\<close>

lemma first_read:
  assumes "env_ok E" "store_typed E (gw_store g)" "sandbox_by_id E i g = (Inr sb, g)"
    "sb_spec sb = Some spec" "sc_policy spec = Some p" "revisions_of i (gw_store g) = []"
    "u \<notin> pr_id ` set (st_policies (gw_store g))"
  shows "\<exists>c r. fst (get_sandbox_config E u now i g) = Inr c \<and>
    revisions_of i (gw_store (snd (get_sandbox_config E u now i g))) = [r] \<and> pr_payload r = ev_encode_policy E p \<and>
    st_objects (gw_store (snd (get_sandbox_config E u now i g))) = st_objects (gw_store g)"
proof -
  let ?hash = "deterministic_policy_hash E p"
  obtain s where s: "put_policy_revision now u i 1 (ev_encode_policy E p) ?hash (gw_store g) = Inr s"
  proof -
    have "\<not> list_ex (\<lambda>r. pr_id r = u) (st_policies (gw_store g))"
      "\<not> list_ex (\<lambda>r. pr_sandbox r = i \<and> pr_version r = 1) (st_policies (gw_store g))"
      using assms(6,7) by (auto simp: list_ex_iff revisions_of_def filter_empty_conv)
    then show ?thesis by (simp add: that put_policy_revision_def)
  qed
  from s obtain r where r: "st_policies s = st_policies (gw_store g) @ [r]" "pr_sandbox r = i" "pr_version r = 1"
    "pr_payload r = ev_encode_policy E p" "st_objects s = st_objects (gw_store g)"
    by (rule put_policy_revision_rows)
  define t where "t = snd (update_policy_status i 1 ''loaded'' None None s)"
  let ?h = "g\<lparr>gw_store := t\<rparr>"
  have none: "get_latest_policy i (gw_store g) = None" using assms(6) by (simp add: get_latest_policy_None)
  have backfill: "backfill_policy E u now i p g = (Inr (), ?h)"
    by (simp add: backfill_policy_def then_do_def attempt_def s update_def is_ok_def ret_def t_def split: prod.split)
  have pol: "sandbox_policy_of E u now i sb g = (Inr (Some p, 1, ?hash), ?h)"
    unfolding sandbox_policy_of_def then_do_query none option.case assms(4,5) ok_or_def
    by (simp add: then_do_simps assms(5) then_do_def backfill ret_def)
  have objects: "st_objects t = st_objects (gw_store g)" by (simp add: st_objects_policies r(5) t_def)
  have typed: "store_typed E t" using assms(2) store_typed_objects [OF objects, of E] by blast
  obtain c where c: "get_sandbox_config E u now i g = (Inr c, ?h)"
    by (rule config_readable [OF assms(1,3) pol]) (use typed in simp)
  have rows: "revisions_of i t = [r\<lparr>pr_status := ''loaded'', pr_load_error := None, pr_loaded := None\<rparr>]"
    using assms(6) r(1-3) by (simp add: t_def revisions_of_def update_policy_status_def update_where_def filter_map comp_def filter_empty_conv)
  show ?thesis
    unfolding c fst_conv snd_conv gateway.select_convs gateway.update_convs
    by (rule exI [of _ c], rule exI [of _ "r\<lparr>pr_status := ''loaded'', pr_load_error := None, pr_loaded := None\<rparr>"])
      (simp add: rows r(4) objects)
qed

lemma put_new_sandbox:
  assumes "env_ok E" "put_sandbox E now sb s = Inr t" "unused_id (sb_id sb) s"
  obtains sb' where "get_message ''sandbox'' (ev_decode_sandbox E) (sb_id sb) t = Inr (Some sb')"
    "norm_sandbox sb' = norm_sandbox sb" "st_policies t = st_policies s"
    "\<forall>r \<in> set (st_objects t). r \<in> set (st_objects s) \<or>
      ob_type r = ''sandbox'' \<and> ob_id r = sb_id sb \<and> ev_decode_sandbox E (ob_payload r) = Inr sb'"
proof -
  obtain sb' where sb': "ev_decode_sandbox E (ev_encode_sandbox E sb) = Inr sb'" "norm_sandbox sb' = norm_sandbox sb"
    using env_okD(4) [OF assms(1)] by blast
  have t: "st_objects t = st_objects s @ [\<lparr>ob_type = ''sandbox'', ob_id = sb_id sb, ob_name = sb_name sb,
      ob_payload = ev_encode_sandbox E sb, ob_created = now, ob_updated = now\<rparr>]" "st_policies t = st_policies s"
    using assms(2,3) by (auto simp: put_sandbox_def put_object_def unused_id_def list_ex_iff split: if_splits)
  have none: "find (\<lambda>r. ob_type r = ''sandbox'' \<and> ob_id r = sb_id sb) (st_objects s) = None"
    using assms(3) by (simp add: find_None_iff unused_id_def)
  have app: "find P (xs @ ys) = (case find P xs of None \<Rightarrow> find P ys | Some x \<Rightarrow> Some x)" for P :: "object_record \<Rightarrow> bool" and xs ys
    by (induction xs) auto
  have "get_message ''sandbox'' (ev_decode_sandbox E) (sb_id sb) t = Inr (Some sb')"
    by (simp add: get_message_def decode_message_def get_object_def t app none sb')
  then show ?thesis by (rule that [of sb']) (use sb' t in auto)
qed

lemma created_confined:
  assumes "env_ok E" "store_typed E (gw_store g)" "sandboxes_ok E (gw_store g)" "unused_id i (gw_store g)"
    "create_sandbox E K now i petname name (Some spec) g = (Inr sb, g1)" "sc_policy spec = Some p"
    "hm_ok (sp_network_policies p)" "u \<notin> pr_id ` set (st_policies (gw_store g1))"
  shows "store_typed E (gw_store (snd (get_sandbox_config E u at i g1))) \<and>
    confined E i (ensure_sandbox_process_identity p) (gw_store (snd (get_sandbox_config E u at i g1)))"
proof -
  let ?b = "ensure_sandbox_process_identity p" and ?g = "snd (get_sandbox_config E u at i g1)"
  note created = create_sandbox_Inr [OF assms(5,6)]
  obtain spec' where spec': "sb_spec sb = Some spec'" "sc_policy spec' = Some ?b" using created(2) by blast
  have unused: "unused_id (sb_id sb) (gw_store g)" using assms(4) created(1) by simp
  obtain sb' where sb': "get_message ''sandbox'' (ev_decode_sandbox E) i (gw_store g1) = Inr (Some sb')"
    "norm_sandbox sb' = norm_sandbox sb" "st_policies (gw_store g1) = st_policies (gw_store g)"
    "\<forall>r \<in> set (st_objects (gw_store g1)). r \<in> set (st_objects (gw_store g)) \<or>
      ob_type r = ''sandbox'' \<and> ob_id r = i \<and> ev_decode_sandbox E (ob_payload r) = Inr sb'"
    using put_new_sandbox [OF assms(1) created(4) unused] created(1) by metis
  have "has_baseline ?b sb" using spec' by (simp add: has_baseline_def)
  then have base: "has_baseline ?b sb'" "sb_id sb' = i" using has_baseline_norm [OF sb'(2)] created(1) by simp_all
  obtain spec'' q where q: "sb_spec sb' = Some spec''" "sc_policy spec'' = Some q" "norm_policy q = norm_policy ?b"
    using base(1) sb'(2) spec'(1) unfolding has_baseline_def norm_sandbox_def
    by (cases "sb_spec sb'") (auto dest: arg_cong [where f = sb_spec])
  have ok_q: "hm_ok (sp_network_policies q)"
    using norm_policyD(7) [OF q(3)] assms(7) unfolding hm_ok_def ensure_identity_policies
    by (metis mset_eq_imp_distinct_iff mset_map)
  have typed: "store_typed E (gw_store g1)"
    using store_typed_put_other [OF created(4) [unfolded put_sandbox_def] _ _ assms(2)] by (simp add: settings_types)
  have none: "revisions_of i (gw_store g1) = []" using assms(4) sb'(3) by (simp add: unused_id_def revisions_of_def)
  have by_id: "sandbox_by_id E i g1 = (Inr sb', g1)"
    unfolding sandbox_by_id_def then_do_query sb'(1) by (simp add: fetched_def ret_def)
  obtain r where r: "revisions_of i (gw_store ?g) = [r]" "pr_payload r = ev_encode_policy E q"
    "st_objects (gw_store ?g) = st_objects (gw_store g1)"
    using first_read [OF assms(1) typed by_id q(1,2) none assms(8)] by blast
  obtain q' where q': "ev_decode_policy E (ev_encode_policy E q) = Inr q'" "norm_policy q' = norm_policy q"
    using env_okD(1) [OF assms(1) ok_q] by blast
  have "static_ok ?b ?b" using created(3) by (simp add: static_ok_def static_extends_refl)
  then have "static_ok ?b q'" using static_ok_norm(1) q(3) q'(2) by metis
  moreover have "\<exists>x. ev_decode_sandbox E (ob_payload y) = Inr x \<and> sb_id x = ob_id y \<and> (ob_id y = i \<longrightarrow> has_baseline ?b x)"
    if "y \<in> set (st_objects (gw_store g1))" "ob_type y = ''sandbox''" for y
    using sb'(4) [rule_format, OF that(1)]
  proof
    assume y: "y \<in> set (st_objects (gw_store g))"
    with assms(3,4) that(2) show ?thesis unfolding sandboxes_ok_def unused_id_def by blast
  qed (use base in blast)
  ultimately have "confined E i ?b (gw_store ?g)"
    unfolding confined_def r(1,3) by (intro conjI ballI impI) (blast | simp add: r(2) q'(1))+
  moreover have "store_typed E (gw_store ?g)" using typed store_typed_objects [OF r(3), of E] by blast
  ultimately show ?thesis by blast
qed

end
