(* ===== verification/Merging.thy ===== *)
theory Merging
  imports Service
begin

text \<open>
  What an approval does: the merge of a proposed rule is serialised with the other writers of the
  sandbox's policy by the version numbers, and the engine that loads the new revision admits what
  the rule covers without revoking anything.
\<close>

section \<open>Optimistic concurrency\<close>

text \<open>The version a merge answers with, and what its revision is made of.\<close>

definition merged_revision ::
    "env \<Rightarrow> string \<Rightarrow> (sandbox_policy \<Rightarrow> sandbox_policy) \<Rightarrow> store \<Rightarrow> int \<Rightarrow> string \<Rightarrow> bool" where
  "merged_revision E i f t v hash \<longleftrightarrow>
     (\<exists>q. (v = 1 \<and> q = default_policy \<or>
           (\<exists>payload h. revision i t (v - 1) = Some (payload, h) \<and> ev_decode_policy E payload = Inr q)) \<and>
          revision i t v = Some (ev_encode_policy E (f q), hash) \<and>
          hash = deterministic_policy_hash E (f q))"

text \<open>The other writers run statements of the store.\<close>

definition interleaves :: "surroundings \<Rightarrow> bool" where
  "interleaves U \<longleftrightarrow> (\<forall>k s. store_ok s \<longrightarrow> store_steps s (su_others U k s))"

lemma write_next_spec:
  assumes "interleaves U" "store_ok (gw_store g)"
    "write_next E U i k base p g = (Inr r, h)"
  shows "store_steps (gw_store g) (gw_store h)"
    "r = Some (v, hash) \<Longrightarrow> v = base + 1 \<and> hash = deterministic_policy_hash E p \<and>
       revision i (gw_store h) v = Some (ev_encode_policy E p, hash) \<and> revision i (gw_store g) v = None"
proof -
  let ?s = "su_others U k (gw_store g)" and ?hash = "deterministic_policy_hash E p"
  let ?put = "put_policy_revision (su_now U k) (su_uuid U k) i (base + 1) (ev_encode_policy E p) ?hash ?s"
  have steps: "store_steps (gw_store g) ?s" using assms(1,2) by (simp add: interleaves_def)
  have "store_steps (gw_store g) (gw_store h) \<and> (r = Some (v, hash) \<longrightarrow> v = base + 1 \<and> hash = ?hash \<and>
       revision i (gw_store h) v = Some (ev_encode_policy E p, hash) \<and> revision i (gw_store g) v = None)"
  proof (cases ?put)
    case (Inl e)
    then have "r = None \<and> gw_store h = ?s"
      using assms(3) unfolding write_next_def Let_def interfere_def
      by (auto simp: then_do_def update_def attempt_def ret_def fail_def split: if_splits)
    with steps show ?thesis by simp
  next
    case (Inr t)
    then have out: "r = Some (base + 1, ?hash) \<and> gw_store h = snd (supersede_older_policies i (base + 1) t)"
      using assms(3) unfolding write_next_def Let_def interfere_def
      by (auto simp: then_do_def update_def attempt_def ret_def split: prod.splits)
    from Inr obtain row where row: "st_policies t = st_policies ?s @ [row]" "pr_sandbox row = i"
      "pr_version row = base + 1" "pr_payload row = ev_encode_policy E p" "pr_hash row = ?hash"
      "revision i ?s (base + 1) = None"
      by (rule put_policy_revision_rows)
    have "store_step ?s t" using Inr by (rule store_step.put_policy_revision)
    moreover have sup: "store_step t (gw_store h)" using out store_step.supersede_older_policies by metis
    ultimately have "store_steps (gw_store g) (gw_store h)" using steps by (meson rtranclp.rtrancl_into_rtrancl)
    moreover have "revision i t (base + 1) = Some (ev_encode_policy E p, ?hash)"
      using row by (simp add: revision_add [OF row(1)])
    then have "revision i (gw_store h) (base + 1) = Some (ev_encode_policy E p, ?hash)"
      by (rule revision_kept [OF sup])
    ultimately show ?thesis using out revisions.absent_before [OF steps row(6)] by auto
  qed
  then show "store_steps (gw_store g) (gw_store h)"
    "r = Some (v, hash) \<Longrightarrow> v = base + 1 \<and> hash = ?hash \<and>
       revision i (gw_store h) v = Some (ev_encode_policy E p, hash) \<and> revision i (gw_store g) v = None"
    by blast+
qed

lemma latest_revision:
  assumes "store_ok s" "get_latest_policy i s = Some r"
  shows "revision i s (pr_version r) = Some (pr_payload r, pr_hash r)"
  using get_latest_policy_Some(1) [OF assms(2)] by (auto simp: revision_iff [OF assms(1)])

text \<open>One attempt at a version: the read and the write in one statement.\<close>

lemma attempt_merged:
  assumes "interleaves U" "store_ok (gw_store g)"
    "(case get_latest_policy i (gw_store g) of Some r \<Rightarrow> decode_stored E r | None \<Rightarrow> Inr default_policy) = Inr q"
    "write_next E U i k (latest_version i (gw_store g)) (f q) g = (Inr (Some (v, hash)), h)"
  shows "merged_revision E i f (gw_store h) v hash" "v = latest_version i (gw_store g) + 1"
    "revision i (gw_store g) v = None"
proof -
  note w = write_next_spec [OF assms(1,2,4)]
  from w(2) [OF refl]
  have new: "v = latest_version i (gw_store g) + 1" "hash = deterministic_policy_hash E (f q)"
    "revision i (gw_store h) v = Some (ev_encode_policy E (f q), hash)" "revision i (gw_store g) v = None"
    by blast+
  then show "v = latest_version i (gw_store g) + 1" "revision i (gw_store g) v = None" by blast+
  show "merged_revision E i f (gw_store h) v hash"
  proof (cases "get_latest_policy i (gw_store g)")
    case None
    with assms(3) new(1) have "q = default_policy" "v = 1" by (simp_all add: latest_version_def)
    then show ?thesis unfolding merged_revision_def using new(2,3) by blast
  next
    case (Some r)
    then have "ev_decode_policy E (pr_payload r) = Inr q"
      using assms(3) by (auto simp: decode_stored_def split: sum.splits)
    moreover have "revision i (gw_store h) (v - 1) = Some (pr_payload r, pr_hash r)"
      using revisions.kept_steps [OF w(1) latest_revision [OF assms(2) Some]] new(1) Some by (simp add: latest_version_def)
    ultimately show ?thesis unfolding merged_revision_def using new(2,3) by blast
  qed
qed

lemma latest_base: "(case get_latest_policy i s of Some r \<Rightarrow> pr_version r | None \<Rightarrow> 0) = latest_version i s"
  by (simp add: latest_version_def split: option.split)

lemma merge_attempts_spec:
  assumes "interleaves U" "store_ok (gw_store g)"
    "merge_attempts E U i name rule ks g = (Inr (v, hash), h)"
  shows "merged_revision E i (merge_into_policy name rule) (gw_store h) v hash \<and>
    store_steps (gw_store g) (gw_store h) \<and> revision i (gw_store g) v = None"
  using assms(2,3)
proof (induction ks arbitrary: g)
  case Nil
  then show ?case by (simp add: fail_def)
next
  case (Cons k ks)
  from Cons.prems(2) obtain q r h' where
    q: "(case get_latest_policy i (gw_store g) of Some r \<Rightarrow> decode_stored E r | None \<Rightarrow> Inr default_policy) = Inr q"
    and w: "write_next E U i k (latest_version i (gw_store g)) (merge_into_policy name rule q) g = (Inr r, h')"
    and rest: "(case r of Some out \<Rightarrow> ret out | None \<Rightarrow> merge_attempts E U i name rule ks) h' = (Inr (v, hash), h)"
    by (auto simp: op_Inr latest_base)
  note spec = write_next_spec [OF assms(1) Cons.prems(1) w]
  show ?case
  proof (cases r)
    case None
    from spec(1) have ok: "store_ok (gw_store h')" using Cons.prems(1) store_steps_ok by blast
    from rest None have "merge_attempts E U i name rule ks h' = (Inr (v, hash), h)" by simp
    note IH = Cons.IH [OF ok this]
    have "store_steps (gw_store g) (gw_store h)" using IH spec(1) by (meson rtranclp_trans)
    moreover have "revision i (gw_store g) v = None" using IH revisions.absent_before [OF spec(1)] by blast
    ultimately show ?thesis using IH by blast
  next
    case (Some out)
    with rest have out: "out = (v, hash)" "h = h'" by (simp_all add: ret_def)
    note m = attempt_merged [where f = "merge_into_policy name rule", OF assms(1) Cons.prems(1) q w [unfolded Some out(1)]]
    with spec(1) out(2) show ?thesis by simp
  qed
qed

lemma remove_attempts_spec:
  assumes "interleaves U" "store_ok (gw_store g)"
    "remove_attempts E U i name binary ks g = (Inr (v, hash), h)"
  shows "merged_revision E i (remove_from_policy name binary) (gw_store h) v hash \<and>
    store_steps (gw_store g) (gw_store h) \<and> revision i (gw_store g) v = None"
  using assms(2,3)
proof (induction ks arbitrary: g)
  case Nil
  then show ?case by (simp add: fail_def)
next
  case (Cons k ks)
  from Cons.prems(2) obtain q r h' where
    q: "(case get_latest_policy i (gw_store g) of Some r \<Rightarrow> decode_stored E r | None \<Rightarrow> Inr default_policy) = Inr q"
    and w: "write_next E U i k (latest_version i (gw_store g)) (remove_from_policy name binary q) g = (Inr r, h')"
    and rest: "(case r of Some out \<Rightarrow> ret out | None \<Rightarrow> remove_attempts E U i name binary ks) h' = (Inr (v, hash), h)"
    by (auto simp: op_Inr ok_or_eq_Inr latest_version_def)
  note spec = write_next_spec [OF assms(1) Cons.prems(1) w]
  show ?case
  proof (cases r)
    case None
    from spec(1) have ok: "store_ok (gw_store h')" using Cons.prems(1) store_steps_ok by blast
    from rest None have "remove_attempts E U i name binary ks h' = (Inr (v, hash), h)" by simp
    note IH = Cons.IH [OF ok this]
    have "store_steps (gw_store g) (gw_store h)" using IH spec(1) by (meson rtranclp_trans)
    moreover have "revision i (gw_store g) v = None" using IH revisions.absent_before [OF spec(1)] by blast
    ultimately show ?thesis using IH by blast
  next
    case (Some out)
    with rest have out: "out = (v, hash)" "h = h'" by (simp_all add: ret_def)
    note m = attempt_merged [where f = "remove_from_policy name binary", OF assms(1) Cons.prems(1) q w [unfolded Some out(1)]]
    with spec(1) out(2) show ?thesis by simp
  qed
qed

section \<open>What a merged rule covers\<close>

text \<open>An endpoint that is found again by its host and port covers the same connections.\<close>

definition same_destination :: "network_endpoint \<Rightarrow> network_endpoint \<Rightarrow> bool" where
  "same_destination e e' \<longleftrightarrow> ep_host e = ep_host e' \<and> ep_port e = ep_port e'"

lemma fold_add_binary:
  "set (map nb_path (fold add_binary bs cs)) = set (map nb_path bs) \<union> set (map nb_path cs)"
proof -
  have one: "nb_path ` set (add_binary b cs) = insert (nb_path b) (nb_path ` set cs)" for b cs
    by (auto simp: add_binary_def list_ex_iff) (metis imageI)
  show ?thesis by (induction bs arbitrary: cs) (simp_all add: one)
qed

lemma fold_add_endpoint_keeps: "set cs \<subseteq> set (fold add_endpoint es cs)"
  by (induction es arbitrary: cs) (auto simp: add_endpoint_def, force)

lemma fold_add_endpoint_new:
  "e \<in> set es \<Longrightarrow> \<exists>e' \<in> set (fold add_endpoint es cs). same_destination e' e \<and> (e' \<in> set es \<or> e' \<in> set cs)"
proof (induction es arbitrary: cs)
  case (Cons x es)
  show ?case
  proof (cases "e = x")
    case True
    obtain e' where e': "e' \<in> set (add_endpoint x cs)" "same_destination e' x" "e' = x \<or> e' \<in> set cs"
    proof (cases "list_ex (\<lambda>y. ep_host y = ep_host x \<and> ep_port y = ep_port x) cs")
      case True
      then show ?thesis using that by (auto simp: add_endpoint_def same_destination_def list_ex_iff)
    next
      case False
      then show ?thesis by (intro that [of x]) (simp_all add: add_endpoint_def same_destination_def)
    qed
    then have "e' \<in> set (fold add_endpoint es (add_endpoint x cs))" using fold_add_endpoint_keeps by blast
    with e' True show ?thesis by auto
  next
    case False
    with Cons.prems have "e \<in> set es" by simp
    from Cons.IH [OF this, of "add_endpoint x cs"] show ?thesis
      by (auto simp: add_endpoint_def split: if_splits)
  qed
qed simp

text \<open>The endpoints of a rule and of the stored one agree on the ports they list where they agree on host and port.\<close>

definition ports_agree :: "network_policy_rule \<Rightarrow> network_policy_rule \<Rightarrow> bool" where
  "ports_agree r existing \<longleftrightarrow>
     (\<forall>e \<in> set (npr_endpoints r). \<forall>e' \<in> set (npr_endpoints r) \<union> set (npr_endpoints existing).
        same_destination e' e \<longrightarrow> endpoint_json_ports e' = endpoint_json_ports e \<and> ep_host e \<noteq> [])"

lemma merge_rule_covers_new:
  assumes "rule_covers B r n x" "ports_agree r existing"
  shows "rule_covers B (merge_rule r existing) n x"
proof -
  from assms(1) obtain e b where e: "e \<in> set (npr_endpoints r)" "endpoint_covers B e n"
    and b: "b \<in> set (npr_binaries r)" "binary_matches B (nb_path b) x"
    by (auto simp: rule_covers_def list_ex_iff)
  from fold_add_endpoint_new [OF e(1), of "npr_endpoints existing"]
  obtain e' where e': "e' \<in> set (npr_endpoints (merge_rule r existing))" "same_destination e' e"
    "e' \<in> set (npr_endpoints r) \<union> set (npr_endpoints existing)"
    by (auto simp: merge_rule_def)
  with assms(2) e(1) have "endpoint_json_ports e' = endpoint_json_ports e" "ep_host e \<noteq> []"
    unfolding ports_agree_def by blast+
  with e(2) e'(2) have cov: "endpoint_covers B e' n"
    by (auto simp: endpoint_covers_def same_destination_def split: if_splits)
  have "nb_path b \<in> set (map nb_path (npr_binaries (merge_rule r existing)))"
    using b(1) by (simp add: merge_rule_def fold_add_binary del: set_map) simp
  then obtain b' where "b' \<in> set (npr_binaries (merge_rule r existing))" "nb_path b' = nb_path b" by auto
  with cov e'(1) b(2) show ?thesis unfolding rule_covers_def list_ex_iff by metis
qed

lemma merge_rule_covers_old:
  assumes "rule_covers B existing n x"
  shows "rule_covers B (merge_rule r existing) n x"
proof -
  from assms obtain e b where e: "e \<in> set (npr_endpoints existing)" "endpoint_covers B e n"
    and b: "b \<in> set (npr_binaries existing)" "binary_matches B (nb_path b) x"
    by (auto simp: rule_covers_def list_ex_iff)
  have "e \<in> set (npr_endpoints (merge_rule r existing))"
    using e(1) fold_add_endpoint_keeps by (auto simp: merge_rule_def)
  moreover have "nb_path b \<in> set (map nb_path (npr_binaries (merge_rule r existing)))"
    using b(1) by (simp add: merge_rule_def fold_add_binary del: set_map) simp
  then obtain b' where "b' \<in> set (npr_binaries (merge_rule r existing))" "nb_path b' = nb_path b" by auto
  ultimately show ?thesis using e(2) b(2) unfolding rule_covers_def list_ex_iff by metis
qed

definition policy_covers :: "builtins \<Rightarrow> sandbox_policy \<Rightarrow> net_doc \<Rightarrow> exec_doc \<Rightarrow> bool" where
  "policy_covers B p n x \<longleftrightarrow> (\<exists>(k, r) \<in> set (sp_network_policies p). rule_covers B r n x)"

lemma policy_covers_map:
  "hm_ok (sp_network_policies p) \<Longrightarrow>
   policy_covers B p n x \<longleftrightarrow> (\<exists>k r. map_of (sp_network_policies p) k = Some r \<and> rule_covers B r n x)"
  unfolding policy_covers_def using hm_ok_map_of by fastforce

lemma merge_into_policy_covers:
  assumes "hm_ok (sp_network_policies p)"
  shows "policy_covers B p n x \<Longrightarrow> policy_covers B (merge_into_policy name rule p) n x"
    and "rule_covers B rule n x \<Longrightarrow> (\<And>existing. map_of (sp_network_policies p) name = Some existing \<Longrightarrow> ports_agree rule existing) \<Longrightarrow>
      policy_covers B (merge_into_policy name rule p) n x"
proof -
  note m = policy_covers_map [OF merge_into_policy_ok [OF assms]] map_of_merge_into_policy
  show "policy_covers B (merge_into_policy name rule p) n x" if "policy_covers B p n x"
  proof -
    from that obtain k r where k: "map_of (sp_network_policies p) k = Some r" "rule_covers B r n x"
      unfolding policy_covers_map [OF assms] by blast
    show ?thesis
    proof (cases "k = name")
      case True
      with k merge_rule_covers_old [OF k(2), of rule] show ?thesis unfolding m by (intro exI [of _ name]) simp
    next
      case False
      with k show ?thesis unfolding m by (intro exI [of _ k]) simp
    qed
  qed
  show "policy_covers B (merge_into_policy name rule p) n x" if "rule_covers B rule n x"
    "\<And>existing. map_of (sp_network_policies p) name = Some existing \<Longrightarrow> ports_agree rule existing"
    unfolding m using that merge_rule_covers_new [OF that(1)]
    by (intro exI [of _ name]) (auto split: option.split)
qed

text \<open>The decision of the engine is coverage.\<close>

lemma engine_decides:
  assumes "engine_from_proto R baked p = Inr eng" "hm_ok (sp_network_policies p)"
  shows "(\<exists>m. evaluate_network_action B eng i = AllowNet m) \<longleftrightarrow>
    policy_covers B p \<lparr>n_host = ni_host i, n_port = unat (ni_port i)\<rparr>
      \<lparr>x_path = from_utf8_lossy (ni_binary_path i), x_ancestors = map from_utf8_lossy (ni_ancestors i),
       x_cmdline = map from_utf8_lossy (ni_cmdline_paths i)\<rparr>"
proof (cases "evaluate_network_action B eng i")
  case (AllowNet m)
  with network_action_covers [OF assms refl refl, of B i] show ?thesis
    unfolding policy_covers_def by simp blast
next
  case (DenyNet reason)
  with network_action_covers [OF assms refl refl, of B i] show ?thesis
    unfolding policy_covers_def list_ex_iff by simp
qed

lemma policy_covers_norm:
  assumes "norm_policy q = norm_policy p"
  shows "policy_covers B q n x = policy_covers B p n x"
  by (simp only: policy_covers_def norm_policyD(6) [OF assms])

section \<open>Approving a chunk\<close>

lemma merge_chunk_spec:
  assumes "interleaves U" "store_ok (gw_store g)" "merge_chunk_into_policy E U i chunk g = (Inr (v, hash), h)"
  obtains rule where "ev_decode_rule E (dc_rule chunk) = Inr rule"
    "merged_revision E i (merge_into_policy (dc_rule_name chunk) rule) (gw_store h) v hash"
    "store_steps (gw_store g) (gw_store h)" "revision i (gw_store g) v = None"
proof (cases "ev_decode_rule E (dc_rule chunk)")
  case (Inl e)
  with assms(3) show ?thesis by (simp add: merge_chunk_into_policy_def fail_def)
next
  case (Inr rule)
  with assms(3) have "merge_attempts E U i (dc_rule_name chunk) rule [1 ..< Suc MERGE_RETRY_LIMIT] g = (Inr (v, hash), h)"
    by (simp add: merge_chunk_into_policy_def)
  from merge_attempts_spec [OF assms(1,2) this] Inr show ?thesis by (intro that) blast+
qed

lemma set_status_steps:
  assumes "set_status c st at g = (Inr u, h)"
  shows "store_step (gw_store g) (gw_store h)"
proof -
  obtain b t where "update_draft_chunk_status c st at (gw_store g) = Inr (b, t)" "gw_store h = t"
    using assms by (auto simp: set_status_def commit_Inr map_sum_Inr)
  then show ?thesis using store_step.update_draft_chunk_status by metis
qed

lemma approve_Inr:
  assumes "approve_draft_chunk E U name c g = (Inr (v, hash), h)"
  obtains sb chunk version h1 h2 where "get_draft_chunk c (gw_store g) = Some chunk"
    "dc_status chunk = ''pending'' \<or> dc_status chunk = ''rejected''"
    "get_message_by_name ''sandbox'' (ev_decode_sandbox E) name (gw_store g) = Inr (Some sb)"
    "merge_chunk_into_policy E U (sb_id sb) chunk g = (Inr (version, hash), h1)"
    "set_status c ''approved'' (Some (su_now U 0)) h1 = (Inr (), h2)" "gw_store h = gw_store h2"
    "v = u32_or_0 version"
proof -
  have read: "require_no_global_policy E g = (Inr (), g') \<Longrightarrow> g' = g" for g' and g :: gateway
    by (auto simp: require_no_global_policy_def loading_def op_Inr)
  have sb: "sandbox_by_name E name g = (Inr sb, g') \<Longrightarrow>
      g' = g \<and> get_message_by_name ''sandbox'' (ev_decode_sandbox E) name (gw_store g) = Inr (Some sb)" for sb g' and g :: gateway
    by (auto simp: sandbox_by_name_def fetched_def op_Inr split: sum.splits option.splits)
  have chunk: "chunk_by_id c g = (Inr x, g') \<Longrightarrow> g' = g \<and> get_draft_chunk c (gw_store g) = Some x" for x g' and g :: gateway
    by (auto simp: chunk_by_id_def op_Inr ok_or_eq_Inr)
  from assms show ?thesis
    unfolding approve_draft_chunk_def named_def check_Inr then_do_Inr case_prod_unfold basic_Inr
    by (elim exE conjE) (auto dest!: read sb chunk intro: that)
qed

end
