(* ===== verification/GatewayProps.thy ===== *)
theory GatewayProps
  imports Merging
begin

text \<open>
  The properties of the gateway's service and the runs they are applied to: a small store with one
  sandbox and one proposal, on the encodings of \<open>Wire\<close>.
\<close>

section \<open>An example\<close>

definition example_policy :: sandbox_policy where
  "example_policy =
     \<lparr>sp_version = 1, sp_filesystem = Some \<lparr>fs_include_workdir = True, fs_read_only = [''/usr''], fs_read_write = [''/tmp'']\<rparr>,
      sp_landlock = None, sp_process = Some \<lparr>pp_run_as_user = ''sandbox'', pp_run_as_group = ''sandbox''\<rparr>,
      sp_network_policies = []\<rparr>"

definition example_spec :: sandbox_spec where
  "example_spec = \<lparr>sc_log_level = '''', sc_environment = [], sc_template = None, sc_policy = Some example_policy,
     sc_providers = [], sc_gpu = False\<rparr>"

definition example_cluster :: cluster where
  "example_cluster = \<lparr>kb_default_image = ''img'', kb_namespace = ''ns'', kb_gpu_support = None,
     kb_create = (\<lambda>_. KubeCreated), kb_delete = (\<lambda>_. Inr True), kb_get = (\<lambda>_. KubePresent),
     kb_agent_pod_ip = (\<lambda>_. Inr None)\<rparr>"

definition gateway_of :: "store \<Rightarrow> gateway" where
  "gateway_of s = \<lparr>gw_store = s, gw_index = \<lparr>ix_sandbox_name_to_id = [], ix_agent_pod_to_id = []\<rparr>, gw_events = []\<rparr>"

definition alone :: surroundings where
  "alone = \<lparr>su_uuid = (\<lambda>k. ''u'' @ dec k), su_now = int, su_others = (\<lambda>_ s. s)\<rparr>"

definition example_rule :: network_policy_rule where
  "example_rule = \<lparr>npr_name = ''allow_x_443'',
     npr_endpoints = [\<lparr>ep_host = ''x'', ep_port = 443, ep_protocol = '''', ep_tls = '''', ep_enforcement = '''',
       ep_access = '''', ep_rules = [], ep_allowed_ips = [], ep_ports = []\<rparr>],
     npr_binaries = [\<lparr>nb_path = ''/b'', nb_harness = False\<rparr>]\<rparr>"

definition example_chunk :: draft_chunk where
  "example_chunk = \<lparr>dc_id = ''c1'', dc_sandbox = ''s1'', dc_version = 1, dc_status = ''pending'', dc_rule_name = ''allow_x_443'',
     dc_rule = ev_encode_rule example_env example_rule, dc_rationale = '''', dc_notes = '''', dc_confidence = 0,
     dc_created = 0, dc_decided = None, dc_host = ''x'', dc_port = 443, dc_binary = ''/b'', dc_hits = 1,
     dc_first_seen = 0, dc_last_seen = 0\<rparr>"

definition example_sandbox :: sandbox where
  "example_sandbox = \<lparr>sb_id = ''s1'', sb_name = ''box'', sb_namespace = ''ns'', sb_spec = Some example_spec,
     sb_status = None, sb_phase = 2, sb_created_at_ms = 0, sb_current_policy_version = 0\<rparr>"

definition example_store :: store where
  "example_store =
     \<lparr>st_objects = [\<lparr>ob_type = ''sandbox'', ob_id = ''s1'', ob_name = ''box'',
        ob_payload = ev_encode_sandbox example_env example_sandbox, ob_created = 0, ob_updated = 0\<rparr>],
      st_policies = [], st_chunks = [example_chunk]\<rparr>"

lemma example_laws:
  "ev_decode_sandbox example_env (ev_encode_sandbox example_env sb) = Inr sb"
  "ev_decode_rule example_env (ev_encode_rule example_env r) = Inr r"
  "hm_ok (sp_network_policies p) \<Longrightarrow> ev_decode_policy example_env (ev_encode_policy example_env p) = Inr p"
  unfolding example_env_def env.simps by (simp_all add: decode_whole_encode codec_rules)

lemma example_reads:
  "get_message_by_name ''sandbox'' (ev_decode_sandbox example_env) ''box'' example_store = Inr (Some example_sandbox)"
  "get_message ''sandbox'' (ev_decode_sandbox example_env) ''s1'' example_store = Inr (Some example_sandbox)"
  "get_latest_policy i example_store = None"
  "get_draft_chunk ''c1'' example_store = Some example_chunk"
  "load_global_settings E example_store = Inr default_settings"
  "store_ok example_store"
  by (simp_all add: example_store_def get_message_by_name_def get_message_def get_object_by_name_def get_object_def
      decode_message_def example_laws get_latest_policy_None revisions_of_def get_draft_chunk_def example_chunk_def
      load_defs settings_types store_ok_def active_status_def)

lemma alone_interleaves: "interleaves alone"
  by (simp add: interleaves_def alone_def)

lemma example_approval:
  "\<exists>hash h. approve_draft_chunk example_env alone ''box'' ''c1'' (gateway_of example_store) = (Inr (1, hash), h)"
proof -
  have gw: "gw_store (gateway_of s) = s" for s by (simp add: gateway_of_def)
  have id: "sb_id example_sandbox = ''s1''" by (simp add: example_sandbox_def)
  let ?p = "merge_into_policy ''allow_x_443'' example_rule default_policy"
  obtain t where t: "put_policy_revision 1 (''u'' @ dec 1) ''s1'' 1 (ev_encode_policy example_env ?p)
      (deterministic_policy_hash example_env ?p) example_store = Inr t"
    by (simp add: put_policy_revision_def example_store_def)
  from put_policy_revision_rows [OF t] have chunks: "st_chunks t = [example_chunk]"
    by (metis example_store_def store.select_convs(3))
  have global: "require_no_global_policy example_env (gateway_of example_store) = (Inr (), gateway_of example_store)"
    by (simp add: require_no_global_policy_def loading_def then_do_def query_def lift_def gw example_reads
        check_eq ret_def default_settings_def)
  have sb: "sandbox_by_name example_env ''box'' (gateway_of example_store) = (Inr example_sandbox, gateway_of example_store)"
    by (simp add: sandbox_by_name_def then_do_query gw example_reads fetched_def ret_def)
  have chunk: "chunk_by_id ''c1'' (gateway_of example_store) = (Inr example_chunk, gateway_of example_store)"
    by (simp add: chunk_by_id_def then_do_query gw example_reads ok_or_def lift_def)
  let ?h = "(gateway_of example_store)\<lparr>gw_store := snd (supersede_older_policies ''s1'' 1 t)\<rparr>"
  have wrote: "write_next example_env alone ''s1'' 1 0 ?p (gateway_of example_store) =
      (Inr (Some (1, deterministic_policy_hash example_env ?p)), ?h)"
    by (simp add: write_next_def Let_def interfere_def then_do_def update_def alone_def attempt_def gw
        t [simplified] ret_def case_prod_unfold)
  have range: "[1 ..< Suc MERGE_RETRY_LIMIT] = 1 # [2 ..< 6]"
    by (simp add: MERGE_RETRY_LIMIT_def upt_conv_Cons numeral_2_eq_2)
  have merge: "merge_chunk_into_policy example_env alone ''s1'' example_chunk (gateway_of example_store) =
      (Inr (1, deterministic_policy_hash example_env ?p), ?h)"
    unfolding merge_chunk_into_policy_def range
    by (simp add: example_chunk_def example_laws then_do_query gw example_reads(3) then_do_simps,
        simp add: then_do_def wrote [unfolded One_nat_def] ret_def)
  have rows: "st_chunks (snd (supersede_older_policies ''s1'' 1 t)) = [example_chunk]"
    by (simp add: supersede_older_policies_def update_where_def chunks)
  obtain u where u: "update_draft_chunk_status ''c1'' ''approved'' (Some 0) (snd (supersede_older_policies ''s1'' 1 t)) = Inr (True, u)"
    unfolding update_draft_chunk_status_def rows by (simp add: Let_def example_chunk_def)
  have decided: "set_status ''c1'' ''approved'' (Some (su_now alone 0)) ?h = (Inr (), ?h\<lparr>gw_store := u\<rparr>)"
    by (simp add: set_status_def commit_def alone_def u)
  have status: "dc_status example_chunk = ''pending''" by (simp add: example_chunk_def)
  show ?thesis
    unfolding approve_draft_chunk_def named_def check_eq
    by (simp add: then_do_eq [where m = "require_no_global_policy example_env", OF global]
        then_do_eq [where m = "sandbox_by_name example_env ''box''", OF sb]
        then_do_eq [where m = "chunk_by_id ''c1''", OF chunk] check_eq status id
        then_do_eq [where m = "merge_chunk_into_policy example_env alone ''s1'' example_chunk", OF merge]
        then_do_eq [where m = "set_status ''c1'' ''approved'' (Some (su_now alone 0))", OF decided])
      (simp add: then_do_def notify_def ret_def u32_or_0_def)
qed

section \<open>Approvals\<close>

text \<open>The network and process part of an engine's input, and a connection that the engine admits.\<close>

definition input_net :: "network_input \<Rightarrow> net_doc" where
  "input_net i = \<lparr>n_host = ni_host i, n_port = unat (ni_port i)\<rparr>"

definition input_exec :: "network_input \<Rightarrow> exec_doc" where
  "input_exec i = \<lparr>x_path = from_utf8_lossy (ni_binary_path i), x_ancestors = map from_utf8_lossy (ni_ancestors i),
     x_cmdline = map from_utf8_lossy (ni_cmdline_paths i)\<rparr>"

definition admits :: "builtins \<Rightarrow> opa_engine \<Rightarrow> network_input \<Rightarrow> bool" where
  "admits B eng i \<longleftrightarrow> (\<exists>m. evaluate_network_action B eng i = AllowNet m)"

lemma admits_iff:
  assumes "engine_from_proto R baked p = Inr eng" "hm_ok (sp_network_policies p)"
  shows "admits B eng i \<longleftrightarrow> policy_covers B p (input_net i) (input_exec i)"
  unfolding admits_def input_net_def input_exec_def by (rule engine_decides [OF assms])

lemma merged_revision_kept:
  assumes "merged_revision E i f s v hash" "store_steps s t"
  shows "merged_revision E i f t v hash"
  using assms(1) revisions.kept_steps [OF assms(2)] unfolding merged_revision_def by blast

text \<open>What an approval did, on the final store.\<close>

lemma approve_spec:
  assumes "interleaves U" "store_ok (gw_store g)" "approve_draft_chunk E U name c g = (Inr (v, hash), h)"
  obtains chunk rule sb version where "get_draft_chunk c (gw_store g) = Some chunk"
    "dc_status chunk = ''pending'' \<or> dc_status chunk = ''rejected''"
    "ev_decode_rule E (dc_rule chunk) = Inr rule"
    "get_message_by_name ''sandbox'' (ev_decode_sandbox E) name (gw_store g) = Inr (Some sb)" "v = u32_or_0 version"
    "merged_revision E (sb_id sb) (merge_into_policy (dc_rule_name chunk) rule) (gw_store h) version hash"
    "revision (sb_id sb) (gw_store g) version = None" "store_steps (gw_store g) (gw_store h)"
proof (rule approve_Inr [OF assms(3)])
  fix sb chunk version h1 h2
  assume chunk: "get_draft_chunk c (gw_store g) = Some chunk" "dc_status chunk = ''pending'' \<or> dc_status chunk = ''rejected''"
    and sb: "get_message_by_name ''sandbox'' (ev_decode_sandbox E) name (gw_store g) = Inr (Some sb)"
    and merge: "merge_chunk_into_policy E U (sb_id sb) chunk g = (Inr (version, hash), h1)"
    and status: "set_status c ''approved'' (Some (su_now U 0)) h1 = (Inr (), h2)"
    and h: "gw_store h = gw_store h2" and v: "v = u32_or_0 version"
  from merge_chunk_spec [OF assms(1,2) merge] obtain rule where rule: "ev_decode_rule E (dc_rule chunk) = Inr rule"
    "merged_revision E (sb_id sb) (merge_into_policy (dc_rule_name chunk) rule) (gw_store h1) version hash"
    "store_steps (gw_store g) (gw_store h1)" "revision (sb_id sb) (gw_store g) version = None" .
  have last: "store_steps (gw_store h1) (gw_store h)" using set_status_steps [OF status] h by simp
  show thesis
    by (rule that [OF chunk rule(1) sb v merged_revision_kept [OF rule(2) last] rule(4)])
      (use rule(3) last in \<open>rule rtranclp_trans\<close>)
qed

text \<open>C4: Approvals are serialised: whatever statements other writers run while an approval reads the
  policy, merges the proposal and writes the result, a successful approval answers with a new
  version, the revision of that version is the merge of the proposed rule into the revision
  before it, and no revision that was there is changed.\<close>

theorem approval_is_serialised:
  assumes "interleaves U" "store_ok (gw_store g)" "approve_draft_chunk E U name c g = (Inr (v, hash), h)"
  shows "\<exists>chunk rule sb version. get_draft_chunk c (gw_store g) = Some chunk \<and>
    ev_decode_rule E (dc_rule chunk) = Inr rule \<and>
    get_message_by_name ''sandbox'' (ev_decode_sandbox E) name (gw_store g) = Inr (Some sb) \<and> v = u32_or_0 version \<and>
    revision (sb_id sb) (gw_store g) version = None \<and>
    merged_revision E (sb_id sb) (merge_into_policy (dc_rule_name chunk) rule) (gw_store h) version hash \<and>
    (\<forall>i w x. revision i (gw_store g) w = Some x \<longrightarrow> revision i (gw_store h) w = Some x)"
  by (rule approve_spec [OF assms]) (blast intro: revisions.kept_steps)

theorem approval_is_serialised_witness:
  "\<exists>hash h rule. approve_draft_chunk example_env alone ''box'' ''c1'' (gateway_of example_store) = (Inr (1, hash), h) \<and>
     (\<exists>version. 1 = u32_or_0 version \<and>
       merged_revision example_env ''s1'' (merge_into_policy ''allow_x_443'' rule) (gw_store h) version hash)"
proof -
  obtain hash h where run: "approve_draft_chunk example_env alone ''box'' ''c1'' (gateway_of example_store) = (Inr (1, hash), h)"
    using example_approval by blast
  have ok: "store_ok (gw_store (gateway_of example_store))" by (simp add: gateway_of_def example_reads)
  have reads: "get_message_by_name ''sandbox'' (ev_decode_sandbox example_env) ''box'' (gw_store (gateway_of example_store)) =
      Inr (Some example_sandbox)" "get_draft_chunk ''c1'' (gw_store (gateway_of example_store)) = Some example_chunk"
    by (simp_all add: gateway_of_def example_reads)
  have names: "sb_id example_sandbox = ''s1''" "dc_rule_name example_chunk = ''allow_x_443''"
    by (simp_all add: example_sandbox_def example_chunk_def)
  from approval_is_serialised [OF alone_interleaves ok run] show ?thesis
    unfolding reads using run names by (metis Inr_inject option.inject)
qed



section \<open>Names of proposals\<close>

definition proposed_rule :: "string \<Rightarrow> string \<Rightarrow> network_policy_rule option" where
  "proposed_rule host binary = ch_proposed_rule (hd (generate_proposals (\<lambda>_. False) (\<lambda>_. Inr []) sample_order
     [sample_denial\<lparr>ds_host := host, ds_binary := binary\<rparr>]))"


section \<open>Confinement\<close>

lemma serve_all_typed:
  assumes "env_ok E" "\<forall>c \<in> set cs. call_ok (store_typed E) i c" "store_typed E (gw_store g)"
  shows "store_typed E (gw_store (serve_all E cs g))"
  using assms(2,3)
proof (induction cs arbitrary: g)
  case Nil
  then show ?case by (simp add: serve_all_def)
next
  case (Cons c cs)
  with Cons.IH [of "serve E c g"] serve_typed [OF assms(1), of i c g] show ?case by (simp add: serve_all_def)
qed

lemma confined_lookup:
  assumes "confined E i b s"
  obtains "get_message ''sandbox'' (ev_decode_sandbox E) i s = Inr None"
  | sb where "get_message ''sandbox'' (ev_decode_sandbox E) i s = Inr (Some sb)"
proof (cases "get_object ''sandbox'' i s")
  case None
  then show thesis using that(1) by (simp add: get_message_def decode_message_def)
next
  case (Some r)
  then have "r \<in> set (st_objects s)" "ob_type r = ''sandbox''"
    by (auto simp: get_object_def find_Some_iff dest: find_mem)
  with assms obtain sb where "ev_decode_sandbox E (ob_payload r) = Inr sb" unfolding confined_def by blast
  with Some show thesis using that(2) by (simp add: get_message_def decode_message_def)
qed

lemma missing_sandbox:
  "get_message ''sandbox'' (ev_decode_sandbox E) i (gw_store g) = Inr None \<Longrightarrow>
   get_sandbox_config E u now i g = (Inl (NotFound ''sandbox not found''), g)"
  by (simp add: get_sandbox_config_def sandbox_by_id_def then_do_query fetched_def then_do_simps)
     (simp add: fail_def then_do_def query_def fetched_def)

text \<open>What a read of a sandbox's configuration may answer when the sandbox is bound to a baseline.\<close>

fun bound_to :: "sandbox_policy \<Rightarrow> status + sandbox_config_response \<Rightarrow> bool" where
  "bound_to b (Inl e) \<longleftrightarrow> e = NotFound ''sandbox not found''"
| "bound_to b (Inr c) \<longleftrightarrow>
     (\<exists>p. gc_policy c = Some p \<and> policy_safe p \<and> (gc_policy_source c = SourceSandbox \<longrightarrow> static_extends b p))"



text \<open>C8: Settings keep their types: after any sequence of calls to the gateway on a store whose settings have
  their registered kinds, the effective settings of every sandbox can be computed, there is one
  entry for each registered key and no other, and every value has the kind its key is
  registered with.\<close>

theorem effective_settings_typed:
  assumes "env_ok E" "store_typed E (gw_store g)" "\<forall>c \<in> set cs. call_ok (store_typed E) i c"
  shows "\<exists>global own m. load_global_settings E (gw_store (serve_all E cs g)) = Inr global \<and>
    load_sandbox_settings E j (gw_store (serve_all E cs g)) = Inr own \<and>
    merge_effective_settings E global own = Inr m \<and>
    (\<forall>k. map_of m k = None \<longleftrightarrow> setting_for_key (ev_dev_settings E) k = None) \<and>
    (\<forall>k e x v. setting_for_key (ev_dev_settings E) k = Some e \<longrightarrow> map_of m k = Some x \<longrightarrow> es_value x = Some v \<longrightarrow>
       (\<exists>w. sv_value v = Some w \<and> inner_kind w = Some (rs_kind e)))"
proof -
  let ?s = "gw_store (serve_all E cs g)" and ?key = "setting_for_key (ev_dev_settings E)"
  have typed: "store_typed E ?s" by (rule serve_all_typed [OF assms(1,3,2)])
  obtain global own m where m: "load_global_settings E ?s = Inr global" "load_sandbox_settings E j ?s = Inr own"
    "merge_effective_settings E global own = Inr m" "map_of m = effective_spec (ev_dev_settings E) global own"
    by (rule settings_readable [OF assms(1) typed, of j])
  have kinds: "settings_typed (ev_dev_settings E) (se_settings global)" "settings_typed (ev_dev_settings E) (se_settings own)"
    using typed m(1,2) unfolding store_typed_def global_typed_def by (metis sum.inject(2))+
  have "\<exists>w. sv_value v = Some w \<and> inner_kind w = Some (rs_kind e)"
    if "?key k = Some e" "map_of m k = Some x" "es_value x = Some v" for k e x v
    using that(2,3) kinds [unfolded settings_typed_def] that(1)
    by (auto simp: m(4) effective_spec_def inner_of_kind split: option.splits if_splits)
  then show ?thesis
    by (intro exI [of _ global] exI [of _ own] exI [of _ m] conjI m(1-3) allI impI)
      (simp add: m(4) effective_spec_def split: option.splits)
qed

definition setting_call :: service_call where
  "setting_call = CallUpdateConfig ''u'' 1 \<lparr>uc_name = '''', uc_policy = None, uc_setting_key = ''dummy_bool'',
     uc_setting_value = Some \<lparr>sv_value = Some (BoolValue True)\<rparr>, uc_delete_setting = False, uc_global = True\<rparr>"

theorem effective_settings_typed_witness:
  "\<exists>global own m. load_global_settings example_env (gw_store (serve_all example_env [setting_call, SweepSessions 3] (gateway_of empty_store))) = Inr global \<and>
     load_sandbox_settings example_env ''s1'' (gw_store (serve_all example_env [setting_call, SweepSessions 3] (gateway_of empty_store))) = Inr own \<and>
     merge_effective_settings example_env global own = Inr m \<and>
     (\<forall>k. map_of m k = None \<longleftrightarrow> setting_for_key (ev_dev_settings example_env) k = None)"
proof -
  have start: "store_typed example_env (gw_store (gateway_of empty_store))"
    by (simp add: gateway_of_def store_typed_empty empty_store_def)
  have calls: "\<forall>c \<in> set [setting_call, SweepSessions 3]. call_ok (store_typed example_env) ''s1'' c"
    by (simp add: setting_call_def request_ok_def)
  from effective_settings_typed [OF example_env_ok start calls, of "''s1''"] show ?thesis by blast
qed
end
