(* ===== verification/TunnelProps.thy ===== *)
theory TunnelProps
  imports Tunnel GatewayProps
begin

text \<open>
  The handshake of \<open>Tunnel\<close> composed from both ends, what the nonce cache of the sandbox prevents
  and what it does not, the connection limits under any interleaving of connections, and who may
  open a tunnel.
\<close>

section \<open>Words of a preface\<close>

definition graphic :: "string \<Rightarrow> bool" where
  "graphic w \<longleftrightarrow> list_all (\<lambda>c. 33 \<le> code c \<and> code c < 127) w"

lemma ws_len_graphic: "33 \<le> code c \<Longrightarrow> code c < 127 \<Longrightarrow> ws_len (c # s) = 0"
  by (cases "c # s" rule: ws_len.cases) (auto simp: ws1_def ws2_def ws3_def)

lemma ws_len_space: "ws_len (CHR '' '' # s) = 1"
  by (cases "CHR '' '' # s" rule: ws_len.cases) (auto simp: ws1_def code_def)

lemma words_from_graphic: "graphic w \<Longrightarrow> words_from acc (w @ s) = words_from (rev w @ acc) s"
  by (induction w arbitrary: acc) (simp_all add: graphic_def ws_len_graphic)

lemma words_from_space:
  "words_from acc (CHR '' '' # s) = (if acc = [] then words_from [] s else rev acc # words_from [] s)"
  by (simp add: ws_len_space)

lemma words_from_word:
  "graphic w \<Longrightarrow> w \<noteq> [] \<Longrightarrow> words_from [] (w @ CHR '' '' # s) = w # words_from [] s"
  "graphic w \<Longrightarrow> w \<noteq> [] \<Longrightarrow> words_from [] w = [w]"
  using words_from_graphic [of w "[]" "CHR '' '' # s"] words_from_graphic [of w "[]" "[]"]
  by (simp_all add: ws_len_space)

lemma graphic_ascii: "graphic w \<Longrightarrow> is_ascii_str w"
  by (auto simp: graphic_def is_ascii_str_def list_all_iff)

lemma graphic_no_newline: "graphic w \<Longrightarrow> CHR 0x0A \<notin> set w"
  by (auto simp: graphic_def list_all_iff code_def)

lemma graphic_dec: "graphic (dec n)"
  unfolding graphic_def list_all_iff
proof
  fix c assume "c \<in> set (dec n)"
  then show "33 \<le> code c \<and> code c < 127"
    using to_radix_chars [of 10 c n] unfolding dec_def by (auto simp: ascii_defs)
qed

lemma dec_not_Nil: "dec n \<noteq> []"
  by (simp add: dec_def to_radix_not_Nil)

lemma parse_i64_dec: "n < 2 ^ 63 \<Longrightarrow> parse_i64 (dec n) = Some (int n)"
proof -
  assume n: "n < 2 ^ 63"
  obtain c u where cu: "dec n = c # u" using dec_not_Nil by (cases "dec n") auto
  have "c \<noteq> CHR ''-''"
    using to_radix_chars [of 10 c n] cu unfolding dec_def by (auto simp: ascii_defs code_def)
  moreover have "from_str_radix 63 10 (dec n) = Some n"
    unfolding dec_def by (rule from_str_radix_to_radix) (use n in simp_all)
  ultimately show ?thesis using cu by (simp add: parse_i64_def)
qed

lemma line_bytes_whole:
  "CHR 0x0A \<notin> set l \<Longrightarrow> k + length l \<le> 1024 \<Longrightarrow> line_bytes k (l @ CHR 0x0A # r) = (l, r)"
  by (induction l arbitrary: k) auto

lemma read_line_whole:
  "CHR 0x0A \<notin> set l \<Longrightarrow> length l \<le> 1024 \<Longrightarrow> is_ascii_str l \<Longrightarrow> read_line (l @ CHR 0x0A # r) = (l, r)"
  by (simp add: read_line_def line_bytes_whole from_utf8_lossy_valid is_utf8_ascii)

section \<open>The handshake\<close>

text \<open>The line that the gateway sends.\<close>

definition preface_line :: "(string \<Rightarrow> bytes \<Rightarrow> string) \<Rightarrow> string \<Rightarrow> string \<Rightarrow> nat \<Rightarrow> string \<Rightarrow> string" where
  "preface_line hmac token secret now nonce =
     PREFACE_MAGIC @ '' '' @ token @ '' '' @ dec now @ '' '' @ nonce @ '' '' @
       hmac secret (preface_payload token (int now) nonce)"

lemma build_preface_line:
  "now < 2 ^ 63 \<Longrightarrow> build_preface hmac token secret now nonce = Inr (preface_line hmac token secret now nonce @ [CHR 0x0A])"
  by (simp add: build_preface_def preface_line_def)

lemma preface_line_words:
  assumes "graphic token" "token \<noteq> []" "graphic nonce" "nonce \<noteq> []"
    "graphic (hmac secret (preface_payload token (int now) nonce))" "hmac secret (preface_payload token (int now) nonce) \<noteq> []"
  shows "split_whitespace (preface_line hmac token secret now nonce) =
    [PREFACE_MAGIC, token, dec now, nonce, hmac secret (preface_payload token (int now) nonce)]"
proof -
  have magic: "graphic PREFACE_MAGIC" "PREFACE_MAGIC \<noteq> []" by (simp_all add: graphic_def PREFACE_MAGIC_def code_def)
  show ?thesis
    unfolding split_whitespace_def preface_line_def
    using words_from_word(1) [OF magic] words_from_word(1) [OF assms(1,2)] words_from_word(1) [OF graphic_dec dec_not_Nil]
      words_from_word(1) [OF assms(3,4)] words_from_word(2) [OF assms(5,6)] by simp
qed

lemma preface_line_plain:
  assumes "graphic token" "graphic nonce" "graphic (hmac secret (preface_payload token (int now) nonce))"
  shows "CHR 0x0A \<notin> set (preface_line hmac token secret now nonce)" "is_ascii_str (preface_line hmac token secret now nonce)"
  unfolding preface_line_def using assms graphic_dec [of now]
  by (auto simp: graphic_no_newline PREFACE_MAGIC_def is_ascii_str_def code_def dest!: graphic_ascii)

lemma skew_small:
  assumes "- (2 ^ 63) \<le> d" "d < 2 ^ 63"
  shows "sint (word_of_int d :: 64 word) = d"
  using assms by (simp add: sint_sbintrunc' signed_take_bit_int_eq_self)

lemma verify_fresh_preface:
  assumes "split_whitespace line = [PREFACE_MAGIC, token, ts, nonce, hmac secret (preface_payload token n nonce)]"
    "parse_i64 ts = Some n" "now < 2 ^ 63" "0 \<le> n" "n < 2 ^ 63" "\<bar>int now - n\<bar> \<le> int (unat skew)" "map_of cache nonce = None"
  shows "verify_preface hmac line secret skew now instant cache = (Inr True, hm_insert nonce instant cache)"
proof -
  have "int now < 2 ^ 63" using assms(3) by simp
  then have "\<bar>int now - n\<bar> < 2 ^ 63" using assms(4,5) by linarith
  then have "\<not> unat skew < nat \<bar>sint (word_of_int (int now - n) :: 64 word)\<bar>"
    using assms(6) skew_small [of "int now - n"] by linarith
  with assms show ?thesis by (simp add: verify_preface_def)
qed

lemma connect_attempts_at:
  assumes "j < n" "\<forall>i < j. \<exists>e. connect i = Inl e" "connect j = Inr p"
  shows "connect_attempts connect [0 ..< n] err = Inr p"
proof -
  have "connect_attempts connect [i ..< n] err = Inr p" if "i \<le> j" for i err
    using that
  proof (induction "j - i" arbitrary: i err)
    case 0
    then show ?case using assms by (simp add: upt_conv_Cons)
  next
    case (Suc d)
    then obtain e where "connect i = Inl e" using assms(2) by (metis Suc_diff_le diff_is_0_eq' le_imp_less_Suc less_or_eq_imp_le nat.simps(3) not_less)
    then show ?case using Suc assms(1) by (simp add: upt_conv_Cons)
  qed
  then show ?thesis by simp
qed

text \<open>C34: The two ends of the handshake fit: when one of the attempts to connect reaches a sandbox that
  shares the secret, whose clock is within the allowed skew and which has not seen the nonce, the
  sandbox accepts the preface that the gateway builds, remembers its nonce and starts the SSH
  server with nothing left over, and the gateway takes the answer for a success and has consumed
  exactly that answer.\<close>

theorem handshake_completes:
  assumes "graphic token" "token \<noteq> []" "graphic nonce" "nonce \<noteq> []"
    "graphic (hmac secret (preface_payload token (int now) nonce))" "hmac secret (preface_payload token (int now) nonce) \<noteq> []"
    "length (preface_line hmac token secret now nonce) \<le> 1024" "now < 2 ^ 63" "now' < 2 ^ 63"
    "\<bar>int now' - int now\<bar> \<le> int (unat skew)" "map_of cache nonce = None"
    "j < length TUNNEL_DELAYS_ms" "\<forall>i < j. \<exists>e. connect i = Inl e"
    "connect j = Inr (\<lambda>sent. fst (fst (handle_connection hmac secret skew now' instant sent cache)))"
  shows "handle_connection hmac secret skew now' instant (preface_line hmac token secret now nonce @ [CHR 0x0A]) cache =
      ((''OK'' @ [CHR 0x0A], Some []), hm_insert nonce instant cache) \<and>
    handle_tunnel hmac connect token secret now nonce = Inr []"
proof -
  let ?line = "preface_line hmac token secret now nonce"
  have read: "read_line (?line @ [CHR 0x0A]) = (?line, [])"
    by (rule read_line_whole) (use preface_line_plain [of token nonce hmac secret now] assms(1,3,5,7) in simp_all)
  have "verify_preface hmac ?line secret skew now' instant cache = (Inr True, hm_insert nonce instant cache)"
    using verify_fresh_preface [of ?line token "dec now" nonce hmac secret "int now" now' skew cache instant]
      preface_line_words [of token nonce hmac secret now] assms(1-6,8-11) parse_i64_dec [OF assms(8)] by simp
  then have sandbox: "handle_connection hmac secret skew now' instant (?line @ [CHR 0x0A]) cache =
      ((''OK'' @ [CHR 0x0A], Some []), hm_insert nonce instant cache)"
    by (simp add: handle_connection_def read)
  have "read_line (''OK'' @ [CHR 0x0A]) = (''OK'', [])" "str_trim ''OK'' = ''OK''" by code_simp+
  then have "handle_tunnel hmac connect token secret now nonce = Inr []"
    unfolding handle_tunnel_def connect_attempts_at [OF assms(12-14)] build_preface_line [OF assms(8)]
    by (simp add: sandbox [simplified])
  with sandbox show ?thesis by blast
qed

text \<open>A hash with a constant text, which stands for hexadecimal.\<close>

theorem handshake_completes_witness:
  "handle_tunnel (\<lambda>_ _. ''ab12'') (\<lambda>i. if i < 2 then Inl ''refused'' else
      Inr (\<lambda>sent. fst (fst (handle_connection (\<lambda>_ _. ''ab12'') ''secret'' 300 1010 0 sent [])))) ''tok'' ''secret'' 1000 ''n1'' = Inr []"
proof -
  have word: "graphic ''tok''" "graphic ''n1''" "graphic ''ab12''" by code_simp+
  have len: "length (preface_line (\<lambda>_ _. ''ab12'') ''tok'' ''secret'' 1000 ''n1'') \<le> 1024" by code_simp
  show ?thesis
    by (rule handshake_completes [of "''tok''" "''n1''" "\<lambda>_ _. ''ab12''" "''secret''" 1000 1010 300 "[]" 2 _ 0, THEN conjunct2])
      (use word len in \<open>simp_all add: TUNNEL_DELAYS_ms_def\<close>)
qed

section \<open>Replays\<close>

text \<open>
  A sandbox's life as connections with their first line and sweeps of the nonce cache, each at a
  time in nanoseconds; the wall clock in seconds and the monotonic clock advance together.
\<close>

datatype handshake_event = Preface int string | Sweep int

fun event_time :: "handshake_event \<Rightarrow> int" where
  "event_time (Preface t line) = t"
| "event_time (Sweep t) = t"

definition wall :: "int \<Rightarrow> nat" where
  "wall t = nat (t div 1000000000)"

fun accepted_prefaces :: "(string \<Rightarrow> bytes \<Rightarrow> string) \<Rightarrow> string \<Rightarrow> u64 \<Rightarrow> handshake_event list \<Rightarrow> nonce_cache \<Rightarrow> (int \<times> string) list" where
  "accepted_prefaces hmac secret skew [] cache = []"
| "accepted_prefaces hmac secret skew (Preface t line # es) cache =
     (case verify_preface hmac line secret skew (wall t) t cache of (r, cache) \<Rightarrow>
        (if r = Inr True then [(t, line)] else []) @ accepted_prefaces hmac secret skew es cache)"
| "accepted_prefaces hmac secret skew (Sweep t # es) cache =
     accepted_prefaces hmac secret skew es (reap_nonces skew t cache)"

text \<open>The parts of a line, the timestamp as the code reads it.\<close>

definition preface_parts :: "string \<Rightarrow> (string \<times> int \<times> string \<times> string) option" where
  "preface_parts line =
     (case split_whitespace line of
        [magic, token, ts, nonce, signature] \<Rightarrow> Some (token, unwrap_or (parse_i64 ts) 0, nonce, signature)
      | _ \<Rightarrow> None)"

definition line_nonce :: "string \<Rightarrow> string" where
  "line_nonce line = (case preface_parts line of Some (_, _, nonce, _) \<Rightarrow> nonce | None \<Rightarrow> [])"

definition line_timestamp :: "string \<Rightarrow> int" where
  "line_timestamp line = (case preface_parts line of Some (_, ts, _, _) \<Rightarrow> ts | None \<Rightarrow> 0)"

text \<open>An authentic line at a wall clock.\<close>

definition authentic :: "(string \<Rightarrow> bytes \<Rightarrow> string) \<Rightarrow> string \<Rightarrow> u64 \<Rightarrow> nat \<Rightarrow> string \<Rightarrow> bool" where
  "authentic hmac secret skew now line \<longleftrightarrow>
     (\<exists>token ts nonce. preface_parts line = Some (token, ts, nonce, hmac secret (preface_payload token ts nonce)) \<and>
        \<bar>int now - ts\<bar> \<le> int (unat skew))"

lemma parse_i64_range:
  assumes "parse_i64 s = Some n"
  shows "- (2 ^ 63) \<le> n \<and> n < 2 ^ 63"
  using assms from_str_radix_less [of 63 10 s]
  by (auto simp: parse_i64_def split: list.splits if_splits option.splits)

lemma wrapped_skew:
  assumes "now < 2 ^ 62" "- (2 ^ 63) \<le> ts" "ts < 2 ^ 63" "s < 2 ^ 62"
    "\<not> s < nat \<bar>sint (word_of_int (int now - ts) :: 64 word)\<bar>"
  shows "\<bar>int now - ts\<bar> \<le> int s"
proof (cases "int now - ts < 2 ^ 63")
  case True
  have "int now < 2 ^ 62" using assms(1) by simp
  with True assms(3) have "\<bar>int now - ts\<bar> < 2 ^ 63" by linarith
  then show ?thesis using assms(5) skew_small [of "int now - ts"] by linarith
next
  case False
  have now: "int now < 2 ^ 62" using assms(1) by simp
  have pow: "(2 :: int) ^ 64 = 2 * 2 ^ 63" "(2 :: int) ^ 63 = 2 * 2 ^ 62" by simp_all
  let ?d = "int now - ts - 2 ^ 64"
  have "(word_of_int (int now - ts) :: 64 word) = word_of_int ?d"
    by (rule word_of_int_eq_iff [THEN iffD2]) (simp add: take_bit_eq_mod)
  moreover have "- (2 ^ 63) \<le> ?d" "?d < 2 ^ 63" using False now assms(2) pow by linarith+
  ultimately have "sint (word_of_int (int now - ts) :: 64 word) = ?d" using skew_small by metis
  moreover have "int s < 2 ^ 62" using assms(4) by simp
  ultimately show ?thesis using assms(5) now assms(2) pow by linarith
qed

text \<open>What an accepted line satisfies, and the cache after any line.\<close>

lemma verify_accepts:
  assumes "verify_preface hmac line secret skew now instant cache = (r, cache')"
  shows "r \<noteq> Inr True \<Longrightarrow> cache' = cache"
    and "r = Inr True \<Longrightarrow> now < 2 ^ 62 \<Longrightarrow> unat skew < 2 ^ 62 \<Longrightarrow>
      authentic hmac secret skew now line \<and> map_of cache (line_nonce line) = None \<and>
      cache' = hm_insert (line_nonce line) instant cache"
proof -
  show "r \<noteq> Inr True \<Longrightarrow> cache' = cache"
    using assms by (auto simp: verify_preface_def Let_def split: list.splits if_splits)
  assume accepted: "r = Inr True" and small: "now < 2 ^ 62" "unat skew < 2 ^ 62"
  let ?ts = "\<lambda>s. unwrap_or (parse_i64 s) 0"
  obtain token ts nonce signature where words: "split_whitespace line = [PREFACE_MAGIC, token, ts, nonce, signature]"
    and fresh: "\<not> unat skew < nat \<bar>sint (word_of_int (int now - ?ts ts) :: 64 word)\<bar>"
    and signed: "signature = hmac secret (preface_payload token (?ts ts) nonce)"
    and new: "map_of cache nonce = None" "cache' = hm_insert nonce instant cache"
    using assms accepted by (auto simp: verify_preface_def Let_def split: list.splits if_splits)
  have "- (2 ^ 63) \<le> ?ts ts \<and> ?ts ts < 2 ^ 63"
    using parse_i64_range [of ts] by (cases "parse_i64 ts") auto
  then have "\<bar>int now - ?ts ts\<bar> \<le> int (unat skew)"
    using wrapped_skew [OF small(1) _ _ small(2) fresh] by blast
  with words signed new show "authentic hmac secret skew now line \<and> map_of cache (line_nonce line) = None \<and>
      cache' = hm_insert (line_nonce line) instant cache"
    by (simp add: authentic_def preface_parts_def line_nonce_def)
qed

lemma map_of_filter_distinct:
  "distinct (map fst m) \<Longrightarrow> map_of (filter P m) k = (case map_of m k of Some v \<Rightarrow> if P (k, v) then Some v else None | None \<Rightarrow> None)"
  by (induction m) (auto split: option.splits dest: map_of_SomeD simp: image_iff)

definition window :: "u64 \<Rightarrow> int" where
  "window skew = int (unat skew) * 1000000000"

lemma window_nonneg: "0 \<le> window skew"
  by (simp add: window_def)

lemma map_of_reap:
  "hm_ok cache \<Longrightarrow> map_of (reap_nonces skew t cache) k =
     (case map_of cache k of Some v \<Rightarrow> if t - v < window skew then Some v else None | None \<Rightarrow> None)"
  unfolding reap_nonces_def hm_ok_def window_def by (simp only: map_of_filter_distinct prod.case)

lemma hm_ok_reap: "hm_ok cache \<Longrightarrow> hm_ok (reap_nonces skew t cache)"
  by (simp add: hm_ok_def reap_nonces_def distinct_map_filter)

lemma hm_ok_verify: "hm_ok cache \<Longrightarrow> hm_ok (snd (verify_preface hmac line secret skew now instant cache))"
  by (auto simp: verify_preface_def Let_def hm_ok_insert split: list.splits)

text \<open>A nonce is blocked at a time when it is in the cache or a window has passed since it was.\<close>

definition blocked :: "u64 \<Rightarrow> string \<Rightarrow> int \<Rightarrow> nonce_cache \<Rightarrow> int \<Rightarrow> bool" where
  "blocked skew nonce t cache now \<longleftrightarrow> (\<exists>v. map_of cache nonce = Some v \<and> t \<le> v) \<or> t + window skew \<le> now"

definition run_ok :: "u64 \<Rightarrow> handshake_event list \<Rightarrow> bool" where
  "run_ok skew es \<longleftrightarrow> unat skew < 2 ^ 62 \<and> sorted (map event_time es) \<and> (\<forall>e \<in> set es. wall (event_time e) < 2 ^ 62)"

lemma run_ok_Cons: "run_ok skew (e # es) \<Longrightarrow> run_ok skew es \<and> (\<forall>x \<in> set es. event_time e \<le> event_time x)"
  by (simp add: run_ok_def)

lemma blocked_until:
  assumes "run_ok skew es" "\<forall>e \<in> set es. now \<le> event_time e" "hm_ok cache" "blocked skew nonce t cache now"
    "(t2, line) \<in> set (accepted_prefaces hmac secret skew es cache)" "line_nonce line = nonce"
  shows "t + window skew \<le> t2"
  using assms(1-5)
proof (induction es arbitrary: cache now)
  case Nil
  then show ?case by simp
next
  case (Cons e es)
  have later: "\<forall>x \<in> set es. event_time e \<le> event_time x" and ok: "run_ok skew es" and now: "now \<le> event_time e"
    using run_ok_Cons [OF Cons.prems(1)] Cons.prems(2) by auto
  show ?case
  proof (cases e)
    case (Sweep s)
    have "blocked skew nonce t (reap_nonces skew s cache) s"
      using Cons.prems(4) now Sweep by (auto simp: blocked_def map_of_reap [OF Cons.prems(3)])
    then show ?thesis
      using Cons.IH [OF ok, of s "reap_nonces skew s cache"] later Cons.prems(3,5) Sweep by (simp add: hm_ok_reap)
  next
    case (Preface s l)
    obtain r c where v: "verify_preface hmac l secret skew (wall s) s cache = (r, c)" by fastforce
    have small: "wall s < 2 ^ 62" "unat skew < 2 ^ 62" using Cons.prems(1) Preface by (auto simp: run_ok_def)
    have hm: "hm_ok c" using hm_ok_verify [OF Cons.prems(3), of hmac l secret skew "wall s" s] v by simp
    have new: "map_of cache (line_nonce l) = None \<and> c = hm_insert (line_nonce l) s cache" if "r = Inr True"
      using verify_accepts(2) [OF v that small] by blast
    have "blocked skew nonce t c s"
      using Cons.prems(4) now Preface new verify_accepts(1) [OF v]
      by (cases "r = Inr True") (auto simp: blocked_def map_of_hm_insert)
    then have rest: "(t2, line) \<in> set (accepted_prefaces hmac secret skew es c) \<Longrightarrow> t + window skew \<le> t2"
      using Cons.IH [OF ok, of s c] later Preface hm by simp
    show ?thesis
    proof (cases "r = Inr True \<and> (t2, line) = (s, l)")
      case True
      then show ?thesis using new Cons.prems(4) assms(6) now Preface by (auto simp: blocked_def)
    next
      case False
      then show ?thesis using rest Cons.prems(5) Preface v by (auto split: if_splits)
    qed
  qed
qed

lemma accepted_spaced:
  assumes "run_ok skew es" "hm_ok cache"
  shows "sorted_wrt (\<lambda>(t, l) (t2, l2). line_nonce l2 = line_nonce l \<longrightarrow> t + window skew \<le> t2)
    (accepted_prefaces hmac secret skew es cache)"
  using assms
proof (induction es arbitrary: cache)
  case Nil
  then show ?case by simp
next
  case (Cons e es)
  have later: "\<forall>x \<in> set es. event_time e \<le> event_time x" and ok: "run_ok skew es"
    using run_ok_Cons [OF Cons.prems(1)] by auto
  show ?case
  proof (cases e)
    case (Sweep s)
    then show ?thesis using Cons.IH [OF ok] Cons.prems(2) by (simp add: hm_ok_reap)
  next
    case (Preface s l)
    obtain r c where v: "verify_preface hmac l secret skew (wall s) s cache = (r, c)" by fastforce
    have small: "wall s < 2 ^ 62" "unat skew < 2 ^ 62" using Cons.prems(1) Preface by (auto simp: run_ok_def)
    have hm: "hm_ok c" using hm_ok_verify [OF Cons.prems(2), of hmac l secret skew "wall s" s] v by simp
    have "blocked skew (line_nonce l) s c s" if "r = Inr True"
      using verify_accepts(2) [OF v that small] by (simp add: blocked_def map_of_hm_insert)
    then have "\<forall>(t2, l2) \<in> set (accepted_prefaces hmac secret skew es c). r = Inr True \<longrightarrow> line_nonce l2 = line_nonce l \<longrightarrow> s + window skew \<le> t2"
      using blocked_until [OF ok _ hm] later Preface by auto
    then show ?thesis using Cons.IH [OF ok hm] Preface v by (auto split: if_splits)
  qed
qed

lemma accepted_authentic:
  assumes "run_ok skew es" "(t, line) \<in> set (accepted_prefaces hmac secret skew es cache)"
  shows "authentic hmac secret skew (wall t) line"
  using assms
proof (induction es arbitrary: cache)
  case (Cons e es)
  have ok: "run_ok skew es" using run_ok_Cons [OF Cons.prems(1)] by blast
  show ?case
  proof (cases e)
    case (Preface s l)
    obtain r c where v: "verify_preface hmac l secret skew (wall s) s cache = (r, c)" by fastforce
    have small: "wall s < 2 ^ 62" "unat skew < 2 ^ 62" using Cons.prems(1) Preface by (auto simp: run_ok_def)
    show ?thesis
      using Cons.IH [OF ok, of c] Cons.prems(2) Preface v verify_accepts(2) [OF v _ small] by (auto split: if_splits)
  qed (use Cons.IH [OF ok] Cons.prems(2) in simp)
qed simp


text \<open>A run on which one line is accepted twice: the skew is 300 seconds.\<close>

definition replayed_line :: string where
  "replayed_line = preface_line (\<lambda>_ _. ''ab12'') ''tok'' ''secret'' 1000 ''n1''"

definition replay_run :: "handshake_event list" where
  "replay_run = [Preface 1000200000000 replayed_line, Preface 1000300000000 replayed_line, Sweep 1300300000000,
     Preface 1300400000000 replayed_line]"

lemma replay_run_ok: "run_ok 300 replay_run"
  by (simp add: run_ok_def replay_run_def wall_def)

lemma replay_run_accepts:
  "accepted_prefaces (\<lambda>_ _. ''ab12'') ''secret'' 300 replay_run [] =
     [(1000200000000, replayed_line), (1300400000000, replayed_line)]"
  by code_simp



section \<open>Connection limits\<close>

text \<open>
  The handlers of all tunnels run concurrently. Each holds a lock only while it changes one map,
  so the steps are: a token is admitted or refused, then the sandbox is, and at the end the token
  and then the sandbox are given back.
\<close>

datatype tunnel_phase = Admitting | Running | Closing

record tunnels =
  tu_counts :: tunnel_counts
  tu_live :: "(tunnel_phase \<times> string \<times> string) list"

inductive tunnel_step :: "tunnels \<Rightarrow> tunnels \<Rightarrow> bool" where
  token_refused: "acquire_token tk (tu_counts S) = (False, T) \<Longrightarrow> tunnel_step S (S\<lparr>tu_counts := T\<rparr>)"
| token_admitted: "acquire_token tk (tu_counts S) = (True, T) \<Longrightarrow>
    tunnel_step S \<lparr>tu_counts = T, tu_live = (Admitting, tk, sb) # tu_live S\<rparr>"
| sandbox_refused: "tu_live S = xs @ (Admitting, tk, sb) # ys \<Longrightarrow> acquire_sandbox tk sb (tu_counts S) = (False, T) \<Longrightarrow>
    tunnel_step S \<lparr>tu_counts = T, tu_live = xs @ ys\<rparr>"
| sandbox_admitted: "tu_live S = xs @ (Admitting, tk, sb) # ys \<Longrightarrow> acquire_sandbox tk sb (tu_counts S) = (True, T) \<Longrightarrow>
    tunnel_step S \<lparr>tu_counts = T, tu_live = xs @ (Running, tk, sb) # ys\<rparr>"
| token_released: "tu_live S = xs @ (Running, tk, sb) # ys \<Longrightarrow>
    tunnel_step S \<lparr>tu_counts = (tu_counts S)\<lparr>tn_by_token := decrement_connection_count tk (tn_by_token (tu_counts S))\<rparr>,
      tu_live = xs @ (Closing, tk, sb) # ys\<rparr>"
| sandbox_released: "tu_live S = xs @ (Closing, tk, sb) # ys \<Longrightarrow>
    tunnel_step S \<lparr>tu_counts = (tu_counts S)\<lparr>tn_by_sandbox := decrement_connection_count sb (tn_by_sandbox (tu_counts S))\<rparr>,
      tu_live = xs @ ys\<rparr>"

text \<open>A map that counts: an entry for each key of which something is there, with the number.\<close>

definition counts :: "nat \<Rightarrow> (string, u32) hash_map \<Rightarrow> (string \<Rightarrow> nat) \<Rightarrow> bool" where
  "counts limit m f \<longleftrightarrow> (\<forall>k. f k \<le> limit \<and> map_of m k = (if f k = 0 then None else Some (of_nat (f k))))"

lemma counts_value: "counts limit m f \<Longrightarrow> unwrap_or (map_of m k) 0 = of_nat (f k)"
  by (simp add: counts_def)

lemma counts_acquire:
  assumes "counts limit m f" "limit < 2 ^ 32" "\<not> (of_nat limit :: u32) \<le> of_nat (f k)"
  shows "counts limit (hm_insert k (of_nat (f k) + 1) m) (f(k := f k + 1))"
proof -
  have "f k < limit"
    using assms unfolding counts_def
    by (metis le_neq_implies_less order_refl)
  with assms(1) show ?thesis by (auto simp: counts_def map_of_hm_insert)
qed

lemma u32_zero: "n < 2 ^ 32 \<Longrightarrow> (of_nat n :: u32) = 0 \<longleftrightarrow> n = 0"
  by (auto simp: word_of_nat_eq_0_iff dest: nat_dvd_not_less)

lemma counts_release:
  assumes "counts limit m f" "limit < 2 ^ 32" "0 < f k"
  shows "counts limit (decrement_connection_count k m) (f(k := f k - 1))"
proof -
  have le: "f k \<le> limit" and at: "map_of m k = Some (of_nat (f k))" using assms(1,3) by (auto simp: counts_def)
  have small: "f k < 2 ^ 32" using le assms(2) by simp
  have nonzero: "((of_nat (f k) :: u32) = 0) = False" using u32_zero [OF small] assms(3) by simp
  have "1 \<le> f k" using assms(3) by simp
  from of_nat_diff [OF this, where 'a = u32] have minus: "(of_nat (f k) :: u32) - 1 = of_nat (f k - 1)"
    by (simp only: of_nat_1)
  have zero: "(of_nat (f k - 1) :: u32) = 0 \<longleftrightarrow> f k - 1 = 0" by (rule u32_zero) (use small in simp)
  have "decrement_connection_count k m = (if f k - 1 = 0 then hm_remove k m else hm_insert k (of_nat (f k - 1)) m)"
    unfolding decrement_connection_count_def at option.case Let_def nonzero if_False minus zero by (rule refl)
  then have "map_of (decrement_connection_count k m) j = (if (f(k := f k - 1)) j = 0 then None else Some (of_nat ((f(k := f k - 1)) j)))" for j
    using assms(1) by (simp add: counts_def map_of_hm_insert map_of_hm_remove)
  moreover have "(f(k := f k - 1)) j \<le> limit" for j
    using le assms(1) unfolding counts_def by (metis diff_le_self fun_upd_apply le_trans)
  ultimately show ?thesis unfolding counts_def by blast
qed

definition by_token :: "(tunnel_phase \<times> string \<times> string) list \<Rightarrow> string \<Rightarrow> nat" where
  "by_token live tk = length (filter (\<lambda>(p, t, s). p \<noteq> Closing \<and> t = tk) live)"

definition by_sandbox :: "(tunnel_phase \<times> string \<times> string) list \<Rightarrow> string \<Rightarrow> nat" where
  "by_sandbox live sb = length (filter (\<lambda>(p, t, s). p \<noteq> Admitting \<and> s = sb) live)"

definition tunnels_ok :: "tunnels \<Rightarrow> bool" where
  "tunnels_ok S \<longleftrightarrow> counts 3 (tn_by_token (tu_counts S)) (by_token (tu_live S)) \<and>
     counts 20 (tn_by_sandbox (tu_counts S)) (by_sandbox (tu_live S))"

lemma by_token_simps:
  "by_token [] = (\<lambda>_. 0)"
  "by_token (xs @ (p, tk, sb) # ys) = (by_token (xs @ ys))(tk := by_token (xs @ ys) tk + (if p = Closing then 0 else 1))"
  "by_token ((p, tk, sb) # ys) = (by_token ys)(tk := by_token ys tk + (if p = Closing then 0 else 1))"
  by (auto simp: by_token_def fun_eq_iff)

lemma by_sandbox_simps:
  "by_sandbox [] = (\<lambda>_. 0)"
  "by_sandbox (xs @ (p, tk, sb) # ys) = (by_sandbox (xs @ ys))(sb := by_sandbox (xs @ ys) sb + (if p = Admitting then 0 else 1))"
  "by_sandbox ((p, tk, sb) # ys) = (by_sandbox ys)(sb := by_sandbox ys sb + (if p = Admitting then 0 else 1))"
  by (auto simp: by_sandbox_def fun_eq_iff)

lemma release_back:
  assumes "counts limit m (f(k := f k + 1))" "limit < 2 ^ 32"
  shows "counts limit (decrement_connection_count k m) f"
  using counts_release [OF assms, of k] by simp

lemma tunnel_step_ok: "tunnel_step S S' \<Longrightarrow> tunnels_ok S \<Longrightarrow> tunnels_ok S'"
proof (induction rule: tunnel_step.induct)
  case (token_refused tk S T)
  then show ?case by (auto simp: acquire_token_def Let_def split: if_splits)
next
  case (token_admitted tk S T sb)
  let ?f = "by_token (tu_live S)" and ?m = "tn_by_token (tu_counts S)"
  have ok: "counts 3 ?m ?f" "counts 20 (tn_by_sandbox (tu_counts S)) (by_sandbox (tu_live S))"
    using token_admitted(2) by (simp_all add: tunnels_ok_def)
  note num = counts_value [OF ok(1), of tk]
  have "\<not> (of_nat 3 :: u32) \<le> of_nat (?f tk)" "T = (tu_counts S)\<lparr>tn_by_token := hm_insert tk (of_nat (?f tk) + 1) ?m\<rparr>"
    using token_admitted(1) by (auto simp: acquire_token_def num MAX_CONNECTIONS_PER_TOKEN_def Let_def split: if_splits)
  with counts_acquire [OF ok(1), of tk] ok(2) show ?case by (simp add: tunnels_ok_def by_token_simps by_sandbox_simps)
next
  case (sandbox_refused S xs tk sb ys T)
  then have "T = (tu_counts S)\<lparr>tn_by_token := decrement_connection_count tk (tn_by_token (tu_counts S))\<rparr>"
    by (auto simp: acquire_sandbox_def Let_def split: if_splits)
  with sandbox_refused show ?case
    by (auto simp: tunnels_ok_def by_token_simps by_sandbox_simps intro: release_back)
next
  case (sandbox_admitted S xs tk sb ys T)
  let ?f = "by_sandbox (xs @ ys)" and ?m = "tn_by_sandbox (tu_counts S)"
  have ok: "counts 3 (tn_by_token (tu_counts S)) (by_token (tu_live S))" "counts 20 ?m ?f"
    using sandbox_admitted(1,3) by (simp_all add: tunnels_ok_def by_sandbox_simps)
  note num = counts_value [OF ok(2), of sb]
  have "\<not> (of_nat 20 :: u32) \<le> of_nat (?f sb)" "T = (tu_counts S)\<lparr>tn_by_sandbox := hm_insert sb (of_nat (?f sb) + 1) ?m\<rparr>"
    using sandbox_admitted(2) by (auto simp: acquire_sandbox_def num MAX_CONNECTIONS_PER_SANDBOX_def Let_def split: if_splits)
  with counts_acquire [OF ok(2), of sb] ok(1) sandbox_admitted(1) show ?case
    by (simp add: tunnels_ok_def by_token_simps by_sandbox_simps)
next
  case (token_released S xs tk sb ys)
  then show ?case by (auto simp: tunnels_ok_def by_token_simps by_sandbox_simps intro: release_back)
next
  case (sandbox_released S xs tk sb ys)
  then show ?case by (auto simp: tunnels_ok_def by_token_simps by_sandbox_simps intro: release_back)
qed

definition no_tunnels :: tunnels where
  "no_tunnels = \<lparr>tu_counts = \<lparr>tn_by_token = [], tn_by_sandbox = []\<rparr>, tu_live = []\<rparr>"

lemma reachable_tunnels_ok: "tunnel_step\<^sup>*\<^sup>* no_tunnels S \<Longrightarrow> tunnels_ok S"
  by (induction rule: rtranclp_induct)
    (simp add: no_tunnels_def tunnels_ok_def counts_def by_token_def by_sandbox_def, rule tunnel_step_ok)

text \<open>The endpoint and the end of a tunnel are runs of these steps.\<close>

lemma connect_steps:
  assumes "ssh_connect E K cf now is_connect headers s (tu_counts S) = (num, spawned, T)"
  shows "case spawned of
      None \<Rightarrow> tunnel_step\<^sup>*\<^sup>* S (S\<lparr>tu_counts := T\<rparr>)
    | Some (tk, sb, target) \<Rightarrow> num = 200 \<and> tunnel_step\<^sup>*\<^sup>* S \<lparr>tu_counts = T, tu_live = (Running, tk, sb) # tu_live S\<rparr>"
proof (cases "authorize_tunnel E K cf now is_connect headers s")
  case (Inl n)
  then show ?thesis using assms by (auto simp: ssh_connect_def)
next
  case (Inr r)
  obtain tk sb target where r: "r = (tk, sb, target)" by (cases r)
  obtain b1 T1 where t: "acquire_token tk (tu_counts S) = (b1, T1)" by fastforce
  obtain b2 T2 where b: "acquire_sandbox tk sb T1 = (b2, T2)" by fastforce
  let ?A = "\<lparr>tu_counts = T1, tu_live = (Admitting, tk, sb) # tu_live S\<rparr>"
  have live: "tu_live ?A = [] @ (Admitting, tk, sb) # tu_live S" by simp
  show ?thesis
  proof (cases b1)
    case False
    then have "tunnel_step S (S\<lparr>tu_counts := T1\<rparr>)" using t by (simp add: tunnel_step.token_refused)
    then show ?thesis using assms Inr r t False by (auto simp: ssh_connect_def)
  next
    case True
    then have one: "tunnel_step S ?A" using t by (simp add: tunnel_step.token_admitted)
    show ?thesis
    proof (cases b2)
      case False
      have "tunnel_step ?A \<lparr>tu_counts = T2, tu_live = [] @ tu_live S\<rparr>"
        using live b False by (intro sandbox_refused) simp_all
      then have "tunnel_step\<^sup>*\<^sup>* S (S\<lparr>tu_counts := T2\<rparr>)" using one by (cases S) (auto intro: converse_rtranclp_into_rtranclp)
      then show ?thesis using assms Inr r t b True False by (auto simp: ssh_connect_def)
    next
      case admitted: True
      have "tunnel_step ?A \<lparr>tu_counts = T2, tu_live = [] @ (Running, tk, sb) # tu_live S\<rparr>"
        using live b admitted by (intro sandbox_admitted) simp_all
      then have "tunnel_step\<^sup>*\<^sup>* S \<lparr>tu_counts = T2, tu_live = (Running, tk, sb) # tu_live S\<rparr>"
        using one by (auto intro: converse_rtranclp_into_rtranclp)
      then show ?thesis using assms Inr r t b True admitted by (auto simp: ssh_connect_def)
    qed
  qed
qed

text \<open>C32: The connection limits hold: however the handlers of tunnels interleave, the counts are those of
  the tunnels that hold them, at most three tunnels of a token and twenty of a sandbox run at a
  time, and a connection is refused with 429 only when its token or its sandbox has as many.\<close>

theorem connection_limits_hold:
  assumes "tunnel_step\<^sup>*\<^sup>* no_tunnels S"
  shows "by_token (tu_live S) tk \<le> 3 \<and> by_sandbox (tu_live S) sb \<le> 20 \<and>
    unwrap_or (map_of (tn_by_token (tu_counts S)) tk) 0 = of_nat (by_token (tu_live S) tk) \<and>
    unwrap_or (map_of (tn_by_sandbox (tu_counts S)) sb) 0 = of_nat (by_sandbox (tu_live S) sb) \<and>
    (\<forall>E K cf now is_connect headers s spawned T target.
       authorize_tunnel E K cf now is_connect headers s = Inr (tk, sb, target) \<longrightarrow>
       ssh_connect E K cf now is_connect headers s (tu_counts S) = (429, spawned, T) \<longrightarrow>
       by_token (tu_live S) tk = 3 \<or> by_sandbox (tu_live S) sb = 20)"
proof -
  have ok: "counts 3 (tn_by_token (tu_counts S)) (by_token (tu_live S))"
    "counts 20 (tn_by_sandbox (tu_counts S)) (by_sandbox (tu_live S))"
    using reachable_tunnels_ok [OF assms] by (simp_all add: tunnels_ok_def)
  note nums = counts_value [OF ok(1)] counts_value [OF ok(2)]
  have le: "by_token (tu_live S) tk \<le> 3" "by_sandbox (tu_live S) sb \<le> 20" using ok by (simp_all add: counts_def)
  have word: "(of_nat n :: u32) \<le> of_nat m \<longleftrightarrow> n \<le> m" if "n < 2 ^ 32" "m < 2 ^ 32" for n m
    using that by (simp add: word_le_nat_alt unat_of_nat)
  have full: "by_token (tu_live S) tk = 3 \<or> by_sandbox (tu_live S) sb = 20"
    if "authorize_tunnel E K cf now is_connect headers s = Inr (tk, sb, target)"
      "ssh_connect E K cf now is_connect headers s (tu_counts S) = (429, spawned, T)"
    for E K cf now is_connect headers s spawned T target
    using that le word [of 3 "by_token (tu_live S) tk"] word [of 20 "by_sandbox (tu_live S) sb"]
    by (auto simp: ssh_connect_def acquire_token_def acquire_sandbox_def nums MAX_CONNECTIONS_PER_TOKEN_def
        MAX_CONNECTIONS_PER_SANDBOX_def Let_def split: if_splits)
  show ?thesis using le nums full by blast
qed

theorem connection_limits_hold_witness:
  "\<exists>S :: tunnels. by_token (tu_live S) ''tok'' = 1 \<and> unwrap_or (map_of (tn_by_token (tu_counts S)) ''tok'') 0 = 1 \<and>
     by_sandbox (tu_live S) ''s1'' \<le> 20"
proof -
  let ?T = "\<lparr>tn_by_token = [(''tok'', 1)], tn_by_sandbox = []\<rparr>"
  let ?S = "\<lparr>tu_counts = ?T, tu_live = [(Admitting, ''tok'', ''s1'')]\<rparr>"
  have "acquire_token ''tok'' (tu_counts no_tunnels) = (True, ?T)"
    by (simp add: acquire_token_def no_tunnels_def MAX_CONNECTIONS_PER_TOKEN_def)
  from tunnel_step.token_admitted [OF this, of "''s1''"] have "tunnel_step no_tunnels ?S"
    by (simp add: no_tunnels_def)
  then have "tunnel_step\<^sup>*\<^sup>* no_tunnels ?S" by blast
  from connection_limits_hold [OF this, of "''tok''" "''s1''"]
  have "by_token (tu_live ?S) ''tok'' = 1 \<and> unwrap_or (map_of (tn_by_token (tu_counts ?S)) ''tok'') 0 = 1 \<and>
      by_sandbox (tu_live ?S) ''s1'' \<le> 20" by (simp add: by_token_def)
  then show ?thesis by - (rule exI [of _ ?S], assumption)
qed

section \<open>Who may open a tunnel\<close>

lemma find_map_same:
  "(\<And>x. P (f x) = P x) \<Longrightarrow> find P (map f xs) = map_option f (find P xs)"
  by (induction xs) auto

lemma revoked_row:
  assumes "env_ok E" "revoke_ssh_session E now token g = (Inr True, g')"
    "\<forall>sh. get_message ''ssh_session'' (ev_decode_session E) token (gw_store g) = Inr (Some sh) \<longrightarrow> sh_id sh = token"
  shows "\<exists>sh. get_message ''ssh_session'' (ev_decode_session E) token (gw_store g') = Inr (Some sh) \<and> sh_revoked sh"
proof -
  obtain sh where sh: "get_message ''ssh_session'' (ev_decode_session E) token (gw_store g) = Inr (Some sh)"
    and put: "put_session E now (sh\<lparr>sh_revoked := True\<rparr>) (gw_store g) = Inr (gw_store g')"
    using assms(2)
    by (auto simp: revoke_ssh_session_def check_eq then_do_query then_do_Inr commit_Inr basic_Inr split: if_splits sum.splits option.splits)
  have i: "sh_id sh = token" using assms(3) sh by blast
  obtain r where r: "get_object ''ssh_session'' token (gw_store g) = Some r"
    using sh by (cases "get_object ''ssh_session'' token (gw_store g)") (auto simp: get_message_def decode_message_def)
  then have "list_ex (\<lambda>r. ob_id r = token) (st_objects (gw_store g))"
    by (auto simp: get_object_def list_ex_iff dest: find_mem)
  with put have rows: "st_objects (gw_store g') = map (\<lambda>r. if ob_id r = token \<and> ob_type r = ''ssh_session''
      then r\<lparr>ob_payload := ev_encode_session E (sh\<lparr>sh_revoked := True\<rparr>), ob_updated := now\<rparr> else r) (st_objects (gw_store g))"
    by (auto simp: put_session_def put_object_def i dest!: arg_cong [where f = st_objects])
  have "get_object ''ssh_session'' token (gw_store g') = Some (r\<lparr>ob_payload := ev_encode_session E (sh\<lparr>sh_revoked := True\<rparr>), ob_updated := now\<rparr>)"
    using r find_mem [OF r [unfolded get_object_def]] unfolding get_object_def rows by (subst find_map_same) auto
  then show ?thesis using env_okD(9) [OF assms(1)] by (simp add: get_message_def decode_message_def)
qed

lemma revoked_not_authorised:
  assumes "get_message ''ssh_session'' (ev_decode_session E) token s = Inr (Some sh)" "sh_revoked sh"
    "required_header headers ''x-sandbox-token'' = Inr token"
  shows "\<exists>num. authorize_tunnel E K cf now is_connect headers s = Inl num"
  using assms by (cases "required_header headers ''x-sandbox-id''") (auto simp: authorize_tunnel_def session_admits_def)

lemma ssh_connect_refused:
  "authorize_tunnel E K cf now is_connect headers s = Inl num \<Longrightarrow> ssh_connect E K cf now is_connect headers s T = (num, None, T)"
  by (simp add: ssh_connect_def)

lemma authorize_tunnel_Inr:
  assumes "authorize_tunnel E K cf now is_connect headers s = Inr (tk, sb, target)"
  shows "is_connect \<and> required_header headers ''x-sandbox-token'' = Inr tk \<and> required_header headers ''x-sandbox-id'' = Inr sb \<and>
    (\<exists>sh box. get_message ''ssh_session'' (ev_decode_session E) tk s = Inr (Some sh) \<and> session_admits now sb sh \<and>
       get_message ''sandbox'' (ev_decode_sandbox E) sb s = Inr (Some box) \<and> phase_of (sb_phase box) = Some PhReady \<and>
       ssh_target K cf box = Inr target)"
proof -
  obtain i t where it: "is_connect" "required_header headers ''x-sandbox-id'' = Inr i"
      "required_header headers ''x-sandbox-token'' = Inr t"
    using assms by (cases is_connect) (auto simp: authorize_tunnel_def and_then_eq_Inr)
  with assms show ?thesis
    by (cases "get_message ''ssh_session'' (ev_decode_session E) t s";
        cases "get_message ''sandbox'' (ev_decode_sandbox E) i s")
      (auto simp: authorize_tunnel_def and_then_eq_Inr split: if_splits option.splits)
qed

text \<open>C7: A tunnel is opened only for the holder of a live session of a ready sandbox: when \<open>ssh_connect\<close>
  spawns a tunnel, the request was a CONNECT, its two headers name a stored session that is
  not revoked, has not expired and belongs to the sandbox, and that sandbox is stored and ready;
  and once \<open>revoke_ssh_session\<close> has succeeded, no request that carries its token opens a tunnel or
  takes a connection from the limits.\<close>

theorem tunnel_authorised:
  "(ssh_connect E K cf now is_connect headers s T = (n, Some (tk, sb, target), T') \<longrightarrow>
      n = 200 \<and> is_connect \<and> required_header headers ''x-sandbox-token'' = Inr tk \<and> required_header headers ''x-sandbox-id'' = Inr sb \<and>
      (\<exists>sh box. get_message ''ssh_session'' (ev_decode_session E) tk s = Inr (Some sh) \<and>
         \<not> sh_revoked sh \<and> sh_sandbox_id sh = sb \<and> (sh_expires_at_ms sh \<le> 0 \<or> now \<le> sh_expires_at_ms sh) \<and>
         get_message ''sandbox'' (ev_decode_sandbox E) sb s = Inr (Some box) \<and> phase_of (sb_phase box) = Some PhReady)) \<and>
   (env_ok E \<longrightarrow> revoke_ssh_session E revoked_at token g = (Inr True, g') \<longrightarrow>
      (\<forall>sh. get_message ''ssh_session'' (ev_decode_session E) token (gw_store g) = Inr (Some sh) \<longrightarrow> sh_id sh = token) \<longrightarrow>
      required_header headers ''x-sandbox-token'' = Inr token \<longrightarrow>
      (\<exists>num. ssh_connect E K cf now is_connect headers (gw_store g') T = (num, None, T)))"
proof (intro conjI impI)
  assume run: "ssh_connect E K cf now is_connect headers s T = (n, Some (tk, sb, target), T')"
  then have auth: "authorize_tunnel E K cf now is_connect headers s = Inr (tk, sb, target)" and "n = 200"
    by (auto simp: ssh_connect_def split: sum.splits prod.splits bool.splits)
  then show "n = 200" by simp
  from authorize_tunnel_Inr [OF auth]
  show "is_connect" "required_header headers ''x-sandbox-token'' = Inr tk" "required_header headers ''x-sandbox-id'' = Inr sb"
    "\<exists>sh box. get_message ''ssh_session'' (ev_decode_session E) tk s = Inr (Some sh) \<and>
         \<not> sh_revoked sh \<and> sh_sandbox_id sh = sb \<and> (sh_expires_at_ms sh \<le> 0 \<or> now \<le> sh_expires_at_ms sh) \<and>
         get_message ''sandbox'' (ev_decode_sandbox E) sb s = Inr (Some box) \<and> phase_of (sb_phase box) = Some PhReady"
    unfolding session_admits_def by (auto simp: not_less)
next
  assume "env_ok E" "revoke_ssh_session E revoked_at token g = (Inr True, g')"
    "\<forall>sh. get_message ''ssh_session'' (ev_decode_session E) token (gw_store g) = Inr (Some sh) \<longrightarrow> sh_id sh = token"
    and h: "required_header headers ''x-sandbox-token'' = Inr token"
  from revoked_row [OF this(1-3)] obtain sh where
    "get_message ''ssh_session'' (ev_decode_session E) token (gw_store g') = Inr (Some sh)" "sh_revoked sh" by blast
  from revoked_not_authorised [OF this h] obtain num where "authorize_tunnel E K cf now is_connect headers (gw_store g') = Inl num" ..
  then show "\<exists>num. ssh_connect E K cf now is_connect headers (gw_store g') T = (num, None, T)"
    by (auto dest: ssh_connect_refused)
qed

definition example_session :: ssh_session where
  "example_session = \<lparr>sh_id = ''tok'', sh_sandbox_id = ''s1'', sh_token = ''tok'', sh_created_at_ms = 1, sh_revoked = False,
     sh_name = ''n'', sh_expires_at_ms = 0\<rparr>"

definition session_store :: store where
  "session_store = example_store\<lparr>st_objects := st_objects example_store @
     [\<lparr>ob_type = ''ssh_session'', ob_id = ''tok'', ob_name = ''n'', ob_payload = ev_encode_session example_env example_session,
       ob_created = 1, ob_updated = 1\<rparr>]\<rparr>"

lemma session_store_reads:
  "get_message ''ssh_session'' (ev_decode_session example_env) ''tok'' session_store = Inr (Some example_session)"
  "get_message ''sandbox'' (ev_decode_sandbox example_env) ''s1'' session_store = Inr (Some example_sandbox)"
  using env_okD(9) [OF example_env_ok]
  by (simp_all add: session_store_def example_store_def get_message_def get_object_def decode_message_def example_laws)

definition example_headers :: "string \<Rightarrow> bytes option" where
  "example_headers name = (if name = ''x-sandbox-id'' then Some ''s1'' else if name = ''x-sandbox-token'' then Some ''tok'' else None)"

lemma example_headers_read:
  "required_header example_headers ''x-sandbox-id'' = Inr ''s1''"
  "required_header example_headers ''x-sandbox-token'' = Inr ''tok''"
  by code_simp+

definition example_config :: gateway_config where
  "example_config = \<lparr>cf_ssh_session_ttl_secs = 0, cf_ssh_gateway_host = ''h'', cf_ssh_gateway_port = 443, cf_bind_ip = ''0.0.0.0'',
     cf_bind_port = 443, cf_tls = True, cf_ssh_connect_path = ''/connect/ssh'', cf_sandbox_ssh_port = 2222\<rparr>"

theorem tunnel_authorised_witness:
  "(\<exists>T. ssh_connect example_env example_cluster example_config 6 True example_headers session_store (tu_counts no_tunnels) =
      (200, Some (''tok'', ''s1'', TargetHost ''box.ns.svc.cluster.local'' 2222), T) \<and> required_header example_headers ''x-sandbox-id'' = Inr ''s1'') \<and>
   (\<exists>g' num. revoke_ssh_session example_env 5 ''tok'' (gateway_of session_store) = (Inr True, g') \<and>
     ssh_connect example_env example_cluster example_config 6 True example_headers (gw_store g') (tu_counts no_tunnels) =
      (num, None, tu_counts no_tunnels))"
proof -
  let ?c = "ssh_connect example_env example_cluster example_config 6 True example_headers"
  have "authorize_tunnel example_env example_cluster example_config 6 True example_headers session_store =
      Inr (''tok'', ''s1'', TargetHost ''box.ns.svc.cluster.local'' 2222)"
    by (simp add: authorize_tunnel_def example_headers_read session_store_reads session_admits_def example_session_def
        example_sandbox_def phase_of_def ssh_target_def service_host_def example_cluster_def example_config_def)
  then obtain T where opened: "?c session_store (tu_counts no_tunnels) =
      (200, Some (''tok'', ''s1'', TargetHost ''box.ns.svc.cluster.local'' 2222), T)"
    by (simp add: ssh_connect_def acquire_token_def acquire_sandbox_def no_tunnels_def MAX_CONNECTIONS_PER_TOKEN_def
        MAX_CONNECTIONS_PER_SANDBOX_def)
  obtain t where "put_session example_env 5 (example_session\<lparr>sh_revoked := True\<rparr>) session_store = Inr t"
    by (simp add: put_session_def put_object_def session_store_def example_store_def example_session_def)
  then obtain g' where revoked: "revoke_ssh_session example_env 5 ''tok'' (gateway_of session_store) = (Inr True, g')"
    by (simp add: revoke_ssh_session_def gateway_of_def check_eq then_do_query session_store_reads op_Inr basic_Inr)
  have own: "\<forall>sh. get_message ''ssh_session'' (ev_decode_session example_env) ''tok'' (gw_store (gateway_of session_store)) = Inr (Some sh) \<longrightarrow>
      sh_id sh = ''tok''" by (simp add: gateway_of_def session_store_reads example_session_def)
  show ?thesis
    using tunnel_authorised [THEN conjunct1, THEN mp, OF opened]
      tunnel_authorised [THEN conjunct2, THEN mp, THEN mp, THEN mp, THEN mp, OF example_env_ok revoked own example_headers_read(2)]
      opened revoked by blast
qed
end
