(* ===== verification/Registry.thy ===== *)
theory Registry
  imports Json "HOL-Library.Product_Lexorder"
begin

text \<open>
  The registration files of MCP bridges and the credentials of their servers
  (\<open>darkshell-mcp/src/error.rs\<close>, \<open>registry.rs\<close>, \<open>credential.rs\<close>). The file system is the map
  from paths to contents below the registry's directory; which of its operations fail is a
  parameter. YAML is a parameter.
\<close>

section \<open>Errors\<close>

datatype bridge_error =
    StartupFailed string string
  | NoAvailablePort u16 u16
  | PortInUse u16
  | ProviderUnavailable
  | CredentialNotFound string string
  | InvalidJsonRpc string
  | InitializeTimeout nat
  | MaxRetriesExhausted nat string
  | SandboxNotFound string string
  | AlreadyRunning string string u32
  | RegistrationIo string
  | HttpServer string
  | SubprocessIo string
  | JsonError string
  | ToolDenied string string string
  | InvalidPolicy string
  | PolicyIo string

fun bridge_error_text :: "bridge_error \<Rightarrow> string" where
  "bridge_error_text (StartupFailed command reason) =
     ''failed to start MCP server: '' @ reason @ ''. Command attempted: `'' @ command @ ''`. Ensure the command is installed and accessible on the host PATH''"
| "bridge_error_text (NoAvailablePort a b) =
     ''no available ports in range '' @ dec (unat a) @ ''-'' @ dec (unat b) @ '' for MCP bridge. Free a port with: lsof -i :<port> -sTCP:LISTEN | kill <PID>''"
| "bridge_error_text (PortInUse p) =
     ''port '' @ dec (unat p) @ '' is already in use''"
| "bridge_error_text ProviderUnavailable =
     ''cannot retrieve credentials: gateway provider API unavailable. Check gateway status with: darkshell status''"
| "bridge_error_text (CredentialNotFound provider key) =
     ''provider '' @ [CHR 0x27] @ provider @ [CHR 0x27] @ '' exists but credential '' @ [CHR 0x27] @ key @ [CHR 0x27] @ '' not found. Set with: darkshell provider create --name '' @ provider @ '' --credential '' @ key @ ''=<value>''"
| "bridge_error_text (InvalidJsonRpc detail) =
     ''MCP server returned invalid JSON-RPC: '' @ detail"
| "bridge_error_text (InitializeTimeout secs) =
     ''MCP server did not respond to initialize within '' @ dec secs @ ''s. Check that the command produces JSON-RPC output on stdout''"
| "bridge_error_text (MaxRetriesExhausted attempts last_exit) =
     ''MCP server crashed '' @ dec attempts @ '' times and max retries exhausted. Last exit: '' @ last_exit @ ''. Check server logs for crash cause''"
| "bridge_error_text (SandboxNotFound name available) =
     ''sandbox '' @ [CHR 0x27] @ name @ [CHR 0x27] @ '' not found. Available sandboxes: '' @ available"
| "bridge_error_text (AlreadyRunning sandbox server pid) =
     ''bridge already running for sandbox '' @ [CHR 0x27] @ sandbox @ [CHR 0x27] @ '' server '' @ [CHR 0x27] @ server @ [CHR 0x27] @ '' (PID '' @ dec (unat pid) @ ''). Stop it first with: darkshell mcp remove '' @ sandbox @ '' '' @ server"
| "bridge_error_text (RegistrationIo reason) =
     ''registration file error: '' @ reason"
| "bridge_error_text (HttpServer reason) =
     ''HTTP server error: '' @ reason"
| "bridge_error_text (SubprocessIo reason) =
     ''subprocess I/O error: '' @ reason"
| "bridge_error_text (JsonError reason) =
     ''JSON error: '' @ reason"
| "bridge_error_text (ToolDenied tool server reason) =
     ''tool '' @ [CHR 0x27] @ tool @ [CHR 0x27] @ '' denied by policy for server '' @ [CHR 0x27] @ server @ [CHR 0x27] @ '': '' @ reason @ ''. Update the policy with: darkshell policy set --mcp-tools''"
| "bridge_error_text (InvalidPolicy reason) =
     ''invalid MCP tool policy: '' @ reason"
| "bridge_error_text (PolicyIo reason) =
     ''policy file error: '' @ reason"

section \<open>Paths and files\<close>

definition path_join :: "string \<Rightarrow> string \<Rightarrow> string" where
  "path_join d n =
     (if str_starts_with n ''/'' then n
      else if d = [] then n
      else if last d = CHR ''/'' then d @ n else d @ CHR ''/'' # n)"

text \<open>The last component, its stem and its extension: a leading dot starts no extension.\<close>

definition file_name :: "string \<Rightarrow> string" where
  "file_name p = (case str_rsplit_once p (CHR ''/'') of None \<Rightarrow> p | Some (_, n) \<Rightarrow> n)"

definition split_extension :: "string \<Rightarrow> string \<times> string option" where
  "split_extension n =
     (case str_rsplit_once n (CHR ''.'') of
        None \<Rightarrow> (n, None)
      | Some (stem, ext) \<Rightarrow> if stem = [] then (n, None) else (stem, Some ext))"

definition path_extension :: "string \<Rightarrow> string option" where
  "path_extension p = snd (split_extension (file_name p))"

definition with_extension :: "string \<Rightarrow> string \<Rightarrow> string" where
  "with_extension p ext =
     take (length p - length (file_name p)) p @ fst (split_extension (file_name p)) @ CHR ''.'' # ext"

text \<open>
  An operation on files fails as the parameter says: a failed write may leave something in the
  file. The directory is read in some order, with entries that cannot be read.
\<close>

datatype file_error = FileNotFound | FileError string

type_synonym files = "(string, bytes) hash_map"

record disk =
  dk_create_dir :: "string \<Rightarrow> string option"
  dk_write :: "string \<Rightarrow> (string \<times> bytes option) option"
  dk_rename :: "string \<Rightarrow> string \<Rightarrow> string option"
  dk_read :: "string \<Rightarrow> file_error option"
  dk_remove :: "string \<Rightarrow> file_error option"
  dk_read_dir :: "string \<Rightarrow> file_error option"
  dk_entries :: "string list \<Rightarrow> (string + string) list"

definition read_file :: "disk \<Rightarrow> string \<Rightarrow> files \<Rightarrow> file_error + string" where
  "read_file D p fs =
     (case dk_read D p of
        Some e \<Rightarrow> Inl e
      | None \<Rightarrow>
          (case map_of fs p of
             None \<Rightarrow> Inl FileNotFound
           | Some b \<Rightarrow> if is_utf8 b then Inr b else Inl (FileError ''stream did not contain valid UTF-8'')))"

definition write_file :: "disk \<Rightarrow> string \<Rightarrow> bytes \<Rightarrow> files \<Rightarrow> (string + unit) \<times> files" where
  "write_file D p b fs =
     (case dk_write D p of
        Some (e, left) \<Rightarrow> (Inl e, case left of None \<Rightarrow> fs | Some part \<Rightarrow> hm_insert p part fs)
      | None \<Rightarrow> (Inr (), hm_insert p b fs))"

definition rename_file :: "disk \<Rightarrow> string \<Rightarrow> string \<Rightarrow> files \<Rightarrow> (string + unit) \<times> files" where
  "rename_file D a b fs =
     (case dk_rename D a b of
        Some e \<Rightarrow> (Inl e, fs)
      | None \<Rightarrow>
          (case map_of fs a of
             None \<Rightarrow> (Inl ''No such file or directory (os error 2)'', fs)
           | Some x \<Rightarrow> (Inr (), hm_insert b x (hm_remove a fs))))"

definition remove_file :: "disk \<Rightarrow> string \<Rightarrow> files \<Rightarrow> (file_error + unit) \<times> files" where
  "remove_file D p fs =
     (case dk_remove D p of
        Some e \<Rightarrow> (Inl e, fs)
      | None \<Rightarrow> if map_of fs p = None then (Inl FileNotFound, fs) else (Inr (), hm_remove p fs))"

definition names_in :: "string \<Rightarrow> files \<Rightarrow> string list" where
  "names_in dir fs =
     List.map_filter (\<lambda>(p, _). case str_strip_prefix p (dir @ ''/'') of
        None \<Rightarrow> None | Some n \<Rightarrow> if CHR ''/'' \<in> set n then None else Some n) fs"

fun io_text :: "file_error \<Rightarrow> string" where
  "io_text FileNotFound = ''No such file or directory (os error 2)''"
| "io_text (FileError e) = e"

section \<open>Registrations\<close>

definition validate_name :: "string \<Rightarrow> bridge_error + unit" where
  "validate_name name =
     (if name = [] then Inl (RegistrationIo ''name must not be empty'')
      else if \<not> list_all (\<lambda>c. is_ascii_lowercase c \<or> is_ascii_digit c \<or> c = CHR ''-'') name
      then Inl (RegistrationIo (''name '' @ [CHR 0x27] @ name @ [CHR 0x27] @ '' contains invalid characters. Only lowercase letters, digits, and hyphens [a-z0-9-] are allowed''))
      else Inr ())"

datatype transport = StdioHttp
datatype bridge_status = Starting | BridgeRunning | Stopping | Stopped | Failed

record bridge_registration =
  br_sandbox :: string
  br_server_name :: string
  br_transport :: transport
  br_command :: "string list"
  br_bridge_pid :: u32
  br_forwarded_port :: u16
  br_status :: bridge_status
  br_process_start_time :: "u64 option"

record registry_yaml =
  ry_to_string :: "bridge_registration \<Rightarrow> string + string"
  ry_from_str :: "string \<Rightarrow> string + bridge_registration"

definition registry_dir :: "string \<Rightarrow> string" where
  "registry_dir config_dir = path_join (path_join config_dir ''darkshell'') ''mcp''"

definition default_config_dir :: "string option \<Rightarrow> bridge_error + string" where
  "default_config_dir home =
     (case home of
        None \<Rightarrow> Inl (RegistrationIo ''HOME environment variable not set'')
      | Some h \<Rightarrow> Inr (path_join h ''.config''))"

definition registration_path :: "string \<Rightarrow> string \<Rightarrow> string \<Rightarrow> bridge_error + string" where
  "registration_path config_dir sandbox server =
     and_then (validate_name sandbox) (\<lambda>_.
     and_then (validate_name server) (\<lambda>_.
       Inr (path_join (registry_dir config_dir) (sandbox @ ''-'' @ server @ ''.yaml''))))"

definition write_registration ::
    "disk \<Rightarrow> registry_yaml \<Rightarrow> string \<Rightarrow> bridge_registration \<Rightarrow> files \<Rightarrow> (bridge_error + unit) \<times> files" where
  "write_registration D Y config_dir reg fs =
     (let dir = registry_dir config_dir in
      case dk_create_dir D dir of
        Some e \<Rightarrow> (Inl (RegistrationIo (''failed to create directory '' @ dir @ '': '' @ e)), fs)
      | None \<Rightarrow>
          (case registration_path config_dir (br_sandbox reg) (br_server_name reg) of
             Inl e \<Rightarrow> (Inl e, fs)
           | Inr path \<Rightarrow>
               (case ry_to_string Y reg of
                  Inl e \<Rightarrow> (Inl (RegistrationIo (''failed to serialize registration: '' @ e)), fs)
                | Inr yaml \<Rightarrow>
                    (let tmp = with_extension path ''yaml.tmp'' in
                     case write_file D tmp yaml fs of
                       (Inl e, fs) \<Rightarrow> (Inl (RegistrationIo (''failed to write temp file '' @ tmp @ '': '' @ e)), fs)
                     | (Inr _, fs) \<Rightarrow>
                         (case rename_file D tmp path fs of
                            (Inl e, fs) \<Rightarrow>
                              (Inl (RegistrationIo (''failed to rename '' @ tmp @ '' -> '' @ path @ '': '' @ e)),
                               snd (remove_file D tmp fs))
                          | (Inr _, fs) \<Rightarrow> (Inr (), fs))))))"

definition read_registration ::
    "disk \<Rightarrow> registry_yaml \<Rightarrow> string \<Rightarrow> string \<Rightarrow> string \<Rightarrow> files \<Rightarrow> bridge_error + bridge_registration option" where
  "read_registration D Y config_dir sandbox server fs =
     and_then (registration_path config_dir sandbox server) (\<lambda>path.
       case read_file D path fs of
         Inr contents \<Rightarrow>
           (case ry_from_str Y contents of
              Inl e \<Rightarrow> Inl (RegistrationIo (''failed to parse '' @ path @ '': '' @ e))
            | Inr reg \<Rightarrow> Inr (Some reg))
       | Inl FileNotFound \<Rightarrow> Inr None
       | Inl (FileError e) \<Rightarrow> Inl (RegistrationIo (''failed to read '' @ path @ '': '' @ e)))"

definition remove_registration ::
    "disk \<Rightarrow> string \<Rightarrow> string \<Rightarrow> string \<Rightarrow> files \<Rightarrow> (bridge_error + bool) \<times> files" where
  "remove_registration D config_dir sandbox server fs =
     (case registration_path config_dir sandbox server of
        Inl e \<Rightarrow> (Inl e, fs)
      | Inr path \<Rightarrow>
          (case remove_file D path fs of
             (Inr _, fs) \<Rightarrow> (Inr True, fs)
           | (Inl FileNotFound, fs) \<Rightarrow> (Inr False, fs)
           | (Inl (FileError e), fs) \<Rightarrow> (Inl (RegistrationIo (''failed to remove '' @ path @ '': '' @ e)), fs)))"

text \<open>A directory entry that cannot be read, is not YAML or is malformed is skipped.\<close>

definition load_entry :: "disk \<Rightarrow> registry_yaml \<Rightarrow> string \<Rightarrow> files \<Rightarrow> string + string \<Rightarrow> bridge_registration option" where
  "load_entry D Y dir fs entry =
     (case entry of
        Inl _ \<Rightarrow> None
      | Inr name \<Rightarrow>
          if path_extension (path_join dir name) \<noteq> Some ''yaml'' then None
          else (case read_file D (path_join dir name) fs of
              Inl _ \<Rightarrow> None
            | Inr contents \<Rightarrow> (case ry_from_str Y contents of Inl _ \<Rightarrow> None | Inr reg \<Rightarrow> Some reg)))"

definition list_registrations ::
    "disk \<Rightarrow> registry_yaml \<Rightarrow> string \<Rightarrow> files \<Rightarrow> bridge_error + bridge_registration list" where
  "list_registrations D Y config_dir fs =
     (let dir = registry_dir config_dir in
      case dk_read_dir D dir of
        Some FileNotFound \<Rightarrow> Inr []
      | Some (FileError e) \<Rightarrow> Inl (RegistrationIo (''failed to read directory '' @ dir @ '': '' @ e))
      | None \<Rightarrow> Inr (sort_key (\<lambda>r. (br_sandbox r, br_server_name r))
            (List.map_filter (load_entry D Y dir fs) (dk_entries D (names_in dir fs)))))"

fun remove_all :: "disk \<Rightarrow> string \<Rightarrow> string \<Rightarrow> bridge_registration list \<Rightarrow> string list \<Rightarrow> files \<Rightarrow>
    (bridge_error + string list) \<times> files" where
  "remove_all D config_dir sandbox [] removed fs = (Inr removed, fs)"
| "remove_all D config_dir sandbox (reg # regs) removed fs =
     (if br_sandbox reg = sandbox then
        (case remove_registration D config_dir (br_sandbox reg) (br_server_name reg) fs of
           (Inl e, fs) \<Rightarrow> (Inl e, fs)
         | (Inr _, fs) \<Rightarrow> remove_all D config_dir sandbox regs (removed @ [br_server_name reg]) fs)
      else remove_all D config_dir sandbox regs removed fs)"

definition cleanup_sandbox ::
    "disk \<Rightarrow> registry_yaml \<Rightarrow> string \<Rightarrow> string \<Rightarrow> files \<Rightarrow> (bridge_error + string list) \<times> files" where
  "cleanup_sandbox D Y config_dir sandbox fs =
     (case list_registrations D Y config_dir fs of
        Inl e \<Rightarrow> (Inl e, fs)
      | Inr regs \<Rightarrow> remove_all D config_dir sandbox regs [] fs)"

section \<open>Credentials\<close>

record credential_spec =
  cd_provider :: string
  cd_env_key :: string

definition env_resolve :: "(string \<Rightarrow> string option) \<Rightarrow> string \<Rightarrow> string \<Rightarrow> bridge_error + string" where
  "env_resolve vars provider key =
     (case vars key of None \<Rightarrow> Inl (CredentialNotFound provider key) | Some v \<Rightarrow> Inr v)"

fun add_credential_vars :: "(string \<Rightarrow> string \<Rightarrow> bridge_error + string) \<Rightarrow> credential_spec list \<Rightarrow>
    (string, string) hash_map \<Rightarrow> bridge_error + (string, string) hash_map" where
  "add_credential_vars resolve [] vars = Inr vars"
| "add_credential_vars resolve (sp # sps) vars =
     and_then (resolve (cd_provider sp) (cd_env_key sp)) (\<lambda>v.
       add_credential_vars resolve sps (hm_insert (cd_env_key sp) v vars))"

definition inject_credentials :: "credential_spec list \<Rightarrow> (string \<Rightarrow> string \<Rightarrow> bridge_error + string) \<Rightarrow>
    bridge_error + (string, string) hash_map" where
  "inject_credentials specs resolve = add_credential_vars resolve specs []"

end
