(* ===== verification/Bridge.thy ===== *)
theory Bridge
  imports Registry
begin

text \<open>
  The MCP bridge (\<open>darkshell-mcp/src/policy.rs\<close>, \<open>logging.rs\<close>, \<open>bridge.rs\<close>): the tool policy and its
  reload, the log of tool calls, the translation of HTTP requests to lines on a server's standard
  input, the life of the server process and its registration. Glob patterns, JSON text, YAML and
  the operating system are parameters; a server process is a state with the operations
  \<open>server_io\<close>.
\<close>

section \<open>Tool policy\<close>

datatype tool_decision = AllowTool | DenyTool string

record mcp_tool_policy =
  mt_allowed_tools :: "string list"
  mt_denied_tools :: "string list"

type_synonym mcp_policy_file = "(string, mcp_tool_policy) hash_map"

text \<open>\<open>Pattern::new\<close> fails or gives the set of names that match.\<close>

type_synonym globs = "string \<Rightarrow> (string \<Rightarrow> bool) option"

definition matches_tool_pattern :: "globs \<Rightarrow> string \<Rightarrow> string \<Rightarrow> bool" where
  "matches_tool_pattern G pattern tool_name =
     (case G pattern of None \<Rightarrow> pattern = tool_name | Some p \<Rightarrow> p tool_name)"

definition evaluate_tool_access :: "globs \<Rightarrow> mcp_tool_policy \<Rightarrow> string \<Rightarrow> tool_decision" where
  "evaluate_tool_access G policy tool_name =
     (case find (\<lambda>p. matches_tool_pattern G p tool_name) (mt_denied_tools policy) of
        Some p \<Rightarrow> DenyTool (''tool '' @ [CHR 0x27] @ tool_name @ [CHR 0x27] @ '' matches deny pattern '' @ [CHR 0x27] @ p @ [CHR 0x27])
      | None \<Rightarrow>
          if mt_allowed_tools policy \<noteq> [] then
            (if list_ex (\<lambda>p. matches_tool_pattern G p tool_name) (mt_allowed_tools policy) then AllowTool
             else DenyTool (''tool '' @ [CHR 0x27] @ tool_name @ [CHR 0x27] @ '' not in allowed_tools list''))
          else AllowTool)"

definition extract_tool_call_name :: "json \<Rightarrow> string option" where
  "extract_tool_call_name j =
     Option.bind (get_str_field j ''method'') (\<lambda>m.
       if m \<noteq> ''tools/call'' then None
       else Option.bind (json_get j ''params'') (\<lambda>p. get_str_field p ''name''))"

definition denied_tool_jsonrpc_error :: "json \<Rightarrow> string \<Rightarrow> string \<Rightarrow> json" where
  "denied_tool_jsonrpc_error request_id tool_name reason =
     jobject [(''jsonrpc'', JString ''2.0''), (''id'', request_id),
       (''error'', jobject [(''code'', JInt (- 32001)), (''message'', JString ''Tool call denied by policy''),
          (''data'', jobject [(''tool'', JString tool_name), (''reason'', JString reason)])])]"

definition parse_policy_yaml :: "(string \<Rightarrow> string + mcp_policy_file) \<Rightarrow> string \<Rightarrow> bridge_error + mcp_policy_file" where
  "parse_policy_yaml from_yaml yaml =
     (case from_yaml yaml of Inl e \<Rightarrow> Inl (InvalidPolicy (''failed to parse policy YAML: '' @ e)) | Inr f \<Rightarrow> Inr f)"

definition load_policy_file :: "disk \<Rightarrow> (string \<Rightarrow> string + mcp_policy_file) \<Rightarrow> string \<Rightarrow> files \<Rightarrow> bridge_error + mcp_policy_file" where
  "load_policy_file D from_yaml path fs =
     (case read_file D path fs of
        Inl e \<Rightarrow> Inl (PolicyIo (''failed to read policy file '' @ [CHR 0x27] @ path @ [CHR 0x27] @ '': '' @ io_text e))
      | Inr contents \<Rightarrow> parse_policy_yaml from_yaml contents)"

text \<open>The holder's content: \<open>reload\<close> replaces it as a whole, a failing reload keeps it.\<close>

definition get_server_policy :: "mcp_policy_file \<Rightarrow> string \<Rightarrow> mcp_tool_policy option" where
  "get_server_policy holder server_name = map_of holder server_name"

definition reload_from_file ::
    "disk \<Rightarrow> (string \<Rightarrow> string + mcp_policy_file) \<Rightarrow> string \<Rightarrow> files \<Rightarrow> mcp_policy_file \<Rightarrow>
     (bridge_error + unit) \<times> mcp_policy_file" where
  "reload_from_file D from_yaml path fs holder =
     (case load_policy_file D from_yaml path fs of
        Inl e \<Rightarrow> (Inl e, holder)
      | Inr new_policy \<Rightarrow> (Inr (), new_policy))"

section \<open>Log of tool calls\<close>

definition DEFAULT_MAX_TRUNCATE_LEN :: nat where "DEFAULT_MAX_TRUNCATE_LEN = 1024"
definition DEFAULT_CHANNEL_CAPACITY :: nat where "DEFAULT_CHANNEL_CAPACITY = 10000"

record mcp_tool_call_log =
  tc_request_id :: string
  tc_server_name :: string
  tc_tool_name :: string
  tc_arguments :: string
  tc_response_summary :: string
  tc_duration_ms :: u64
  tc_timestamp :: int
  tc_success :: bool
  tc_sandbox :: string
  tc_error_code :: "int option"
  tc_error_message :: "string option"
  tc_jsonrpc_id :: "string option"

text \<open>The last character boundary at or before a position, where the slice cannot panic.\<close>

fun floor_boundary :: "string \<Rightarrow> nat \<Rightarrow> nat" where
  "floor_boundary s 0 = 0"
| "floor_boundary s (Suc n) = (if \<not> is_char_boundary s (Suc n) then floor_boundary s n else Suc n)"

definition truncate_utf8_safe :: "string \<Rightarrow> nat \<Rightarrow> string" where
  "truncate_utf8_safe s max_len =
     (if length s \<le> max_len then s
      else if max_len < 4 then ''...''
      else take (floor_boundary s (max_len - 3)) s @ ''...'')"

definition as_i64 :: "json \<Rightarrow> int option" where
  "as_i64 j = (case j of JInt i \<Rightarrow> if - (2 ^ 63) \<le> i \<and> i < 2 ^ 63 then Some i else None | _ \<Rightarrow> None)"

definition extract_method :: "json \<Rightarrow> string option" where
  "extract_method j = get_str_field j ''method''"

text \<open>\<open>serde_json\<close>: the text of a value, \<open>to_vec\<close> and \<open>from_slice\<close>.\<close>

record serde_text =
  jt_text :: "json \<Rightarrow> string"
  jt_to_vec :: "json \<Rightarrow> string + bytes"
  jt_from_slice :: "bytes \<Rightarrow> string + json"

definition extract_arguments :: "serde_text \<Rightarrow> json \<Rightarrow> nat \<Rightarrow> string" where
  "extract_arguments J j max_len =
     truncate_utf8_safe
       (unwrap_or (map_option (jt_text J) (Option.bind (json_get j ''params'') (\<lambda>p. json_get p ''arguments''))) [])
       max_len"

definition int_text :: "int \<Rightarrow> string" where
  "int_text n = (if n < 0 then CHR ''-'' # dec (nat (- n)) else dec (nat n))"

definition extract_response_summary ::
    "serde_text \<Rightarrow> json \<Rightarrow> nat \<Rightarrow> string \<times> bool \<times> int option \<times> string option" where
  "extract_response_summary J response max_len =
     (case json_get response ''error'' of
        None \<Rightarrow>
          (case json_get response ''result'' of
             None \<Rightarrow> (''<empty response>'', True, None, None)
           | Some result \<Rightarrow> (truncate_utf8_safe (jt_text J result) max_len, True, None, None))
      | Some error \<Rightarrow>
          (let num = Option.bind (json_get error ''code'') as_i64;
               message = get_str_field error ''message'';
               summary = ''error: code='' @ unwrap_or (map_option int_text num) ''unknown'' @
                 '', message='' @ unwrap_or message ''unknown''
           in (truncate_utf8_safe summary max_len, False, num, message)))"

definition extract_request_id :: "serde_text \<Rightarrow> json \<Rightarrow> string" where
  "extract_request_id J j =
     (case json_get j ''id'' of
        None \<Rightarrow> []
      | Some (JString s) \<Rightarrow> s
      | Some other \<Rightarrow> jt_text J other)"

definition build_tool_call_log ::
    "serde_text \<Rightarrow> string \<Rightarrow> int \<Rightarrow> string \<Rightarrow> string \<Rightarrow> json \<Rightarrow> json \<Rightarrow> u64 \<Rightarrow> nat \<Rightarrow> mcp_tool_call_log" where
  "build_tool_call_log J uuid now server_name sandbox request response duration_ms max_len =
     (case extract_response_summary J response max_len of
        (summary, success, error_code, error_message) \<Rightarrow>
          \<lparr>tc_request_id = uuid, tc_server_name = server_name,
           tc_tool_name = unwrap_or (extract_tool_call_name request) ''unknown'',
           tc_arguments = extract_arguments J request max_len, tc_response_summary = summary,
           tc_duration_ms = duration_ms, tc_timestamp = now, tc_success = success, tc_sandbox = sandbox,
           tc_error_code = error_code, tc_error_message = error_message,
           tc_jsonrpc_id = (let raw = extract_request_id J request in if raw = [] then None else Some raw)\<rparr>)"

text \<open>The logger with the entries that wait in its channel; the receiver may be gone.\<close>

record tool_call_logger =
  tl_queue :: "mcp_tool_call_log list"
  tl_capacity :: nat
  tl_open :: bool
  tl_dropped_count :: u64
  tl_max_truncate_len :: nat

definition new_logger :: "nat \<Rightarrow> nat \<Rightarrow> tool_call_logger" where
  "new_logger capacity max_len =
     \<lparr>tl_queue = [], tl_capacity = capacity, tl_open = True, tl_dropped_count = 0, tl_max_truncate_len = max_len\<rparr>"

definition log_tool_call ::
    "serde_text \<Rightarrow> string \<Rightarrow> int \<Rightarrow> string \<Rightarrow> string \<Rightarrow> json \<Rightarrow> json \<Rightarrow> u64 \<Rightarrow> tool_call_logger \<Rightarrow> tool_call_logger" where
  "log_tool_call J uuid now server_name sandbox request response duration_ms L =
     (let entry = build_tool_call_log J uuid now server_name sandbox request response duration_ms (tl_max_truncate_len L) in
      if tl_open L \<and> length (tl_queue L) < tl_capacity L
      then L\<lparr>tl_queue := tl_queue L @ [entry]\<rparr>
      else L\<lparr>tl_dropped_count := tl_dropped_count L + 1\<rparr>)"

definition receive_log :: "tool_call_logger \<Rightarrow> mcp_tool_call_log option \<times> tool_call_logger" where
  "receive_log L =
     (case tl_queue L of [] \<Rightarrow> (None, L) | e # es \<Rightarrow> (Some e, L\<lparr>tl_queue := es\<rparr>))"

section \<open>JSON-RPC\<close>

definition parse_jsonrpc_request :: "serde_text \<Rightarrow> bytes \<Rightarrow> bridge_error + json" where
  "parse_jsonrpc_request J body =
     (case jt_from_slice J body of
        Inl e \<Rightarrow> Inl (InvalidJsonRpc (''invalid JSON in request body: '' @ e))
      | Inr v \<Rightarrow>
          if get_str_field v ''jsonrpc'' \<noteq> Some ''2.0''
          then Inl (InvalidJsonRpc (''missing or invalid '' @ [CHR 0x27] @ ''jsonrpc'' @ [CHR 0x27] @ '' field (expected '' @ [CHR 0x22] @ ''2.0'' @ [CHR 0x22] @ '')''))
          else if get_str_field v ''method'' = None
          then Inl (InvalidJsonRpc (''missing '' @ [CHR 0x27] @ ''method'' @ [CHR 0x27] @ '' field in JSON-RPC request''))
          else Inr v)"

definition parse_jsonrpc_response :: "serde_text \<Rightarrow> string \<Rightarrow> bridge_error + json" where
  "parse_jsonrpc_response J line =
     (case jt_from_slice J line of
        Inl e \<Rightarrow> Inl (InvalidJsonRpc (''MCP server returned invalid JSON: '' @ e))
      | Inr v \<Rightarrow> Inr v)"

definition format_jsonrpc_for_stdin :: "serde_text \<Rightarrow> json \<Rightarrow> bridge_error + bytes" where
  "format_jsonrpc_for_stdin J v =
     (case jt_to_vec J v of
        Inl e \<Rightarrow> Inl (JsonError (''failed to serialize JSON-RPC: '' @ e))
      | Inr b \<Rightarrow> Inr (b @ [CHR 0x0A]))"

section \<open>The host\<close>

text \<open>
  What the bridge asks of the operating system. \<open>os_spawn k\<close> is the \<open>k\<close>-th attempt to start the
  server, \<open>os_lstart\<close> the output of a successful \<open>ps -o lstart=\<close> and \<open>os_parse_time\<close> the time
  that \<open>chrono\<close> reads from it, as if it were UTC. A process's input and output are \<open>server_io\<close>.
\<close>

datatype line_read = LineRead string | ReadFailed string | ReadTimedOut

record 'p server_io =
  si_write_all :: "'p \<Rightarrow> bytes \<Rightarrow> string option \<times> 'p"
  si_flush :: "'p \<Rightarrow> string option \<times> 'p"
  si_read_line :: "'p \<Rightarrow> line_read \<times> 'p"

record 'p host =
  os_bind :: "u16 \<Rightarrow> bool"
  os_local_port :: "u16 \<Rightarrow> string + u16"
  os_spawn :: "nat \<Rightarrow> string list \<Rightarrow> (string, string) hash_map \<Rightarrow> string + 'p"
  os_kill_0 :: "u32 \<Rightarrow> bool"
  os_lstart :: "u32 \<Rightarrow> string option"
  os_parse_time :: "string \<Rightarrow> int option"
  os_pid :: u32
  os_now_secs :: u64

definition PORT_RANGE_START :: u16 where "PORT_RANGE_START = 9100"
definition PORT_RANGE_END :: u16 where "PORT_RANGE_END = 9199"
definition MAX_RESTART_ATTEMPTS :: nat where "MAX_RESTART_ATTEMPTS = 3"
definition BACKOFF_DURATIONS :: "nat list" where "BACKOFF_DURATIONS = [1, 2, 4]"
definition INITIALIZE_TIMEOUT_SECS :: nat where "INITIALIZE_TIMEOUT_SECS = 60"
definition MAX_BODY_SIZE :: nat where "MAX_BODY_SIZE = 1048576"

definition backoff_duration :: "nat \<Rightarrow> nat option" where
  "backoff_duration k = (if k < length BACKOFF_DURATIONS then Some (BACKOFF_DURATIONS ! k) else None)"

definition port_range :: "u16 \<Rightarrow> u16 \<Rightarrow> u16 list" where
  "port_range a b = map of_nat [unat a ..< Suc (unat b)]"

definition find_available_port :: "'p host \<Rightarrow> u16 \<Rightarrow> u16 \<Rightarrow> bridge_error + u16" where
  "find_available_port H a b =
     (case find (os_bind H) (port_range a b) of
        None \<Rightarrow> Inl (NoAvailablePort a b)
      | Some port \<Rightarrow> Inr port)"

text \<open>A process that is alive but started at another time is another process.\<close>

definition abs_diff :: "u64 \<Rightarrow> u64 \<Rightarrow> u64" where
  "abs_diff a b = (if a < b then b - a else a - b)"

definition pid_is_alive_with_start_time :: "'p host \<Rightarrow> u32 \<Rightarrow> u64 option \<Rightarrow> bool" where
  "pid_is_alive_with_start_time H pid expected =
     (if \<not> os_kill_0 H pid then False
      else case expected of
        None \<Rightarrow> True
      | Some expected \<Rightarrow>
          (case os_lstart H pid of
             None \<Rightarrow> True
           | Some out \<Rightarrow>
               (let lstart = str_trim (from_utf8_lossy out) in
                if lstart = [] then True
                else case os_parse_time H lstart of
                  None \<Rightarrow> True
                | Some t \<Rightarrow> abs_diff (word_of_int t) expected \<le> 2)))"

definition spawn_mcp_process :: "'p host \<Rightarrow> nat \<Rightarrow> string list \<Rightarrow> (string, string) hash_map \<Rightarrow> bridge_error + 'p" where
  "spawn_mcp_process H k command env_vars =
     (if command = [] then Inl (StartupFailed [] ''command is empty'')
      else case os_spawn H k command env_vars of
        Inl e \<Rightarrow> Inl (StartupFailed (str_join '' '' command) e)
      | Inr p \<Rightarrow> Inr p)"

section \<open>The bridge\<close>

record bridge_config =
  bg_sandbox :: string
  bg_server_name :: string
  bg_command :: "string list"
  bg_credentials :: "credential_spec list"
  bg_config_dir :: string
  bg_port_start :: u16
  bg_port_end :: u16

definition new_bridge_config :: "string \<Rightarrow> string \<Rightarrow> string \<Rightarrow> string list \<Rightarrow> bridge_config" where
  "new_bridge_config home sandbox server_name command =
     \<lparr>bg_sandbox = sandbox, bg_server_name = server_name, bg_command = command, bg_credentials = [],
      bg_config_dir = path_join home ''.config'', bg_port_start = PORT_RANGE_START, bg_port_end = PORT_RANGE_END\<rparr>"

record 'p mcp_bridge =
  bd_config :: bridge_config
  bd_port :: u16
  bd_listener :: "u16 option"
  bd_process :: "'p option"
  bd_env_vars :: "(string, string) hash_map"
  bd_policy :: mcp_policy_file
  bd_logger :: "tool_call_logger option"

definition registration_of :: "'p host \<Rightarrow> bridge_config \<Rightarrow> u16 \<Rightarrow> bridge_status \<Rightarrow> bridge_registration" where
  "registration_of H config port st =
     \<lparr>br_sandbox = bg_sandbox config, br_server_name = bg_server_name config, br_transport = StdioHttp,
      br_command = bg_command config, br_bridge_pid = os_pid H, br_forwarded_port = port, br_status = st,
      br_process_start_time = Some (os_now_secs H)\<rparr>"

text \<open>The result of \<open>start\<close>, the files, and the server process that was spawned and killed again.\<close>

definition clear_stale ::
    "disk \<Rightarrow> registry_yaml \<Rightarrow> 'p host \<Rightarrow> bridge_config \<Rightarrow> files \<Rightarrow> (bridge_error + unit) \<times> files" where
  "clear_stale D Y H config fs =
     (case read_registration D Y (bg_config_dir config) (bg_sandbox config) (bg_server_name config) fs of
        Inl e \<Rightarrow> (Inl e, fs)
      | Inr None \<Rightarrow> (Inr (), fs)
      | Inr (Some existing) \<Rightarrow>
          if pid_is_alive_with_start_time H (br_bridge_pid existing) (br_process_start_time existing)
          then (Inl (AlreadyRunning (bg_sandbox config) (bg_server_name config) (br_bridge_pid existing)), fs)
          else (case remove_registration D (bg_config_dir config) (bg_sandbox config) (bg_server_name config) fs of
              (Inl e, fs) \<Rightarrow> (Inl e, fs)
            | (Inr _, fs) \<Rightarrow> (Inr (), fs)))"

definition launch ::
    "disk \<Rightarrow> registry_yaml \<Rightarrow> 'p host \<Rightarrow> bridge_config \<Rightarrow> (string, string) hash_map \<Rightarrow> u16 \<Rightarrow> u16 \<Rightarrow>
     mcp_policy_file \<Rightarrow> tool_call_logger option \<Rightarrow> files \<Rightarrow> (bridge_error + 'p mcp_bridge) \<times> files \<times> 'p option" where
  "launch D Y H config env_vars listener port policy logger fs =
     (case spawn_mcp_process H 0 (bg_command config) env_vars of
        Inl e \<Rightarrow> (Inl e, fs, None)
      | Inr p \<Rightarrow>
          (case write_registration D Y (bg_config_dir config) (registration_of H config port BridgeRunning) fs of
             (Inl e, fs) \<Rightarrow> (Inl e, fs, Some p)
           | (Inr _, fs) \<Rightarrow>
               (Inr \<lparr>bd_config = config, bd_port = port, bd_listener = Some listener, bd_process = Some p,
                  bd_env_vars = env_vars, bd_policy = policy, bd_logger = logger\<rparr>, fs, None)))"

definition start_bridge ::
    "disk \<Rightarrow> registry_yaml \<Rightarrow> 'p host \<Rightarrow> bridge_config \<Rightarrow> (string \<Rightarrow> string \<Rightarrow> bridge_error + string) \<Rightarrow>
     mcp_policy_file \<Rightarrow> tool_call_logger option \<Rightarrow> files \<Rightarrow> (bridge_error + 'p mcp_bridge) \<times> files \<times> 'p option" where
  "start_bridge D Y H config resolve policy logger fs =
     (case clear_stale D Y H config fs of
        (Inl e, fs) \<Rightarrow> (Inl e, fs, None)
      | (Inr _, fs) \<Rightarrow>
          (case inject_credentials (bg_credentials config) resolve of
             Inl e \<Rightarrow> (Inl e, fs, None)
           | Inr env_vars \<Rightarrow>
               (case find_available_port H (bg_port_start config) (bg_port_end config) of
                  Inl e \<Rightarrow> (Inl e, fs, None)
                | Inr listener \<Rightarrow>
                    (case os_local_port H listener of
                       Inl e \<Rightarrow> (Inl (HttpServer (''failed to get local address from listener: '' @ e)), fs, None)
                     | Inr port \<Rightarrow> launch D Y H config env_vars listener port policy logger fs))))"

text \<open>
  A request: first it is answered by the policy or admitted, then the server's lock is taken and
  a line is written and a line is read.
\<close>

definition invalid_request_error :: "json \<Rightarrow> json" where
  "invalid_request_error request_id =
     jobject [(''jsonrpc'', JString ''2.0''), (''id'', request_id),
       (''error'', jobject [(''code'', JInt (- 32600)), (''message'', JString ''Invalid Request''),
          (''data'', jobject [(''reason'', JString (''tools/call request missing '' @ [CHR 0x27] @ ''params.name'' @ [CHR 0x27] @ '' field''))])])]"

definition request_id_or_null :: "json \<Rightarrow> json" where
  "request_id_or_null j = unwrap_or (json_get j ''id'') JNull"

definition policy_answer :: "globs \<Rightarrow> string \<Rightarrow> mcp_policy_file \<Rightarrow> json \<Rightarrow> json option" where
  "policy_answer G server_name holder j =
     (case extract_tool_call_name j of
        Some tool_name \<Rightarrow>
          (case get_server_policy holder server_name of
             None \<Rightarrow> None
           | Some server_policy \<Rightarrow>
               (case evaluate_tool_access G server_policy tool_name of
                  AllowTool \<Rightarrow> None
                | DenyTool reason \<Rightarrow> Some (denied_tool_jsonrpc_error (request_id_or_null j) tool_name reason)))
      | None \<Rightarrow>
          if get_str_field j ''method'' = Some ''tools/call''
          then Some (invalid_request_error (request_id_or_null j)) else None)"

definition read_reply :: "serde_text \<Rightarrow> line_read \<Rightarrow> bridge_error + json" where
  "read_reply J r =
     (case r of
        ReadFailed e \<Rightarrow> Inl (SubprocessIo (''failed to read from MCP server stdout: '' @ e))
      | ReadTimedOut \<Rightarrow> Inl (InitializeTimeout INITIALIZE_TIMEOUT_SECS)
      | LineRead line \<Rightarrow>
          if line = [] then Inl (SubprocessIo ''MCP server closed stdout (process may have crashed)'')
          else parse_jsonrpc_response J (str_trim line))"

definition exchange :: "serde_text \<Rightarrow> 'p server_io \<Rightarrow> bytes \<Rightarrow> 'p option \<Rightarrow> (bridge_error + json) \<times> 'p option" where
  "exchange J S stdin_bytes process =
     (case process of
        None \<Rightarrow> (Inl (SubprocessIo ''MCP server subprocess is not running''), None)
      | Some p \<Rightarrow>
          (case si_write_all S p stdin_bytes of
             (Some e, p) \<Rightarrow> (Inl (SubprocessIo (''failed to write to MCP server stdin: '' @ e)), Some p)
           | (None, p) \<Rightarrow>
               (case si_flush S p of
                  (Some e, p) \<Rightarrow> (Inl (SubprocessIo (''failed to flush MCP server stdin: '' @ e)), Some p)
                | (None, p) \<Rightarrow> (case si_read_line S p of (r, p) \<Rightarrow> (read_reply J r, Some p)))))"

definition log_exchange ::
    "serde_text \<Rightarrow> string \<Rightarrow> int \<Rightarrow> u64 \<Rightarrow> bridge_config \<Rightarrow> json \<Rightarrow> json \<Rightarrow> tool_call_logger option \<Rightarrow> tool_call_logger option" where
  "log_exchange J uuid now duration_ms config j response logger =
     (case logger of
        None \<Rightarrow> None
      | Some L \<Rightarrow>
          if unwrap_or (extract_method j) ''unknown'' = ''tools/call''
          then Some (log_tool_call J uuid now (bg_server_name config) (bg_sandbox config) j response duration_ms L)
          else Some L)"

definition handle_request ::
    "serde_text \<Rightarrow> globs \<Rightarrow> 'p server_io \<Rightarrow> string \<Rightarrow> int \<Rightarrow> u64 \<Rightarrow> bytes \<Rightarrow> 'p mcp_bridge \<Rightarrow>
     (bridge_error + json) \<times> 'p mcp_bridge" where
  "handle_request J G S uuid now duration_ms body B =
     (case parse_jsonrpc_request J body of
        Inl e \<Rightarrow> (Inl e, B)
      | Inr j \<Rightarrow>
          (case policy_answer G (bg_server_name (bd_config B)) (bd_policy B) j of
             Some answer \<Rightarrow> (Inr answer, B)
           | None \<Rightarrow>
               (case format_jsonrpc_for_stdin J j of
                  Inl e \<Rightarrow> (Inl e, B)
                | Inr stdin_bytes \<Rightarrow>
                    (case exchange J S stdin_bytes (bd_process B) of
                       (Inl e, process) \<Rightarrow> (Inl e, B\<lparr>bd_process := process\<rparr>)
                     | (Inr response, process) \<Rightarrow>
                         (Inr response, B\<lparr>bd_process := process,
                            bd_logger := log_exchange J uuid now duration_ms (bd_config B) j response (bd_logger B)\<rparr>)))))"

section \<open>Restarts and shutdown\<close>

definition update_registration_status ::
    "disk \<Rightarrow> registry_yaml \<Rightarrow> 'p host \<Rightarrow> 'p mcp_bridge \<Rightarrow> bridge_status \<Rightarrow> files \<Rightarrow> files" where
  "update_registration_status D Y H B st fs =
     snd (write_registration D Y (bg_config_dir (bd_config B)) (registration_of H (bd_config B) (bd_port B) st) fs)"

text \<open>The attempts, with the seconds slept before each.\<close>

fun restart_attempts ::
    "disk \<Rightarrow> registry_yaml \<Rightarrow> 'p host \<Rightarrow> nat list \<Rightarrow> string \<Rightarrow> nat list \<Rightarrow> 'p mcp_bridge \<Rightarrow> files \<Rightarrow>
     (bridge_error + unit) \<times> 'p mcp_bridge \<times> files \<times> nat list" where
  "restart_attempts D Y H [] last_exit slept B fs =
     (Inl (MaxRetriesExhausted MAX_RESTART_ATTEMPTS last_exit), B,
      update_registration_status D Y H B Failed fs, slept)"
| "restart_attempts D Y H (k # ks) last_exit slept B fs =
     (case backoff_duration k of
        None \<Rightarrow> (Inl (MaxRetriesExhausted k last_exit), B, fs, slept)
      | Some delay \<Rightarrow>
          (let fs = update_registration_status D Y H B Starting fs; slept = slept @ [delay] in
           case spawn_mcp_process H k (bg_command (bd_config B)) (bd_env_vars B) of
             Inr p \<Rightarrow>
               (let B = B\<lparr>bd_process := Some p\<rparr> in
                (Inr (), B, update_registration_status D Y H B BridgeRunning fs, slept))
           | Inl e \<Rightarrow> restart_attempts D Y H ks (bridge_error_text e) slept B fs))"

definition restart_with_backoff ::
    "disk \<Rightarrow> registry_yaml \<Rightarrow> 'p host \<Rightarrow> string \<Rightarrow> 'p mcp_bridge \<Rightarrow> files \<Rightarrow>
     (bridge_error + unit) \<times> 'p mcp_bridge \<times> files \<times> nat list" where
  "restart_with_backoff D Y H crash_reason B fs =
     restart_attempts D Y H [0 ..< MAX_RESTART_ATTEMPTS] crash_reason [] B fs"

definition take_listener :: "'p mcp_bridge \<Rightarrow> (bridge_error + u16) \<times> 'p mcp_bridge" where
  "take_listener B =
     (case bd_listener B of
        None \<Rightarrow> (Inl (HttpServer ''listener already consumed (serve called twice?)''), B)
      | Some l \<Rightarrow> (Inr l, B\<lparr>bd_listener := None\<rparr>))"

text \<open>The process that is killed, if one runs.\<close>

definition shutdown_bridge ::
    "disk \<Rightarrow> 'p mcp_bridge \<Rightarrow> files \<Rightarrow> (bridge_error + unit) \<times> 'p mcp_bridge \<times> files \<times> 'p option" where
  "shutdown_bridge D B fs =
     (case remove_registration D (bg_config_dir (bd_config B)) (bg_sandbox (bd_config B)) (bg_server_name (bd_config B)) fs of
        (r, fs) \<Rightarrow> (and_then r (\<lambda>_. Inr ()), B\<lparr>bd_process := None\<rparr>, fs, bd_process B))"

section \<open>The HTTP endpoint\<close>

text \<open>
  A request with its method, its \<open>Content-Length\<close>, the upper bound of hyper's size hint and what
  reading its body gives. A header value that is not visible ASCII is no number either.
\<close>

record bridge_http_request =
  hq_method :: string
  hq_content_length :: "bytes option"
  hq_size_upper :: "u64 option"
  hq_body :: "string + bytes"

record bridge_http_response =
  hp_status :: nat
  hp_content_type :: string
  hp_body :: bytes

definition json_bytes :: "serde_text \<Rightarrow> json \<Rightarrow> bytes" where
  "json_bytes J v = (case jt_to_vec J v of Inl _ \<Rightarrow> ''{}'' | Inr b \<Rightarrow> b)"

definition error_response :: "serde_text \<Rightarrow> nat \<Rightarrow> string \<Rightarrow> string \<Rightarrow> bridge_http_response" where
  "error_response J st e detail =
     \<lparr>hp_status = st, hp_content_type = ''application/json'',
      hp_body = json_bytes J (jobject [(''error'', JString e), (''detail'', JString detail)])\<rparr>"

definition oversized :: "bridge_http_request \<Rightarrow> string option" where
  "oversized req =
     (case Option.bind (hq_content_length req) parse_u64 of
        Some len \<Rightarrow>
          if MAX_BODY_SIZE < unat len
          then Some (''Content-Length '' @ dec (unat len) @ '' exceeds maximum of '' @ dec MAX_BODY_SIZE @ '' bytes'')
          else None
      | None \<Rightarrow> None)"

definition oversized_hint :: "bridge_http_request \<Rightarrow> string option" where
  "oversized_hint req =
     (let upper = unwrap_or (hq_size_upper req) (- 1) in
      if MAX_BODY_SIZE < unat upper
      then Some (''body size hint '' @ dec (unat upper) @ '' exceeds maximum of '' @ dec MAX_BODY_SIZE @ '' bytes'')
      else None)"

definition bridge_reply :: "serde_text \<Rightarrow> bridge_error + json \<Rightarrow> bridge_http_response" where
  "bridge_reply J r =
     (case r of
        Inr response \<Rightarrow> \<lparr>hp_status = 200, hp_content_type = ''application/json'', hp_body = json_bytes J response\<rparr>
      | Inl (InvalidJsonRpc detail) \<Rightarrow> error_response J 502 ''MCP server returned invalid JSON-RPC'' detail
      | Inl (SubprocessIo reason) \<Rightarrow> error_response J 503 ''MCP server unavailable'' reason
      | Inl e \<Rightarrow> error_response J 500 ''internal bridge error'' (bridge_error_text e))"

definition handle_http_request ::
    "serde_text \<Rightarrow> globs \<Rightarrow> 'p server_io \<Rightarrow> string \<Rightarrow> int \<Rightarrow> u64 \<Rightarrow> bridge_http_request \<Rightarrow> 'p mcp_bridge \<Rightarrow>
     bridge_http_response \<times> 'p mcp_bridge" where
  "handle_http_request J G S uuid now duration_ms req B =
     (if hq_method req \<noteq> ''POST''
      then (error_response J 405 ''method not allowed'' ''MCP bridge only accepts POST requests'', B)
      else case oversized req of
        Some detail \<Rightarrow> (error_response J 413 ''request body too large'' detail, B)
      | None \<Rightarrow>
          (case oversized_hint req of
             Some detail \<Rightarrow> (error_response J 413 ''request body too large'' detail, B)
           | None \<Rightarrow>
               (case hq_body req of
                  Inl e \<Rightarrow> (error_response J 400 ''failed to read request body'' e, B)
                | Inr body \<Rightarrow>
                    (case handle_request J G S uuid now duration_ms body B of
                       (r, B) \<Rightarrow> (bridge_reply J r, B)))))"

end
