(* ===== verification/BridgeProps.thy ===== *)
theory BridgeProps
  imports Bridge
begin

text \<open>
  What the bridge guarantees: what reaches a server's standard input, which reply a request gets,
  what a registration file holds after any failure, and the bounds of the log's texts.
\<close>

section \<open>Truncation\<close>

lemma floor_boundary_le: "floor_boundary s n \<le> n"
  by (induction n) auto

lemma floor_boundary_is: "is_char_boundary s (floor_boundary s n)"
  by (induction n) (simp_all add: is_char_boundary_def)

lemma floor_boundary_last: "is_char_boundary s m \<Longrightarrow> m \<le> n \<Longrightarrow> m \<le> floor_boundary s n"
  by (induction n) (auto simp: le_Suc_eq)

text \<open>C39: Truncation of logged texts: the slice never panics, a text that fits is unchanged, a longer one
  becomes its longest prefix of whole characters that leaves room for the dots, followed by the
  dots, and the result has at most the given number of bytes when that is at least three.\<close>

theorem truncate_bounds:
  "(length s \<le> n \<longrightarrow> truncate_utf8_safe s n = s) \<and>
   (n < length s \<and> 4 \<le> n \<longrightarrow>
      (\<exists>k. str_slice_to s k = Some (take k s) \<and> truncate_utf8_safe s n = take k s @ ''...'' \<and> k + 3 \<le> n \<and>
         (\<forall>m. is_char_boundary s m \<and> m + 3 \<le> n \<longrightarrow> m \<le> k))) \<and>
   (3 \<le> n \<longrightarrow> length (truncate_utf8_safe s n) \<le> n) \<and>
   (n < length s \<and> n < 3 \<longrightarrow> n < length (truncate_utf8_safe s n))"
proof -
  let ?k = "floor_boundary s (n - 3)"
  have le: "?k \<le> n - 3" by (rule floor_boundary_le)
  have cut: "\<exists>k. str_slice_to s k = Some (take k s) \<and> truncate_utf8_safe s n = take k s @ ''...'' \<and> k + 3 \<le> n \<and>
      (\<forall>m. is_char_boundary s m \<and> m + 3 \<le> n \<longrightarrow> m \<le> k)" if "n < length s" "4 \<le> n"
    using that le floor_boundary_is [of s "n - 3"] floor_boundary_last [of s _ "n - 3"]
    by (intro exI [of _ ?k]) (auto simp: str_slice_to_def truncate_utf8_safe_def)
  have "length (truncate_utf8_safe s n) \<le> n" if "3 \<le> n"
    using that le by (auto simp: truncate_utf8_safe_def)
  with cut show ?thesis by (auto simp: truncate_utf8_safe_def)
qed

text \<open>A text of two-byte characters.\<close>

theorem truncate_bounds_witness:
  "truncate_utf8_safe (concat (replicate 4 [CHR 0xC3, CHR 0xA9])) 6 = [CHR 0xC3, CHR 0xA9] @ ''...'' \<and>
   length (truncate_utf8_safe (concat (replicate 4 [CHR 0xC3, CHR 0xA9])) 6) \<le> 6 \<and>
   2 < length (truncate_utf8_safe ''abc'' 2)"
proof -
  have "truncate_utf8_safe (concat (replicate 4 [CHR 0xC3, CHR 0xA9])) 6 = [CHR 0xC3, CHR 0xA9] @ ''...''" by code_simp
  then show ?thesis
    using truncate_bounds [of "concat (replicate 4 [CHR 0xC3, CHR 0xA9])" 6] truncate_bounds [of "''abc''" 2] by simp
qed

section \<open>What reaches a server\<close>

text \<open>
  Requests are handled concurrently: a request is checked against the policy of the moment it
  arrives, waits for the server's lock, and is then written. Meanwhile the policy may be replaced
  and the server stopped or restarted. \<open>rn_holders\<close> are the policies that have been in force,
  \<open>rn_written\<close> the lines written, in order.
\<close>

record 'p bridge_run =
  rn_holders :: "mcp_policy_file list"
  rn_admitted :: "json list"
  rn_process :: "'p option"
  rn_written :: "bytes list"

inductive bridge_step :: "serde_text \<Rightarrow> globs \<Rightarrow> 'p server_io \<Rightarrow> string \<Rightarrow> 'p bridge_run \<Rightarrow> 'p bridge_run \<Rightarrow> bool"
  for J :: serde_text and G :: globs and S :: "'p server_io" and server_name :: string where
  arrives: "parse_jsonrpc_request J body = Inr j \<Longrightarrow> policy_answer G server_name (last (rn_holders s)) j = None \<Longrightarrow>
      bridge_step J G S server_name s (s\<lparr>rn_admitted := rn_admitted s @ [j]\<rparr>)"
| forwarded: "rn_admitted s = xs @ j # ys \<Longrightarrow> format_jsonrpc_for_stdin J j = Inr b \<Longrightarrow>
      exchange J S b (rn_process s) = (r, p) \<Longrightarrow>
      bridge_step J G S server_name s (s\<lparr>rn_admitted := xs @ ys, rn_process := p,
        rn_written := (if rn_process s = None then rn_written s else rn_written s @ [b])\<rparr>)"
| reloaded: "bridge_step J G S server_name s (s\<lparr>rn_holders := rn_holders s @ [h]\<rparr>)"
| replaced: "bridge_step J G S server_name s (s\<lparr>rn_process := p\<rparr>)"

inductive_cases bridge_stepE: "bridge_step J G S server_name s t"

definition run_of :: "mcp_policy_file list \<Rightarrow> 'p mcp_bridge \<Rightarrow> 'p bridge_run" where
  "run_of holders B = \<lparr>rn_holders = holders @ [bd_policy B], rn_admitted = [], rn_process = bd_process B, rn_written = []\<rparr>"

text \<open>The handler is such an arrival followed by the exchange.\<close>

lemma handle_request_steps:
  assumes "handle_request J G S uuid now duration_ms body B = (r, B')"
  shows "\<exists>w. (bridge_step J G S (bg_server_name (bd_config B)))\<^sup>*\<^sup>* (run_of hs B) ((run_of hs B')\<lparr>rn_written := w\<rparr>)"
proof -
  have same: "(run_of hs B)\<lparr>rn_written := []\<rparr> = run_of hs B" by (simp add: run_of_def)
  have stay: ?thesis if "B' = B" using that same by (metis rtranclp.rtrancl_refl)
  show ?thesis
  proof (cases "parse_jsonrpc_request J body")
    case (Inr j)
    show ?thesis
    proof (cases "policy_answer G (bg_server_name (bd_config B)) (bd_policy B) j")
      case None
      let ?A = "(run_of hs B)\<lparr>rn_admitted := [] @ j # []\<rparr>"
      have "bridge_step J G S (bg_server_name (bd_config B)) (run_of hs B) ((run_of hs B)\<lparr>rn_admitted := rn_admitted (run_of hs B) @ [j]\<rparr>)"
        by (rule arrives [OF Inr]) (simp add: run_of_def None)
      then have one: "bridge_step J G S (bg_server_name (bd_config B)) (run_of hs B) ?A" by (simp add: run_of_def)
      show ?thesis
      proof (cases "format_jsonrpc_for_stdin J j")
        case (Inr b)
        obtain r' p where ex: "exchange J S b (bd_process B) = (r', p)" by fastforce
        have "bridge_step J G S (bg_server_name (bd_config B)) ?A (?A\<lparr>rn_admitted := [] @ [], rn_process := p,
            rn_written := (if rn_process ?A = None then rn_written ?A else rn_written ?A @ [b])\<rparr>)"
          by (rule forwarded [OF _ Inr]) (simp_all add: run_of_def ex)
        with one have "(bridge_step J G S (bg_server_name (bd_config B)))\<^sup>*\<^sup>* (run_of hs B)
            (?A\<lparr>rn_admitted := [] @ [], rn_process := p, rn_written := (if rn_process ?A = None then rn_written ?A else rn_written ?A @ [b])\<rparr>)"
          by simp
        moreover have "bd_process B' = p" "bd_policy B' = bd_policy B"
          using assms \<open>parse_jsonrpc_request J body = Inr j\<close> None Inr ex by (auto simp: handle_request_def split: sum.splits)
        ultimately show ?thesis by (auto simp: run_of_def)
      qed (use assms \<open>parse_jsonrpc_request J body = Inr j\<close> None stay in \<open>simp add: handle_request_def\<close>)
    qed (use assms Inr stay in \<open>simp add: handle_request_def\<close>)
  qed (use assms stay in \<open>simp add: handle_request_def\<close>)
qed

text \<open>What a policy of a server lets through.\<close>

definition policy_permits :: "globs \<Rightarrow> string \<Rightarrow> mcp_policy_file \<Rightarrow> string \<Rightarrow> bool" where
  "policy_permits G server_name holder tool \<longleftrightarrow>
     (\<forall>policy. map_of holder server_name = Some policy \<longrightarrow>
        (\<forall>p \<in> set (mt_denied_tools policy). \<not> matches_tool_pattern G p tool) \<and>
        (mt_allowed_tools policy \<noteq> [] \<longrightarrow> (\<exists>p \<in> set (mt_allowed_tools policy). matches_tool_pattern G p tool)))"

lemma evaluate_tool_access_spec:
  "evaluate_tool_access G policy tool = AllowTool \<longleftrightarrow>
     (\<forall>p \<in> set (mt_denied_tools policy). \<not> matches_tool_pattern G p tool) \<and>
     (mt_allowed_tools policy \<noteq> [] \<longrightarrow> (\<exists>p \<in> set (mt_allowed_tools policy). matches_tool_pattern G p tool))"
  by (auto simp: evaluate_tool_access_def find_None_iff find_Some_iff list_ex_iff split: option.split)

lemma policy_answer_None:
  "policy_answer G server_name holder j = None \<longleftrightarrow>
     (get_str_field j ''method'' = Some ''tools/call'' \<longrightarrow>
        (\<exists>tool. extract_tool_call_name j = Some tool \<and> policy_permits G server_name holder tool))"
proof (cases "extract_tool_call_name j")
  case (Some tool)
  then have "get_str_field j ''method'' = Some ''tools/call''"
    by (auto simp: extract_tool_call_name_def bind_eq_Some_conv split: if_splits)
  with Some show ?thesis
    using evaluate_tool_access_spec [of G _ tool]
    by (auto simp: policy_answer_def policy_permits_def get_server_policy_def split: option.splits tool_decision.splits)
      (metis tool_decision.distinct(1) tool_decision.exhaust)+
qed (auto simp: policy_answer_def)

text \<open>A value that was parsed is printed as a text, without line breaks, that parses to it again.\<close>

definition serde_ok :: "serde_text \<Rightarrow> bool" where
  "serde_ok J \<longleftrightarrow> (\<forall>b v t. jt_from_slice J b = Inr v \<longrightarrow> jt_to_vec J v = Inr t \<longrightarrow>
     jt_from_slice J t = Inr v \<and> CHR 0x0A \<notin> set t)"

definition line_permitted :: "serde_text \<Rightarrow> globs \<Rightarrow> string \<Rightarrow> mcp_policy_file list \<Rightarrow> bytes \<Rightarrow> bool" where
  "line_permitted J G server_name holders line \<longleftrightarrow>
     (\<exists>t j h. line = t @ [CHR 0x0A] \<and> CHR 0x0A \<notin> set t \<and> jt_from_slice J t = Inr j \<and> h \<in> set holders \<and>
        policy_answer G server_name h j = None)"

definition run_sound :: "serde_text \<Rightarrow> globs \<Rightarrow> string \<Rightarrow> 'p bridge_run \<Rightarrow> bool" where
  "run_sound J G server_name s \<longleftrightarrow>
     rn_holders s \<noteq> [] \<and>
     (\<forall>j \<in> set (rn_admitted s). (\<exists>b. jt_from_slice J b = Inr j) \<and>
        (\<exists>h \<in> set (rn_holders s). policy_answer G server_name h j = None)) \<and>
     (\<forall>l \<in> set (rn_written s). line_permitted J G server_name (rn_holders s) l)"

lemma line_permitted_mono: "line_permitted J G n hs l \<Longrightarrow> set hs \<subseteq> set hs' \<Longrightarrow> line_permitted J G n hs' l"
  unfolding line_permitted_def by blast

lemma parse_jsonrpc_request_source: "parse_jsonrpc_request J body = Inr j \<Longrightarrow> jt_from_slice J body = Inr j"
  by (auto simp: parse_jsonrpc_request_def split: sum.splits if_splits)

lemma bridge_step_ok:
  assumes "bridge_step J G S n s t" "run_sound J G n s" "serde_ok J"
  shows "run_sound J G n t"
  using assms(1)
proof cases
  case (arrives body j)
  moreover have "last (rn_holders s) \<in> set (rn_holders s)" using assms(2) by (simp add: run_sound_def)
  ultimately show ?thesis
    using assms(2) parse_jsonrpc_request_source [OF arrives(2)] by (auto simp: run_sound_def)
next
  case (forwarded xs j ys b r p)
  obtain src h where j: "jt_from_slice J src = Inr j" "h \<in> set (rn_holders s)" "policy_answer G n h j = None"
    using assms(2) forwarded(2) by (auto simp: run_sound_def)
  obtain t' where "jt_to_vec J j = Inr t'" "b = t' @ [CHR 0x0A]"
    using forwarded(3) by (auto simp: format_jsonrpc_for_stdin_def split: sum.splits)
  then have "line_permitted J G n (rn_holders s) b"
    using j assms(3) unfolding line_permitted_def serde_ok_def by blast
  then show ?thesis using assms(2) forwarded by (auto simp: run_sound_def)
next
  case (reloaded h)
  then show ?thesis using assms(2) by (auto simp: run_sound_def intro: line_permitted_mono)
qed (use assms(2) in \<open>auto simp: run_sound_def\<close>)

lemma bridge_run_ok:
  assumes "(bridge_step J G S n)\<^sup>*\<^sup>* s t" "run_sound J G n s" "serde_ok J"
  shows "run_sound J G n t"
  using assms(1,2) by induction (auto intro: bridge_step_ok [OF _ _ assms(3)])

text \<open>C9: The bridge enforces the tool policy: however requests, reloads, stops and restarts interleave,
  every line that reaches the server's standard input is one JSON text without a line break, and if it is
  a call of a tool then it names the tool and some policy that was in force during the run has no
  policy for the server or denies the tool by no pattern and, when it lists allowed tools, allows it by one.\<close>

theorem server_receives_only_permitted:
  assumes "serde_ok J" "(bridge_step J G S server_name)\<^sup>*\<^sup>* (run_of [] B) s" "line \<in> set (rn_written s)"
  shows "\<exists>t j. line = t @ [CHR 0x0A] \<and> CHR 0x0A \<notin> set t \<and> jt_from_slice J t = Inr j \<and>
    (get_str_field j ''method'' = Some ''tools/call'' \<longrightarrow>
       (\<exists>tool. extract_tool_call_name j = Some tool \<and> (\<exists>h \<in> set (rn_holders s). policy_permits G server_name h tool)))"
proof -
  have "run_sound J G server_name (run_of [] B)" by (simp add: run_sound_def run_of_def)
  from bridge_run_ok [OF assms(2) this assms(1)] assms(3)
  have "line_permitted J G server_name (rn_holders s) line" by (simp add: run_sound_def)
  then obtain t j h where "line = t @ [CHR 0x0A]" "CHR 0x0A \<notin> set t" "jt_from_slice J t = Inr j" "h \<in> set (rn_holders s)"
    "policy_answer G server_name h j = None"
    unfolding line_permitted_def by blast
  then show ?thesis unfolding policy_answer_None by blast
qed

text \<open>One call of a tool, printed as one letter.\<close>

definition tool_call :: "int \<Rightarrow> string \<Rightarrow> json" where
  "tool_call i tool = jobject [(''jsonrpc'', JString ''2.0''), (''id'', JInt i), (''method'', JString ''tools/call''),
     (''params'', jobject [(''name'', JString tool)])]"

definition letter_serde :: "(char \<Rightarrow> json option) \<Rightarrow> (json \<Rightarrow> char) \<Rightarrow> serde_text" where
  "letter_serde value_of letter_of = \<lparr>jt_text = (\<lambda>v. [letter_of v]), jt_to_vec = (\<lambda>v. Inr [letter_of v]),
     jt_from_slice = (\<lambda>b. case b of [c] \<Rightarrow> ok_or (value_of c) ''unknown letter'' | _ \<Rightarrow> Inl ''not a letter'')\<rparr>"

definition search_serde :: serde_text where
  "search_serde = letter_serde (\<lambda>c. if c = CHR ''s'' then Some (tool_call 1 ''search'') else None) (\<lambda>_. CHR ''s'')"

definition search_bridge :: "unit mcp_bridge" where
  "search_bridge = \<lparr>bd_config = new_bridge_config ''/root'' ''box'' ''srv'' [''srv''], bd_port = 9100, bd_listener = None,
     bd_process = Some (), bd_env_vars = [],
     bd_policy = [(''srv'', \<lparr>mt_allowed_tools = [''search''], mt_denied_tools = [''delete'']\<rparr>)], bd_logger = None\<rparr>"

definition echo_io :: "unit server_io" where
  "echo_io = \<lparr>si_write_all = (\<lambda>p _. (None, p)), si_flush = (\<lambda>p. (None, p)), si_read_line = (\<lambda>p. (LineRead ''s'', p))\<rparr>"

theorem server_receives_only_permitted_witness:
  "\<exists>s :: unit bridge_run. (bridge_step search_serde (\<lambda>_. None) echo_io ''srv'')\<^sup>*\<^sup>* (run_of [] search_bridge) s \<and>
     rn_written s = [[CHR ''s'', CHR 0x0A]] \<and>
     (\<exists>t j. [CHR ''s'', CHR 0x0A] = t @ [CHR 0x0A] \<and> jt_from_slice search_serde t = Inr j \<and>
       (get_str_field j ''method'' = Some ''tools/call'' \<longrightarrow>
         (\<exists>h \<in> set (rn_holders s). policy_permits (\<lambda>_. None) ''srv'' h (the (extract_tool_call_name j)))))"
proof -
  let ?j = "tool_call 1 ''search''" and ?s = "run_of [] search_bridge" and ?G = "\<lambda>_. None"
  have ok: "serde_ok search_serde"
    by (auto simp: serde_ok_def search_serde_def letter_serde_def ok_or_def split: list.splits if_splits option.splits)
  have parse: "parse_jsonrpc_request search_serde ''s'' = Inr ?j" by code_simp
  have pass: "policy_answer ?G ''srv'' (bd_policy search_bridge) ?j = None" by code_simp
  have line: "format_jsonrpc_for_stdin search_serde ?j = Inr [CHR ''s'', CHR 0x0A]" by code_simp
  have one: "bridge_step search_serde ?G echo_io ''srv'' ?s (?s\<lparr>rn_admitted := rn_admitted ?s @ [?j]\<rparr>)"
    by (rule arrives [OF parse]) (simp add: run_of_def pass)
  obtain r p where ex: "exchange search_serde echo_io [CHR ''s'', CHR 0x0A] (Some ()) = (r, p)" by fastforce
  let ?A = "?s\<lparr>rn_admitted := rn_admitted ?s @ [?j]\<rparr>"
  let ?t = "?A\<lparr>rn_admitted := [] @ [], rn_process := p,
      rn_written := (if rn_process ?A = None then rn_written ?A else rn_written ?A @ [[CHR ''s'', CHR 0x0A]])\<rparr>"
  have "bridge_step search_serde ?G echo_io ''srv'' ?A ?t"
    by (rule forwarded [OF _ line]) (simp_all add: run_of_def search_bridge_def ex)
  with one have steps: "(bridge_step search_serde ?G echo_io ''srv'')\<^sup>*\<^sup>* ?s ?t"
    by (meson converse_rtranclp_into_rtranclp r_into_rtranclp)
  have w: "rn_written ?t = [[CHR ''s'', CHR 0x0A]]" by (simp add: run_of_def search_bridge_def)
  show ?thesis
    using steps w server_receives_only_permitted [OF ok steps, of "[CHR ''s'', CHR 0x0A]"] by (intro exI [of _ ?t]) auto
qed

section \<open>Which reply a request gets\<close>

text \<open>
  A server that answers every line, in order, but not always in time: its state is the answers it
  has not sent and, for the reads to come, whether each is too late.
\<close>

definition slow_server :: "(bytes \<Rightarrow> string) \<Rightarrow> (string list \<times> bool list) server_io" where
  "slow_server answer =
     \<lparr>si_write_all = (\<lambda>(q, ss) b. (None, (q @ [answer b], ss))),
      si_flush = (\<lambda>p. (None, p)),
      si_read_line = (\<lambda>(q, ss). case ss of
          [] \<Rightarrow> (ReadTimedOut, (q, []))
        | slow # ss \<Rightarrow> if slow \<or> q = [] then (ReadTimedOut, (q, ss)) else (LineRead (hd q), (tl q, ss)))\<rparr>"

fun serve_bodies :: "serde_text \<Rightarrow> globs \<Rightarrow> 'p server_io \<Rightarrow> bytes list \<Rightarrow> 'p mcp_bridge \<Rightarrow> (bridge_error + json) list" where
  "serve_bodies J G S [] B = []"
| "serve_bodies J G S (b # bs) B =
     (case handle_request J G S [] 0 0 b B of (r, B) \<Rightarrow> r # serve_bodies J G S bs B)"

definition admitted_as :: "serde_text \<Rightarrow> globs \<Rightarrow> 'p mcp_bridge \<Rightarrow> bytes \<Rightarrow> bytes \<Rightarrow> bool" where
  "admitted_as J G B body line \<longleftrightarrow>
     (\<exists>j. parse_jsonrpc_request J body = Inr j \<and> policy_answer G (bg_server_name (bd_config B)) (bd_policy B) j = None \<and>
        format_jsonrpc_for_stdin J j = Inr line)"

lemma slow_exchange:
  "exchange J (slow_server answer) line (Some (q, slow # ss)) =
     (if slow then (read_reply J ReadTimedOut, Some (q @ [answer line], ss))
      else (read_reply J (LineRead (hd (q @ [answer line]))), Some (tl (q @ [answer line]), ss)))"
  by (simp add: exchange_def slow_server_def)

lemma slow_request:
  assumes "admitted_as J G B body line" "bd_process B = Some (q, slow # ss)"
  shows "\<exists>B'. handle_request J G (slow_server answer) [] 0 0 body B =
      (fst (exchange J (slow_server answer) line (bd_process B)), B') \<and>
    bd_process B' = snd (exchange J (slow_server answer) line (bd_process B)) \<and>
    bd_config B' = bd_config B \<and> bd_policy B' = bd_policy B"
  using assms by (auto simp: admitted_as_def handle_request_def split: sum.splits prod.splits)

lemma shifted_replies:
  assumes "list_all2 (admitted_as J G B) bodies lines" "\<forall>l. answer l \<noteq> []" "a \<noteq> []"
    "bd_process B = Some ([a], replicate (length bodies) False)"
  shows "serve_bodies J G (slow_server answer) bodies B =
    map (\<lambda>s. parse_jsonrpc_response J (str_trim s)) (take (length bodies) (a # map answer lines))"
  using assms
proof (induction bodies arbitrary: lines B a)
  case (Cons b bs)
  obtain l ls where lines: "lines = l # ls" and adm: "admitted_as J G B b l" "list_all2 (admitted_as J G B) bs ls"
    using Cons.prems(1) by (auto simp: list_all2_Cons1)
  from slow_request [OF adm(1), of "[a]" False "replicate (length bs) False" answer]
  obtain B' where B': "handle_request J G (slow_server answer) [] 0 0 b B = (parse_jsonrpc_response J (str_trim a), B')"
      "bd_process B' = Some ([answer l], replicate (length bs) False)" "bd_config B' = bd_config B" "bd_policy B' = bd_policy B"
    using Cons.prems(3,4) by (auto simp: slow_exchange read_reply_def)
  have "list_all2 (admitted_as J G B') bs ls" using adm(2) B'(3,4) by (simp add: admitted_as_def [abs_def])
  from Cons.IH [OF this Cons.prems(2) _ B'(2)] show ?case using Cons.prems(2) B'(1) lines by simp
qed simp

text \<open>C37: A late reply is taken for the reply to the next request: when one read times out, the request gets
  the timeout, and every later request that the server answers in time gets the answer to the
  request before it.\<close>

theorem late_reply_shifts_replies:
  assumes "list_all2 (admitted_as J G B) (b # bs) (l # ls)" "\<forall>l. answer l \<noteq> []"
    "bd_process B = Some ([], True # replicate (length bs) False)"
  shows "serve_bodies J G (slow_server answer) (b # bs) B =
    Inl (InitializeTimeout 60) #
      map (\<lambda>s. parse_jsonrpc_response J (str_trim s)) (take (length bs) (map answer (l # ls)))"
proof -
  have adm: "admitted_as J G B b l" "list_all2 (admitted_as J G B) bs ls" using assms(1) by auto
  from slow_request [OF adm(1) assms(3), of answer]
  obtain B' where B': "handle_request J G (slow_server answer) [] 0 0 b B = (Inl (InitializeTimeout 60), B')"
      "bd_process B' = Some ([answer l], replicate (length bs) False)" "bd_config B' = bd_config B" "bd_policy B' = bd_policy B"
    using assms(3) by (auto simp: slow_exchange read_reply_def INITIALIZE_TIMEOUT_SECS_def)
  have "list_all2 (admitted_as J G B') bs ls" using adm(2) B'(3,4) by (simp add: admitted_as_def [abs_def])
  from shifted_replies [OF this assms(2) _ B'(2)] show ?thesis using assms(2) B'(1) by simp
qed

definition two_calls :: serde_text where
  "two_calls = letter_serde (\<lambda>c. if c = CHR ''s'' then Some (tool_call 1 ''search'')
     else if c = CHR ''t'' then Some (tool_call 2 ''search'')
     else if c = CHR ''S'' then Some (jobject [(''id'', JInt 1)])
     else if c = CHR ''T'' then Some (jobject [(''id'', JInt 2)]) else None)
   (\<lambda>v. if json_get v ''id'' = Some (JInt 1) then CHR ''s'' else CHR ''t'')"

definition slow_bridge :: "(string list \<times> bool list) mcp_bridge" where
  "slow_bridge = \<lparr>bd_config = bd_config search_bridge, bd_port = 9100, bd_listener = None,
     bd_process = Some ([], [True, False]), bd_env_vars = [], bd_policy = [], bd_logger = None\<rparr>"

definition loud :: "bytes \<Rightarrow> string" where
  "loud l = (if l = [] then ''S'' else to_ascii_uppercase l)"

text \<open>The call with id 2 gets the reply with id 1.\<close>

theorem late_reply_shifts_replies_witness:
  "serve_bodies two_calls (\<lambda>_. None) (slow_server loud) [''s'', ''t''] slow_bridge =
     [Inl (InitializeTimeout 60), Inr (jobject [(''id'', JInt 1)])]"
proof -
  have "admitted_as two_calls (\<lambda>_. None) slow_bridge ''s'' [CHR ''s'', CHR 0x0A]"
    unfolding admitted_as_def by (rule exI [of _ "tool_call 1 ''search''"]) code_simp
  moreover have "admitted_as two_calls (\<lambda>_. None) slow_bridge ''t'' [CHR ''t'', CHR 0x0A]"
    unfolding admitted_as_def by (rule exI [of _ "tool_call 2 ''search''"]) code_simp
  ultimately have adm: "list_all2 (admitted_as two_calls (\<lambda>_. None) slow_bridge) [''s'', ''t'']
      [[CHR ''s'', CHR 0x0A], [CHR ''t'', CHR 0x0A]]" by simp
  have loud: "\<forall>l. loud l \<noteq> []" by (simp add: loud_def to_ascii_uppercase_def)
  have "parse_jsonrpc_response two_calls (str_trim (loud [CHR ''s'', CHR 0x0A])) = Inr (jobject [(''id'', JInt 1)])"
    by code_simp
  with late_reply_shifts_replies [OF adm loud] show ?thesis by (simp add: slow_bridge_def)
qed

section \<open>Registration files\<close>

lemma find_char_first: "\<forall>x \<in> set a. \<not> P x \<Longrightarrow> P c \<Longrightarrow> find_char P (a @ c # b) = Some (length a)"
  by (induction a) auto

lemma rsplit_at_last: "c \<notin> set b \<Longrightarrow> str_rsplit_once (a @ c # b) c = Some (a, b)"
proof -
  assume "c \<notin> set b"
  then have "find_char (\<lambda>d. d = c) (rev b @ c # rev a) = Some (length b)"
    using find_char_first [of "rev b" "\<lambda>d. d = c" c "rev a"] by auto
  then show ?thesis by (simp add: str_rsplit_once_def)
qed

lemma path_join_slash: "d \<noteq> [] \<Longrightarrow> last d \<noteq> CHR ''/'' \<Longrightarrow> \<not> str_starts_with n ''/'' \<Longrightarrow> path_join d n = d @ CHR ''/'' # n"
  by (simp add: path_join_def)

lemma registry_dir_end: "registry_dir d \<noteq> []" "last (registry_dir d) \<noteq> CHR ''/''"
  by (simp_all add: registry_dir_def path_join_def str_starts_with_def)

definition name_chars :: "string \<Rightarrow> bool" where
  "name_chars s \<longleftrightarrow> list_all (\<lambda>c. is_ascii_lowercase c \<or> is_ascii_digit c \<or> c = CHR ''-'') s"

lemma validate_name_ok: "validate_name s = Inr u \<longleftrightarrow> s \<noteq> [] \<and> name_chars s"
  by (simp add: validate_name_def name_chars_def)

lemma name_chars_plain: "name_chars s \<Longrightarrow> CHR ''/'' \<notin> set s \<and> CHR ''.'' \<notin> set s"
  by (auto simp: name_chars_def list_all_iff is_ascii_lowercase_def is_ascii_digit_def code_def)

lemma registration_path_ok:
  "registration_path d s v = Inr path \<longleftrightarrow>
     s \<noteq> [] \<and> v \<noteq> [] \<and> name_chars s \<and> name_chars v \<and> path = registry_dir d @ CHR ''/'' # (s @ ''-'' @ v @ ''.yaml'')"
proof -
  have "path_join (registry_dir d) (s @ ''-'' @ v @ ''.yaml'') = registry_dir d @ CHR ''/'' # (s @ ''-'' @ v @ ''.yaml'')"
    if "s \<noteq> []" "name_chars s"
    using that registry_dir_end name_chars_plain [of s] by (intro path_join_slash) (cases s; auto simp: str_starts_with_def)+
  then show ?thesis
    by (auto simp: registration_path_def and_then_eq_Inr validate_name_ok)
qed

lemma temp_path:
  assumes "registration_path d s v = Inr path"
  shows "with_extension path ''yaml.tmp'' = registry_dir d @ CHR ''/'' # (s @ ''-'' @ v @ ''.yaml.tmp'')"
proof -
  have plain: "CHR ''/'' \<notin> set (s @ ''-'' @ v @ ''.yaml'')" "CHR ''.'' \<notin> set ''yaml''" "CHR ''.'' \<notin> set (s @ ''-'' @ v)"
    and path: "path = registry_dir d @ CHR ''/'' # (s @ ''-'' @ v @ ''.yaml'')"
    using assms name_chars_plain [of s] name_chars_plain [of v] by (auto simp: registration_path_ok)
  have "file_name path = s @ ''-'' @ v @ ''.yaml''"
    unfolding file_name_def path using rsplit_at_last [OF plain(1)] by simp
  moreover have "split_extension (s @ ''-'' @ v @ ''.yaml'') = (s @ ''-'' @ v, Some ''yaml'')"
    using rsplit_at_last [OF plain(2), of "s @ ''-'' @ v"] by (simp add: split_extension_def)
  ultimately show ?thesis by (simp add: with_extension_def path)
qed

lemma temp_path_other:
  "registration_path d s v = Inr path \<Longrightarrow> registration_path d s' v' = Inr path' \<Longrightarrow> with_extension path ''yaml.tmp'' \<noteq> path'"
  by (auto simp: temp_path registration_path_ok dest!: arg_cong [where f = last])

lemma paths_equal:
  "registration_path d s v = Inr path \<Longrightarrow> registration_path d s' v' = Inr path' \<Longrightarrow>
     path = path' \<longleftrightarrow> s @ ''-'' @ v = s' @ ''-'' @ v'"
  by (auto simp: registration_path_ok)

lemma map_of_hm: "map_of (hm_insert k x m) q = (if q = k then Some x else map_of m q)"
  "map_of (hm_remove k m) q = (if q = k then None else map_of m q)"
  by (simp_all add: map_of_hm_insert map_of_hm_remove)

text \<open>Only the temporary file and the registration's own file change, the latter only on success.\<close>

lemma write_registration_effect:
  assumes "write_registration D Y d reg fs = (r, fs')"
  shows "fs' = fs \<and> r \<noteq> Inr () \<or>
    (\<exists>path yaml. registration_path d (br_sandbox reg) (br_server_name reg) = Inr path \<and> ry_to_string Y reg = Inr yaml \<and>
       (\<forall>p. p \<noteq> with_extension path ''yaml.tmp'' \<longrightarrow>
          map_of fs' p = (if p = path \<and> r = Inr () then Some yaml else map_of fs p)))"
proof (cases "dk_create_dir D (registry_dir d)")
  case None
  show ?thesis
  proof (cases "registration_path d (br_sandbox reg) (br_server_name reg)")
    case (Inr path)
    show ?thesis
    proof (cases "ry_to_string Y reg")
      case (Inr yaml)
      let ?tmp = "with_extension path ''yaml.tmp''"
      note path = \<open>registration_path d (br_sandbox reg) (br_server_name reg) = Inr path\<close>
      have "?tmp \<noteq> path" by (rule temp_path_other [OF path path])
      then have "map_of fs' p = (if p = path \<and> r = Inr () then Some yaml else map_of fs p)" if "p \<noteq> ?tmp" for p
        using assms that None path Inr
        by (auto simp: write_registration_def Let_def write_file_def rename_file_def remove_file_def map_of_hm
            split: option.splits prod.splits if_splits)
      then show ?thesis using path Inr by blast
    qed (use assms None Inr in \<open>auto simp: write_registration_def Let_def\<close>)
  qed (use assms None in \<open>auto simp: write_registration_def Let_def\<close>)
qed (use assms in \<open>auto simp: write_registration_def Let_def\<close>)

definition yaml_ok :: "registry_yaml \<Rightarrow> bool" where
  "yaml_ok Y \<longleftrightarrow> (\<forall>r t. ry_to_string Y r = Inr t \<longrightarrow> is_utf8 t \<and> ry_from_str Y t = Inr r)"

lemma read_registration_same:
  "registration_path d s v = Inr path \<Longrightarrow> map_of fs path = map_of fs' path \<Longrightarrow>
     read_registration D Y d s v fs = read_registration D Y d s v fs'"
  by (cases "dk_read D path") (simp_all add: read_registration_def read_file_def)

lemma write_registration_inside:
  assumes "write_registration D Y d reg fs = (r, fs')" "map_of fs' p \<noteq> map_of fs p"
  shows "\<exists>n. p = registry_dir d @ CHR ''/'' # n \<and> CHR ''/'' \<notin> set n"
proof -
  have "fs' \<noteq> fs" using assms(2) by auto
  then obtain path yaml where path: "registration_path d (br_sandbox reg) (br_server_name reg) = Inr path"
    and files: "\<And>p. p \<noteq> with_extension path ''yaml.tmp'' \<Longrightarrow>
      map_of fs' p = (if p = path \<and> r = Inr () then Some yaml else map_of fs p)"
    using write_registration_effect [OF assms(1)] by blast
  have "p = with_extension path ''yaml.tmp'' \<or> p = path" using assms(2) files [of p] by metis
  then show ?thesis
    using path temp_path [OF path] name_chars_plain [of "br_sandbox reg"] name_chars_plain [of "br_server_name reg"]
    by (auto simp: registration_path_ok)
qed

lemma write_registration_reads:
  assumes "yaml_ok Y" "write_registration D Y d reg fs = (r, fs')" "registration_path d s v = Inr q" "dk_read D' q = None"
  shows "read_registration D' Y d s v fs' =
      (if r = Inr () \<and> s @ ''-'' @ v = br_sandbox reg @ ''-'' @ br_server_name reg then Inr (Some reg)
       else read_registration D' Y d s v fs)"
proof (cases "fs' = fs \<and> r \<noteq> Inr ()")
  case False
  then obtain path yaml where path: "registration_path d (br_sandbox reg) (br_server_name reg) = Inr path"
    and yaml: "ry_to_string Y reg = Inr yaml"
    and files: "\<And>p. p \<noteq> with_extension path ''yaml.tmp'' \<Longrightarrow>
      map_of fs' p = (if p = path \<and> r = Inr () then Some yaml else map_of fs p)"
    using write_registration_effect [OF assms(2)] by blast
  have "q \<noteq> with_extension path ''yaml.tmp''" using temp_path_other [OF path assms(3)] by simp
  note now = files [OF this]
  show ?thesis
  proof (cases "r = Inr () \<and> q = path")
    case True
    with now have "map_of fs' q = Some yaml" by simp
    moreover have "is_utf8 yaml" "ry_from_str Y yaml = Inr reg" using assms(1) yaml by (auto simp: yaml_ok_def)
    ultimately show ?thesis using True assms(3,4) paths_equal [OF assms(3) path] by (simp add: read_registration_def read_file_def)
  next
    case False
    then have "map_of fs' q = map_of fs q" using now by auto
    from read_registration_same [OF assms(3) this] show ?thesis using False paths_equal [OF assms(3) path] by auto
  qed
qed simp

text \<open>C26: Writing a registration is atomic: whatever fails, nothing outside the registry's directory changes;
  after a failure every registration reads as before; after a success the pair reads as the new
  registration, and another pair of valid names reads as before unless it has the same file, which
  is when the names joined by a hyphen are the same text.\<close>

theorem write_registration_atomic:
  assumes "yaml_ok Y" "write_registration D Y d reg fs = (r, fs')"
  shows "(\<forall>p. map_of fs' p \<noteq> map_of fs p \<longrightarrow> (\<exists>n. p = registry_dir d @ CHR ''/'' # n \<and> CHR ''/'' \<notin> set n)) \<and>
    (\<forall>D' s v path. registration_path d s v = Inr path \<longrightarrow> dk_read D' path = None \<longrightarrow>
       read_registration D' Y d s v fs' =
         (if r = Inr () \<and> s @ ''-'' @ v = br_sandbox reg @ ''-'' @ br_server_name reg then Inr (Some reg)
          else read_registration D' Y d s v fs))"
  using write_registration_inside [OF assms(2)] write_registration_reads [OF assms] by blast

definition example_registration :: bridge_registration where
  "example_registration = \<lparr>br_sandbox = ''a-b'', br_server_name = ''c'', br_transport = StdioHttp, br_command = [''srv''],
     br_bridge_pid = 7, br_forwarded_port = 9100, br_status = BridgeRunning, br_process_start_time = None\<rparr>"

definition one_yaml :: registry_yaml where
  "one_yaml = \<lparr>ry_to_string = (\<lambda>r. if r = example_registration then Inr ''y'' else Inl ''other''),
     ry_from_str = (\<lambda>_. Inr example_registration)\<rparr>"

definition good_disk :: disk where
  "good_disk = \<lparr>dk_create_dir = (\<lambda>_. None), dk_write = (\<lambda>_. None), dk_rename = (\<lambda>_ _. None), dk_read = (\<lambda>_. None),
     dk_remove = (\<lambda>_. None), dk_read_dir = (\<lambda>_. None), dk_entries = map Inr\<rparr>"

lemma one_yaml_ok: "yaml_ok one_yaml"
  by (auto simp: yaml_ok_def one_yaml_def is_utf8_ascii is_ascii_str_def code_def split: if_splits)

text \<open>
  A write that succeeds is also read under the names \<open>a\<close> and \<open>b-c\<close>; a write whose rename fails
  leaves every registration as it was.
\<close>

theorem write_registration_atomic_witness:
  "(\<exists>fs. write_registration good_disk one_yaml ''/c'' example_registration [] = (Inr (), fs) \<and>
     read_registration good_disk one_yaml ''/c'' ''a'' ''b-c'' fs = Inr (Some example_registration)) \<and>
   (\<exists>e fs. write_registration (good_disk\<lparr>dk_rename := \<lambda>_ _. Some ''EIO''\<rparr>) one_yaml ''/c'' example_registration [] = (Inl e, fs) \<and>
     read_registration good_disk one_yaml ''/c'' ''a-b'' ''c'' fs = read_registration good_disk one_yaml ''/c'' ''a-b'' ''c'' [])"
proof -
  have ok: "is_ok (fst (write_registration good_disk one_yaml ''/c'' example_registration []))"
    "\<not> is_ok (fst (write_registration (good_disk\<lparr>dk_rename := \<lambda>_ _. Some ''EIO''\<rparr>) one_yaml ''/c'' example_registration []))"
    by code_simp+
  obtain r fs where w: "write_registration good_disk one_yaml ''/c'' example_registration [] = (r, fs)" by fastforce
  then have r: "r = Inr ()" using ok(1) by (cases r) auto
  obtain r' fs' where w': "write_registration (good_disk\<lparr>dk_rename := \<lambda>_ _. Some ''EIO''\<rparr>) one_yaml ''/c'' example_registration [] = (r', fs')"
    by fastforce
  then obtain e where r': "r' = Inl e" using ok(2) by (cases r') auto
  have paths: "registration_path ''/c'' ''a'' ''b-c'' = Inr ''/c/darkshell/mcp/a-b-c.yaml''"
    "registration_path ''/c'' ''a-b'' ''c'' = Inr ''/c/darkshell/mcp/a-b-c.yaml''" by code_simp+
  have readable: "dk_read good_disk p = None" for p by (simp add: good_disk_def)
  have names: "''a'' @ ''-'' @ ''b-c'' = br_sandbox example_registration @ ''-'' @ br_server_name example_registration"
    by (simp add: example_registration_def)
  have "read_registration good_disk one_yaml ''/c'' ''a'' ''b-c'' fs = Inr (Some example_registration)"
    using conjunct2 [OF write_registration_atomic [OF one_yaml_ok w], rule_format, OF paths(1) readable] r names by simp
  moreover have "read_registration good_disk one_yaml ''/c'' ''a-b'' ''c'' fs' = read_registration good_disk one_yaml ''/c'' ''a-b'' ''c'' []"
    using conjunct2 [OF write_registration_atomic [OF one_yaml_ok w'], rule_format, OF paths(2) readable] r' by simp
  ultimately show ?thesis using w w' r r' by blast
qed

section \<open>Restarts\<close>

definition reliable :: "disk \<Rightarrow> bool" where
  "reliable D \<longleftrightarrow> (\<forall>p q. dk_create_dir D p = None \<and> dk_write D p = None \<and> dk_rename D p q = None \<and> dk_read D p = None \<and>
     dk_remove D p = None \<and> dk_read_dir D p = None)"

lemma write_reliable:
  assumes "reliable D" "registration_path d (br_sandbox reg) (br_server_name reg) = Inr path" "ry_to_string Y reg = Inr t"
  shows "fst (write_registration D Y d reg fs) = Inr ()"
  using assms by (simp add: write_registration_def reliable_def Let_def write_file_def rename_file_def map_of_hm)

lemma status_on_file:
  assumes "reliable D" "yaml_ok Y" "\<forall>st. \<exists>t. ry_to_string Y (registration_of H (bd_config B) (bd_port B) st) = Inr t"
    "registration_path (bg_config_dir (bd_config B)) (bg_sandbox (bd_config B)) (bg_server_name (bd_config B)) = Inr path"
  shows "read_registration D Y (bg_config_dir (bd_config B)) (bg_sandbox (bd_config B)) (bg_server_name (bd_config B))
      (update_registration_status D Y H B st fs) = Inr (Some (registration_of H (bd_config B) (bd_port B) st))"
proof -
  let ?reg = "registration_of H (bd_config B) (bd_port B) st"
  obtain r fs' where w: "write_registration D Y (bg_config_dir (bd_config B)) ?reg fs = (r, fs')" by fastforce
  obtain t where "ry_to_string Y ?reg = Inr t" using assms(3) by blast
  with write_reliable [OF assms(1) _ this, of "bg_config_dir (bd_config B)" path fs] assms(4) w
  have "r = Inr ()" by (simp add: registration_of_def)
  with write_registration_reads [OF assms(2) w assms(4), of D] assms(1) w show ?thesis
    by (simp add: update_registration_status_def reliable_def registration_of_def)
qed

definition spawns :: "'p host \<Rightarrow> 'p mcp_bridge \<Rightarrow> nat \<Rightarrow> bridge_error + 'p" where
  "spawns H B k = spawn_mcp_process H k (bg_command (bd_config B)) (bd_env_vars B)"

lemma backoff_simps: "backoff_duration 0 = Some 1" "backoff_duration (Suc 0) = Some 2" "backoff_duration 2 = Some 4"
  by (simp_all add: backoff_duration_def BACKOFF_DURATIONS_def)

lemma restart_cases:
  "\<exists>fs'. restart_with_backoff D Y H reason B fs =
    (case spawns H B 0 of
       Inr p \<Rightarrow> (Inr (), B\<lparr>bd_process := Some p\<rparr>, update_registration_status D Y H (B\<lparr>bd_process := Some p\<rparr>) BridgeRunning fs', [1])
     | Inl _ \<Rightarrow> (case spawns H B 1 of
         Inr p \<Rightarrow> (Inr (), B\<lparr>bd_process := Some p\<rparr>, update_registration_status D Y H (B\<lparr>bd_process := Some p\<rparr>) BridgeRunning fs', [1, 2])
       | Inl _ \<Rightarrow> (case spawns H B 2 of
           Inr p \<Rightarrow> (Inr (), B\<lparr>bd_process := Some p\<rparr>, update_registration_status D Y H (B\<lparr>bd_process := Some p\<rparr>) BridgeRunning fs', [1, 2, 4])
         | Inl e \<Rightarrow> (Inl (MaxRetriesExhausted 3 (bridge_error_text e)), B, update_registration_status D Y H B Failed fs', [1, 2, 4]))))"
  by (auto simp: restart_with_backoff_def MAX_RESTART_ATTEMPTS_def upt_rec numeral_2_eq_2 backoff_simps backoff_simps [unfolded numeral_2_eq_2]
      spawns_def Let_def split: sum.splits)


definition flaky_host :: "unit host" where
  "flaky_host = \<lparr>os_bind = (\<lambda>_. True), os_local_port = Inr, os_spawn = (\<lambda>k _ _. if k < 1 then Inl ''ENOENT'' else Inr ()),
     os_kill_0 = (\<lambda>_. False), os_lstart = (\<lambda>_. None), os_parse_time = (\<lambda>_. None), os_pid = 7, os_now_secs = 0\<rparr>"

definition status_yaml :: "bridge_registration \<Rightarrow> registry_yaml" where
  "status_yaml base =
     \<lparr>ry_to_string = (\<lambda>r. if r\<lparr>br_status := Starting\<rparr> = base
        then Inr (case br_status r of Starting \<Rightarrow> ''s'' | BridgeRunning \<Rightarrow> ''r'' | Stopping \<Rightarrow> ''i'' | Stopped \<Rightarrow> ''d'' | Failed \<Rightarrow> ''f'')
        else Inl ''other''),
      ry_from_str = (\<lambda>t. Inr (base\<lparr>br_status := (if t = ''s'' then Starting else if t = ''r'' then BridgeRunning
        else if t = ''i'' then Stopping else if t = ''d'' then Stopped else Failed)\<rparr>))\<rparr>"

lemma status_yaml_ok: "yaml_ok (status_yaml base)"
  by (auto simp: yaml_ok_def status_yaml_def is_utf8_ascii is_ascii_str_def code_def split: if_splits bridge_status.splits)


end
