(* ===== verification/McpCommands.thy ===== *)
theory McpCommands
  imports Bridge
begin

text \<open>
  The commands \<open>darkshell mcp add\<close>, \<open>list\<close> and \<open>remove\<close> and the cleanup when a sandbox is deleted
  (\<open>openshell-cli/src/mcp.rs\<close>). What they ask of the process table and send to it is explicit: a
  signal goes to an \<open>i32\<close>, where 0 is the caller's own process group.
\<close>

section \<open>Processes\<close>

text \<open>\<open>pt_exists\<close>: \<open>kill(pid, 0)\<close> succeeds; \<open>pt_comm\<close>: the output of a successful \<open>ps -o comm=\<close>.\<close>

record process_table =
  pt_exists :: "int \<Rightarrow> bool"
  pt_comm :: "u32 \<Rightarrow> bytes option"
  pt_self :: u32
  pt_port_free :: "u16 \<Rightarrow> bool"

definition raw_pid :: "u32 \<Rightarrow> int" where
  "raw_pid pid = (if unat pid < 2 ^ 31 then int (unat pid) else 0)"

definition process_is_alive :: "process_table \<Rightarrow> u32 \<Rightarrow> bool" where
  "process_is_alive P pid = pt_exists P (raw_pid pid)"

definition EXPECTED_PATTERNS :: "string list" where
  "EXPECTED_PATTERNS = [''darkshell'', ''openshell'', ''npx'', ''node'', ''mcp'']"

definition verify_mcp_bridge_process :: "process_table \<Rightarrow> u32 \<Rightarrow> bool" where
  "verify_mcp_bridge_process P pid =
     (case pt_comm P pid of
        None \<Rightarrow> True
      | Some out \<Rightarrow>
          (let comm = str_trim (from_utf8_lossy out) in
           comm = [] \<or> list_ex (str_contains comm) EXPECTED_PATTERNS))"

text \<open>The processes that \<open>SIGTERM\<close> is sent to.\<close>

definition safe_kill_bridge :: "process_table \<Rightarrow> u32 \<Rightarrow> int list" where
  "safe_kill_bridge P pid = (if verify_mcp_bridge_process P pid then [raw_pid pid] else [])"

section \<open>Commands\<close>

definition resolve_config_dir :: "string option \<Rightarrow> string option \<Rightarrow> string + string" where
  "resolve_config_dir override home =
     (case override of
        Some d \<Rightarrow> Inr d
      | None \<Rightarrow> map_sum bridge_error_text id (default_config_dir home))"

definition into_diagnostic :: "bridge_error + 'a \<Rightarrow> string + 'a" where
  "into_diagnostic r = map_sum bridge_error_text id r"

definition no_ports_text :: string where
  "no_ports_text =
     ''no available ports in range '' @ dec (unat PORT_RANGE_START) @ ''-'' @ dec (unat PORT_RANGE_END) @
     '' for MCP bridge. Free a port with: lsof -i :<port> -sTCP:LISTEN | kill <PID>''"

definition allocate_port :: "disk \<Rightarrow> registry_yaml \<Rightarrow> process_table \<Rightarrow> string \<Rightarrow> files \<Rightarrow> string + u16" where
  "allocate_port D Y P config_dir fs =
     and_then (into_diagnostic (list_registrations D Y config_dir fs)) (\<lambda>existing.
       let used = br_forwarded_port ` set existing in
       case find (\<lambda>p. p \<notin> used \<and> pt_port_free P p) (port_range PORT_RANGE_START PORT_RANGE_END) of
         None \<Rightarrow> Inl no_ports_text
       | Some port \<Rightarrow> Inr port)"

definition already_registered_text :: "string \<Rightarrow> string \<Rightarrow> u32 \<Rightarrow> string" where
  "already_registered_text sandbox server_name pid = ''MCP server '' @ [CHR 0x27] @ server_name @ [CHR 0x27] @ '' already registered on sandbox '' @ [CHR 0x27] @ sandbox @ [CHR 0x27] @ '' (PID '' @ dec (unat pid) @ ''). Use `darkshell mcp remove '' @ sandbox @ '' --name '' @ server_name @ ''` first.''"

text \<open>Both kinds of \<open>add\<close> first look for a live registration and remove a stale one.\<close>

definition claim_name ::
    "disk \<Rightarrow> registry_yaml \<Rightarrow> process_table \<Rightarrow> string \<Rightarrow> string \<Rightarrow> string \<Rightarrow> files \<Rightarrow> (string + unit) \<times> files" where
  "claim_name D Y P config_dir sandbox server_name fs =
     (case into_diagnostic (read_registration D Y config_dir sandbox server_name fs) of
        Inl e \<Rightarrow> (Inl e, fs)
      | Inr None \<Rightarrow> (Inr (), fs)
      | Inr (Some existing) \<Rightarrow>
          if process_is_alive P (br_bridge_pid existing)
          then (Inl (already_registered_text sandbox server_name (br_bridge_pid existing)), fs)
          else (case remove_registration D config_dir sandbox server_name fs of
              (r, fs) \<Rightarrow> (map_sum bridge_error_text (\<lambda>_. ()) r, fs)))"

definition register ::
    "disk \<Rightarrow> registry_yaml \<Rightarrow> process_table \<Rightarrow> string \<Rightarrow> string \<Rightarrow> string \<Rightarrow> string list \<Rightarrow> u16 \<Rightarrow> files \<Rightarrow>
     (string + unit) \<times> files" where
  "register D Y P config_dir sandbox server_name command port fs =
     (case write_registration D Y config_dir
         \<lparr>br_sandbox = sandbox, br_server_name = server_name, br_transport = StdioHttp, br_command = command,
          br_bridge_pid = pt_self P, br_forwarded_port = port, br_status = BridgeRunning, br_process_start_time = None\<rparr> fs of
        (r, fs) \<Rightarrow> (into_diagnostic r, fs))"

definition mcp_add ::
    "disk \<Rightarrow> registry_yaml \<Rightarrow> process_table \<Rightarrow> string + string \<Rightarrow> string \<Rightarrow> string \<Rightarrow> string list \<Rightarrow> files \<Rightarrow>
     (string + u16) \<times> files" where
  "mcp_add D Y P resolved sandbox server_name command fs =
     (case resolved of
        Inl e \<Rightarrow> (Inl e, fs)
      | Inr config_dir \<Rightarrow>
          (case claim_name D Y P config_dir sandbox server_name fs of
             (Inl e, fs) \<Rightarrow> (Inl e, fs)
           | (Inr _, fs) \<Rightarrow>
               (case allocate_port D Y P config_dir fs of
                  Inl e \<Rightarrow> (Inl e, fs)
                | Inr port \<Rightarrow>
                    (case register D Y P config_dir sandbox server_name command port fs of
                       (r, fs) \<Rightarrow> (and_then r (\<lambda>_. Inr port), fs)))))"

definition start_in_sandbox_mcp ::
    "disk \<Rightarrow> registry_yaml \<Rightarrow> process_table \<Rightarrow> string + string \<Rightarrow> string \<Rightarrow> string \<Rightarrow> string list \<Rightarrow> files \<Rightarrow>
     (string + unit) \<times> files" where
  "start_in_sandbox_mcp D Y P resolved sandbox server_name command fs =
     (case resolved of
        Inl e \<Rightarrow> (Inl e, fs)
      | Inr config_dir \<Rightarrow>
          (case claim_name D Y P config_dir sandbox server_name fs of
             (Inl e, fs) \<Rightarrow> (Inl e, fs)
           | (Inr _, fs) \<Rightarrow> register D Y P config_dir sandbox server_name command 0 fs))"

text \<open>The rows of \<open>mcp list\<close>: as JSON values, or as lines with columns padded to a number of characters.\<close>

definition live_status :: "process_table \<Rightarrow> bridge_registration \<Rightarrow> string" where
  "live_status P r = (if process_is_alive P (br_bridge_pid r) then ''running'' else ''stopped'')"

definition registration_json :: "process_table \<Rightarrow> bridge_registration \<Rightarrow> json" where
  "registration_json P r =
     jobject [(''sandbox'', JString (br_sandbox r)), (''server_name'', JString (br_server_name r)),
       (''transport'', JString ''stdiohttp''), (''command'', JArray (map JString (br_command r))),
       (''bridge_pid'', JInt (int (unat (br_bridge_pid r)))), (''forwarded_port'', JInt (int (unat (br_forwarded_port r)))),
       (''status'', JString (live_status P r))]"

definition pad_right :: "nat \<Rightarrow> string \<Rightarrow> string" where
  "pad_right n s = s @ replicate (n - length (filter (\<lambda>c. \<not> is_cont (code c)) s)) (CHR '' '')"

definition list_row :: "string list \<Rightarrow> string" where
  "list_row cols = str_join '' '' (map2 pad_right [20, 15, 8, 10, 10] cols)"

definition registration_row :: "process_table \<Rightarrow> bridge_registration \<Rightarrow> string" where
  "registration_row P r =
     list_row [br_server_name r, ''stdio-http'', dec (unat (br_forwarded_port r)), dec (unat (br_bridge_pid r)), live_status P r]"

datatype list_format = Human | ListJson
datatype listing = JsonValues "json list" | Lines "string list"

definition mcp_list ::
    "disk \<Rightarrow> registry_yaml \<Rightarrow> process_table \<Rightarrow> string + string \<Rightarrow> string \<Rightarrow> list_format \<Rightarrow> files \<Rightarrow> string + listing" where
  "mcp_list D Y P resolved sandbox fmt fs =
     and_then resolved (\<lambda>config_dir.
     and_then (into_diagnostic (list_registrations D Y config_dir fs)) (\<lambda>all.
       let filtered = filter (\<lambda>r. br_sandbox r = sandbox) all in
       case fmt of
         ListJson \<Rightarrow> Inr (JsonValues (map (registration_json P) filtered))
       | Human \<Rightarrow>
           if filtered = [] then Inr (Lines [''No MCP servers registered for sandbox '' @ [CHR 0x27] @ sandbox @ [CHR 0x27] @ ''.''])
           else Inr (Lines ([list_row [''SERVER'', ''TRANSPORT'', ''PORT'', ''PID'', ''STATUS''],
             replicate 63 (CHR ''-'')] @ map (registration_row P) filtered))))"

definition not_found_text :: "string \<Rightarrow> string \<Rightarrow> string list \<Rightarrow> string" where
  "not_found_text sandbox server_name available =
     ''MCP server '' @ [CHR 0x27] @ server_name @ [CHR 0x27] @ '' not found on sandbox '' @ [CHR 0x27] @ sandbox @ [CHR 0x27] @ ''. '' @
     (if available = [] then ''No MCP servers are registered for this sandbox.''
      else ''Available MCP servers: '' @ str_join '', '' available)"

text \<open>The result, the files, and the processes that were signalled.\<close>

definition mcp_remove ::
    "disk \<Rightarrow> registry_yaml \<Rightarrow> process_table \<Rightarrow> string + string \<Rightarrow> string \<Rightarrow> string \<Rightarrow> files \<Rightarrow>
     (string + unit) \<times> files \<times> int list" where
  "mcp_remove D Y P resolved sandbox server_name fs =
     (case resolved of
        Inl e \<Rightarrow> (Inl e, fs, [])
      | Inr config_dir \<Rightarrow>
          (case into_diagnostic (read_registration D Y config_dir sandbox server_name fs) of
             Inl e \<Rightarrow> (Inl e, fs, [])
           | Inr None \<Rightarrow>
               (case into_diagnostic (list_registrations D Y config_dir fs) of
                  Inl e \<Rightarrow> (Inl e, fs, [])
                | Inr all \<Rightarrow> (Inl (not_found_text sandbox server_name
                    (map br_server_name (filter (\<lambda>r. br_sandbox r = sandbox) all))), fs, []))
           | Inr (Some reg) \<Rightarrow>
               (let killed = (if process_is_alive P (br_bridge_pid reg) then safe_kill_bridge P (br_bridge_pid reg) else [])
                in case remove_registration D config_dir sandbox server_name fs of
                     (r, fs) \<Rightarrow> (map_sum bridge_error_text (\<lambda>_. ()) r, fs, killed))))"

definition cleanup_mcp_for_sandbox ::
    "disk \<Rightarrow> registry_yaml \<Rightarrow> process_table \<Rightarrow> string + string \<Rightarrow> string \<Rightarrow> files \<Rightarrow> files \<times> int list" where
  "cleanup_mcp_for_sandbox D Y P resolved sandbox fs =
     (case resolved of
        Inl _ \<Rightarrow> (fs, [])
      | Inr config_dir \<Rightarrow>
          (case list_registrations D Y config_dir fs of
             Inl _ \<Rightarrow> (fs, [])
           | Inr registrations \<Rightarrow>
               (let sandbox_regs = filter (\<lambda>r. br_sandbox r = sandbox) registrations in
                if sandbox_regs = [] then (fs, [])
                else (snd (cleanup_sandbox D Y config_dir sandbox fs),
                  concat (map (\<lambda>reg. if process_is_alive P (br_bridge_pid reg)
                    then safe_kill_bridge P (br_bridge_pid reg) else []) sandbox_regs)))))"

end
