(* ===== verification/McpProps.thy ===== *)
theory McpProps
  imports BridgeProps McpCommands
begin

text \<open>What the commands guarantee: the port of a new registration, and whom a removal signals.\<close>

lemma port_range_set: "set (port_range a b) = {p. a \<le> p \<and> p \<le> b}"
proof (intro equalityI subsetI)
  fix p assume "p \<in> set (port_range a b)"
  then obtain n where "p = of_nat n" "unat a \<le> n" "n \<le> unat b" by (auto simp: port_range_def)
  moreover have "unat b < 2 ^ 16" by (rule order_less_le_trans [OF unsigned_less]) simp
  ultimately show "p \<in> {p. a \<le> p \<and> p \<le> b}" by (simp add: word_le_nat_alt unat_of_nat)
next
  fix p assume "p \<in> {p. a \<le> p \<and> p \<le> b}"
  then have "unat a \<le> unat p \<and> unat p < Suc (unat b)" by (simp add: word_le_nat_alt less_Suc_eq_le)
  then show "p \<in> set (port_range a b)" unfolding port_range_def set_map set_upt
    by (intro image_eqI [of _ _ "unat p"]) (simp_all del: upt_Suc)
qed

lemma into_diagnostic_Inr: "into_diagnostic r = Inr a \<longleftrightarrow> r = Inr a"
  by (cases r) (simp_all add: into_diagnostic_def)

lemma find_Some_mem: "find P xs = Some x \<Longrightarrow> x \<in> set xs \<and> P x"
  by (auto simp: find_Some_iff)

text \<open>The port that a new registration gets lies in 9100 to 9199, can be bound, and belongs to no registration
  that can be listed; the command refuses for lack of a port only when each of the hundred ports is taken
  or registered; and after a successful \<open>add\<close> the pair of names reads as a registration with that port.\<close>

theorem added_port_is_free:
  shows "(allocate_port D Y P d fs = Inr port \<longrightarrow>
      9100 \<le> port \<and> port \<le> 9199 \<and> pt_port_free P port \<and>
      (\<forall>regs. list_registrations D Y d fs = Inr regs \<longrightarrow> (\<forall>r \<in> set regs. br_forwarded_port r \<noteq> port))) \<and>
    (list_registrations D Y d fs = Inr regs \<longrightarrow>
      (allocate_port D Y P d fs = Inl no_ports_text \<longleftrightarrow>
        (\<forall>p. 9100 \<le> p \<and> p \<le> 9199 \<longrightarrow> \<not> pt_port_free P p \<or> (\<exists>r \<in> set regs. br_forwarded_port r = p)))) \<and>
    (yaml_ok Y \<longrightarrow> reliable D \<longrightarrow> mcp_add D Y P (Inr d) sandbox server_name command fs = (Inr port, fs') \<longrightarrow>
      (\<exists>r. read_registration D Y d sandbox server_name fs' = Inr (Some r) \<and> br_forwarded_port r = port \<and> br_command r = command))"
proof (intro conjI impI)
  assume "allocate_port D Y P d fs = Inr port"
  then obtain regs where regs: "list_registrations D Y d fs = Inr regs"
    and found: "find (\<lambda>p. p \<notin> br_forwarded_port ` set regs \<and> pt_port_free P p) (port_range PORT_RANGE_START PORT_RANGE_END) = Some port"
    by (auto simp: allocate_port_def and_then_eq_Inr into_diagnostic_Inr Let_def split: option.splits)
  from find_Some_mem [OF found] regs
  show "9100 \<le> port" "port \<le> 9199" "pt_port_free P port"
    "\<forall>regs. list_registrations D Y d fs = Inr regs \<longrightarrow> (\<forall>r \<in> set regs. br_forwarded_port r \<noteq> port)"
    by (auto simp: port_range_set PORT_RANGE_START_def PORT_RANGE_END_def)
next
  assume "list_registrations D Y d fs = Inr regs"
  then have "allocate_port D Y P d fs = Inl no_ports_text \<longleftrightarrow>
      find (\<lambda>p. p \<notin> br_forwarded_port ` set regs \<and> pt_port_free P p) (port_range PORT_RANGE_START PORT_RANGE_END) = None"
    by (auto simp: allocate_port_def into_diagnostic_def Let_def split: option.splits)
  also have "\<dots> \<longleftrightarrow> (\<forall>p. 9100 \<le> p \<and> p \<le> 9199 \<longrightarrow> \<not> pt_port_free P p \<or> (\<exists>r \<in> set regs. br_forwarded_port r = p))"
    unfolding find_None_iff port_range_set PORT_RANGE_START_def PORT_RANGE_END_def by blast
  finally show "allocate_port D Y P d fs = Inl no_ports_text \<longleftrightarrow>
    (\<forall>p. 9100 \<le> p \<and> p \<le> 9199 \<longrightarrow> \<not> pt_port_free P p \<or> (\<exists>r \<in> set regs. br_forwarded_port r = p))" .
next
  assume Y: "yaml_ok Y" and D: "reliable D"
    and "mcp_add D Y P (Inr d) sandbox server_name command fs = (Inr port, fs')"
  then obtain f where reg: "register D Y P d sandbox server_name command port f = (Inr (), fs')"
    by (auto simp: mcp_add_def and_then_eq_Inr split: prod.splits sum.splits)
  let ?r = "\<lparr>br_sandbox = sandbox, br_server_name = server_name, br_transport = StdioHttp, br_command = command,
          br_bridge_pid = pt_self P, br_forwarded_port = port, br_status = BridgeRunning, br_process_start_time = None\<rparr>"
  from reg have w: "write_registration D Y d ?r f = (Inr (), fs')"
    by (auto simp: register_def into_diagnostic_Inr split: prod.splits)
  then obtain path where "registration_path d sandbox server_name = Inr path"
    using write_registration_effect [OF w] by auto
  from write_registration_reads [OF Y w this, of D] D
  show "\<exists>r. read_registration D Y d sandbox server_name fs' = Inr (Some r) \<and> br_forwarded_port r = port \<and> br_command r = command"
    by (simp add: reliable_def)
qed

definition empty_table :: process_table where
  "empty_table = \<lparr>pt_exists = (\<lambda>_. False), pt_comm = (\<lambda>_. None), pt_self = 7, pt_port_free = (\<lambda>p. p \<noteq> 9100)\<rparr>"

theorem added_port_is_free_witness:
  "allocate_port good_disk one_yaml empty_table ''/c'' [] = Inr 9101 \<and> (9100 :: u16) \<le> 9101"
proof -
  have "allocate_port good_disk one_yaml empty_table ''/c'' [] = Inr 9101" by code_simp
  then show ?thesis using added_port_is_free [of good_disk one_yaml empty_table "''/c''" "[]" 9101] by blast
qed

text \<open>C38: Removing a registration whose process id does not fit a signed integer, or is zero, sends the
  signal to the caller's own process group: the id is replaced by zero, for which the process test
  succeeds, and \<open>ps\<close> finding no such process counts as a bridge.\<close>

theorem remove_signals_own_group:
  assumes "read_registration D Y d sandbox server_name fs = Inr (Some reg)"
    "2 ^ 31 \<le> unat (br_bridge_pid reg) \<or> br_bridge_pid reg = 0" "pt_exists P 0" "pt_comm P (br_bridge_pid reg) = None"
  shows "snd (snd (mcp_remove D Y P (Inr d) sandbox server_name fs)) = [0] \<and>
    (list_registrations D Y d fs = Inr regs \<and> reg \<in> set regs \<and> br_sandbox reg = sandbox \<longrightarrow>
       0 \<in> set (snd (cleanup_mcp_for_sandbox D Y P (Inr d) sandbox fs)))"
proof -
  have raw: "raw_pid (br_bridge_pid reg) = 0" using assms(2) by (auto simp: raw_pid_def)
  then have kill: "process_is_alive P (br_bridge_pid reg)" "safe_kill_bridge P (br_bridge_pid reg) = [0]"
    using assms(3,4) by (simp_all add: process_is_alive_def safe_kill_bridge_def verify_mcp_bridge_process_def)
  have "0 \<in> set (snd (cleanup_mcp_for_sandbox D Y P (Inr d) sandbox fs))"
    if "list_registrations D Y d fs = Inr regs" "reg \<in> set regs" "br_sandbox reg = sandbox"
    using that kill by (auto simp: cleanup_mcp_for_sandbox_def Let_def filter_empty_conv intro!: bexI [of _ reg])
  moreover have "snd (snd (mcp_remove D Y P (Inr d) sandbox server_name fs)) = [0]"
    using assms(1) kill by (simp add: mcp_remove_def into_diagnostic_def Let_def split: prod.split)
  ultimately show ?thesis by blast
qed

text \<open>The largest process id.\<close>

definition big_pid_yaml :: registry_yaml where
  "big_pid_yaml = \<lparr>ry_to_string = (\<lambda>_. Inl ''unused''), ry_from_str = (\<lambda>_. Inr (example_registration\<lparr>br_bridge_pid := 4294967295\<rparr>))\<rparr>"

theorem remove_signals_own_group_witness:
  "snd (snd (mcp_remove good_disk big_pid_yaml (empty_table\<lparr>pt_exists := \<lambda>i. i = 0\<rparr>) (Inr ''/c'') ''a-b'' ''c''
     [(''/c/darkshell/mcp/a-b-c.yaml'', ''y'')])) = [0]"
proof -
  have "read_registration good_disk big_pid_yaml ''/c'' ''a-b'' ''c'' [(''/c/darkshell/mcp/a-b-c.yaml'', ''y'')] =
      Inr (Some (example_registration\<lparr>br_bridge_pid := 4294967295\<rparr>))" by code_simp
  from conjunct1 [OF remove_signals_own_group [OF this, of "empty_table\<lparr>pt_exists := \<lambda>i. i = 0\<rparr>"]]
  show ?thesis by (simp add: empty_table_def)
qed

end
