(* ===== verification/Blueprint.thy ===== *)
theory Blueprint
  imports Json Ssrf
begin

text \<open>
  Blueprints (\<open>darkshell-blueprint/src/schema.rs\<close>): the schema, its parsing and its validation, which
  collects all errors and warnings. The YAML parser is a parameter; a number's text is read as
  \<open>str::parse\<close> reads it.
\<close>

section \<open>Schema\<close>

datatype mcp_transport = Bridge | InSandbox | StreamableHttp

record blueprint_metadata =
  bm_name :: "string option"
  bm_description :: "string option"
  bm_extra :: "(string, json) hash_map"

record mcp_server_entry =
  se_name :: "string option"
  se_transport :: "mcp_transport option"
  se_command :: "string option"
  se_env :: "string list option"
  se_url :: "string option"
  se_extra :: "(string, json) hash_map"

record resource_spec =
  rs_cpu :: "string option"
  rs_memory :: "string option"
  rs_extra :: "(string, json) hash_map"

record blueprint_spec =
  bs_image :: "string option"
  bs_policy :: "string option"
  bs_providers :: "string list option"
  bs_mcp_servers :: "mcp_server_entry list option"
  bs_forwards :: "string list option"
  bs_resources :: "resource_spec option"
  bs_upload :: "string list option"
  bs_extra :: "(string, json) hash_map"

record blueprint =
  bp_api_version :: "string option"
  bp_kind :: "string option"
  bp_metadata :: "blueprint_metadata option"
  bp_spec :: "blueprint_spec option"
  bp_extra :: "(string, json) hash_map"

text \<open>Errors and warnings have a field and a message; a result is the errors and the warnings.\<close>

type_synonym issue = "string \<times> string"
type_synonym findings = "issue list \<times> issue list"

definition and_also :: "findings \<Rightarrow> findings \<Rightarrow> findings" where
  "and_also a b = (fst a @ fst b, snd a @ snd b)"

definition no_issues :: findings where "no_issues = ([], [])"
definition bad :: "string \<Rightarrow> string \<Rightarrow> findings" where "bad field message = ([(field, message)], [])"
definition warn :: "string \<Rightarrow> string \<Rightarrow> findings" where "warn field message = ([], [(field, message)])"

definition all_issues :: "findings list \<Rightarrow> findings" where
  "all_issues fs = (concat (map fst fs), concat (map snd fs))"

section \<open>Parsing\<close>

datatype yaml_kind = YMapping | YSequence | YString | YNumber | YBool | YNull | YTagged

record 'v blueprint_yaml =
  by_from_str :: "string \<Rightarrow> string + 'v"
  by_kind :: "'v \<Rightarrow> yaml_kind"
  by_from_value :: "'v \<Rightarrow> string + blueprint"

datatype blueprint_parse_error = EmptyInput | InputTooLarge nat nat | NotAMapping string | YamlError string

definition MAX_BLUEPRINT_SIZE :: nat where "MAX_BLUEPRINT_SIZE = 1048576"

definition parse_blueprint :: "'v blueprint_yaml \<Rightarrow> string \<Rightarrow> blueprint_parse_error + blueprint" where
  "parse_blueprint Y yaml =
     (if MAX_BLUEPRINT_SIZE < length yaml then Inl (InputTooLarge (length yaml) MAX_BLUEPRINT_SIZE)
      else if str_trim yaml = [] then Inl EmptyInput
      else case by_from_str Y (str_trim yaml) of
        Inl e \<Rightarrow> Inl (YamlError e)
      | Inr v \<Rightarrow>
          (case by_kind Y v of
             YMapping \<Rightarrow> (case by_from_value Y v of Inl e \<Rightarrow> Inl (YamlError e) | Inr b \<Rightarrow> Inr b)
           | YSequence \<Rightarrow> Inl (NotAMapping ''sequence'')
           | YString \<Rightarrow> Inl (NotAMapping ''string'')
           | YNumber \<Rightarrow> Inl (NotAMapping ''number'')
           | YBool \<Rightarrow> Inl (NotAMapping ''boolean'')
           | YNull \<Rightarrow> Inl EmptyInput
           | YTagged \<Rightarrow> Inl (NotAMapping ''unknown type'')))"

fun blueprint_parse_error_text :: "blueprint_parse_error \<Rightarrow> string" where
  "blueprint_parse_error_text EmptyInput = ''Empty blueprint file. See `darkshell blueprint --help` for format.''"
| "blueprint_parse_error_text (InputTooLarge n m) =
     ''Blueprint input is '' @ dec n @ '' bytes, exceeding the '' @ dec m @
     '' byte limit. Reduce the blueprint size or split into multiple files.''"
| "blueprint_parse_error_text (NotAMapping t) =
     ''Blueprint must be a YAML mapping, not a '' @ t @ ''. Expected `apiVersion`, `kind`, `metadata`, `spec`.''"
| "blueprint_parse_error_text (YamlError e) = ''YAML parse error: '' @ e"

section \<open>Quantities\<close>

text \<open>
  \<open>parse::<f64>\<close> on a decimal text: a sign, digits with an optional point and at least one digit, an
  optional exponent. The number is \<open>m * 10 ^ e\<close>. The double next to it is positive when it is more
  than half the least one, and finite below the middle between the greatest and \<open>2 ^ 1024\<close>.
  The texts of infinity and of no number give no positive finite double.
\<close>

definition digits_of :: "string \<Rightarrow> string \<times> string" where
  "digits_of s = (takeWhile is_ascii_digit s, dropWhile is_ascii_digit s)"

definition parse_exponent :: "string \<Rightarrow> int option" where
  "parse_exponent s =
     (case s of
        [] \<Rightarrow> Some 0
      | c # u \<Rightarrow>
          if c = CHR ''e'' \<or> c = CHR ''E'' then
            (let (neg, ds) = (case u of
                 [] \<Rightarrow> (False, [])
               | d # w \<Rightarrow> if d = CHR ''-'' then (True, w) else if d = CHR ''+'' then (False, w) else (False, u))
             in if ds \<noteq> [] \<and> list_all is_ascii_digit ds
                then map_option (\<lambda>n. if neg then - int n else int n) (digits_val 10 0 ds) else None)
          else None)"

definition parse_decimal :: "string \<Rightarrow> (bool \<times> nat \<times> int) option" where
  "parse_decimal s =
     (let (neg, u) = (case s of [] \<Rightarrow> (False, []) | c # u \<Rightarrow>
            if c = CHR ''-'' then (True, u) else if c = CHR ''+'' then (False, u) else (False, s));
          (whole, rest) = digits_of u;
          (frac, tail) = (case rest of [] \<Rightarrow> ([], []) | c # w \<Rightarrow> if c = CHR ''.'' then digits_of w else ([], rest))
      in if whole @ frac = [] then None
         else case digits_val 10 0 (whole @ frac) of
           None \<Rightarrow> None
         | Some m \<Rightarrow> map_option (\<lambda>e. (neg, m, e - int (length frac))) (parse_exponent tail))"

definition positive_finite_f64 :: "string \<Rightarrow> bool" where
  "positive_finite_f64 s =
     (case parse_decimal s of
        None \<Rightarrow> False
      | Some (neg, m, e) \<Rightarrow>
          \<not> neg \<and>
          (if 0 \<le> e then 0 < m \<and> m * 10 ^ nat e < 2 ^ 1024 - 2 ^ 970
           else 10 ^ nat (- e) < m * 2 ^ 1075 \<and> m < (2 ^ 1024 - 2 ^ 970) * 10 ^ nat (- e)))"

definition positive_u64 :: "string \<Rightarrow> bool" where
  "positive_u64 s = (case parse_u64 s of None \<Rightarrow> False | Some v \<Rightarrow> 0 < v)"

definition is_valid_k8s_cpu :: "string \<Rightarrow> bool" where
  "is_valid_k8s_cpu s =
     (if s = [] then False
      else case str_strip_suffix s ''m'' of
        None \<Rightarrow> positive_finite_f64 s
      | Some millis \<Rightarrow> positive_u64 millis)"

fun strip_first_suffix :: "string list \<Rightarrow> string \<Rightarrow> string option" where
  "strip_first_suffix [] s = None"
| "strip_first_suffix (x # xs) s =
     (case str_strip_suffix s x of Some n \<Rightarrow> Some n | None \<Rightarrow> strip_first_suffix xs s)"

definition is_valid_k8s_memory :: "string \<Rightarrow> bool" where
  "is_valid_k8s_memory s =
     (if s = [] then False
      else case strip_first_suffix [''Ki'', ''Mi'', ''Gi'', ''Ti'', ''Pi'', ''Ei''] s of
        Some n \<Rightarrow> positive_u64 n
      | None \<Rightarrow>
          (case strip_first_suffix [''K'', ''M'', ''G'', ''T'', ''P'', ''E''] s of
             Some n \<Rightarrow> positive_u64 n
           | None \<Rightarrow> positive_u64 s))"

section \<open>Validation\<close>

definition collect_unknown_field_warnings :: "(string, json) hash_map \<Rightarrow> string \<Rightarrow> findings" where
  "collect_unknown_field_warnings extra parent_path =
     all_issues (map (\<lambda>(key, _).
       let field = (if parent_path = [] then key else parent_path @ ''.'' @ key)
       in warn field (''Unknown field '' @ [CHR 0x27] @ field @ [CHR 0x27] @ ''. This field is not recognized by the current schema version and will be ignored. If this is intentional, you may need a newer version of DarkShell.'')) extra)"

definition validate_api_version :: "blueprint \<Rightarrow> findings" where
  "validate_api_version b =
     (case bp_api_version b of
        None \<Rightarrow> bad ''apiVersion'' (''Required field '' @ [CHR 0x27] @ ''apiVersion'' @ [CHR 0x27] @ '' is missing. Expected: '' @ [CHR 0x27] @ ''darkshell/v1'' @ [CHR 0x27] @ ''.'')
      | Some version \<Rightarrow>
          if version \<noteq> ''darkshell/v1'' then bad ''apiVersion'' (''Unsupported apiVersion '' @ [CHR 0x27] @ version @ [CHR 0x27] @ ''. Expected '' @ [CHR 0x27] @ ''darkshell/v1'' @ [CHR 0x27] @ ''. You may need to upgrade DarkShell to support this version.'')
          else no_issues)"

definition validate_kind :: "blueprint \<Rightarrow> findings" where
  "validate_kind b =
     (case bp_kind b of
        None \<Rightarrow> bad ''kind'' (''Required field '' @ [CHR 0x27] @ ''kind'' @ [CHR 0x27] @ '' is missing. Expected: '' @ [CHR 0x27] @ ''Blueprint'' @ [CHR 0x27] @ ''.'')
      | Some kind \<Rightarrow> if kind \<noteq> ''Blueprint'' then bad ''kind'' (''Invalid kind '' @ [CHR 0x27] @ kind @ [CHR 0x27] @ ''. Expected: '' @ [CHR 0x27] @ ''Blueprint'' @ [CHR 0x27] @ ''.'') else no_issues)"

definition lower_or_digit :: "char \<Rightarrow> bool" where
  "lower_or_digit c \<longleftrightarrow> is_ascii_lowercase c \<or> is_ascii_digit c"

definition validate_blueprint_name :: "string option \<Rightarrow> findings" where
  "validate_blueprint_name n =
     (case n of
        None \<Rightarrow> bad ''metadata.name'' (''Required field '' @ [CHR 0x27] @ ''metadata.name'' @ [CHR 0x27] @ '' is missing.'')
      | Some name \<Rightarrow>
          if name = [] then bad ''metadata.name'' ''Blueprint name must not be empty.''
          else and_also
            (if 63 < length name then bad ''metadata.name'' (''Blueprint name '' @ [CHR 0x27] @ name @ [CHR 0x27] @ '' is '' @ dec (length name) @ '' characters long. Maximum length is 63 characters.'') else no_issues)
            (if \<not> list_all (\<lambda>c. lower_or_digit c \<or> c = CHR ''-'') name
             then bad ''metadata.name'' (''Blueprint name '' @ [CHR 0x27] @ name @ [CHR 0x27] @ '' contains invalid characters. Sandbox names must match [a-z0-9]([a-z0-9-]*[a-z0-9])?.'')
             else if \<not> lower_or_digit (hd name) \<or> \<not> lower_or_digit (last name)
             then bad ''metadata.name'' (''Blueprint name '' @ [CHR 0x27] @ name @ [CHR 0x27] @ '' must start and end with an alphanumeric character [a-z0-9]. Leading or trailing hyphens are not allowed.'')
             else no_issues))"

definition validate_metadata :: "blueprint \<Rightarrow> findings" where
  "validate_metadata b =
     (case bp_metadata b of
        None \<Rightarrow> bad ''metadata'' (''Required section '' @ [CHR 0x27] @ ''metadata'' @ [CHR 0x27] @ '' is missing.'')
      | Some m \<Rightarrow> and_also (collect_unknown_field_warnings (bm_extra m) ''metadata'') (validate_blueprint_name (bm_name m)))"

definition shell_metacharacters :: "string list" where
  "shell_metacharacters = ['';'', ''|'', ''&&'', ''$('', ''`'']"

definition validate_mcp_transport :: "mcp_transport \<Rightarrow> mcp_server_entry \<Rightarrow> string \<Rightarrow> findings" where
  "validate_mcp_transport transport server pfx =
     and_also
       (case se_command server of
          None \<Rightarrow> no_issues
        | Some command \<Rightarrow>
            if list_ex (str_contains command) shell_metacharacters
            then warn (pfx @ ''.command'') (''MCP server command contains shell metacharacters. Consider using an array format to prevent shell interpretation.'')
            else no_issues)
       (case transport of
          Bridge \<Rightarrow>
            and_also
              (if se_command server = None then bad (pfx @ ''.command'') (''Transport '' @ [CHR 0x27] @ ''bridge'' @ [CHR 0x27] @ '' requires '' @ [CHR 0x27] @ ''command'' @ [CHR 0x27] @ '' field.'') else no_issues)
              (if se_url server \<noteq> None then bad (pfx @ ''.url'') (''Transport '' @ [CHR 0x27] @ ''bridge'' @ [CHR 0x27] @ '' does not use '' @ [CHR 0x27] @ ''url'' @ [CHR 0x27] @ ''. Remove this field.'') else no_issues)
        | InSandbox \<Rightarrow>
            and_also
              (if se_command server = None then bad (pfx @ ''.command'') (''Transport '' @ [CHR 0x27] @ ''in-sandbox'' @ [CHR 0x27] @ '' requires '' @ [CHR 0x27] @ ''command'' @ [CHR 0x27] @ '' field.'') else no_issues)
              (if se_env server \<noteq> None then bad (pfx @ ''.env'') (''Transport '' @ [CHR 0x27] @ ''in-sandbox'' @ [CHR 0x27] @ '' does not support '' @ [CHR 0x27] @ ''env'' @ [CHR 0x27] @ '' (credentials are not injected into the sandbox). Remove this field.'') else no_issues)
        | StreamableHttp \<Rightarrow>
            and_also
              (case se_url server of
                 None \<Rightarrow> bad (pfx @ ''.url'') (''Transport '' @ [CHR 0x27] @ ''streamable-http'' @ [CHR 0x27] @ '' requires '' @ [CHR 0x27] @ ''url'' @ [CHR 0x27] @ '' field.'')
               | Some url \<Rightarrow>
                   if list_ex (str_starts_with url) [''file://'', ''ftp://'', ''javascript:'']
                   then bad (pfx @ ''.url'') (''URL scheme is not allowed for streamable-http transport. Only '' @ [CHR 0x27] @ ''http://'' @ [CHR 0x27] @ '' and '' @ [CHR 0x27] @ ''https://'' @ [CHR 0x27] @ '' are supported. Got: '' @ [CHR 0x27] @ url @ [CHR 0x27] @ ''.'')
                   else if \<not> str_starts_with url ''http://'' \<and> \<not> str_starts_with url ''https://''
                   then bad (pfx @ ''.url'') (''URL must start with '' @ [CHR 0x27] @ ''http://'' @ [CHR 0x27] @ '' or '' @ [CHR 0x27] @ ''https://'' @ [CHR 0x27] @ ''. Got: '' @ [CHR 0x27] @ url @ [CHR 0x27] @ ''.'')
                   else if str_starts_with url ''http://'' then warn (pfx @ ''.url'') (''MCP server URL uses insecure '' @ [CHR 0x27] @ ''http://'' @ [CHR 0x27] @ '' scheme. Consider using '' @ [CHR 0x27] @ ''https://'' @ [CHR 0x27] @ '' for production.'')
                   else no_issues)
              (if se_command server \<noteq> None then bad (pfx @ ''.command'') (''Transport '' @ [CHR 0x27] @ ''streamable-http'' @ [CHR 0x27] @ '' does not use '' @ [CHR 0x27] @ ''command'' @ [CHR 0x27] @ ''. Remove this field.'') else no_issues))"

definition server_prefix :: "nat \<Rightarrow> string" where
  "server_prefix i = ''spec.mcp_servers['' @ dec i @ '']''"

text \<open>The names seen with the index of their first server.\<close>

definition validate_server_name :: "nat \<Rightarrow> string option \<Rightarrow> (string, nat) hash_map \<Rightarrow> findings \<times> (string, nat) hash_map" where
  "validate_server_name i n seen =
     (case n of
        None \<Rightarrow> (bad (server_prefix i @ ''.name'') ''MCP server name is required.'', seen)
      | Some name \<Rightarrow>
          if name = [] then (bad (server_prefix i @ ''.name'') ''MCP server name must not be empty.'', seen)
          else case map_of seen name of
            Some first_idx \<Rightarrow> (bad (server_prefix i @ ''.name'') (''Duplicate MCP server name '' @ [CHR 0x27] @ name @ [CHR 0x27] @ '' in blueprint. First defined at spec.mcp_servers['' @ dec first_idx @ '']. Each server must have a unique name.''), seen)
          | None \<Rightarrow> (no_issues, hm_insert name i seen))"

definition validate_server_transport :: "nat \<Rightarrow> mcp_server_entry \<Rightarrow> findings" where
  "validate_server_transport i server =
     (case se_transport server of
        None \<Rightarrow> bad (server_prefix i @ ''.transport'')
          ''MCP server transport is required. Valid values: bridge, in-sandbox, streamable-http.''
      | Some transport \<Rightarrow> validate_mcp_transport transport server (server_prefix i))"

fun validate_servers_from :: "nat \<Rightarrow> (string, nat) hash_map \<Rightarrow> mcp_server_entry list \<Rightarrow> findings" where
  "validate_servers_from i seen [] = no_issues"
| "validate_servers_from i seen (server # servers) =
     (case validate_server_name i (se_name server) seen of
        (name_issues, seen) \<Rightarrow>
          and_also (all_issues [collect_unknown_field_warnings (se_extra server) (server_prefix i), name_issues,
              validate_server_transport i server])
            (validate_servers_from (i + 1) seen servers))"

definition validate_mcp_servers :: "mcp_server_entry list \<Rightarrow> findings" where
  "validate_mcp_servers servers = validate_servers_from 0 [] servers"

definition validate_forward :: "nat \<Rightarrow> string \<Rightarrow> findings" where
  "validate_forward i forward =
     (let field = ''spec.forwards['' @ dec i @ '']'';
          (bind_addr, port_str) =
            (case str_rsplit_once forward (CHR '':'') of Some (b, p) \<Rightarrow> (Some b, p) | None \<Rightarrow> (None, forward))
      in and_also
        (case bind_addr of
           None \<Rightarrow> no_issues
         | Some addr \<Rightarrow>
             if addr \<noteq> [] \<and> parse_ip addr = None \<and> addr \<noteq> ''localhost'' then warn field (''Bind address '' @ [CHR 0x27] @ addr @ [CHR 0x27] @ '' does not appear to be a valid IP address or '' @ [CHR 0x27] @ ''localhost'' @ [CHR 0x27] @ ''. Got: '' @ [CHR 0x27] @ forward @ [CHR 0x27] @ ''.'') else no_issues)
        (case parse_u16 port_str of
           Some p \<Rightarrow> if p = 0 then bad field (''Port 0 is out of range. Must be 1-65535. Got: '' @ [CHR 0x27] @ forward @ [CHR 0x27] @ ''.'') else no_issues
         | None \<Rightarrow> bad field (''Invalid port forward spec. Expected format: '' @ [CHR 0x27] @ ''[bind_address:]port'' @ [CHR 0x27] @ '' where port is 1-65535. Got: '' @ [CHR 0x27] @ forward @ [CHR 0x27] @ ''.'')))"

definition validate_forwards :: "string list \<Rightarrow> findings" where
  "validate_forwards forwards = all_issues (map (\<lambda>(i, s). validate_forward i s) (enumerate 0 forwards))"

definition validate_resources :: "resource_spec \<Rightarrow> findings" where
  "validate_resources r =
     all_issues
       [collect_unknown_field_warnings (rs_extra r) ''spec.resources'',
        case rs_cpu r of
          None \<Rightarrow> no_issues
        | Some cpu \<Rightarrow> if is_valid_k8s_cpu cpu then no_issues else bad ''spec.resources.cpu'' (''Invalid CPU quantity '' @ [CHR 0x27] @ cpu @ [CHR 0x27] @ ''. Valid examples: '' @ [CHR 0x27] @ ''2'' @ [CHR 0x27] @ '', '' @ [CHR 0x27] @ ''500m'' @ [CHR 0x27] @ '', '' @ [CHR 0x27] @ ''0.5'' @ [CHR 0x27] @ '', '' @ [CHR 0x27] @ ''100m'' @ [CHR 0x27] @ ''. Use integer/decimal for cores or suffix '' @ [CHR 0x27] @ ''m'' @ [CHR 0x27] @ '' for millicores.''),
        case rs_memory r of
          None \<Rightarrow> no_issues
        | Some memory \<Rightarrow> if is_valid_k8s_memory memory then no_issues else bad ''spec.resources.memory'' (''Invalid memory quantity '' @ [CHR 0x27] @ memory @ [CHR 0x27] @ ''. Valid examples: '' @ [CHR 0x27] @ ''4Gi'' @ [CHR 0x27] @ '', '' @ [CHR 0x27] @ ''512Mi'' @ [CHR 0x27] @ '', '' @ [CHR 0x27] @ ''1G'' @ [CHR 0x27] @ '', '' @ [CHR 0x27] @ ''256M'' @ [CHR 0x27] @ ''. Use suffix: Ki, Mi, Gi, Ti, K, M, G, T.'')]"

definition SYSTEM_DIRS :: "string list" where
  "SYSTEM_DIRS = [''/etc'', ''/usr'', ''/bin'', ''/sbin'']"

definition validate_upload :: "nat \<Rightarrow> string \<Rightarrow> findings" where
  "validate_upload i upload =
     (let field = ''spec.upload['' @ dec i @ '']'' in
      case str_split_once upload '':'' of
        None \<Rightarrow> bad field (''Upload spec must be in format '' @ [CHR 0x27] @ ''local:remote'' @ [CHR 0x27] @ ''. Got: '' @ [CHR 0x27] @ upload @ [CHR 0x27] @ ''.'')
      | Some (local, remote) \<Rightarrow>
          all_issues
            [if str_contains local ''..'' then bad field (''Upload local path contains '' @ [CHR 0x27] @ ''..'' @ [CHR 0x27] @ ''. Path traversal is not allowed. Use a direct relative path instead. Got: '' @ [CHR 0x27] @ local @ [CHR 0x27] @ ''.'') else no_issues,
             if str_starts_with local ''/'' then warn field (''Upload local path '' @ [CHR 0x27] @ local @ [CHR 0x27] @ '' is absolute. Consider using a relative path for portability.'') else no_issues,
             case find (\<lambda>d. remote = d \<or> str_starts_with remote (d @ ''/'')) SYSTEM_DIRS of
               None \<Rightarrow> no_issues
             | Some sys_dir \<Rightarrow> bad field (''Upload remote path '' @ [CHR 0x27] @ remote @ [CHR 0x27] @ '' targets system directory '' @ [CHR 0x27] @ sys_dir @ [CHR 0x27] @ ''. Writing to system directories is not allowed.'')])"

definition validate_uploads :: "string list \<Rightarrow> findings" where
  "validate_uploads uploads = all_issues (map (\<lambda>(i, s). validate_upload i s) (enumerate 0 uploads))"

definition validate_image :: "string option \<Rightarrow> findings" where
  "validate_image reference =
     (case reference of
        None \<Rightarrow> bad ''spec.image'' (''Required field '' @ [CHR 0x27] @ ''spec.image'' @ [CHR 0x27] @ '' is missing.'')
      | Some img \<Rightarrow> if img = [] then bad ''spec.image'' ''Image reference must not be empty.'' else no_issues)"

definition validate_policy_path :: "string option \<Rightarrow> findings" where
  "validate_policy_path policy =
     (case policy of
        None \<Rightarrow> no_issues
      | Some policy \<Rightarrow>
          and_also (if str_contains policy ''..'' then warn ''spec.policy'' (''Policy path '' @ [CHR 0x27] @ policy @ [CHR 0x27] @ '' contains '' @ [CHR 0x27] @ ''..'' @ [CHR 0x27] @ ''. This may cause unexpected behavior. Use a direct relative path instead.'') else no_issues)
            (if str_starts_with policy ''/'' then bad ''spec.policy'' (''Policy path '' @ [CHR 0x27] @ policy @ [CHR 0x27] @ '' is absolute. Policy paths should be relative to the blueprint file.'') else no_issues))"

definition issues_of :: "('a \<Rightarrow> findings) \<Rightarrow> 'a option \<Rightarrow> findings" where
  "issues_of f x = (case x of None \<Rightarrow> no_issues | Some a \<Rightarrow> f a)"

definition validate_spec :: "blueprint \<Rightarrow> findings" where
  "validate_spec b =
     (case bp_spec b of
        None \<Rightarrow> bad ''spec'' (''Required section '' @ [CHR 0x27] @ ''spec'' @ [CHR 0x27] @ '' is missing.'')
      | Some spec \<Rightarrow>
          all_issues
            [collect_unknown_field_warnings (bs_extra spec) ''spec'', validate_image (bs_image spec),
             validate_policy_path (bs_policy spec), issues_of validate_mcp_servers (bs_mcp_servers spec),
             issues_of validate_forwards (bs_forwards spec), issues_of validate_resources (bs_resources spec),
             issues_of validate_uploads (bs_upload spec)])"

definition validate_blueprint :: "blueprint \<Rightarrow> findings" where
  "validate_blueprint b =
     all_issues
       [collect_unknown_field_warnings (bp_extra b) [], validate_api_version b, validate_kind b,
        validate_metadata b, validate_spec b]"

text \<open>\<open>read_blueprint\<close> of the command line: the blueprint and the warnings it prints, or the message.\<close>

definition issue_text :: "issue \<Rightarrow> string" where
  "issue_text e = fst e @ '': '' @ snd e"

definition read_blueprint :: "'v blueprint_yaml \<Rightarrow> string \<Rightarrow> string + string \<Rightarrow> string + blueprint \<times> issue list" where
  "read_blueprint Y path contents =
     (case contents of
        Inl e \<Rightarrow> Inl (''Failed to read blueprint file '' @ [CHR 0x27] @ path @ [CHR 0x27] @ '': '' @ e @ ''. Check that the file exists and is readable.'')
      | Inr yaml \<Rightarrow>
          (case parse_blueprint Y yaml of
             Inl e \<Rightarrow> Inl (''Failed to parse blueprint '' @ [CHR 0x27] @ path @ [CHR 0x27] @ '': '' @ blueprint_parse_error_text e)
           | Inr b \<Rightarrow>
               (case validate_blueprint b of
                  (errors, warnings) \<Rightarrow>
                    if errors \<noteq> [] then
                      Inl (''Blueprint '' @ [CHR 0x27] @ path @ [CHR 0x27] @ '' has '' @ dec (length errors) @ '' validation error(s):'' @ [CHR 0x0A] @
                        concat (map (\<lambda>e. ''  - '' @ issue_text e @ [CHR 0x0A]) errors))
                    else Inr (b, warnings))))"

end
