(* ===== verification/Orchestrator.thy ===== *)
theory Orchestrator
  imports Blueprint
begin

text \<open>
  From a blueprint to a sandbox (\<open>darkshell-blueprint/src/orchestrator.rs\<close>): the plan, the checks of
  what it refers to, its execution and the rollback. The two traits are parameters. A gateway
  answers a call as it likes, depending on all calls before it: the state of an execution is the
  list of calls made.
\<close>

section \<open>Errors and steps\<close>

datatype orchestrate_error =
    ValidationFailed nat string
  | ImageNotFound string
  | ProviderNotFound string
  | PolicyFileNotFound string
  | EmptyImage
  | InvalidBlueprint string
  | SandboxCreateFailed string
  | PolicyApplyFailed string string
  | ProviderAttachFailed string string
  | McpBridgeFailed string string
  | McpInSandboxFailed string string
  | PortForwardFailed string string
  | ResourceLimitsFailed string
  | UploadFailed string string
  | RollbackWarnings string

fun orchestrate_error_text :: "orchestrate_error \<Rightarrow> string" where
  "orchestrate_error_text (ValidationFailed n details) = ''blueprint validation failed with '' @ dec n @ '' error(s):'' @ [CHR 0x0A] @ details"
| "orchestrate_error_text (ImageNotFound i) = ''Image `'' @ i @ ''` not found. Check registry access and image name in `spec.image`.''"
| "orchestrate_error_text (ProviderNotFound p) = ''Provider '' @ [CHR 0x27] @ p @ [CHR 0x27] @ '' not found. Create with: `darkshell provider create --name '' @ p @ '' --type '' @ p @ ''`''"
| "orchestrate_error_text (PolicyFileNotFound p) = ''Policy file '' @ [CHR 0x27] @ p @ [CHR 0x27] @ '' not found. Provide an absolute path or a path relative to the blueprint file.''"
| "orchestrate_error_text EmptyImage = ''`spec.image` is required. Specify a container image reference (e.g., `ghcr.io/org/image:tag`).''"
| "orchestrate_error_text (InvalidBlueprint r) = ''invalid blueprint: '' @ r"
| "orchestrate_error_text (SandboxCreateFailed r) = ''sandbox creation failed: '' @ r"
| "orchestrate_error_text (PolicyApplyFailed p r) = ''failed to apply policy '' @ [CHR 0x27] @ p @ [CHR 0x27] @ '': '' @ r"
| "orchestrate_error_text (ProviderAttachFailed p r) = ''failed to attach provider '' @ [CHR 0x27] @ p @ [CHR 0x27] @ '': '' @ r"
| "orchestrate_error_text (McpBridgeFailed s r) = ''failed to start MCP bridge for server '' @ [CHR 0x27] @ s @ [CHR 0x27] @ '': '' @ r"
| "orchestrate_error_text (McpInSandboxFailed s r) = ''failed to configure in-sandbox MCP server '' @ [CHR 0x27] @ s @ [CHR 0x27] @ '': '' @ r"
| "orchestrate_error_text (PortForwardFailed s r) = ''failed to configure port forward '' @ [CHR 0x27] @ s @ [CHR 0x27] @ '': '' @ r"
| "orchestrate_error_text (ResourceLimitsFailed r) = ''failed to apply resource limits: '' @ r"
| "orchestrate_error_text (UploadFailed s r) = ''failed to upload '' @ [CHR 0x27] @ s @ [CHR 0x27] @ '': '' @ r"
| "orchestrate_error_text (RollbackWarnings w) = ''rollback completed with warnings: '' @ w"

datatype completed_step =
    SandboxCreated string
  | PolicyApplied string string
  | ProviderAttached string string
  | McpBridgeStarted string string
  | McpInSandboxConfigured string string
  | PortForwardEstablished string string
  | ResourceLimitsApplied string
  | FilesUploaded string string
  | StreamableHttpAcknowledged string string string

fun step_text :: "completed_step \<Rightarrow> string" where
  "step_text (SandboxCreated n) = ''sandbox '' @ [CHR 0x27] @ n @ [CHR 0x27] @ '' created''"
| "step_text (PolicyApplied _ p) = ''policy '' @ [CHR 0x27] @ p @ [CHR 0x27] @ '' applied''"
| "step_text (ProviderAttached _ p) = ''provider '' @ [CHR 0x27] @ p @ [CHR 0x27] @ '' attached''"
| "step_text (McpBridgeStarted _ s) = ''MCP bridge '' @ [CHR 0x27] @ s @ [CHR 0x27] @ '' started''"
| "step_text (McpInSandboxConfigured _ s) = ''in-sandbox MCP server '' @ [CHR 0x27] @ s @ [CHR 0x27] @ '' configured''"
| "step_text (PortForwardEstablished _ s) = ''port forward '' @ [CHR 0x27] @ s @ [CHR 0x27] @ '' established''"
| "step_text (ResourceLimitsApplied _) = ''resource limits applied''"
| "step_text (FilesUploaded _ s) = ''files '' @ [CHR 0x27] @ s @ [CHR 0x27] @ '' uploaded''"
| "step_text (StreamableHttpAcknowledged _ s u) = ''streamable-http MCP server '' @ [CHR 0x27] @ s @ [CHR 0x27] @ '' acknowledged at '' @ u"

section \<open>The plan\<close>

record mcp_bridge_plan =
  mb_name :: string
  mb_command :: string
  mb_env :: "string list"

record mcp_in_sandbox_plan =
  mi_name :: string
  mi_command :: string

record mcp_streamable_http_plan =
  mh_name :: string
  mh_url :: string

record resource_plan =
  rp_cpu :: "string option"
  rp_memory :: "string option"

record orchestration_plan =
  pl_sandbox_name :: string
  pl_image :: string
  pl_policy :: "string option"
  pl_providers :: "string list"
  pl_bridge_servers :: "mcp_bridge_plan list"
  pl_in_sandbox_servers :: "mcp_in_sandbox_plan list"
  pl_streamable_http_servers :: "mcp_streamable_http_plan list"
  pl_forwards :: "string list"
  pl_resources :: "resource_plan option"
  pl_uploads :: "string list"

type_synonym server_plans = "mcp_bridge_plan list \<times> mcp_in_sandbox_plan list \<times> mcp_streamable_http_plan list"

definition plan_server :: "mcp_server_entry \<Rightarrow> server_plans \<Rightarrow> orchestrate_error + server_plans" where
  "plan_server server plans =
     and_then (ok_or (se_name server) (InvalidBlueprint ''mcp_servers[].name is required'')) (\<lambda>name.
     and_then (ok_or (se_transport server) (InvalidBlueprint (''mcp_servers['' @ [CHR 0x27] @ name @ [CHR 0x27] @ ''].transport is required''))) (\<lambda>transport.
       case plans of (bridges, in_sandbox, http) \<Rightarrow>
         (case transport of
            Bridge \<Rightarrow>
              map_sum id (\<lambda>command. (bridges @ [\<lparr>mb_name = name, mb_command = command, mb_env = unwrap_or (se_env server) []\<rparr>], in_sandbox, http))
                (ok_or (se_command server) (InvalidBlueprint (''bridge MCP server requires a '' @ [CHR 0x27] @ ''command'' @ [CHR 0x27] @ '' field'')))
          | InSandbox \<Rightarrow>
              map_sum id (\<lambda>command. (bridges, in_sandbox @ [\<lparr>mi_name = name, mi_command = command\<rparr>], http))
                (ok_or (se_command server) (InvalidBlueprint (''in-sandbox MCP server requires a '' @ [CHR 0x27] @ ''command'' @ [CHR 0x27] @ '' field'')))
          | StreamableHttp \<Rightarrow>
              map_sum id (\<lambda>url. (bridges, in_sandbox, http @ [\<lparr>mh_name = name, mh_url = url\<rparr>]))
                (ok_or (se_url server) (InvalidBlueprint (''streamable-http MCP server requires a '' @ [CHR 0x27] @ ''url'' @ [CHR 0x27] @ '' field''))))))"

fun plan_servers :: "mcp_server_entry list \<Rightarrow> server_plans \<Rightarrow> orchestrate_error + server_plans" where
  "plan_servers [] plans = Inr plans"
| "plan_servers (server # servers) plans = and_then (plan_server server plans) (plan_servers servers)"

definition build_plan :: "blueprint \<Rightarrow> orchestrate_error + orchestration_plan" where
  "build_plan b =
     and_then (ok_or (bp_metadata b) (InvalidBlueprint (''blueprint is missing required '' @ [CHR 0x27] @ ''metadata'' @ [CHR 0x27] @ '' section''))) (\<lambda>metadata.
     and_then (ok_or (bp_spec b) (InvalidBlueprint (''blueprint is missing required '' @ [CHR 0x27] @ ''spec'' @ [CHR 0x27] @ '' section''))) (\<lambda>spec.
     and_then (ok_or (bm_name metadata) (InvalidBlueprint ''metadata.name is required'')) (\<lambda>sandbox_name.
     and_then (case bs_image spec of Some img \<Rightarrow> if img \<noteq> [] then Inr img else Inl EmptyImage | None \<Rightarrow> Inl EmptyImage) (\<lambda>img.
     map_sum id (\<lambda>(bridges, in_sandbox, http).
       \<lparr>pl_sandbox_name = sandbox_name, pl_image = img, pl_policy = bs_policy spec,
        pl_providers = unwrap_or (bs_providers spec) [], pl_bridge_servers = bridges, pl_in_sandbox_servers = in_sandbox,
        pl_streamable_http_servers = http, pl_forwards = unwrap_or (bs_forwards spec) [],
        pl_resources = map_option (\<lambda>r. \<lparr>rp_cpu = rs_cpu r, rp_memory = rs_memory r\<rparr>) (bs_resources spec),
        pl_uploads = unwrap_or (bs_upload spec) []\<rparr>)
       (plan_servers (unwrap_or (bs_mcp_servers spec) []) ([], [], []))))))"

section \<open>Execution\<close>

text \<open>\<open>ResourceValidator\<close> and \<open>SandboxGateway\<close>.\<close>

record resource_validator =
  rv_image :: "string \<Rightarrow> orchestrate_error + unit"
  rv_provider :: "string \<Rightarrow> orchestrate_error + unit"
  rv_policy :: "string \<Rightarrow> orchestrate_error + unit"

datatype gateway_call =
    CreateSandbox string string
  | DeleteSandbox string
  | ApplyPolicy string string
  | AttachProvider string string
  | StartMcpBridge string string string "string list"
  | StopMcpBridge string string
  | ConfigureInSandboxMcp string string string
  | EstablishPortForward string string
  | RemovePortForward string string
  | ApplyResourceLimits string "string option" "string option"
  | UploadFiles string string

record sandbox_gateway =
  sg_create :: "gateway_call list \<Rightarrow> string \<Rightarrow> string \<Rightarrow> orchestrate_error + string"
  sg_answer :: "gateway_call list \<Rightarrow> gateway_call \<Rightarrow> orchestrate_error + unit"

fun check_providers :: "resource_validator \<Rightarrow> string list \<Rightarrow> orchestrate_error + unit" where
  "check_providers V [] = Inr ()"
| "check_providers V (p # ps) = and_then (rv_provider V p) (\<lambda>_. check_providers V ps)"

definition validate_external :: "resource_validator \<Rightarrow> orchestration_plan \<Rightarrow> orchestrate_error + unit" where
  "validate_external V plan =
     and_then (rv_image V (pl_image plan)) (\<lambda>_.
     and_then (check_providers V (pl_providers plan)) (\<lambda>_.
       case pl_policy plan of None \<Rightarrow> Inr () | Some policy \<Rightarrow> rv_policy V policy))"

text \<open>A step after the creation: a call and the step it completes, or a step without a call.\<close>

datatype planned_step = Perform gateway_call completed_step | Acknowledge completed_step

definition planned_steps :: "orchestration_plan \<Rightarrow> planned_step list" where
  "planned_steps plan =
     (let sandbox = pl_sandbox_name plan in
      (case pl_policy plan of None \<Rightarrow> [] | Some policy \<Rightarrow> [Perform (ApplyPolicy sandbox policy) (PolicyApplied sandbox policy)]) @
      map (\<lambda>p. Perform (AttachProvider sandbox p) (ProviderAttached sandbox p)) (pl_providers plan) @
      map (\<lambda>b. Perform (StartMcpBridge sandbox (mb_name b) (mb_command b) (mb_env b)) (McpBridgeStarted sandbox (mb_name b)))
        (pl_bridge_servers plan) @
      map (\<lambda>s. Perform (ConfigureInSandboxMcp sandbox (mi_name s) (mi_command s)) (McpInSandboxConfigured sandbox (mi_name s)))
        (pl_in_sandbox_servers plan) @
      map (\<lambda>s. Acknowledge (StreamableHttpAcknowledged sandbox (mh_name s) (mh_url s))) (pl_streamable_http_servers plan) @
      map (\<lambda>f. Perform (EstablishPortForward sandbox f) (PortForwardEstablished sandbox f)) (pl_forwards plan) @
      (case pl_resources plan of None \<Rightarrow> []
       | Some r \<Rightarrow> [Perform (ApplyResourceLimits sandbox (rp_cpu r) (rp_memory r)) (ResourceLimitsApplied sandbox)]) @
      map (\<lambda>u. Perform (UploadFiles sandbox u) (FilesUploaded sandbox u)) (pl_uploads plan))"

fun undo_call :: "completed_step \<Rightarrow> gateway_call option" where
  "undo_call (SandboxCreated name) = Some (DeleteSandbox name)"
| "undo_call (McpBridgeStarted sandbox server) = Some (StopMcpBridge sandbox server)"
| "undo_call (PortForwardEstablished sandbox spec) = Some (RemovePortForward sandbox spec)"
| "undo_call _ = None"

text \<open>The failures of a rollback's calls are only logged.\<close>

fun undo_steps :: "completed_step list \<Rightarrow> gateway_call list \<Rightarrow> gateway_call list" where
  "undo_steps [] calls = calls"
| "undo_steps (s # ss) calls =
     (case undo_call s of None \<Rightarrow> undo_steps ss calls | Some c \<Rightarrow> undo_steps ss (calls @ [c]))"

definition rollback :: "completed_step list \<Rightarrow> gateway_call list \<Rightarrow> gateway_call list" where
  "rollback completed calls = undo_steps (rev completed) calls"

fun run_steps :: "sandbox_gateway \<Rightarrow> planned_step list \<Rightarrow> completed_step list \<Rightarrow> gateway_call list \<Rightarrow>
    (orchestrate_error + completed_step list) \<times> gateway_call list" where
  "run_steps G [] completed calls = (Inr completed, calls)"
| "run_steps G (Acknowledge s # ss) completed calls = run_steps G ss (completed @ [s]) calls"
| "run_steps G (Perform c s # ss) completed calls =
     (case sg_answer G calls c of
        Inr _ \<Rightarrow> run_steps G ss (completed @ [s]) (calls @ [c])
      | Inl e \<Rightarrow> (Inl e, rollback completed (calls @ [c])))"

definition execute_plan :: "sandbox_gateway \<Rightarrow> orchestration_plan \<Rightarrow>
    (orchestrate_error + completed_step list) \<times> gateway_call list" where
  "execute_plan G plan =
     (let calls = [CreateSandbox (pl_sandbox_name plan) (pl_image plan)] in
      case sg_create G [] (pl_sandbox_name plan) (pl_image plan) of
        Inl e \<Rightarrow> (Inl e, calls)
      | Inr name \<Rightarrow> run_steps G (planned_steps plan) [SandboxCreated name] calls)"

definition execute_blueprint :: "resource_validator \<Rightarrow> sandbox_gateway \<Rightarrow> blueprint \<Rightarrow>
    (orchestrate_error + completed_step list) \<times> gateway_call list" where
  "execute_blueprint V G b =
     (let errors = fst (validate_blueprint b) in
      if errors \<noteq> [] then
        (Inl (ValidationFailed (length errors) (str_join [CHR 0x0A] (map (\<lambda>e. ''  - '' @ issue_text e) errors))), [])
      else case build_plan b of
        Inl e \<Rightarrow> (Inl e, [])
      | Inr plan \<Rightarrow>
          (case validate_external V plan of
             Inl e \<Rightarrow> (Inl e, [])
           | Inr _ \<Rightarrow> execute_plan G plan))"

end
