(* ===== verification/BlueprintProps.thy ===== *)
theory BlueprintProps
  imports Orchestrator Policy
begin

text \<open>
  What a blueprint that passes validation is, that it always has a plan, and that the execution of a
  plan is completed or undone.
\<close>

section \<open>Execution\<close>

definition calls_of :: "planned_step list \<Rightarrow> gateway_call list" where
  "calls_of ss = List.map_filter (\<lambda>p. case p of Perform c _ \<Rightarrow> Some c | Acknowledge _ \<Rightarrow> None) ss"

fun step_of :: "planned_step \<Rightarrow> completed_step" where
  "step_of (Perform _ s) = s"
| "step_of (Acknowledge s) = s"

definition undo_calls :: "completed_step list \<Rightarrow> gateway_call list" where
  "undo_calls completed = List.map_filter undo_call (rev completed)"

lemma map_filter_append: "List.map_filter f (xs @ ys) = List.map_filter f xs @ List.map_filter f ys"
  by (simp add: List.map_filter_def)

lemma calls_of_simps [simp]:
  "calls_of [] = []" "calls_of (Acknowledge s # ss) = calls_of ss" "calls_of (Perform c s # ss) = c # calls_of ss"
  by (simp_all add: calls_of_def List.map_filter_simps)

lemma undo_steps_calls: "undo_steps ss calls = calls @ List.map_filter undo_call ss"
  by (induction ss arbitrary: calls) (simp_all add: List.map_filter_simps split: option.split)

lemma rollback_calls: "rollback completed calls = calls @ undo_calls completed"
  by (simp add: rollback_def undo_calls_def undo_steps_calls)

lemma run_steps_Inr:
  "run_steps G ss completed calls = (Inr steps, h) \<Longrightarrow> steps = completed @ map step_of ss \<and> h = calls @ calls_of ss"
  by (induction G ss completed calls rule: run_steps.induct) (auto split: sum.splits)

lemma run_steps_Inl:
  "run_steps G ss completed calls = (Inl e, h) \<Longrightarrow>
     \<exists>before c s after. ss = before @ Perform c s # after \<and> sg_answer G (calls @ calls_of before) c = Inl e \<and>
       h = calls @ calls_of before @ c # undo_calls (completed @ map step_of before)"
proof (induction G ss completed calls rule: run_steps.induct)
  case (2 G s ss completed calls)
  then obtain before c s' after where "ss = before @ Perform c s' # after" "sg_answer G (calls @ calls_of before) c = Inl e"
      "h = calls @ calls_of before @ c # undo_calls ((completed @ [s]) @ map step_of before)" by auto
  then show ?case by (intro exI [of _ "Acknowledge s # before"]) auto
next
  case (3 G c s ss completed calls)
  show ?case
  proof (cases "sg_answer G calls c")
    case (Inl e')
    with 3 show ?thesis by (intro exI [of _ "[]"]) (auto simp: rollback_calls)
  next
    case (Inr u)
    with 3 obtain before c' s' after where "ss = before @ Perform c' s' # after"
      "sg_answer G ((calls @ [c]) @ calls_of before) c' = Inl e"
      "h = (calls @ [c]) @ calls_of before @ c' # undo_calls ((completed @ [s]) @ map step_of before)" by auto
    then show ?thesis by (intro exI [of _ "Perform c s # before"]) auto
  qed
qed simp

lemma planned_step_pair:
  "Perform (StartMcpBridge sb sv cmd vars) s \<in> set (planned_steps plan) \<Longrightarrow> s = McpBridgeStarted sb sv"
  "Perform (EstablishPortForward sb f) s \<in> set (planned_steps plan) \<Longrightarrow> s = PortForwardEstablished sb f"
  by (auto simp: planned_steps_def Let_def split: option.splits)

lemma undone:
  assumes "planned_steps plan = before @ rest" "c \<in> set (calls_of before)"
  shows "c = StartMcpBridge sb sv cmd vars \<Longrightarrow> StopMcpBridge sb sv \<in> set (undo_calls (map step_of before))"
    and "c = EstablishPortForward sb f \<Longrightarrow> RemovePortForward sb f \<in> set (undo_calls (map step_of before))"
proof -
  obtain s where s: "Perform c s \<in> set before"
    using assms(2) by (auto simp: calls_of_def List.map_filter_def split: planned_step.splits)
  then have "Perform c s \<in> set (planned_steps plan)" using assms(1) by simp
  have undo: "u \<in> set (undo_calls (map step_of before))" if "undo_call s = Some u" for u
    using s that by (force simp: undo_calls_def List.map_filter_def)
  show "StopMcpBridge sb sv \<in> set (undo_calls (map step_of before))" if "c = StartMcpBridge sb sv cmd vars"
    using undo planned_step_pair(1) [of sb sv cmd vars s plan] \<open>Perform c s \<in> set (planned_steps plan)\<close> that by simp
  show "RemovePortForward sb f \<in> set (undo_calls (map step_of before))" if "c = EstablishPortForward sb f"
    using undo planned_step_pair(2) [of sb f s plan] \<open>Perform c s \<in> set (planned_steps plan)\<close> that by simp
qed

lemma no_deletion: "DeleteSandbox n \<notin> set (calls_of (planned_steps plan))"
  by (auto simp: planned_steps_def Let_def calls_of_def List.map_filter_def split: option.splits)

lemma undo_calls_created: "undo_calls (SandboxCreated name # ss) = undo_calls ss @ [DeleteSandbox name]"
  by (simp add: undo_calls_def map_filter_append List.map_filter_simps)


definition example_blueprint :: blueprint where
  "example_blueprint =
     \<lparr>bp_api_version = Some ''darkshell/v1'', bp_kind = Some ''Blueprint'',
      bp_metadata = Some \<lparr>bm_name = Some ''box'', bm_description = None, bm_extra = []\<rparr>,
      bp_spec = Some \<lparr>bs_image = Some ''img'', bs_policy = None, bs_providers = Some [''github''],
        bs_mcp_servers = Some [\<lparr>se_name = Some ''srv'', se_transport = Some Bridge, se_command = Some ''run'',
           se_env = None, se_url = None, se_extra = []\<rparr>],
        bs_forwards = Some [''127.0.0.1:8080''], bs_resources = None, bs_upload = Some [''a:/work/a''], bs_extra = []\<rparr>,
      bp_extra = []\<rparr>"

definition accepting_validator :: resource_validator where
  "accepting_validator = \<lparr>rv_image = (\<lambda>_. Inr ()), rv_provider = (\<lambda>_. Inr ()), rv_policy = (\<lambda>_. Inr ())\<rparr>"

definition no_forward_gateway :: sandbox_gateway where
  "no_forward_gateway =
     \<lparr>sg_create = (\<lambda>_ name _. Inr name),
      sg_answer = (\<lambda>_ c. case c of EstablishPortForward _ f \<Rightarrow> Inl (PortForwardFailed f ''in use'') | _ \<Rightarrow> Inr ())\<rparr>"


section \<open>Validation\<close>

lemma issue_simps [simp]:
  "fst (and_also a b) = fst a @ fst b" "fst no_issues = []" "fst (bad f m) = [(f, m)]" "fst (warn f m) = []"
  "fst (all_issues fs) = concat (map fst fs)" "fst (issues_of g None) = []" "fst (issues_of g (Some x)) = fst (g x)"
  by (simp_all add: and_also_def no_issues_def bad_def warn_def all_issues_def issues_of_def)

lemma no_unknown_errors [simp]: "fst (collect_unknown_field_warnings extra p) = []"
  by (simp add: collect_unknown_field_warnings_def Let_def case_prod_unfold)

lemma rsplit_last:
  assumes "c \<notin> set b"
  shows "str_rsplit_once (a @ c # b) c = Some (a, b)"
proof -
  have "find_char (\<lambda>d. d = c) (rev (a @ c # b)) = Some (length b)"
    unfolding find_char_Some using assms by (auto simp: nth_append in_set_conv_nth)
      (metis in_set_conv_nth length_rev set_rev)
  then show ?thesis by (simp add: str_rsplit_once_def)
qed

lemma find_char_absent: "\<forall>x \<in> set s. \<not> P x \<Longrightarrow> find_char P s = None"
  by (induction s) auto

lemma rsplit_missing: "c \<notin> set s \<Longrightarrow> str_rsplit_once s c = None"
proof -
  assume "c \<notin> set s"
  then have "find_char (\<lambda>d. d = c) (rev s) = None" by (intro find_char_absent) auto
  then show ?thesis by (simp add: str_rsplit_once_def)
qed

lemma split_first: "c \<notin> set a \<Longrightarrow> str_split_once (a @ c # b) [c] = Some (a, b)"
proof -
  assume "c \<notin> set a"
  then have "str_find (a @ c # b) [c] = Some (length a)" by (induction a) (auto simp: str_starts_with_def)
  then show ?thesis by (simp add: str_split_once_def)
qed

lemma split_missing: "c \<notin> set s \<Longrightarrow> str_split_once s [c] = None"
  using str_contains_char [of s c] by (auto simp: str_contains_def str_split_once_def)

text \<open>What a blueprint without errors is.\<close>

definition sandbox_name_ok :: "string \<Rightarrow> bool" where
  "sandbox_name_ok n \<longleftrightarrow> n \<noteq> [] \<and> length n \<le> 63 \<and> (\<forall>c \<in> set n. lower_or_digit c \<or> c = CHR ''-'') \<and>
     lower_or_digit (hd n) \<and> lower_or_digit (last n)"

definition server_ok :: "mcp_server_entry \<Rightarrow> bool" where
  "server_ok s \<longleftrightarrow> (\<exists>n. se_name s = Some n \<and> n \<noteq> []) \<and>
     (case se_transport s of
        None \<Rightarrow> False
      | Some Bridge \<Rightarrow> se_command s \<noteq> None \<and> se_url s = None
      | Some InSandbox \<Rightarrow> se_command s \<noteq> None \<and> se_env s = None
      | Some StreamableHttp \<Rightarrow> se_command s = None \<and>
          (\<exists>u. se_url s = Some u \<and> (str_starts_with u ''http://'' \<or> str_starts_with u ''https://'')))"

definition forward_ok :: "string \<Rightarrow> bool" where
  "forward_ok f \<longleftrightarrow> (\<exists>port n. (f = port \<or> (\<exists>host. f = host @ CHR '':'' # port)) \<and> CHR '':'' \<notin> set port \<and>
     parse_u16 port = Some n \<and> n \<noteq> 0)"

definition upload_ok :: "string \<Rightarrow> bool" where
  "upload_ok u \<longleftrightarrow> (\<exists>local remote. u = local @ CHR '':'' # remote \<and> CHR '':'' \<notin> set local \<and> \<not> str_contains local ''..'' \<and>
     (\<forall>d \<in> set SYSTEM_DIRS. remote \<noteq> d \<and> \<not> str_starts_with remote (d @ ''/'')))"

definition every :: "('a \<Rightarrow> bool) \<Rightarrow> 'a list option \<Rightarrow> bool" where
  "every P xs \<longleftrightarrow> (\<forall>x \<in> set (unwrap_or xs []). P x)"

definition well_formed :: "blueprint \<Rightarrow> bool" where
  "well_formed b \<longleftrightarrow>
     bp_api_version b = Some ''darkshell/v1'' \<and> bp_kind b = Some ''Blueprint'' \<and>
     (\<exists>m n. bp_metadata b = Some m \<and> bm_name m = Some n \<and> sandbox_name_ok n) \<and>
     (\<exists>s img. bp_spec b = Some s \<and> bs_image s = Some img \<and> img \<noteq> [] \<and>
        (\<forall>p. bs_policy s = Some p \<longrightarrow> \<not> str_starts_with p ''/'') \<and>
        every server_ok (bs_mcp_servers s) \<and> distinct (map se_name (unwrap_or (bs_mcp_servers s) [])) \<and>
        every forward_ok (bs_forwards s) \<and> every upload_ok (bs_upload s) \<and>
        (\<forall>r. bs_resources s = Some r \<longrightarrow>
           (\<forall>c. rs_cpu r = Some c \<longrightarrow> is_valid_k8s_cpu c) \<and> (\<forall>m. rs_memory r = Some m \<longrightarrow> is_valid_k8s_memory m)))"

lemma forward_valid: "fst (validate_forward i f) = [] \<longleftrightarrow> forward_ok f"
proof (cases "CHR '':'' \<in> set f")
  case True
  then obtain host port where f: "f = host @ CHR '':'' # port" "CHR '':'' \<notin> set port" by (metis split_list_last)
  have "forward_ok f \<longleftrightarrow> (\<exists>n. parse_u16 port = Some n \<and> n \<noteq> 0)"
    using f True by (auto simp: forward_ok_def append_eq_append_conv2 append_eq_Cons_conv Cons_eq_append_conv)
  then show ?thesis by (auto simp: validate_forward_def Let_def f rsplit_last [OF f(2)] split: option.splits)
next
  case False
  then show ?thesis by (auto simp: validate_forward_def Let_def rsplit_missing forward_ok_def split: option.splits)
qed

lemma upload_valid: "fst (validate_upload i u) = [] \<longleftrightarrow> upload_ok u"
proof (cases "CHR '':'' \<in> set u")
  case True
  then obtain l r where u: "u = l @ CHR '':'' # r" "CHR '':'' \<notin> set l" by (metis split_list_first)
  have "u = l' @ CHR '':'' # r' \<and> CHR '':'' \<notin> set l' \<longleftrightarrow> l' = l \<and> r' = r" for l' r'
  proof
    assume "u = l' @ CHR '':'' # r' \<and> CHR '':'' \<notin> set l'"
    then have "str_split_once u [CHR '':''] = Some (l', r')" using split_first by blast
    moreover have "str_split_once u [CHR '':''] = Some (l, r)" unfolding u(1) by (rule split_first [OF u(2)])
    ultimately show "l' = l \<and> r' = r" by simp
  qed (use u in blast)
  then have "upload_ok u \<longleftrightarrow> \<not> str_contains l ''..'' \<and> (\<forall>d \<in> set SYSTEM_DIRS. r \<noteq> d \<and> \<not> str_starts_with r (d @ ''/''))"
    unfolding upload_ok_def conj_assoc [symmetric] by simp
  also have "\<dots> \<longleftrightarrow> \<not> str_contains l ''..'' \<and> find (\<lambda>d. r = d \<or> str_starts_with r (d @ ''/'')) SYSTEM_DIRS = None"
    by (auto simp: find_None_iff)
  also have "\<dots> \<longleftrightarrow> fst (validate_upload i u) = []"
    unfolding validate_upload_def u(1) split_first [OF u(2)] Let_def option.case prod.case issue_simps
    by (cases "find (\<lambda>d. r = d \<or> str_starts_with r (d @ ''/'')) SYSTEM_DIRS") simp_all
  finally show ?thesis ..
next
  case False
  then show ?thesis by (auto simp: validate_upload_def Let_def split_missing upload_ok_def)
qed

lemma web_schemes:
  "str_starts_with u ''http://'' \<Longrightarrow> \<not> list_ex (str_starts_with u) [''file://'', ''ftp://'', ''javascript:'']"
  "str_starts_with u ''https://'' \<Longrightarrow> \<not> list_ex (str_starts_with u) [''file://'', ''ftp://'', ''javascript:'']"
  by (cases u; auto simp: str_starts_with_def)+

lemma transport_valid:
  "fst (validate_mcp_transport t s p) = [] \<longleftrightarrow>
     (case t of
        Bridge \<Rightarrow> se_command s \<noteq> None \<and> se_url s = None
      | InSandbox \<Rightarrow> se_command s \<noteq> None \<and> se_env s = None
      | StreamableHttp \<Rightarrow> se_command s = None \<and>
          (\<exists>u. se_url s = Some u \<and> (str_starts_with u ''http://'' \<or> str_starts_with u ''https://'')))"
proof -
  have meta: "fst (case c of None \<Rightarrow> no_issues | Some command \<Rightarrow> if list_ex (str_contains command) shell_metacharacters
      then warn f m else no_issues) = []" for c f m by (simp split: option.split)
  show ?thesis
    unfolding validate_mcp_transport_def issue_simps meta
    using web_schemes by (cases t; cases "se_url s") auto
qed

lemma servers_valid:
  "fst (validate_servers_from i seen servers) = [] \<longleftrightarrow>
     list_all server_ok servers \<and> distinct (map se_name servers) \<and>
     (\<forall>s \<in> set servers. \<forall>n. se_name s = Some n \<longrightarrow> map_of seen n = None)"
proof (induction servers arbitrary: i seen)
  case (Cons s servers)
  show ?case
  proof (cases "(\<exists>n. se_name s = Some n \<and> n \<noteq> [] \<and> map_of seen n = None) \<and> fst (validate_server_transport i s) = []")
    case True
    then obtain n where n: "se_name s = Some n" "n \<noteq> []" "map_of seen n = None" and t: "fst (validate_server_transport i s) = []" by blast
    have "server_ok s" using n t
      by (cases "se_transport s") (simp_all add: server_ok_def validate_server_transport_def transport_valid split: mcp_transport.splits)
    have "map_of (hm_insert n i seen) m = None \<longleftrightarrow> m \<noteq> n \<and> map_of seen m = None" for m by (simp add: map_of_hm_insert)
    then have "fst (validate_servers_from i seen (s # servers)) = [] \<longleftrightarrow> list_all server_ok servers \<and> distinct (map se_name servers) \<and>
        (\<forall>s' \<in> set servers. \<forall>m. se_name s' = Some m \<longrightarrow> m \<noteq> n \<and> map_of seen m = None)"
      by (simp add: validate_server_name_def n t Cons.IH)
    also have "\<dots> \<longleftrightarrow> list_all server_ok (s # servers) \<and> distinct (map se_name (s # servers)) \<and>
        (\<forall>s' \<in> set (s # servers). \<forall>m. se_name s' = Some m \<longrightarrow> map_of seen m = None)"
    proof -
      have "Some n \<notin> se_name ` set servers \<longleftrightarrow> (\<forall>s' \<in> set servers. \<forall>m. se_name s' = Some m \<longrightarrow> m \<noteq> n)" by force
      then show ?thesis using n \<open>server_ok s\<close> by (simp, blast)
    qed
    finally show ?thesis .
  next
    case False
    have "\<not> (server_ok s \<and> (\<forall>n. se_name s = Some n \<longrightarrow> map_of seen n = None))"
      using False by (cases "se_transport s") (auto simp: server_ok_def validate_server_transport_def transport_valid split: mcp_transport.splits)
    moreover have "fst (validate_servers_from i seen (s # servers)) \<noteq> []"
      using False by (auto simp: validate_server_name_def split: option.splits prod.splits)
    ultimately show ?thesis by auto
  qed
qed simp

lemma name_valid: "fst (validate_blueprint_name n) = [] \<longleftrightarrow> (\<exists>s. n = Some s \<and> sandbox_name_ok s)"
  by (auto simp: validate_blueprint_name_def sandbox_name_ok_def list_all_iff split: option.splits)

lemma all_enumerate: "(\<forall>x \<in> set (enumerate i xs). P (snd x)) \<longleftrightarrow> (\<forall>x \<in> set xs. P x)"
  by (induction xs arbitrary: i) auto

lemma all_forwards: "fst (validate_forwards fs) = [] \<longleftrightarrow> (\<forall>f \<in> set fs. forward_ok f)"
  using all_enumerate [of 0 fs forward_ok] by (simp add: validate_forwards_def forward_valid case_prod_unfold)

lemma all_uploads: "fst (validate_uploads us) = [] \<longleftrightarrow> (\<forall>u \<in> set us. upload_ok u)"
  using all_enumerate [of 0 us upload_ok] by (simp add: validate_uploads_def upload_valid case_prod_unfold)

lemma resources_valid:
  "fst (validate_resources r) = [] \<longleftrightarrow>
     (\<forall>c. rs_cpu r = Some c \<longrightarrow> is_valid_k8s_cpu c) \<and> (\<forall>m. rs_memory r = Some m \<longrightarrow> is_valid_k8s_memory m)"
  by (auto simp: validate_resources_def split: option.splits)

lemma every_simps: "every P None" "every P (Some xs) \<longleftrightarrow> (\<forall>x \<in> set xs. P x)"
  by (simp_all add: every_def)

lemma spec_valid:
  "fst (validate_spec b) = [] \<longleftrightarrow>
     (\<exists>s img. bp_spec b = Some s \<and> bs_image s = Some img \<and> img \<noteq> [] \<and>
        (\<forall>p. bs_policy s = Some p \<longrightarrow> \<not> str_starts_with p ''/'') \<and>
        every server_ok (bs_mcp_servers s) \<and> distinct (map se_name (unwrap_or (bs_mcp_servers s) [])) \<and>
        every forward_ok (bs_forwards s) \<and> every upload_ok (bs_upload s) \<and>
        (\<forall>r. bs_resources s = Some r \<longrightarrow>
           (\<forall>c. rs_cpu r = Some c \<longrightarrow> is_valid_k8s_cpu c) \<and> (\<forall>m. rs_memory r = Some m \<longrightarrow> is_valid_k8s_memory m)))"
proof (cases "bp_spec b")
  case (Some s)
  have img: "fst (validate_image (bs_image s)) = [] \<longleftrightarrow> (\<exists>img. bs_image s = Some img \<and> img \<noteq> [])"
    by (auto simp: validate_image_def split: option.splits)
  have pol: "fst (validate_policy_path (bs_policy s)) = [] \<longleftrightarrow> (\<forall>p. bs_policy s = Some p \<longrightarrow> \<not> str_starts_with p ''/'')"
    by (auto simp: validate_policy_path_def split: option.splits)
  have servers: "fst (issues_of validate_mcp_servers (bs_mcp_servers s)) = [] \<longleftrightarrow>
      every server_ok (bs_mcp_servers s) \<and> distinct (map se_name (unwrap_or (bs_mcp_servers s) []))"
    by (cases "bs_mcp_servers s") (simp_all add: validate_mcp_servers_def servers_valid every_simps list_all_iff)
  have forwards: "fst (issues_of validate_forwards (bs_forwards s)) = [] \<longleftrightarrow> every forward_ok (bs_forwards s)"
    by (cases "bs_forwards s") (simp_all add: all_forwards every_simps)
  have uploads: "fst (issues_of validate_uploads (bs_upload s)) = [] \<longleftrightarrow> every upload_ok (bs_upload s)"
    by (cases "bs_upload s") (simp_all add: all_uploads every_simps)
  have resources: "fst (issues_of validate_resources (bs_resources s)) = [] \<longleftrightarrow>
      (\<forall>r. bs_resources s = Some r \<longrightarrow>
         (\<forall>c. rs_cpu r = Some c \<longrightarrow> is_valid_k8s_cpu c) \<and> (\<forall>m. rs_memory r = Some m \<longrightarrow> is_valid_k8s_memory m))"
    by (cases "bs_resources s") (simp_all add: resources_valid)
  have "fst (validate_spec b) = [] \<longleftrightarrow> fst (validate_image (bs_image s)) = [] \<and> fst (validate_policy_path (bs_policy s)) = [] \<and>
      fst (issues_of validate_mcp_servers (bs_mcp_servers s)) = [] \<and> fst (issues_of validate_forwards (bs_forwards s)) = [] \<and>
      fst (issues_of validate_resources (bs_resources s)) = [] \<and> fst (issues_of validate_uploads (bs_upload s)) = []"
    by (simp add: validate_spec_def Some)
  then show ?thesis unfolding img pol servers forwards uploads resources Some by auto
qed (simp add: validate_spec_def)


section \<open>The plan of a valid blueprint\<close>

definition with_transport :: "mcp_transport \<Rightarrow> mcp_server_entry list \<Rightarrow> mcp_server_entry list" where
  "with_transport t servers = filter (\<lambda>s. se_transport s = Some t) servers"

definition bridge_plan :: "mcp_server_entry \<Rightarrow> mcp_bridge_plan" where
  "bridge_plan s = \<lparr>mb_name = the (se_name s), mb_command = the (se_command s), mb_env = unwrap_or (se_env s) []\<rparr>"

definition in_sandbox_plan :: "mcp_server_entry \<Rightarrow> mcp_in_sandbox_plan" where
  "in_sandbox_plan s = \<lparr>mi_name = the (se_name s), mi_command = the (se_command s)\<rparr>"

definition http_plan :: "mcp_server_entry \<Rightarrow> mcp_streamable_http_plan" where
  "http_plan s = \<lparr>mh_name = the (se_name s), mh_url = the (se_url s)\<rparr>"

lemma plan_servers_valid:
  "list_all server_ok servers \<Longrightarrow>
     plan_servers servers (bs, is, hs) =
       Inr (bs @ map bridge_plan (with_transport Bridge servers), is @ map in_sandbox_plan (with_transport InSandbox servers),
         hs @ map http_plan (with_transport StreamableHttp servers))"
proof (induction servers arbitrary: bs "is" hs)
  case (Cons s servers)
  then obtain n t where s: "se_name s = Some n" "se_transport s = Some t"
    by (cases "se_transport s") (auto simp: server_ok_def)
  show ?case
    using Cons s by (cases t) (auto simp: plan_server_def server_ok_def with_transport_def bridge_plan_def in_sandbox_plan_def http_plan_def)
qed (simp add: with_transport_def)

text \<open>C22: A blueprint that passes validation has a plan, so none of the errors of plan building is reachable from
  an execution: the plan has the blueprint's name, image and policy, its lists, and for each
  transport the servers of that transport in the blueprint's order.\<close>

theorem valid_blueprint_has_plan:
  assumes "fst (validate_blueprint b) = []"
  shows "\<exists>m s plan. bp_metadata b = Some m \<and> bp_spec b = Some s \<and> build_plan b = Inr plan \<and>
    Some (pl_sandbox_name plan) = bm_name m \<and> Some (pl_image plan) = bs_image s \<and> pl_policy plan = bs_policy s \<and>
    pl_providers plan = unwrap_or (bs_providers s) [] \<and> pl_forwards plan = unwrap_or (bs_forwards s) [] \<and>
    pl_uploads plan = unwrap_or (bs_upload s) [] \<and>
    (let servers = unwrap_or (bs_mcp_servers s) [] in
      pl_bridge_servers plan = map bridge_plan (with_transport Bridge servers) \<and>
      pl_in_sandbox_servers plan = map in_sandbox_plan (with_transport InSandbox servers) \<and>
      pl_streamable_http_servers plan = map http_plan (with_transport StreamableHttp servers) \<and>
      length servers = length (pl_bridge_servers plan) + length (pl_in_sandbox_servers plan) + length (pl_streamable_http_servers plan))"
proof -
  have "fst (validate_metadata b) = []" "fst (validate_spec b) = []"
    using assms by (simp_all add: validate_blueprint_def)
  then obtain m n s img where b: "bp_metadata b = Some m" "bm_name m = Some n" "bp_spec b = Some s" "bs_image s = Some img" "img \<noteq> []"
      and ok: "every server_ok (bs_mcp_servers s)"
    unfolding spec_valid by (auto simp: validate_metadata_def name_valid split: option.splits)
  let ?servers = "unwrap_or (bs_mcp_servers s) []"
  have all: "list_all server_ok ?servers" using ok by (simp add: every_def list_all_iff)
  have count: "list_all server_ok xs \<Longrightarrow> length xs =
      length (with_transport Bridge xs) + length (with_transport InSandbox xs) + length (with_transport StreamableHttp xs)" for xs
  proof (induction xs)
    case (Cons x xs)
    then obtain t where "se_transport x = Some t" by (cases "se_transport x") (auto simp: server_ok_def)
    with Cons show ?case by (cases t) (simp_all add: with_transport_def)
  qed (simp add: with_transport_def)
  have "build_plan b = Inr \<lparr>pl_sandbox_name = n, pl_image = img, pl_policy = bs_policy s,
        pl_providers = unwrap_or (bs_providers s) [], pl_bridge_servers = map bridge_plan (with_transport Bridge ?servers),
        pl_in_sandbox_servers = map in_sandbox_plan (with_transport InSandbox ?servers),
        pl_streamable_http_servers = map http_plan (with_transport StreamableHttp ?servers), pl_forwards = unwrap_or (bs_forwards s) [],
        pl_resources = map_option (\<lambda>r. \<lparr>rp_cpu = rs_cpu r, rp_memory = rs_memory r\<rparr>) (bs_resources s),
        pl_uploads = unwrap_or (bs_upload s) []\<rparr>"
    using b plan_servers_valid [OF all, of "[]" "[]" "[]"] by (simp add: build_plan_def)
  then show ?thesis using b count [OF all] by (simp add: Let_def)
qed

theorem valid_blueprint_has_plan_witness:
  "\<exists>plan. build_plan example_blueprint = Inr plan \<and> pl_sandbox_name plan = ''box'' \<and>
     map mb_name (pl_bridge_servers plan) = [''srv'']"
proof -
  have "fst (validate_blueprint example_blueprint) = []" by code_simp
  from valid_blueprint_has_plan [OF this] show ?thesis
    by (auto simp: example_blueprint_def Let_def with_transport_def bridge_plan_def)
qed

text \<open>The check of upload targets compares texts: a target that leaves through a parent directory into a
  system directory passes it, and so do targets that the policy crate's normalisation of paths,
  which removes doubled slashes and dots, turns into targets that are refused.\<close>

theorem system_directory_check_is_lexical:
  "fst (validate_uploads [''a:/tmp/../etc/passwd'', ''a://etc/passwd'', ''a:/./usr/bin/x'']) = [] \<and>
   map normalize_path [''//etc/passwd'', ''/./usr/bin/x''] = [''/etc/passwd'', ''/usr/bin/x''] \<and>
   fst (validate_uploads [''a:/etc/passwd'']) \<noteq> [] \<and> fst (validate_uploads [''a:/usr/bin/x'']) \<noteq> []"
  by code_simp

end
