(* ===== verification/Observe.thy ===== *)
theory Observe
  imports Json
begin

text \<open>
  Watching a sandbox (\<open>darkshell-observe\<close>): \<open>event.rs\<close>, \<open>filter.rs\<close>, \<open>parser.rs\<close>, \<open>inference_log.rs\<close>
  and \<open>watch.rs\<close>. Texts of times, regular expressions and SHA-256 are parameters; an event's JSON
  form is the value that the derived implementations of serde build and read.
\<close>

section \<open>Errors\<close>

datatype observe_error =
    WatchSandboxNotFound string string
  | InvalidFilter string
  | SerializationError string
  | ConnectionLost string
  | WatchParseError u64 string
  | WatchIo string

fun observe_error_text :: "observe_error \<Rightarrow> string" where
  "observe_error_text (WatchSandboxNotFound n a) = ''sandbox '' @ [CHR 0x27] @ n @ [CHR 0x27] @ '' not found. Available sandboxes: '' @ a"
| "observe_error_text (InvalidFilter f) = ''unknown event type filter '' @ [CHR 0x27] @ f @ [CHR 0x27] @ ''. Valid types: command, file, network, policy, mcp, lifecycle, inference, watch''"
| "observe_error_text (SerializationError e) = ''failed to serialize event to JSON: '' @ e"
| "observe_error_text (ConnectionLost r) = ''connection to event source lost: '' @ r @ ''. Reconnecting...''"
| "observe_error_text (WatchParseError pos r) = ''failed to parse log line at byte offset '' @ dec (unat pos) @ '': '' @ r"
| "observe_error_text (WatchIo e) = ''I/O error during event streaming: '' @ e"

section \<open>Events\<close>

text \<open>A time is a number; its texts are RFC 3339 and the time of day.\<close>

record time_format =
  tf_rfc3339 :: "int \<Rightarrow> string"
  tf_parse :: "string \<Rightarrow> int option"
  tf_clock :: "int \<Rightarrow> string"

record command_event =
  ce_command :: string
  ce_exit_code :: "int option"
  ce_duration_ms :: "u64 option"

record file_event =
  fe_path :: string
  fe_operation :: string
  fe_process :: "string option"

record network_event =
  ne_host :: string
  ne_port :: u16
  ne_method :: "string option"
  ne_policy_result :: string

record policy_event =
  pv_action :: string
  pv_binary :: "string option"
  pv_endpoint :: "string option"
  pv_result :: string
  pv_rule_matched :: "string option"

record mcp_tool_call_event =
  mc_tool_name :: string
  mc_server :: string
  mc_duration_ms :: "u64 option"
  mc_success :: "bool option"

record lifecycle_event =
  lc_phase :: string
  lc_previous_phase :: "string option"

record watch_meta_event =
  wm_overflow_count :: "u64 option"
  wm_parse_error_offset :: "u64 option"
  wm_message :: string

record inference_event =
  ie_request_id :: string
  ie_timestamp :: int
  ie_model_provider :: string
  ie_model :: string
  ie_prompt :: string
  ie_response :: string
  ie_prompt_tokens :: "u64 option"
  ie_completion_tokens :: "u64 option"
  ie_latency_ms :: u64
  ie_status_code :: u16
  ie_error :: bool
  ie_truncated :: bool

datatype event_payload =
    CommandExecuted command_event
  | FileChanged file_event
  | NetworkRequest network_event
  | PolicyDecision policy_event
  | McpToolCall mcp_tool_call_event
  | SandboxStateChange lifecycle_event
  | InferenceCaptured inference_event
  | WatchMeta watch_meta_event

record watch_event =
  we_timestamp :: int
  we_sandbox :: string
  we_payload :: event_payload

fun payload_type :: "event_payload \<Rightarrow> string" where
  "payload_type (CommandExecuted _) = ''command''"
| "payload_type (FileChanged _) = ''file''"
| "payload_type (NetworkRequest _) = ''network''"
| "payload_type (PolicyDecision _) = ''policy''"
| "payload_type (McpToolCall _) = ''mcp''"
| "payload_type (SandboxStateChange _) = ''lifecycle''"
| "payload_type (InferenceCaptured _) = ''inference''"
| "payload_type (WatchMeta _) = ''watch''"

definition event_type :: "watch_event \<Rightarrow> string" where
  "event_type e = payload_type (we_payload e)"

section \<open>JSON\<close>

text \<open>An \<open>Option\<close> field is null when it is \<open>None\<close>, or left out where the source says so.\<close>

definition opt_json :: "('a \<Rightarrow> json) \<Rightarrow> 'a option \<Rightarrow> json" where
  "opt_json f x = (case x of None \<Rightarrow> JNull | Some a \<Rightarrow> f a)"

definition opt_field :: "string \<Rightarrow> ('a \<Rightarrow> json) \<Rightarrow> 'a option \<Rightarrow> (string \<times> json) list" where
  "opt_field k f x = (case x of None \<Rightarrow> [] | Some a \<Rightarrow> [(k, f a)])"

definition word_json :: "'a :: len word \<Rightarrow> json" where
  "word_json w = JInt (int (unat w))"

definition payload_fields :: "time_format \<Rightarrow> event_payload \<Rightarrow> (string \<times> json) list" where
  "payload_fields F p =
     (case p of
        CommandExecuted e \<Rightarrow>
          [(''kind'', JString ''command_executed''), (''command'', JString (ce_command e)),
           (''exit_code'', opt_json JInt (ce_exit_code e)), (''duration_ms'', opt_json word_json (ce_duration_ms e))]
      | FileChanged e \<Rightarrow>
          [(''kind'', JString ''file_changed''), (''path'', JString (fe_path e)), (''operation'', JString (fe_operation e)),
           (''process'', opt_json JString (fe_process e))]
      | NetworkRequest e \<Rightarrow>
          [(''kind'', JString ''network_request''), (''host'', JString (ne_host e)), (''port'', word_json (ne_port e)),
           (''method'', opt_json JString (ne_method e)), (''policy_result'', JString (ne_policy_result e))]
      | PolicyDecision e \<Rightarrow>
          [(''kind'', JString ''policy_decision''), (''action'', JString (pv_action e)), (''binary'', opt_json JString (pv_binary e)),
           (''endpoint'', opt_json JString (pv_endpoint e)), (''result'', JString (pv_result e)),
           (''rule_matched'', opt_json JString (pv_rule_matched e))]
      | McpToolCall e \<Rightarrow>
          [(''kind'', JString ''mcp_tool_call''), (''tool_name'', JString (mc_tool_name e)), (''server'', JString (mc_server e)),
           (''duration_ms'', opt_json word_json (mc_duration_ms e)), (''success'', opt_json JBool (mc_success e))]
      | SandboxStateChange e \<Rightarrow>
          [(''kind'', JString ''sandbox_state_change''), (''phase'', JString (lc_phase e)),
           (''previous_phase'', opt_json JString (lc_previous_phase e))]
      | InferenceCaptured e \<Rightarrow>
          [(''kind'', JString ''inference''), (''request_id'', JString (ie_request_id e)),
           (''inference_timestamp'', JString (tf_rfc3339 F (ie_timestamp e))), (''model_provider'', JString (ie_model_provider e)),
           (''model'', JString (ie_model e)), (''prompt'', JString (ie_prompt e)), (''response'', JString (ie_response e)),
           (''prompt_tokens'', opt_json word_json (ie_prompt_tokens e)),
           (''completion_tokens'', opt_json word_json (ie_completion_tokens e)), (''latency_ms'', word_json (ie_latency_ms e)),
           (''status_code'', word_json (ie_status_code e)), (''error'', JBool (ie_error e)), (''truncated'', JBool (ie_truncated e))]
      | WatchMeta e \<Rightarrow>
          (''kind'', JString ''watch_meta'') # opt_field ''overflow_count'' word_json (wm_overflow_count e) @
          opt_field ''parse_error_offset'' word_json (wm_parse_error_offset e) @ [(''message'', JString (wm_message e))])"

definition event_to_json :: "time_format \<Rightarrow> watch_event \<Rightarrow> json" where
  "event_to_json F e =
     jobject ([(''timestamp'', JString (tf_rfc3339 F (we_timestamp e))), (''sandbox'', JString (we_sandbox e)),
       (''event_type'', JString (event_type e))] @ payload_fields F (we_payload e))"

text \<open>Reading: a missing \<open>Option\<close> field is \<open>None\<close>, any other missing field or wrong type is an error.\<close>

definition need :: "json \<Rightarrow> string \<Rightarrow> (json \<Rightarrow> 'a option) \<Rightarrow> string + 'a" where
  "need j k f =
     (case json_get j k of
        None \<Rightarrow> Inl (''missing field '' @ k)
      | Some v \<Rightarrow> ok_or (f v) (''invalid type for '' @ k))"

definition maybe :: "json \<Rightarrow> string \<Rightarrow> (json \<Rightarrow> 'a option) \<Rightarrow> string + 'a option" where
  "maybe j k f =
     (case json_get j k of
        None \<Rightarrow> Inr None
      | Some JNull \<Rightarrow> Inr None
      | Some v \<Rightarrow> map_sum id Some (ok_or (f v) (''invalid type for '' @ k)))"

definition as_word :: "json \<Rightarrow> 'a :: len word option" where
  "as_word v = (case v of JInt i \<Rightarrow> if 0 \<le> i \<and> i < 2 ^ LENGTH('a) then Some (word_of_int i) else None | _ \<Rightarrow> None)"

definition as_i32 :: "json \<Rightarrow> int option" where
  "as_i32 v = (case v of JInt i \<Rightarrow> if - (2 ^ 31) \<le> i \<and> i < 2 ^ 31 then Some i else None | _ \<Rightarrow> None)"

definition as_time :: "time_format \<Rightarrow> json \<Rightarrow> int option" where
  "as_time F v = Option.bind (as_str v) (tf_parse F)"

definition read_command :: "json \<Rightarrow> string + event_payload" where
  "read_command j =
     and_then (need j ''command'' as_str) (\<lambda>command. and_then (maybe j ''exit_code'' as_i32) (\<lambda>exit_code.
     and_then (maybe j ''duration_ms'' as_word) (\<lambda>duration.
       Inr (CommandExecuted \<lparr>ce_command = command, ce_exit_code = exit_code, ce_duration_ms = duration\<rparr>))))"

definition read_file_event :: "json \<Rightarrow> string + event_payload" where
  "read_file_event j =
     and_then (need j ''path'' as_str) (\<lambda>path. and_then (need j ''operation'' as_str) (\<lambda>operation.
     and_then (maybe j ''process'' as_str) (\<lambda>process.
       Inr (FileChanged \<lparr>fe_path = path, fe_operation = operation, fe_process = process\<rparr>))))"

definition read_network :: "json \<Rightarrow> string + event_payload" where
  "read_network j =
     and_then (need j ''host'' as_str) (\<lambda>host. and_then (need j ''port'' as_word) (\<lambda>port.
     and_then (maybe j ''method'' as_str) (\<lambda>method. and_then (need j ''policy_result'' as_str) (\<lambda>result.
       Inr (NetworkRequest \<lparr>ne_host = host, ne_port = port, ne_method = method, ne_policy_result = result\<rparr>)))))"

definition read_policy :: "json \<Rightarrow> string + event_payload" where
  "read_policy j =
     and_then (need j ''action'' as_str) (\<lambda>act. and_then (maybe j ''binary'' as_str) (\<lambda>binary.
     and_then (maybe j ''endpoint'' as_str) (\<lambda>endpoint. and_then (need j ''result'' as_str) (\<lambda>result.
     and_then (maybe j ''rule_matched'' as_str) (\<lambda>rule.
       Inr (PolicyDecision \<lparr>pv_action = act, pv_binary = binary, pv_endpoint = endpoint, pv_result = result,
         pv_rule_matched = rule\<rparr>))))))"

definition read_tool_call :: "json \<Rightarrow> string + event_payload" where
  "read_tool_call j =
     and_then (need j ''tool_name'' as_str) (\<lambda>tool. and_then (need j ''server'' as_str) (\<lambda>server.
     and_then (maybe j ''duration_ms'' as_word) (\<lambda>duration. and_then (maybe j ''success'' as_bool) (\<lambda>success.
       Inr (McpToolCall \<lparr>mc_tool_name = tool, mc_server = server, mc_duration_ms = duration, mc_success = success\<rparr>)))))"

definition read_lifecycle :: "json \<Rightarrow> string + event_payload" where
  "read_lifecycle j =
     and_then (need j ''phase'' as_str) (\<lambda>phase. and_then (maybe j ''previous_phase'' as_str) (\<lambda>previous.
       Inr (SandboxStateChange \<lparr>lc_phase = phase, lc_previous_phase = previous\<rparr>)))"

definition read_inference :: "time_format \<Rightarrow> json \<Rightarrow> string + event_payload" where
  "read_inference F j =
     and_then (need j ''request_id'' as_str) (\<lambda>request_id. and_then (need j ''inference_timestamp'' (as_time F)) (\<lambda>time.
     and_then (need j ''model_provider'' as_str) (\<lambda>provider. and_then (need j ''model'' as_str) (\<lambda>model.
     and_then (need j ''prompt'' as_str) (\<lambda>prompt. and_then (need j ''response'' as_str) (\<lambda>response.
     and_then (maybe j ''prompt_tokens'' as_word) (\<lambda>ptok. and_then (maybe j ''completion_tokens'' as_word) (\<lambda>ctok.
     and_then (need j ''latency_ms'' as_word) (\<lambda>latency. and_then (need j ''status_code'' as_word) (\<lambda>status.
     and_then (need j ''error'' as_bool) (\<lambda>err. and_then (need j ''truncated'' as_bool) (\<lambda>truncated.
       Inr (InferenceCaptured \<lparr>ie_request_id = request_id, ie_timestamp = time, ie_model_provider = provider, ie_model = model,
         ie_prompt = prompt, ie_response = response, ie_prompt_tokens = ptok, ie_completion_tokens = ctok,
         ie_latency_ms = latency, ie_status_code = status, ie_error = err, ie_truncated = truncated\<rparr>)))))))))))))"

definition read_meta :: "json \<Rightarrow> string + event_payload" where
  "read_meta j =
     and_then (maybe j ''overflow_count'' as_word) (\<lambda>overflow. and_then (maybe j ''parse_error_offset'' as_word) (\<lambda>offset.
     and_then (need j ''message'' as_str) (\<lambda>message.
       Inr (WatchMeta \<lparr>wm_overflow_count = overflow, wm_parse_error_offset = offset, wm_message = message\<rparr>))))"

definition read_payload :: "time_format \<Rightarrow> json \<Rightarrow> string + event_payload" where
  "read_payload F j =
     and_then (need j ''kind'' as_str) (\<lambda>kind.
       if kind = ''command_executed'' then read_command j
       else if kind = ''file_changed'' then read_file_event j
       else if kind = ''network_request'' then read_network j
       else if kind = ''policy_decision'' then read_policy j
       else if kind = ''mcp_tool_call'' then read_tool_call j
       else if kind = ''sandbox_state_change'' then read_lifecycle j
       else if kind = ''inference'' then read_inference F j
       else if kind = ''watch_meta'' then read_meta j
       else Inl (''unknown variant '' @ kind))"

definition event_from_json :: "time_format \<Rightarrow> json \<Rightarrow> string + watch_event" where
  "event_from_json F j =
     and_then (need j ''timestamp'' (as_time F)) (\<lambda>time. and_then (need j ''sandbox'' as_str) (\<lambda>sandbox.
     and_then (need j ''event_type'' as_str) (\<lambda>_. and_then (read_payload F j) (\<lambda>payload.
       Inr \<lparr>we_timestamp = time, we_sandbox = sandbox, we_payload = payload\<rparr>))))"

section \<open>Display\<close>

definition signed_dec :: "int \<Rightarrow> string" where
  "signed_dec n = (if n < 0 then CHR ''-'' # dec (nat (- n)) else dec (nat n))"

definition payload_detail :: "event_payload \<Rightarrow> string" where
  "payload_detail p =
     (case p of
        CommandExecuted e \<Rightarrow>
          ce_command e @ '' ['' @ unwrap_or (map_option (\<lambda>c. ''exit='' @ signed_dec c) (ce_exit_code e)) ''running'' @ '']'' @
          unwrap_or (map_option (\<lambda>d. '' '' @ dec (unat d) @ ''ms'') (ce_duration_ms e)) []
      | FileChanged e \<Rightarrow>
          fe_operation e @ '' '' @ fe_path e @ unwrap_or (map_option (\<lambda>q. '' by '' @ q) (fe_process e)) []
      | NetworkRequest e \<Rightarrow>
          unwrap_or (ne_method e) ''TCP'' @ '' '' @ ne_host e @ '':'' @ dec (unat (ne_port e)) @ '' ('' @ ne_policy_result e @ '')''
      | PolicyDecision e \<Rightarrow> pv_action e @ '' '' @ unwrap_or (pv_endpoint e) ''?'' @ '' -> '' @ pv_result e
      | McpToolCall e \<Rightarrow>
          mc_tool_name e @ '' via '' @ mc_server e @ '' ['' @
          (case mc_success e of None \<Rightarrow> ''pending'' | Some s \<Rightarrow> if s then ''ok'' else ''failed'') @ '']''
      | SandboxStateChange e \<Rightarrow> unwrap_or (lc_previous_phase e) ''none'' @ '' -> '' @ lc_phase e
      | InferenceCaptured e \<Rightarrow>
          ie_model_provider e @ ''/'' @ ie_model e @ '' ['' @ (if ie_error e then ''error'' else ''ok'') @ ''] '' @
          dec (unat (ie_latency_ms e)) @ ''ms''
      | WatchMeta e \<Rightarrow> wm_message e)"

definition escape :: "string \<Rightarrow> string" where "escape s = CHR 0x1B # ''['' @ s @ ''m''"

definition type_color :: "string \<Rightarrow> string" where
  "type_color t =
     escape (if t = ''command'' then ''36'' else if t = ''file'' then ''33'' else if t = ''network'' then ''35''
       else if t = ''policy'' then ''31'' else if t = ''mcp'' then ''34'' else if t = ''lifecycle'' then ''32''
       else if t = ''inference'' then ''93'' else ''37'')"

definition to_human_readable :: "time_format \<Rightarrow> bool \<Rightarrow> watch_event \<Rightarrow> string" where
  "to_human_readable F color e =
     (let ts = tf_clock F (we_timestamp e);
          label = event_type e @ replicate (10 - length (event_type e)) (CHR '' '');
          detail = payload_detail (we_payload e) in
      if color then escape ''2'' @ ts @ escape ''0'' @ '' '' @ type_color (event_type e) @ label @ escape ''0'' @ '' '' @ detail
      else ts @ '' '' @ label @ '' '' @ detail)"

section \<open>Filters\<close>

definition VALID_EVENT_TYPES :: "string list" where
  "VALID_EVENT_TYPES = [''command'', ''file'', ''network'', ''policy'', ''mcp'', ''lifecycle'', ''inference'', ''watch'']"

type_synonym event_filter = "string list"

fun add_types :: "string list \<Rightarrow> string list \<Rightarrow> observe_error + event_filter" where
  "add_types [] types = Inr types"
| "add_types (t # ts) types =
     (let token = str_trim t in
      if token = [] then add_types ts types
      else if token \<notin> set VALID_EVENT_TYPES then Inl (InvalidFilter token)
      else add_types ts (if token \<in> set types then types else types @ [token]))"

definition parse_filter :: "string \<Rightarrow> observe_error + event_filter" where
  "parse_filter s = (if s = [] then Inr [] else add_types (str_split (CHR '','') s) [])"

definition from_type_flags :: "string list \<Rightarrow> observe_error + event_filter" where
  "from_type_flags flags = (if flags = [] then Inr [] else parse_filter (str_join '','' flags))"

definition filter_matches :: "event_filter \<Rightarrow> watch_event \<Rightarrow> bool" where
  "filter_matches types e \<longleftrightarrow> types = [] \<or> list_ex (\<lambda>t. t = event_type e) types"

section \<open>Log lines\<close>

text \<open>\<open>splitn(2, ' ')\<close> and \<open>rfind\<close>.\<close>

definition splitn2_space :: "string \<Rightarrow> string \<times> string option" where
  "splitn2_space s = (case str_split_once s '' '' of None \<Rightarrow> (s, None) | Some (a, b) \<Rightarrow> (a, Some b))"

fun str_rfind :: "string \<Rightarrow> string \<Rightarrow> nat option" where
  "str_rfind [] p = (if p = [] then Some 0 else None)"
| "str_rfind (c # s) p =
     (case str_rfind s p of
        Some i \<Rightarrow> Some (Suc i)
      | None \<Rightarrow> if str_starts_with (c # s) p then Some 0 else None)"

definition try_parse_policy_decision :: "string \<Rightarrow> event_payload option" where
  "try_parse_policy_decision line =
     Option.bind (str_strip_prefix line ''policy:'') (\<lambda>rest.
     Option.bind (str_split_once (str_trim rest) '' -> '') (\<lambda>(left, right).
       case splitn2_space (str_trim left) of (act, endpoint) \<Rightarrow>
         case (case str_split_once right '' [rule: '' of
                 Some (r, rule_part) \<Rightarrow> (str_trim r, Some (unwrap_or (str_strip_suffix rule_part '']'') rule_part))
               | None \<Rightarrow> (str_trim right, None)) of
           (result, rule) \<Rightarrow>
             Some (PolicyDecision \<lparr>pv_action = act, pv_binary = None, pv_endpoint = endpoint, pv_result = result,
               pv_rule_matched = rule\<rparr>)))"

definition try_parse_network_request :: "string \<Rightarrow> event_payload option" where
  "try_parse_network_request line =
     Option.bind (str_strip_prefix line ''network:'') (\<lambda>rest.
       case split_whitespace (str_trim rest) of
         method # host_port # r # result \<Rightarrow>
           Option.bind (str_rsplit_once host_port (CHR '':'')) (\<lambda>(host, port_str).
           Option.bind (parse_u16 port_str) (\<lambda>port.
             Some (NetworkRequest \<lparr>ne_host = host, ne_port = port, ne_method = Some method,
               ne_policy_result = str_join '' '' (r # result)\<rparr>)))
       | _ \<Rightarrow> None)"

text \<open>\<open>str::parse::<i32>\<close>.\<close>

definition parse_i32 :: "string \<Rightarrow> int option" where
  "parse_i32 s =
     (case s of
        c # u \<Rightarrow>
          if c = CHR ''-'' then
            (if u = [] then None
             else case digits_val 10 0 u of
                    None \<Rightarrow> None
                  | Some n \<Rightarrow> if n \<le> 2 ^ 31 then Some (- int n) else None)
          else map_option int (from_str_radix 31 10 s)
      | [] \<Rightarrow> None)"

text \<open>The outer option is the early return when a bracket is missing.\<close>

definition exit_part :: "string \<Rightarrow> (string \<times> int option) option" where
  "exit_part rest =
     (case str_find rest ''[exit='' of
        None \<Rightarrow> Some (rest, None)
      | Some i \<Rightarrow>
          (let after = drop (i + 6) rest in
           map_option (\<lambda>end_pos. (str_trim (take i rest), parse_i32 (take end_pos after))) (str_find after '']'')))"

definition duration_part :: "string \<Rightarrow> u64 option option" where
  "duration_part rest =
     (case str_rfind rest ''ms]'' of
        None \<Rightarrow> Some None
      | Some i \<Rightarrow>
          map_option (\<lambda>bracket. parse_u64 (str_trim (drop (bracket + 1) (take i rest)))) (str_rfind (take i rest) ''[''))"

definition trim_end_matches :: "char \<Rightarrow> string \<Rightarrow> string" where
  "trim_end_matches c s = rev (dropWhile (\<lambda>d. d = c) (rev s))"

definition try_parse_command_executed :: "string \<Rightarrow> event_payload option" where
  "try_parse_command_executed line =
     Option.bind (str_strip_prefix line ''exec:'') (\<lambda>rest0.
       let rest = str_trim rest0 in
       Option.bind (exit_part rest) (\<lambda>(command_part, exit_code).
       Option.bind (duration_part rest) (\<lambda>duration_ms.
         let command = str_trim (trim_end_matches (CHR ''['') command_part) in
         if command = [] then None
         else Some (CommandExecuted \<lparr>ce_command = command, ce_exit_code = exit_code, ce_duration_ms = duration_ms\<rparr>))))"

definition try_parse_file_changed :: "string \<Rightarrow> event_payload option" where
  "try_parse_file_changed line =
     Option.bind (str_strip_prefix line ''file:'') (\<lambda>rest.
       case (case str_split_once (str_trim rest) '' by '' of
               Some (left, right) \<Rightarrow> (left, Some right)
             | None \<Rightarrow> (str_trim rest, None)) of
         (main_part, process) \<Rightarrow>
           (case splitn2_space main_part of
              (_, None) \<Rightarrow> None
            | (operation, Some path) \<Rightarrow>
                Some (FileChanged \<lparr>fe_path = path, fe_operation = operation, fe_process = process\<rparr>)))"

definition try_parse_lifecycle :: "string \<Rightarrow> event_payload option" where
  "try_parse_lifecycle line =
     Option.bind (str_strip_prefix line ''lifecycle:'') (\<lambda>rest.
       case (case str_split_once (str_trim rest) '' from '' of
               Some (left, right) \<Rightarrow> (str_trim left, Some (str_trim right))
             | None \<Rightarrow> (str_trim rest, None)) of
         (phase, previous) \<Rightarrow>
           if phase = [] then None
           else Some (SandboxStateChange \<lparr>lc_phase = phase, lc_previous_phase = previous\<rparr>))"

fun first_some :: "'a option list \<Rightarrow> 'a option" where
  "first_some [] = None"
| "first_some (x # xs) = (case x of Some a \<Rightarrow> Some a | None \<Rightarrow> first_some xs)"

definition parse_log_line :: "int \<Rightarrow> string \<Rightarrow> string \<Rightarrow> u64 \<Rightarrow> watch_event option" where
  "parse_log_line now sandbox line byte_offset =
     (let trimmed = str_trim line in
      if trimmed = [] then None
      else map_option (\<lambda>p. \<lparr>we_timestamp = now, we_sandbox = sandbox, we_payload = p\<rparr>)
        (if str_contains trimmed replacement_char then
           Some (WatchMeta \<lparr>wm_overflow_count = None, wm_parse_error_offset = Some byte_offset,
             wm_message = ''skipped log line with non-UTF-8 bytes at offset '' @ dec (unat byte_offset)\<rparr>)
         else first_some [try_parse_policy_decision trimmed, try_parse_network_request trimmed,
           try_parse_command_executed trimmed, try_parse_file_changed trimmed, try_parse_lifecycle trimmed]))"

section \<open>Redaction\<close>

definition MAX_RESPONSE_BYTES :: nat where "MAX_RESPONSE_BYTES = 1048576"

record redaction_config =
  rd_strip_pii :: bool
  rd_hash_fields :: "string list"
  rd_truncate_chars :: "nat option"

text \<open>The four expressions' \<open>replace_all\<close> with a replacement, and the hexadecimal SHA-256.\<close>

record redaction_lib =
  rl_email :: "string \<Rightarrow> string \<Rightarrow> string"
  rl_phone :: "string \<Rightarrow> string \<Rightarrow> string"
  rl_ssn :: "string \<Rightarrow> string \<Rightarrow> string"
  rl_cc :: "string \<Rightarrow> string \<Rightarrow> string"
  rl_sha256_hex :: "string \<Rightarrow> string"

definition validate_redaction :: "redaction_config \<Rightarrow> string list" where
  "validate_redaction c =
     List.map_filter (\<lambda>f. if f \<in> {''prompt'', ''response'', ''model'', ''provider''} then None
       else Some (''Redaction field '' @ [CHR 0x27] @ f @ [CHR 0x27] @ '' is not a valid InferenceEvent field. Valid fields: prompt, response, model, provider.''))
       (rd_hash_fields c)"

definition strip_pii :: "redaction_lib \<Rightarrow> string \<Rightarrow> string" where
  "strip_pii R text =
     rl_cc R (rl_ssn R (rl_phone R (rl_email R text ''[EMAIL_REDACTED]'') ''[PHONE_REDACTED]'') ''[SSN_REDACTED]'') ''[CC_REDACTED]''"

definition sha256_hash :: "redaction_lib \<Rightarrow> string \<Rightarrow> string" where
  "sha256_hash R text = ''sha256:'' @ rl_sha256_hex R text"

definition char_starts :: "string \<Rightarrow> nat list" where
  "char_starts s = filter (\<lambda>i. \<not> is_cont (code (s ! i))) [0 ..< length s]"

definition truncate_content :: "string \<Rightarrow> nat \<Rightarrow> string" where
  "truncate_content text max_chars =
     (if length (char_starts text) \<le> max_chars then text
      else let starts = takeWhile (\<lambda>i. i \<le> max_chars) (char_starts text);
               boundary = (if starts = [] then 0 else last starts)
           in take boundary text @ ''[TRUNCATED]'')"

definition hash_field :: "redaction_lib \<Rightarrow> string \<Rightarrow> inference_event \<Rightarrow> inference_event" where
  "hash_field R field e =
     (if field = ''prompt'' then e\<lparr>ie_prompt := sha256_hash R (ie_prompt e)\<rparr>
      else if field = ''response'' then e\<lparr>ie_response := sha256_hash R (ie_response e)\<rparr>
      else if field = ''model'' then e\<lparr>ie_model := sha256_hash R (ie_model e)\<rparr>
      else if field = ''provider'' then e\<lparr>ie_model_provider := sha256_hash R (ie_model_provider e)\<rparr>
      else e)"

definition redact_inference_event :: "redaction_lib \<Rightarrow> inference_event \<Rightarrow> redaction_config \<Rightarrow> inference_event" where
  "redact_inference_event R e config =
     (let stripped = (if rd_strip_pii config
            then e\<lparr>ie_prompt := strip_pii R (ie_prompt e), ie_response := strip_pii R (ie_response e)\<rparr> else e);
          hashed = fold (hash_field R) (rd_hash_fields config) stripped
      in case rd_truncate_chars config of
           None \<Rightarrow> hashed
         | Some n \<Rightarrow> hashed\<lparr>ie_prompt := truncate_content (ie_prompt hashed) n,
             ie_response := truncate_content (ie_response hashed) n\<rparr>)"

section \<open>The stream\<close>

record watch_config =
  wc_sandbox :: string
  wc_filter :: event_filter
  wc_json :: bool
  wc_is_tty :: bool
  wc_channel_capacity :: nat

text \<open>The stream owns the receiver of its channel; other senders may feed it between operations.\<close>

record event_stream =
  es_config :: watch_config
  es_channel :: "watch_event list"
  es_dropped_count :: u64

definition new_watch_config :: "string \<Rightarrow> watch_config" where
  "new_watch_config sandbox =
     \<lparr>wc_sandbox = sandbox, wc_filter = [], wc_json = False, wc_is_tty = False, wc_channel_capacity = 1000\<rparr>"

text \<open>A channel without capacity panics.\<close>

definition new_event_stream :: "watch_config \<Rightarrow> event_stream option" where
  "new_event_stream config =
     (if wc_channel_capacity config = 0 then None
      else Some \<lparr>es_config = config, es_channel = [], es_dropped_count = 0\<rparr>)"

definition channel_send :: "watch_event \<Rightarrow> event_stream \<Rightarrow> event_stream option" where
  "channel_send e S =
     (if length (es_channel S) < wc_channel_capacity (es_config S) then Some (S\<lparr>es_channel := es_channel S @ [e]\<rparr>) else None)"

fun skip_unmatched :: "event_filter \<Rightarrow> watch_event list \<Rightarrow> watch_event option \<times> watch_event list" where
  "skip_unmatched types [] = (None, [])"
| "skip_unmatched types (e # es) = (if filter_matches types e then (Some e, es) else skip_unmatched types es)"

text \<open>\<open>None\<close>: nothing that passes the filter has been sent yet.\<close>

definition next_event :: "event_stream \<Rightarrow> watch_event option \<times> event_stream" where
  "next_event S =
     (case skip_unmatched (wc_filter (es_config S)) (es_channel S) of (e, es) \<Rightarrow> (e, S\<lparr>es_channel := es\<rparr>))"

definition overflow_event :: "int \<Rightarrow> event_stream \<Rightarrow> watch_event" where
  "overflow_event now S =
     \<lparr>we_timestamp = now, we_sandbox = wc_sandbox (es_config S),
      we_payload = WatchMeta \<lparr>wm_overflow_count = Some (es_dropped_count S), wm_parse_error_offset = None,
        wm_message = dec (unat (es_dropped_count S)) @ '' events dropped due to buffer overflow''\<rparr>\<rparr>"

definition try_send :: "int \<Rightarrow> watch_event \<Rightarrow> event_stream \<Rightarrow> event_stream" where
  "try_send now e S =
     (case channel_send e S of
        Some S \<Rightarrow> S
      | None \<Rightarrow>
          (let S = S\<lparr>es_dropped_count := es_dropped_count S + 1\<rparr> in
           if unat (es_dropped_count S) mod 100 = 1
           then (case channel_send (overflow_event now S) S of Some S \<Rightarrow> S | None \<Rightarrow> S)
           else S))"

definition format_event :: "time_format \<Rightarrow> (json \<Rightarrow> string + string) \<Rightarrow> event_stream \<Rightarrow> watch_event \<Rightarrow> string" where
  "format_event F to_text S e =
     (if wc_json (es_config S)
      then (case to_text (event_to_json F e) of Inr t \<Rightarrow> t | Inl err \<Rightarrow> ''{'' @ [CHR 0x22] @ ''error'' @ [CHR 0x22] @ '': '' @ [CHR 0x22] @ ''serialization failed: '' @ err @ [CHR 0x22] @ ''}'')
      else to_human_readable F (wc_is_tty (es_config S)) e)"

text \<open>Milliseconds.\<close>

definition MAX_BACKOFF_ms :: nat where "MAX_BACKOFF_ms = 30000"
definition INITIAL_BACKOFF_ms :: nat where "INITIAL_BACKOFF_ms = 1000"

definition next_backoff :: "nat \<Rightarrow> nat" where
  "next_backoff current = (let doubled = current * 2 in if MAX_BACKOFF_ms < doubled then MAX_BACKOFF_ms else doubled)"

definition sandbox_deleted_event :: "int \<Rightarrow> string \<Rightarrow> string option \<Rightarrow> watch_event" where
  "sandbox_deleted_event now sandbox previous =
     \<lparr>we_timestamp = now, we_sandbox = sandbox,
      we_payload = SandboxStateChange \<lparr>lc_phase = ''deleted'', lc_previous_phase = previous\<rparr>\<rparr>"

definition sandbox_not_found_error :: "string \<Rightarrow> string list \<Rightarrow> observe_error" where
  "sandbox_not_found_error name available =
     WatchSandboxNotFound name (if available = [] then ''(none)'' else str_join '', '' available)"

end
