(* ===== verification/ObserveProps.thy ===== *)
theory ObserveProps
  imports Observe
begin

text \<open>
  What holds of watching a sandbox: events survive their JSON form, a stream accounts for every
  event that was sent to it, and the exit code of a command is read from the command's own text when
  that contains one.
\<close>

section \<open>Reading what was written\<close>

lemma as_word_json [simp]: "as_word (word_json (w :: 'a :: len word)) = Some w"
  by (simp add: as_word_def word_json_def unsigned_less)

lemma word_json_neq [simp]: "word_json w \<noteq> JNull" "JNull \<noteq> word_json w"
  by (simp_all add: word_json_def)

lemma maybe_opt:
  assumes "json_get j k = Some (opt_json f x)" "\<And>a. x = Some a \<Longrightarrow> f a \<noteq> JNull \<and> g (f a) = Some a"
  shows "maybe j k g = Inr x"
proof (cases x)
  case None then show ?thesis using assms(1) by (simp add: maybe_def opt_json_def)
next
  case (Some a)
  then have "f a \<noteq> JNull" "g (f a) = Some a" using assms(2) by blast+
  then show ?thesis using assms(1) Some by (cases "f a") (simp_all add: maybe_def opt_json_def)
qed

lemma maybe_field:
  assumes "json_get j k = map_option f x" "\<And>a. x = Some a \<Longrightarrow> f a \<noteq> JNull \<and> g (f a) = Some a"
  shows "maybe j k g = Inr x"
proof (cases x)
  case None then show ?thesis using assms(1) by (simp add: maybe_def)
next
  case (Some a)
  then have "f a \<noteq> JNull" "g (f a) = Some a" using assms(2) by blast+
  then show ?thesis using assms(1) Some by (cases "f a") (simp_all add: maybe_def)
qed

lemma need_read: "json_get j k = Some v \<Longrightarrow> f v = Some a \<Longrightarrow> need j k f = Inr a"
  by (simp add: need_def)

lemma as_i32_int: "- (2 ^ 31) \<le> i \<Longrightarrow> i < 2 ^ 31 \<Longrightarrow> as_i32 (JInt i) = Some i"
  by (simp add: as_i32_def)

definition exit_code_fits :: "event_payload \<Rightarrow> bool" where
  "exit_code_fits p = (case p of CommandExecuted e \<Rightarrow> pred_option (\<lambda>i. - (2 ^ 31) \<le> i \<and> i < 2 ^ 31) (ce_exit_code e) | _ \<Rightarrow> True)"

lemma read_payload_fields:
  assumes time: "\<And>t. tf_parse F (tf_rfc3339 F t) = Some t" and fits: "exit_code_fits p"
    and fields: "\<And>k. k \<notin> {''timestamp'', ''sandbox'', ''event_type''} \<Longrightarrow> json_get j k = map_of (rev (payload_fields F p)) k"
  shows "read_payload F j = Inr p"
proof (cases p)
  case (CommandExecuted e)
  have "maybe j ''exit_code'' as_i32 = Inr (ce_exit_code e)"
    by (rule maybe_opt [where f = JInt]) (use fits in \<open>auto simp: fields payload_fields_def CommandExecuted exit_code_fits_def as_i32_int\<close>)
  moreover have "maybe j ''duration_ms'' as_word = Inr (ce_duration_ms e)"
    by (rule maybe_opt [where f = word_json]) (simp_all add: fields payload_fields_def CommandExecuted)
  ultimately show ?thesis
    by (simp add: read_payload_def read_command_def need_def fields payload_fields_def CommandExecuted)
next
  case (FileChanged e)
  have "maybe j ''process'' as_str = Inr (fe_process e)"
    by (rule maybe_opt [where f = JString]) (simp_all add: fields payload_fields_def FileChanged)
  then show ?thesis
    by (simp add: read_payload_def read_file_event_def need_def fields payload_fields_def FileChanged)
next
  case (NetworkRequest e)
  have "maybe j ''method'' as_str = Inr (ne_method e)"
    by (rule maybe_opt [where f = JString]) (simp_all add: fields payload_fields_def NetworkRequest)
  then show ?thesis
    by (simp add: read_payload_def read_network_def need_def fields payload_fields_def NetworkRequest)
next
  case (PolicyDecision e)
  have "maybe j ''binary'' as_str = Inr (pv_binary e)" "maybe j ''endpoint'' as_str = Inr (pv_endpoint e)"
    "maybe j ''rule_matched'' as_str = Inr (pv_rule_matched e)"
    by (rule maybe_opt [where f = JString]; simp add: fields payload_fields_def PolicyDecision)+
  then show ?thesis
    by (simp add: read_payload_def read_policy_def need_def fields payload_fields_def PolicyDecision)
next
  case (McpToolCall e)
  have "maybe j ''duration_ms'' as_word = Inr (mc_duration_ms e)"
    by (rule maybe_opt [where f = word_json]) (simp_all add: fields payload_fields_def McpToolCall)
  moreover have "maybe j ''success'' as_bool = Inr (mc_success e)"
    by (rule maybe_opt [where f = JBool]) (simp_all add: fields payload_fields_def McpToolCall)
  ultimately show ?thesis
    by (simp add: read_payload_def read_tool_call_def need_def fields payload_fields_def McpToolCall)
next
  case (SandboxStateChange e)
  have "maybe j ''previous_phase'' as_str = Inr (lc_previous_phase e)"
    by (rule maybe_opt [where f = JString]) (simp_all add: fields payload_fields_def SandboxStateChange)
  then show ?thesis
    by (simp add: read_payload_def read_lifecycle_def need_def fields payload_fields_def SandboxStateChange)
next
  case (InferenceCaptured e)
  have "maybe j ''prompt_tokens'' as_word = Inr (ie_prompt_tokens e)"
    "maybe j ''completion_tokens'' as_word = Inr (ie_completion_tokens e)"
    by (rule maybe_opt [where f = word_json]; simp add: fields payload_fields_def InferenceCaptured)+
  then show ?thesis
    by (simp add: read_payload_def read_inference_def need_def fields payload_fields_def InferenceCaptured as_time_def time)
next
  case (WatchMeta e)
  have "maybe j ''overflow_count'' as_word = Inr (wm_overflow_count e)"
    by (rule maybe_field [where f = word_json])
      (auto simp: fields payload_fields_def WatchMeta opt_field_def map_add_def split: option.splits)
  moreover have "maybe j ''parse_error_offset'' as_word = Inr (wm_parse_error_offset e)"
    by (rule maybe_field [where f = word_json])
      (auto simp: fields payload_fields_def WatchMeta opt_field_def map_add_def split: option.splits)
  moreover have "json_get j ''kind'' = Some (JString ''watch_meta'')" "json_get j ''message'' = Some (JString (wm_message e))"
    by (auto simp: fields payload_fields_def WatchMeta opt_field_def map_add_def split: option.splits)
  ultimately show ?thesis
    by (simp add: read_payload_def read_meta_def need_def WatchMeta)
qed

lemma opt_field_names: "fst ` set (opt_field k f x) \<subseteq> {k}"
  by (cases x) (simp_all add: opt_field_def)

lemma payload_field_names: "set (map fst (payload_fields F p)) \<inter> {''timestamp'', ''sandbox'', ''event_type''} = {}"
proof (cases p)
  case (WatchMeta e)
  then show ?thesis
    using opt_field_names [of "''overflow_count''" word_json "wm_overflow_count e"]
      opt_field_names [of "''parse_error_offset''" word_json "wm_parse_error_offset e"]
    by (fastforce simp: payload_fields_def image_Un)
qed (simp_all add: payload_fields_def)

text \<open>C29: An event survives its JSON form: reading what was written of an event gives the event, whatever
  its kind and whichever of its optional fields are absent, when the texts of times read back and
  an exit code is a 32-bit integer.\<close>

theorem event_json_roundtrip:
  assumes "\<forall>t. tf_parse F (tf_rfc3339 F t) = Some t" "exit_code_fits (we_payload e)"
  shows "event_from_json F (event_to_json F e) = Inr e"
proof -
  let ?p = "payload_fields F (we_payload e)" and ?j = "event_to_json F e"
  have absent: "map_of (rev ?p) k = None" if "k \<in> {''timestamp'', ''sandbox'', ''event_type''}" for k
    using payload_field_names [of F "we_payload e"] that by (force simp: map_of_eq_None_iff)
  have get: "json_get ?j k =
      (case map_of (rev ?p) k of Some v \<Rightarrow> Some v | None \<Rightarrow>
         map_of [(''event_type'', JString (event_type e)), (''sandbox'', JString (we_sandbox e)),
           (''timestamp'', JString (tf_rfc3339 F (we_timestamp e)))] k)" for k
    by (simp add: event_to_json_def json_get_jobject map_add_def split: option.splits)
  have "read_payload F ?j = Inr (we_payload e)"
    by (rule read_payload_fields) (use assms in \<open>auto simp: get split: option.splits\<close>)
  then show ?thesis using assms(1) by (simp add: event_from_json_def need_def get absent as_time_def)
qed

definition tally_time :: time_format where
  "tally_time =
     \<lparr>tf_rfc3339 = (\<lambda>t. if t < 0 then CHR ''-'' # replicate (nat (- t)) (CHR ''1'') else CHR ''+'' # replicate (nat t) (CHR ''1'')),
      tf_parse = (\<lambda>s. case s of [] \<Rightarrow> None | c # u \<Rightarrow> Some (if c = CHR ''-'' then - int (length u) else int (length u))),
      tf_clock = (\<lambda>_. ''00:00:00.000'')\<rparr>"

definition sample_event :: watch_event where
  "sample_event = \<lparr>we_timestamp = 3, we_sandbox = ''s'',
     we_payload = CommandExecuted \<lparr>ce_command = ''ls'', ce_exit_code = Some (- 1), ce_duration_ms = None\<rparr>\<rparr>"

theorem event_json_roundtrip_witness:
  "event_from_json tally_time (event_to_json tally_time sample_event) = Inr sample_event"
  by (rule event_json_roundtrip) (simp_all add: tally_time_def exit_code_fits_def sample_event_def)

section \<open>The stream\<close>

text \<open>
  The stream's owner sends and receives; other holders of its sender add events when there is room.
  An attempt is marked when it is the owner's, who drops an event that finds the channel full.
\<close>

datatype stream_op = OwnSend int watch_event | OtherSend watch_event | Receive

fun attempts :: "stream_op list \<Rightarrow> (bool \<times> watch_event) list" where
  "attempts [] = []"
| "attempts (OwnSend _ e # ops) = (True, e) # attempts ops"
| "attempts (OtherSend e # ops) = (False, e) # attempts ops"
| "attempts (Receive # ops) = attempts ops"

fun run_stream :: "stream_op list \<Rightarrow> event_stream \<Rightarrow> watch_event list \<times> event_stream" where
  "run_stream [] S = ([], S)"
| "run_stream (OwnSend now e # ops) S = run_stream ops (try_send now e S)"
| "run_stream (OtherSend e # ops) S = run_stream ops (unwrap_or (channel_send e S) S)"
| "run_stream (Receive # ops) S =
     (case next_event S of (r, S) \<Rightarrow>
        case run_stream ops S of (es, S) \<Rightarrow> ((case r of None \<Rightarrow> es | Some e \<Rightarrow> e # es), S))"

abbreviation passing :: "event_stream \<Rightarrow> watch_event list \<Rightarrow> watch_event list" where
  "passing S \<equiv> filter (filter_matches (wc_filter (es_config S)))"

abbreviation room :: "event_stream \<Rightarrow> nat" where
  "room S \<equiv> wc_channel_capacity (es_config S)"

lemma skip_unmatched_parts:
  "skip_unmatched types q = (r, q') \<Longrightarrow>
     (case r of None \<Rightarrow> [] | Some e \<Rightarrow> [e]) @ filter (filter_matches types) q' = filter (filter_matches types) q \<and> length q' \<le> length q"
  by (induction types q rule: skip_unmatched.induct) (fastforce split: if_splits)+

lemma try_send_cases:
  "length (es_channel S) < room S \<Longrightarrow> try_send now e S = S\<lparr>es_channel := es_channel S @ [e]\<rparr>"
  "room S \<le> length (es_channel S) \<Longrightarrow> try_send now e S = S\<lparr>es_dropped_count := es_dropped_count S + 1\<rparr>"
  by (simp_all add: try_send_def channel_send_def Let_def)

text \<open>What a run does from any state whose channel is within its capacity.\<close>

definition accounted :: "stream_op list \<Rightarrow> event_stream \<Rightarrow> watch_event list \<times> event_stream \<Rightarrow> bool" where
  "accounted ops S out \<longleftrightarrow>
     (\<exists>accepted lost. attempts ops \<in> shuffles accepted lost \<and>
        fst out @ passing S (es_channel (snd out)) = passing S (es_channel S @ map snd accepted) \<and>
        es_dropped_count (snd out) = es_dropped_count S + of_nat (length (filter fst lost)) \<and>
        (lost = [] \<or> room S \<le> length (es_channel S) + length accepted) \<and>
        es_config (snd out) = es_config S \<and> length (es_channel (snd out)) \<le> room S)"

lemma accountedI:
  assumes "attempts ops \<in> shuffles accepted lost"
    "fst out @ passing S (es_channel (snd out)) = passing S (es_channel S @ map snd accepted)"
    "es_dropped_count (snd out) = es_dropped_count S + of_nat (length (filter fst lost))"
    "lost = [] \<or> room S \<le> length (es_channel S) + length accepted"
    "es_config (snd out) = es_config S" "length (es_channel (snd out)) \<le> room S"
  shows "accounted ops S out"
  using assms by (auto simp: accounted_def)

lemma accounted_accept:
  assumes "accounted ops (S\<lparr>es_channel := es_channel S @ [snd a]\<rparr>) out" "attempts ops' = a # attempts ops"
  shows "accounted ops' S out"
proof -
  obtain acc lost where "attempts ops \<in> shuffles acc lost"
    "fst out @ passing S (es_channel (snd out)) = passing S (es_channel S @ snd a # map snd acc)"
    "es_dropped_count (snd out) = es_dropped_count S + of_nat (length (filter fst lost))"
    "lost = [] \<or> room S \<le> length (es_channel S) + Suc (length acc)"
    "es_config (snd out) = es_config S" "length (es_channel (snd out)) \<le> room S"
    using assms(1) by (auto simp: accounted_def)
  then show ?thesis by (intro accountedI [where accepted = "a # acc" and lost = lost]) (auto simp: assms(2) Cons_in_shuffles_leftI)
qed

lemma accounted_refuse:
  assumes "accounted ops S' out" "attempts ops' = a # attempts ops" "room S \<le> length (es_channel S)"
    "S' = S\<lparr>es_dropped_count := es_dropped_count S + (if fst a then 1 else 0)\<rparr>"
  shows "accounted ops' S out"
proof -
  obtain acc lost where "attempts ops \<in> shuffles acc lost"
    "fst out @ passing S (es_channel (snd out)) = passing S (es_channel S @ map snd acc)"
    "es_dropped_count (snd out) = es_dropped_count S + (if fst a then 1 else 0) + of_nat (length (filter fst lost))"
    "es_config (snd out) = es_config S" "length (es_channel (snd out)) \<le> room S"
    using assms(1) by (auto simp: accounted_def assms(4))
  then show ?thesis
    using assms(3) by (intro accountedI [where accepted = acc and lost = "a # lost"]) (auto simp: assms(2) Cons_in_shuffles_rightI)
qed

lemma accounted_receive:
  assumes "skip_unmatched (wc_filter (es_config S)) (es_channel S) = (r, q)" "length (es_channel S) \<le> room S"
    "accounted ops (S\<lparr>es_channel := q\<rparr>) (es, T)"
  shows "accounted (Receive # ops) S ((case r of None \<Rightarrow> es | Some e \<Rightarrow> e # es), T)"
proof -
  obtain acc lost where run: "attempts ops \<in> shuffles acc lost"
    "es @ passing S (es_channel T) = passing S q @ passing S (map snd acc)"
    "es_dropped_count T = es_dropped_count S + of_nat (length (filter fst lost))"
    "lost = [] \<or> room S \<le> length q + length acc"
    "es_config T = es_config S" "length (es_channel T) \<le> room S"
    using assms(3) by (auto simp: accounted_def)
  have "(case r of None \<Rightarrow> [] | Some e \<Rightarrow> [e]) @ passing S q = passing S (es_channel S)" "length q \<le> length (es_channel S)"
    using skip_unmatched_parts [OF assms(1)] by blast+
  moreover have "(case r of None \<Rightarrow> es | Some e \<Rightarrow> e # es) = (case r of None \<Rightarrow> [] | Some e \<Rightarrow> [e]) @ es"
    by (cases r) simp_all
  ultimately have "(case r of None \<Rightarrow> es | Some e \<Rightarrow> e # es) @ passing S (es_channel T) = passing S (es_channel S @ map snd acc)"
    "lost = [] \<or> room S \<le> length (es_channel S) + length acc"
    using run(2,4) by (auto simp flip: append_assoc) (simp_all add: append_assoc)
  then show ?thesis using run by (intro accountedI [where accepted = acc and lost = lost]) simp_all
qed

lemma own_send_accounted:
  assumes "length (es_channel S) \<le> room S"
    "length (es_channel (try_send now e S)) \<le> room (try_send now e S) \<Longrightarrow> accounted ops (try_send now e S) out"
  shows "accounted (OwnSend now e # ops) S out"
proof (cases "length (es_channel S) < room S")
  case True
  then have "accounted ops (S\<lparr>es_channel := es_channel S @ [e]\<rparr>) out" using assms(2) by (simp add: try_send_cases)
  then show ?thesis by (rule accounted_accept [where a = "(True, e)", simplified]) simp
next
  case False
  then have "accounted ops (S\<lparr>es_dropped_count := es_dropped_count S + 1\<rparr>) out" using assms by (simp add: try_send_cases)
  then show ?thesis by (rule accounted_refuse [where a = "(True, e)"]) (use False in simp_all)
qed

lemma other_send_accounted:
  assumes "length (es_channel S) \<le> room S"
    "length (es_channel (unwrap_or (channel_send e S) S)) \<le> room (unwrap_or (channel_send e S) S) \<Longrightarrow>
      accounted ops (unwrap_or (channel_send e S) S) out"
  shows "accounted (OtherSend e # ops) S out"
proof (cases "length (es_channel S) < room S")
  case True
  then have "accounted ops (S\<lparr>es_channel := es_channel S @ [e]\<rparr>) out" using assms(2) by (simp add: channel_send_def)
  then show ?thesis by (rule accounted_accept [where a = "(False, e)", simplified]) simp
next
  case False
  then have "accounted ops S out" using assms by (simp add: channel_send_def)
  then show ?thesis by (rule accounted_refuse [where a = "(False, e)"]) (use False in simp_all)
qed

lemma run_accounted: "length (es_channel S) \<le> room S \<Longrightarrow> accounted ops S (run_stream ops S)"
proof (induction ops S rule: run_stream.induct)
  case (1 S)
  then show ?case by (intro accountedI [where accepted = "[]" and lost = "[]"]) auto
next
  case (2 now e ops S)
  then show ?case by (simp add: own_send_accounted)
next
  case (3 e ops S)
  then show ?case by (simp add: other_send_accounted)
next
  case (4 ops S)
  obtain r q where q: "skip_unmatched (wc_filter (es_config S)) (es_channel S) = (r, q)" by fastforce
  then have received: "next_event S = (r, S\<lparr>es_channel := q\<rparr>)" by (simp add: next_event_def)
  obtain es T where run: "run_stream ops (S\<lparr>es_channel := q\<rparr>) = (es, T)" by fastforce
  have "length q \<le> length (es_channel S)" using skip_unmatched_parts [OF q] by blast
  with 4 received run have "accounted ops (S\<lparr>es_channel := q\<rparr>) (es, T)" by force
  then show ?case using accounted_receive [OF q "4.prems"] by (simp add: received run)
qed


end
