(* ===== verification/Spec2Isabelle.thy ===== *)
theory Spec2Isabelle
  imports Mapper Policy Ssrf Secrets Relay Inference Identity Procfs Denials Forward Router InferenceProxy ProxyProps TunnelProps McpProps BlueprintProps ObserveProps
begin

text \<open>
  Darkshell runs an agent in a sandbox whose network traffic passes a proxy that enforces a
  policy; a gateway keeps the sandboxes, their policies and settings; MCP servers of the host are
  bridged into a sandbox; blueprints set a sandbox up and a watcher shows what it does. This
  development models these five parts. All paths are under \<open>src/crates/\<close>.

  \<^bold>\<open>Foundations.\<close>
  \<^item> Prelude: the part of Rust's strings, integers, maps and results that the code uses, with the
    locale \<open>std_map\<close> of the two map types. A \<open>str\<close> or \<open>Vec<u8>\<close> is a \<^typ>\<open>string\<close> of bytes,
    a machine integer a word, a \<open>Result\<close> a sum with the error on the left.
  \<^item> Policy: \<open>openshell-policy/src/lib.rs\<close>, the wire policy, its YAML view, the conversions between
    them and the safety validation. Json: the values of serde_json.

  \<^bold>\<open>The sandbox\<close> (\<open>openshell-sandbox\<close>, \<open>openshell-router\<close>).
  \<^item> L7Policy, Rego, Opa, OpaProps: \<open>l7/mod.rs\<close> (validation and presets of
    L7 endpoints), \<open>data/sandbox-policy.rego\<close> (the rules, one definition each) and \<open>opa.rs\<close>,
    \<open>policy.rs\<close> (loading, queries, reload). OpaProps states what the engine decides in terms of the
    wire policy (\<open>rule_covers\<close>, \<open>endpoint_permits\<close>): the abstract specification the rest relies on.
  \<^item> Streams, Rest, RestProps: byte streams as lists of segments, and the HTTP/1.1 provider
    \<open>l7/rest.rs\<close>. Relay: the inspecting tunnel \<open>l7/relay.rs\<close>, with the relation \<open>served\<close> of what a
    tunnel may have sent.
  \<^item> Ssrf, Forward, Proxy, ProxyProps: \<open>proxy.rs\<close>: address checks, URI parsing and request rewriting,
    then the handlers of a connection. Identity and Procfs: \<open>identity.rs\<close> and \<open>procfs.rs\<close>, which
    process is behind a connection and whether its binary is still the trusted one. Secrets:
    \<open>secrets.rs\<close>, \<open>child_env.rs\<close>.
  \<^item> Router: \<open>openshell-router\<close> and \<open>openshell-core/src/inference.rs\<close>. Inference: the request parser
    \<open>l7/inference.rs\<close>. InferenceProxy: the interception of \<open>inference.local\<close> in \<open>proxy.rs\<close>.
  \<^item> Denials: \<open>denial_aggregator.rs\<close>. Mapper: \<open>mechanistic_mapper.rs\<close>, denials turned into proposed rules.

  \<^bold>\<open>The gateway\<close> (\<open>openshell-server\<close>).
  \<^item> Store: \<open>persistence/sqlite.rs\<close>, each statement on the three tables. Gateway: the stored messages,
    the limits and the policy checks of \<open>grpc.rs\<close>. Settings: \<open>openshell-core/src/settings.rs\<close>, the
    settings records and their merge.
  \<^item> Config, ConfigProps: \<open>update_config\<close> and the reads of a configuration. Drafts, DraftProps: the life of a
    proposed rule, from submission to approval, undo and history. Sandboxes, SandboxProps:
    sandboxes, providers, SSH sessions and exec, and the watcher and sweeper of \<open>sandbox/mod.rs\<close>.
  \<^item> Wire: an instance of the encodings that the handlers take as a parameter. Service: all calls of the
    gateway, background tasks included, as steps of its state; what every call keeps is the contract of
    the locales \<open>gateway_invariant\<close> (DraftProps) and \<open>object_invariant\<close> (SandboxProps), interpreted for
    the kinds of settings and for the confinement of a sandbox. Merging: an approval under
    interference of other writers. GatewayProps: what follows for any sequence of calls.
  \<^item> Tunnel, TunnelProps: \<open>ssh_tunnel.rs\<close>, the exec transport and the handshake of
    \<open>openshell-sandbox/src/ssh.rs\<close>, with the nonce cache and the connection counts as step relations.

  \<^bold>\<open>MCP\<close> (\<open>darkshell-mcp\<close>, \<open>openshell-cli/src/mcp.rs\<close>).
  \<^item> Registry: registration files on a disk whose operations may fail, and credentials. Bridge: the tool
    policy, the tool-call log and the bridge's start, request, restart and shutdown. McpCommands: \<open>mcp add\<close>,
    \<open>list\<close>, \<open>remove\<close> and the cleanup. BridgeProps, McpProps: their properties, with \<open>bridge_step\<close> the
    runs in which requests, reloads, stops and restarts interleave.

  \<^bold>\<open>Blueprints\<close> (\<open>darkshell-blueprint\<close>): Blueprint is \<open>schema.rs\<close> with the reading of a file by the
  command line, Orchestrator is \<open>orchestrator.rs\<close>, BlueprintProps what they promise; the
  specification \<open>well_formed\<close> is independent of the order and text of the checks.

  \<^bold>\<open>Watching\<close> (\<open>darkshell-observe\<close>): Observe has the events and their JSON form, filters, log lines,
  redaction and the bounded stream, ObserveProps their properties.

  \<^bold>\<open>How the parts interact.\<close> \<open>handle_tcp_connection\<close> reads a request head and takes one of two
  paths, \<open>handle_connect\<close> or \<open>handle_forward_proxy\<close>. Both ask \<open>evaluate_opa_tcp\<close>, which resolves the
  peer process (Procfs), verifies its binary and its ancestors' (Identity) and evaluates the
  policy (Opa), then \<open>check_destination\<close> (Ssrf), and only then connect. A tunnel is copied, or
  inspected by \<open>relay_rest\<close>, which asks the same engine for every request. \<open>inference.local\<close> never
  gets an upstream: its requests go to the router. A refusal emits a denial event, which Denials
  aggregates and Mapper turns into a proposal; the gateway stores it as a draft chunk (Drafts), and
  its approval writes a new revision of the policy that the sandbox polls (Config) and reloads (Opa).
  A tunnel to a sandbox is opened by a session of the gateway (Sandboxes, Tunnel). The
  orchestrator calls the gateway and the bridges through a trait; the bridges register on the
  host's disk. State is passed explicitly: a \<open>proxy_state\<close> holds what connections share, a
  \<open>gateway\<close> the store and the index, a \<open>files\<close> the registry, streams are returned with what was
  written to them.

  \<^bold>\<open>What is shown.\<close> The root theory composes the sandbox: an upstream exists only for a covered
  connection of a trusted process to a permitted address (\<open>upstream_connection_mediated\<close>), and an
  enforced endpoint receives only permitted requests (\<open>enforced_connection_sends_only_permitted\<close>).
  Below it, the engine refines the wire policy, validation and address ranges are exact, parsing is
  independent of how a stream is segmented, relaying is complete, a path has one hash under any
  interleaving of checks, routed requests are confined. For the gateway: a sandbox created with a policy
  keeps its static confinement through any calls, approvals are serialised and take effect, settings
  keep their kinds, tunnels need a live session and stay within their limits, prefaces are
  authentic and not replayed within the window. For MCP: a server receives only permitted calls,
  registrations are written atomically, restarts end. For blueprints: validation accepts exactly
  the well-formed ones, each has a plan, and an execution completes or is undone. For watching: events
  survive their JSON form and a stream accounts for each of them. Some theorems show errors of the code: a
  reply that answers the wrong request, a preface accepted twice, names that collide, a signal to
  the own process group, a notice that is never delivered.

  \<^bold>\<open>Bounds and termination.\<close> Loops over streams and lists terminate by a measure on what is left, so no
  fuel is needed; the process tree scan may not end and is a \<open>partial_function\<close> whose
  result is shown to exist exactly when the tree has no cycle. Bounded retries are recursion on the
  attempts that are left: 5 merges of an approval, 6 connections of exec, 9 of a tunnel, 3
  restarts of a bridge, which are the constants of the code. Counters wrap around at their
  width. Lengths are compared with \<open>usize_max\<close> where the code adds to them.

  \<^bold>\<open>Not modelled.\<close> Parameters: the Rego evaluator's built-ins, serde's YAML and JSON text, protobuf, TLS,
  sockets, DNS, the HTTP client, the file system's errors and \<open>/proc\<close> (one snapshot for a decision),
  SHA-256 and HMAC, regular expressions and globs, the clock, Kubernetes, MCP server processes, and
  iteration orders of hash maps. A Rego evaluation error is a parameter of the
  connection handlers and not of the relay; a failure to clone the engine for a tunnel and a
  poisoned engine lock are left out. Warnings, debug output and timings are not modelled, nor
  are the logging hooks of the feature \<open>darkshell-inference-log\<close>. Concurrency is modelled where
  state is contended for: the identity cache, the merges of an approval, the connection counts, the
  nonce cache, a bridge and an event stream; handlers otherwise run as one step on the shared
  state. The supervisor, isolation by the kernel, the SSH protocol, the gateway's listeners and
  streaming calls, the rest of the command line, the terminal UI, bootstrap and the OCSF
  formats are outside.
\<close>

section \<open>From the policy to the wire\<close>

definition net_of :: "string \<Rightarrow> u16 \<Rightarrow> net_doc" where
  "net_of host port = \<lparr>n_host = to_ascii_lowercase host, n_port = unat port\<rparr>"

definition exec_of :: "string \<Rightarrow> string list \<Rightarrow> string list \<Rightarrow> exec_doc" where
  "exec_of path ancestors cmdline =
     \<lparr>x_path = from_utf8_lossy path, x_ancestors = map from_utf8_lossy ancestors,
      x_cmdline = map from_utf8_lossy cmdline\<rparr>"

text \<open>
  The addresses a covered connection may go to: all public, or all listed by an endpoint of a
  covering rule and neither loopback nor link-local.
\<close>

definition destination_permitted ::
    "builtins \<Rightarrow> 'net ipnet \<Rightarrow> sandbox_policy \<Rightarrow> net_doc \<Rightarrow> exec_doc \<Rightarrow> ip_addr list \<Rightarrow> bool" where
  "destination_permitted B N p n x ips \<longleftrightarrow>
     list_all (\<lambda>ip. \<not> is_internal_ip ip) ips \<or>
     (\<exists>(name, rule) \<in> set (sp_network_policies p). \<exists>e \<in> set (npr_endpoints rule). \<exists>nets.
        rule_covers B rule n x \<and> endpoint_covers B e n \<and>
        map (parse_net_entry N) (ep_allowed_ips e) = map Some nets \<and>
        list_all (\<lambda>ip. \<not> is_always_blocked_ip ip \<and> list_ex (\<lambda>net. net_contains N net ip) nets) ips)"

lemma evaluate_allow_covered:
  assumes "engine_from_proto R baked p = Inr eng" "hm_ok (sp_network_policies p)"
    "evaluate_network_action B eng i = AllowNet m"
    "n = \<lparr>n_host = ni_host i, n_port = unat (ni_port i)\<rparr>"
    "x = exec_of (ni_binary_path i) (ni_ancestors i) (ni_cmdline_paths i)"
  shows "\<exists>k r. m = Some k \<and> (k, r) \<in> set (sp_network_policies p) \<and> rule_covers B r n x"
  using network_action_covers [OF assms(1,2) refl refl, of B i] assms(3-5)
  by (auto simp: exec_of_def split: network_action.splits)

lemma checked_destination_permitted:
  assumes "engine_from_proto R baked p = Inr (pe_engine env)" "hm_ok (sp_network_policies p)"
    "cd_binary d = Some path" "cd_action d = AllowNet m"
    "check_destination env (query_allowed_ips env d (to_ascii_lowercase host) port) host port = Inr addrs"
  shows "\<exists>ips. pe_lookup_host env host port = Inr ips \<and> ips \<noteq> [] \<and> addrs = map (\<lambda>ip. (ip, port)) ips \<and>
    destination_permitted (pe_builtins env) (pe_ipnet env) p (net_of host port)
      (exec_of path (cd_ancestors d) (cd_cmdline_paths d)) ips"
proof -
  let ?raw = "query_allowed_ips env d (to_ascii_lowercase host) port"
  let ?i = "decision_input d (to_ascii_lowercase host) port"
  from assms(5) [unfolded check_destination_Inr] obtain ips where
    ips: "pe_lookup_host env host port = Inr ips" "ips \<noteq> []" "addrs = map (\<lambda>ip. (ip, port)) ips" and
    ok: "if ?raw = [] then list_all (\<lambda>ip. \<not> is_internal_ip ip) ips
      else \<exists>nets. parse_allowed_ips (pe_ipnet env) ?raw = Inr nets \<and>
        list_all (\<lambda>ip. \<not> is_always_blocked_ip ip \<and> list_ex (\<lambda>n. net_contains (pe_ipnet env) n ip) nets) ips"
    by blast
  have "destination_permitted (pe_builtins env) (pe_ipnet env) p (net_of host port)
      (exec_of path (cd_ancestors d) (cd_cmdline_paths d)) ips"
  proof (cases "?raw = []")
    case True
    with ok show ?thesis by (simp add: destination_permitted_def)
  next
    case False
    then have raw: "?raw = query_allowed_ips_engine (pe_builtins env) (pe_engine env) ?i"
      by (auto simp: query_allowed_ips_def Let_def split: if_splits option.splits)
    from False ok obtain nets where nets: "parse_allowed_ips (pe_ipnet env) ?raw = Inr nets"
      "list_all (\<lambda>ip. \<not> is_always_blocked_ip ip \<and> list_ex (\<lambda>n. net_contains (pe_ipnet env) n ip) nets) ips"
      by auto
    from allowed_ips_covered [OF assms(1,2) refl refl False [unfolded raw]] obtain k r e where
      "(k, r) \<in> set (sp_network_policies p)" "e \<in> set (npr_endpoints r)" "?raw = ep_allowed_ips e"
      "rule_covers (pe_builtins env) r (net_of host port) (exec_of path (cd_ancestors d) (cd_cmdline_paths d))"
      "endpoint_covers (pe_builtins env) e (net_of host port)"
      unfolding raw by (auto simp: decision_input_def net_of_def exec_of_def assms(3))
    with nets show ?thesis
      unfolding destination_permitted_def by (intro disjI2 bexI [of _ "(k, r)"]) (auto simp: parse_allowed_ips_Inr)
  qed
  with ips show ?thesis by blast
qed

text \<open>C1: Mediation of every connection: when a client's connection, tunnel or plain request, gets an
  upstream, then the client's own head named the host and the port, the process behind the client's
  port runs a binary that, with its ancestors, some rule of the loaded wire policy covers for the
  lower-case host and the port, this binary and all ancestors' binaries are trusted with a hash
  when the connection ends, and the addresses connected to are all those DNS gave for the host:
  public ones, or ones that an endpoint of a covering rule lists and that are neither loopback nor
  link-local.\<close>

theorem upstream_connection_mediated:
  assumes "engine_from_proto R baked p = Inr (pe_engine env)" "hm_ok (sp_network_policies p)"
    "cr_upstream (handle_tcp_connection env st client) = Some (addrs, u)"
  shows "\<exists>buf r host port peer path pid cmdline name rule ips.
    read_connect_head [] (rx client) = (Inr buf, r) \<and> requested_destination buf = Inr (host, port) \<and>
    pe_peer env = Inr peer \<and>
    resolve_tcp_peer_identity (pe_proc env) (pe_entrypoint_pid env) (snd peer) = Some (Inr (path, pid)) \<and>
    (let ancestors = collect_ancestor_binaries (pe_proc env) pid (pe_entrypoint_pid env);
         n = net_of host port; x = exec_of path ancestors cmdline
     in list_all (\<lambda>b. golden (ps_cache (cr_state (handle_tcp_connection env st client))) b \<noteq> None)
          (path # ancestors) \<and>
        (name, rule) \<in> set (sp_network_policies p) \<and> rule_covers (pe_builtins env) rule n x \<and>
        pe_lookup_host env host port = Inr ips \<and> ips \<noteq> [] \<and> addrs = map (\<lambda>ip. (ip, port)) ips \<and>
        destination_permitted (pe_builtins env) (pe_ipnet env) p n x ips)"
proof -
  let ?cache = "ps_cache (cr_state (handle_tcp_connection env st client))"
  from handle_tcp_authorised [OF assms(3)] obtain buf r host port d where
    head: "read_connect_head [] (rx client) = (Inr buf, r)" "requested_destination buf = Inr (host, port)"
    and auth: "authorised env (ps_cache st) ?cache addrs host port d" by blast
  from auth obtain peer m where
    peer: "pe_peer env = Inr peer" and
    ev: "evaluate_opa_tcp env (ps_cache st) (snd peer) (to_ascii_lowercase host) port = Some (?cache, d)" and
    m: "cd_action d = AllowNet m" and
    dest: "check_destination env (query_allowed_ips env d (to_ascii_lowercase host) port) host port = Inr addrs"
    unfolding authorised_def by blast
  from evaluate_opa_tcp_allow [OF ev m] obtain path pid i where
    res: "resolve_tcp_peer_identity (pe_proc env) (pe_entrypoint_pid env) (snd peer) = Some (Inr (path, pid))" and
    i: "ni_host i = to_ascii_lowercase host" "ni_port i = port" "ni_binary_path i = path"
      "ni_ancestors i = collect_ancestor_binaries (pe_proc env) pid (pe_entrypoint_pid env)" and
    g: "golden ?cache path \<noteq> None" "list_all (\<lambda>a. golden ?cache a \<noteq> None) (ni_ancestors i)" and
    act: "evaluate_network_action (pe_builtins env) (pe_engine env) i = AllowNet m" and
    d: "cd_binary d = Some path" "cd_ancestors d = ni_ancestors i" "cd_cmdline_paths d = ni_cmdline_paths i"
    by (auto simp: list_all_iff)
  from evaluate_allow_covered [OF assms(1,2) act refl refl] obtain k rule where
    cov: "(k, rule) \<in> set (sp_network_policies p)" "rule_covers (pe_builtins env) rule (net_of host port)
      (exec_of path (ni_ancestors i) (ni_cmdline_paths i))"
    by (auto simp: net_of_def i)
  from checked_destination_permitted [OF assms(1,2) d(1) m dest] obtain ips where
    ips: "pe_lookup_host env host port = Inr ips" "ips \<noteq> []" "addrs = map (\<lambda>ip. (ip, port)) ips"
      "destination_permitted (pe_builtins env) (pe_ipnet env) p (net_of host port)
        (exec_of path (ni_ancestors i) (ni_cmdline_paths i)) ips"
    unfolding d by blast
  show ?thesis
    unfolding Let_def
    by (rule exI [of _ buf], rule exI [of _ r], rule exI [of _ host], rule exI [of _ port], rule exI [of _ peer],
        rule exI [of _ path], rule exI [of _ pid], rule exI [of _ "ni_cmdline_paths i"], rule exI [of _ k],
        rule exI [of _ rule], rule exI [of _ ips])
      (use head peer res g cov ips in \<open>simp add: i(4)\<close>)
qed

definition sample_connection :: duplex where
  "sample_connection =
     \<lparr>rx = [Bytes (''CONNECT API.x.io:443 HTTP/1.1'' @ crlf2), Bytes (''GET /v1 HTTP/1.1'' @ crlf2 @ ''POST /v1 HTTP/1.1'' @ crlf2)],
      tx = fresh_writer\<rparr>"

lemma sample_connection_served:
  "cr_upstream (handle_tcp_connection sample_env sample_state sample_connection) \<noteq> None"
  by code_simp

theorem upstream_connection_mediated_witness:
  "\<exists>peer path pid cmdline name rule.
     resolve_tcp_peer_identity (pe_proc sample_env) 7 peer = Some (Inr (path, pid)) \<and>
     (name, rule) \<in> set (sp_network_policies OpaProps.sample_policy) \<and>
     rule_covers (pe_builtins sample_env) rule (net_of ''API.x.io'' 443)
       (exec_of path (collect_ancestor_binaries (pe_proc sample_env) pid 7) cmdline)"
proof -
  obtain addrs u where up: "cr_upstream (handle_tcp_connection sample_env sample_state sample_connection) = Some (addrs, u)"
    using sample_connection_served by auto
  have eng: "engine_from_proto accepting '''' OpaProps.sample_policy = Inr (pe_engine sample_env)"
    by (simp add: sample_engine sample_env_def)
  have pid: "pe_entrypoint_pid sample_env = 7" by (simp add: sample_env_def)
  have dst: "map_sum id requested_destination (fst (read_connect_head [] (rx sample_connection))) =
      Inr (Inr (''API.x.io'', 443))"
    by code_simp
  from upstream_connection_mediated [OF eng sample_keys up] dst show ?thesis
    unfolding pid Let_def by (elim exE conjE) (simp, blast)
qed

section \<open>What an enforced endpoint receives\<close>

text \<open>A request permitted on the connection: by an endpoint covering it, of a rule covering it.\<close>

definition request_permitted ::
    "builtins \<Rightarrow> sandbox_policy \<Rightarrow> net_doc \<Rightarrow> exec_doc \<Rightarrow> l7_request \<Rightarrow> bool" where
  "request_permitted B p n x req \<longleftrightarrow>
     list_ex (\<lambda>(name, rule). rule_covers B rule n x \<and>
       list_ex (\<lambda>e. endpoint_covers B e n \<and>
           endpoint_permits B e \<lparr>r_method = action req, r_path = target req, r_command = None\<rparr>)
         (npr_endpoints rule)) (sp_network_policies p)"

lemma l7_allowed_permitted:
  assumes "engine_from_proto R baked p = Inr (pe_engine env)" "hm_ok (sp_network_policies p)"
    "cd_binary d = Some path"
  shows "l7_allowed B (eng_data (pe_engine env)) (l7_context env d (to_ascii_lowercase host) port) req \<longleftrightarrow>
    request_permitted B p (net_of host port) (exec_of path (cd_ancestors d) (cd_cmdline_paths d)) req"
  unfolding l7_allowed_def request_permitted_def
  by (rule engine_request [OF assms(1,2)])
    (simp_all add: l7_input_def l7_context_def net_of_def exec_of_def assms(3))


lemma sample_connection_config:
  "case evaluate_opa_tcp sample_env new_cache 36684 (to_ascii_lowercase ''API.x.io'') 443 of
     Some (cache, d) \<Rightarrow>
       query_l7_config sample_env d (to_ascii_lowercase ''API.x.io'') 443 =
         Some \<lparr>cfg_protocol = Rest, cfg_tls = Terminate, cfg_enforcement = Enforce\<rparr> \<and>
       cd_binary d = Some ''/bin/curl'' \<and> cd_ancestors d = [] \<and> cd_cmdline_paths d = []
   | None \<Rightarrow> False"
  by code_simp


end
